(* ===== verification/Prelude.thy ===== *)
theory Prelude
  imports Main "HOL-Library.Monad_Syntax"
begin

text \<open>
  What every component shares: the collections of simplification facts, lemmas on lists of
  records that are searched by a predicate (the singly linked lists of the session layer are
  such lists), and the C string functions the sources call.

  A computation that the program may abort (\<open>abort()\<close>, a failed \<open>assert\<close>, a dereferenced
  \<open>NULL\<close>) has the type \<open>'a option\<close>, with \<open>None\<close> for the abort. The \<open>do\<close> notation of
  \<open>Monad_Syntax\<close> sequences such computations.
\<close>

named_theorems conn_simps \<open>how the operations of the session layer read and write a handle\<close>
named_theorems frame_simps \<open>what an operation leaves unchanged\<close>
named_theorems inv_intros \<open>preservation of the invariants\<close>

section \<open>Branches\<close>

text \<open>Opening the definition of an operation into its branches.\<close>

lemmas branch_splits = option.split_asm if_split_asm prod.split_asm

lemma bindE:
  "Option.bind m f = Some r \<Longrightarrow> (\<And>x. m = Some x \<Longrightarrow> f x = Some r \<Longrightarrow> P) \<Longrightarrow> P"
  by (simp add: bind_eq_Some_conv) blast

section \<open>Lists searched by a predicate\<close>

text \<open>
  The session layer walks a singly linked list until a predicate holds and then removes or
  rewrites that node. \<open>remove_first\<close> unlinks the first node that satisfies the predicate,
  \<open>map_first\<close> rewrites it.
\<close>

fun remove_first :: "('a \<Rightarrow> bool) \<Rightarrow> 'a list \<Rightarrow> 'a list" where
  "remove_first p [] = []"
| "remove_first p (x # xs) = (if p x then xs else x # remove_first p xs)"

fun map_first :: "('a \<Rightarrow> bool) \<Rightarrow> ('a \<Rightarrow> 'a) \<Rightarrow> 'a list \<Rightarrow> 'a list" where
  "map_first p f [] = []"
| "map_first p f (x # xs) = (if p x then f x # xs else x # map_first p f xs)"

lemma remove_first_none [simp]: "\<not> (\<exists>x \<in> set xs. p x) \<Longrightarrow> remove_first p xs = xs"
  by (induction xs) auto

lemma map_first_none [simp]: "\<not> (\<exists>x \<in> set xs. p x) \<Longrightarrow> map_first p f xs = xs"
  by (induction xs) auto

lemma set_remove_first_subset: "set (remove_first p xs) \<subseteq> set xs"
  by (induction xs) auto

lemma length_map_first [simp]: "length (map_first p f xs) = length xs"
  by (induction xs) auto

lemma map_first_eq_Nil [simp]: "map_first p f xs = [] \<longleftrightarrow> xs = []"
  by (cases xs) auto

lemma map_map_first:
  "(\<And>x. g (f x) = g x) \<Longrightarrow> map g (map_first p f xs) = map g xs"
  by (induction xs) auto

lemma find_None_conv: "List.find p xs = None \<longleftrightarrow> \<not> (\<exists>x \<in> set xs. p x)"
  by (induction xs) auto

lemma find_Some_set: "List.find p xs = Some x \<Longrightarrow> x \<in> set xs \<and> p x"
  by (induction xs) (auto split: if_splits)

lemma find_map_first:
  "(\<And>x. p x \<Longrightarrow> p (f x)) \<Longrightarrow> List.find p (map_first p f xs) = map_option f (List.find p xs)"
  by (induction xs) auto

lemma set_map_first_cases:
  "y \<in> set (map_first p f xs) \<Longrightarrow> y \<in> set xs \<or> (\<exists>x. List.find p xs = Some x \<and> y = f x)"
  by (induction xs) (auto split: if_splits)

text \<open>
  Pairwise unrelated elements: no two nodes of the list are the same key. For a symmetric
  relation this is \<open>distinct\<close> up to that relation.
\<close>

fun pairwise_unrelated :: "('a \<Rightarrow> 'a \<Rightarrow> bool) \<Rightarrow> 'a list \<Rightarrow> bool" where
  "pairwise_unrelated r [] = True"
| "pairwise_unrelated r (x # xs) = ((\<forall>y \<in> set xs. \<not> r x y) \<and> pairwise_unrelated r xs)"

lemma pairwise_unrelated_remove_first [intro]:
  "pairwise_unrelated r xs \<Longrightarrow> pairwise_unrelated r (remove_first p xs)"
proof (induction xs)
  case Nil
  then show ?case by simp
next
  case (Cons x xs)
  then show ?case using set_remove_first_subset [of p xs] by auto
qed

lemma pairwise_unrelated_map_cong:
  fixes xs ys :: "'a list" and g :: "'a \<Rightarrow> 'b"
  shows "map g xs = map g ys \<Longrightarrow>
    pairwise_unrelated (\<lambda>x y. r (g x) (g y)) xs = pairwise_unrelated (\<lambda>x y. r (g x) (g y)) ys"
proof (induction xs arbitrary: ys)
  case Nil
  then show ?case by simp
next
  case (Cons x xs)
  then obtain y ys' where ys: "ys = y # ys'" and gx: "g x = g y" and m: "map g xs = map g ys'"
    by (cases ys) auto
  have "set (map g xs) = set (map g ys')" using m by simp
  then have "(\<forall>z \<in> g ` set xs. \<not> r (g y) z) = (\<forall>z \<in> g ` set ys'. \<not> r (g y) z)"
    by (simp only: set_map)
  then have "(\<forall>z \<in> set xs. \<not> r (g y) (g z)) = (\<forall>z \<in> set ys'. \<not> r (g y) (g z))"
    by simp
  with Cons.IH [OF m] ys gx show ?case by simp
qed

lemma pairwise_unrelated_append:
  "pairwise_unrelated r (xs @ ys) \<longleftrightarrow>
     pairwise_unrelated r xs \<and> pairwise_unrelated r ys \<and> (\<forall>x \<in> set xs. \<forall>y \<in> set ys. \<not> r x y)"
  by (induction xs) auto

lemma pairwise_unrelated_map_first:
  assumes pw: "pairwise_unrelated (\<lambda>x y. r (g x) (g y)) xs"
    and f: "\<And>x. p x \<Longrightarrow> r (g (f x)) (g x)"
    and sym: "\<And>a b. r a b \<Longrightarrow> r b a" and trans: "\<And>a b c. r a b \<Longrightarrow> r b c \<Longrightarrow> r a c"
  shows "pairwise_unrelated (\<lambda>x y. r (g x) (g y)) (map_first p f xs)"
  using pw
proof (induction xs)
  case Nil
  then show ?case by simp
next
  case (Cons x xs)
  show ?case
  proof (cases "p x")
    case True
    have "\<not> r (g (f x)) (g y)" if "y \<in> set xs" for y
      using that Cons.prems f [OF True] sym trans [of "g x" "g (f x)" "g y"] by auto
    with True Cons.prems show ?thesis by simp
  next
    case False
    have "\<not> r (g x) (g y)" if y: "y \<in> set (map_first p f xs)" for y
      using set_map_first_cases [OF y]
    proof (elim disjE exE conjE)
      assume "y \<in> set xs" then show ?thesis using Cons.prems by simp
    next
      fix z assume z: "List.find p xs = Some z" "y = f z"
      then have "r (g y) (g z)" "\<not> r (g x) (g z)"
        using find_Some_set [OF z(1)] f Cons.prems by auto
      then show ?thesis using trans by blast
    qed
    with False Cons show ?thesis by simp
  qed
qed

text \<open>Removing the first node with a key removes the key from such a list.\<close>

lemma remove_first_key_gone:
  assumes "pairwise_unrelated (\<lambda>x y. r (g x) (g y)) xs"
    and "\<And>a b c. r a b \<Longrightarrow> r b c \<Longrightarrow> r a c" "\<And>a b. r a b \<Longrightarrow> r b a"
  shows "\<not> (\<exists>y \<in> set (remove_first (\<lambda>x. r k (g x)) xs). r k (g y))"
  using assms(1)
proof (induction xs)
  case Nil
  then show ?case by simp
next
  case (Cons x xs)
  show ?case
  proof (cases "r k (g x)")
    case True
    then have "r (g x) k" by (rule assms(3))
    with Cons.prems have "\<not> r k (g y)" if "y \<in> set xs" for y
      using that assms(2) [of "g x" k "g y"] by auto
    with True show ?thesis by simp
  next
    case False
    have "\<not> (\<exists>y \<in> set (remove_first (\<lambda>x. r k (g x)) xs). r k (g y))"
      using Cons.prems by (intro Cons.IH) simp
    with False show ?thesis by (simp only: remove_first.simps if_False list.set) blast
  qed
qed

lemma remove_first_other_kept:
  assumes "\<not> p x"
  shows "x \<in> set (remove_first p xs) \<longleftrightarrow> x \<in> set xs"
  using assms by (induction xs) auto

section \<open>C strings\<close>

text \<open>
  A C string is the list of its bytes before the terminating NUL. \<open>char\<close> is a byte;
  \<open>of_char c\<close> is its unsigned value. Character classes and case mapping are those of the
  "C" locale. \<open>strstr\<close> and \<open>strchr\<close> return the position of the match instead of a pointer.
\<close>

definition c_tolower :: "char \<Rightarrow> char" where
  "c_tolower c = (if 65 \<le> (of_char c :: nat) \<and> (of_char c :: nat) \<le> 90
     then char_of (of_char c + 32 :: nat) else c)"

definition c_isdigit :: "char \<Rightarrow> bool" where
  "c_isdigit c \<longleftrightarrow> 48 \<le> (of_char c :: nat) \<and> (of_char c :: nat) \<le> 57"

definition c_isalpha :: "char \<Rightarrow> bool" where
  "c_isalpha c \<longleftrightarrow>
     (65 \<le> (of_char c :: nat) \<and> (of_char c :: nat) \<le> 90) \<or>
     (97 \<le> (of_char c :: nat) \<and> (of_char c :: nat) \<le> 122)"

definition c_isalnum :: "char \<Rightarrow> bool" where
  "c_isalnum c \<longleftrightarrow> c_isalpha c \<or> c_isdigit c"

definition c_isspace :: "char \<Rightarrow> bool" where
  "c_isspace c \<longleftrightarrow> of_char c = (32::nat) \<or> (9 \<le> (of_char c :: nat) \<and> (of_char c :: nat) \<le> 13)"

fun strcmp :: "string \<Rightarrow> string \<Rightarrow> int" where
  "strcmp [] [] = 0"
| "strcmp [] (y # ys) = - 1"
| "strcmp (x # xs) [] = 1"
| "strcmp (x # xs) (y # ys) =
     (if x = y then strcmp xs ys
      else if (of_char x :: nat) < of_char y then - 1 else 1)"

definition strcasecmp :: "string \<Rightarrow> string \<Rightarrow> int" where
  "strcasecmp a b = strcmp (map c_tolower a) (map c_tolower b)"

definition strncmp :: "string \<Rightarrow> string \<Rightarrow> nat \<Rightarrow> int" where
  "strncmp a b n = strcmp (take n a) (take n b)"

definition strncasecmp :: "string \<Rightarrow> string \<Rightarrow> nat \<Rightarrow> int" where
  "strncasecmp a b n = strcasecmp (take n a) (take n b)"

fun is_prefix :: "string \<Rightarrow> string \<Rightarrow> bool" where
  "is_prefix [] s = True"
| "is_prefix (c # p) [] = False"
| "is_prefix (c # p) (d # s) = (if c = d then is_prefix p s else False)"

fun strstr :: "string \<Rightarrow> string \<Rightarrow> nat option" where
  "strstr [] n = (if n = [] then Some 0 else None)"
| "strstr (x # xs) n = (if is_prefix n (x # xs) then Some 0 else map_option Suc (strstr xs n))"

fun strchr :: "string \<Rightarrow> char \<Rightarrow> nat option" where
  "strchr [] c = None"
| "strchr (x # xs) c = (if x = c then Some 0 else map_option Suc (strchr xs c))"

lemma strcmp_eq_0 [simp]: "strcmp a b = 0 \<longleftrightarrow> a = b"
  by (induction a b rule: strcmp.induct) auto

lemma strcasecmp_eq_0: "strcasecmp a b = 0 \<longleftrightarrow> map c_tolower a = map c_tolower b"
  by (simp add: strcasecmp_def)

lemma strncmp_eq_0 [simp]: "strncmp a b n = 0 \<longleftrightarrow> take n a = take n b"
  by (simp add: strncmp_def)

lemma strchr_Some_take:
  "strchr s c = Some i \<Longrightarrow> i < length s \<and> s ! i = c \<and> c \<notin> set (take i s)"
  by (induction s arbitrary: i) (auto split: if_splits)

lemma strchr_None: "strchr s c = None \<longleftrightarrow> c \<notin> set s"
  by (induction s) auto

lemma strstr_single: "strstr s [c] = strchr s c"
  by (induction s) auto

lemma strchr_append_None:
  "c \<notin> set xs \<Longrightarrow> strchr (xs @ ys) c = map_option (\<lambda>i. length xs + i) (strchr ys c)"
proof (induction xs)
  case Nil
  then show ?case by (cases "strchr ys c") auto
next
  case (Cons x xs)
  then show ?case by (cases "strchr ys c") auto
qed

lemma strchr_at: "c \<notin> set xs \<Longrightarrow> strchr (xs @ c # ys) c = Some (length xs)"
  by (induction xs) auto

lemma is_prefix_append: "is_prefix xs ys \<longleftrightarrow> (\<exists>zs. ys = xs @ zs)"
  by (induction xs ys rule: is_prefix.induct) auto

lemma c_tolower_idem [simp]: "c_tolower (c_tolower c) = c_tolower c"
  by (auto simp: c_tolower_def of_char_of)

lemma map_c_tolower_idem [simp]: "map c_tolower (map c_tolower s) = map c_tolower s"
  by (induction s) auto

text \<open>Decimal numerals: \<open>atoi\<close> skips white space, takes a sign and the digits that follow.\<close>

definition digit_val :: "char \<Rightarrow> int" where
  "digit_val c = int (of_char c) - 48"

fun atoi_digits :: "int \<Rightarrow> string \<Rightarrow> int" where
  "atoi_digits acc [] = acc"
| "atoi_digits acc (c # cs) = (if c_isdigit c then atoi_digits (10 * acc + digit_val c) cs else acc)"

fun atoi :: "string \<Rightarrow> int" where
  "atoi [] = 0"
| "atoi (c # cs) =
     (if c_isspace c then atoi cs
      else if c = CHR ''-'' then - atoi_digits 0 cs
      else if c = CHR ''+'' then atoi_digits 0 cs
      else atoi_digits 0 (c # cs))"

text \<open>Writing decimal numbers, as \<open>printf\<close> does for \<open>%u\<close> and \<open>%ld\<close>.\<close>

definition digit_char :: "nat \<Rightarrow> char" where
  "digit_char n = char_of (48 + n mod 10)"

fun show_nat :: "nat \<Rightarrow> string" where
  "show_nat n = (if n < 10 then [digit_char n] else show_nat (n div 10) @ [digit_char n])"

declare show_nat.simps [simp del]

definition show_int :: "int \<Rightarrow> string" where
  "show_int i = (if i < 0 then CHR ''-'' # show_nat (nat (- i)) else show_nat (nat i))"

lemma of_char_digit: "(of_char (digit_char n) :: nat) = 48 + n mod 10"
proof -
  have "48 + n mod 10 < (256::nat)" using mod_less_divisor [of 10 n] by linarith
  then show ?thesis unfolding digit_char_def by (simp add: of_char_of)
qed

lemma digit_char_digit [simp]: "c_isdigit (digit_char n)" "digit_val (digit_char n) = int (n mod 10)"
proof -
  have "n mod 10 < 10" by simp
  then show "c_isdigit (digit_char n)" "digit_val (digit_char n) = int (n mod 10)"
    by (simp_all add: c_isdigit_def digit_val_def of_char_digit)
qed

lemma atoi_digits_append:
  "list_all c_isdigit xs \<Longrightarrow> atoi_digits acc (xs @ ys) = atoi_digits (atoi_digits acc xs) ys"
  by (induction xs arbitrary: acc) auto

lemma show_nat_digits: "list_all c_isdigit (show_nat n)"
proof (induction n rule: show_nat.induct)
  case (1 n)
  then show ?case by (cases "n < 10") (simp_all add: show_nat.simps [of n])
qed

lemma show_nat_nonempty [simp]: "show_nat n \<noteq> []"
  by (subst show_nat.simps) simp

lemma atoi_digits_show: "atoi_digits 0 (show_nat n) = int n"
proof (induction n rule: show_nat.induct)
  case (1 n)
  show ?case
  proof (cases "n < 10")
    case True
    then show ?thesis by (simp add: show_nat.simps [of n])
  next
    case False
    then have "atoi_digits 0 (show_nat n) = atoi_digits (atoi_digits 0 (show_nat (n div 10))) [digit_char n]"
      using show_nat_digits by (simp add: show_nat.simps [of n] atoi_digits_append)
    also have "\<dots> = 10 * int (n div 10) + int (n mod 10)" using 1 False by simp
    also have "\<dots> = int (10 * (n div 10) + n mod 10)" by (simp only: of_nat_add of_nat_mult of_nat_numeral)
    finally show ?thesis by (simp only: mult_div_mod_eq)
  qed
qed

lemma digit_not_sign: "c_isdigit c \<Longrightarrow> \<not> c_isspace c \<and> c \<noteq> CHR ''-'' \<and> c \<noteq> CHR ''+''"
  by (auto simp: c_isdigit_def c_isspace_def)

lemma atoi_show_nat: "atoi (show_nat n) = int n"
proof -
  obtain d ds where "show_nat n = d # ds" by (cases "show_nat n") auto
  with show_nat_digits [of n] atoi_digits_show [of n] digit_not_sign [of d] show ?thesis by simp
qed

lemma atoi_show_int: "atoi (show_int i) = i"
proof (cases "i < 0")
  case True
  moreover have "\<not> c_isspace (CHR ''-'')" by (simp add: c_isspace_def)
  ultimately show ?thesis by (simp add: show_int_def atoi_digits_show)
qed (simp add: show_int_def atoi_show_nat)

end
