(* ===== verification/FtNicks.thy ===== *)
theory FtNicks
  imports Prelude
begin

text \<open>
  Nickname comparison of the two FireTalk protocols (\<open>firetalk/irc.c\<close>, \<open>firetalk/toc.c\<close>),
  and the interface through which the session layer uses it: the member \<open>comparenicks\<close> of
  the protocol table, which answers \<open>FE_SUCCESS\<close> when the two names are the same user.
\<close>

section \<open>Error codes\<close>

datatype fte =
    FE_SUCCESS | FE_CONNECT | FE_NOMATCH | FE_PACKET | FE_RECONNECTING | FE_BADUSERPASS
  | FE_SEQUENCE | FE_FRAMETYPE | FE_PACKETSIZE | FE_SERVER | FE_UNKNOWN | FE_BLOCKED
  | FE_WEIRDPACKET | FE_CALLBACKNUM | FE_BADUSER | FE_NOTFOUND | FE_DISCONNECT | FE_SOCKET
  | FE_RESOLV | FE_VERSION | FE_USERUNAVAILABLE | FE_USERINFOUNAVAILABLE | FE_TOOFAST
  | FE_ROOMUNAVAILABLE | FE_INCOMINGERROR | FE_USERDISCONNECT | FE_INVALIDFORMAT
  | FE_IDLEFAST | FE_BADROOM | FE_BADMESSAGE | FE_MESSAGETRUNCATED | FE_BADPROTO
  | FE_NOTCONNECTED | FE_BADCONNECTION | FE_NOPERMS | FE_NOCHANGEPASS | FE_DUPEROOM
  | FE_IOERROR | FE_BADHANDLE | FE_TIMEOUT

section \<open>The contract of a comparison\<close>

locale nick_compare =
  fixes cmp :: "string \<Rightarrow> string \<Rightarrow> fte"
  assumes cmp_refl: "cmp a a = FE_SUCCESS"
    and cmp_sym: "cmp a b = FE_SUCCESS \<Longrightarrow> cmp b a = FE_SUCCESS"
    and cmp_trans: "cmp a b = FE_SUCCESS \<Longrightarrow> cmp b c = FE_SUCCESS \<Longrightarrow> cmp a c = FE_SUCCESS"
begin

lemma cmp_sym_iff: "cmp a b = FE_SUCCESS \<longleftrightarrow> cmp b a = FE_SUCCESS"
  using cmp_sym by blast

lemma cmp_same_right: "cmp a b = FE_SUCCESS \<Longrightarrow> cmp c a = FE_SUCCESS \<longleftrightarrow> cmp c b = FE_SUCCESS"
  using cmp_sym cmp_trans by blast

lemma cmp_same_left: "cmp a b = FE_SUCCESS \<Longrightarrow> cmp a c = FE_SUCCESS \<longleftrightarrow> cmp b c = FE_SUCCESS"
  using cmp_sym cmp_trans by blast

text \<open>Removing the first node of a duplicate-free list that matches a name removes the name.\<close>

lemma removed_name_gone:
  assumes "pairwise_unrelated (\<lambda>x y. cmp (g x) (g y) = FE_SUCCESS) xs"
  shows "\<not> (\<exists>y \<in> set (remove_first (\<lambda>x. cmp k (g x) = FE_SUCCESS) xs). cmp k (g y) = FE_SUCCESS)"
  using assms cmp_trans cmp_sym
  by (rule remove_first_key_gone [where r = "\<lambda>a b. cmp a b = FE_SUCCESS"]) assumption+

end

section \<open>IRC\<close>

text \<open>\<open>irc_tolower\<close>: note that both brackets are mapped to the left brace, as in the source.\<close>

definition irc_tolower :: "char \<Rightarrow> char" where
  "irc_tolower c =
     (if (of_char (CHR ''A'') :: nat) \<le> of_char c \<and> (of_char c :: nat) \<le> of_char (CHR ''Z'')
      then char_of ((of_char c - of_char (CHR ''A'')) + of_char (CHR ''a'') :: nat)
      else if c = CHR ''['' then CHR ''{''
      else if c = CHR '']'' then CHR ''{''
      else if c = CHR 0x5C then CHR ''|''
      else c)"

text \<open>
  \<open>irc_compare_nicks_int\<close> walks both strings by index until the first one ends; reading the
  terminating NUL of the second string compares unequal to any character of the first.
\<close>

fun irc_compare_nicks_int :: "string \<Rightarrow> string \<Rightarrow> int" where
  "irc_compare_nicks_int [] n2 = (if n2 \<noteq> [] then 1 else 0)"
| "irc_compare_nicks_int (c # n1) n2 =
     (case n2 of
        [] \<Rightarrow> 1
      | d # n2' \<Rightarrow> if irc_tolower c \<noteq> irc_tolower d then 1 else irc_compare_nicks_int n1 n2')"

definition irc_compare_nicks :: "string \<Rightarrow> string \<Rightarrow> fte" where
  "irc_compare_nicks n1 n2 =
     (if irc_compare_nicks_int n1 n2 = 0 then FE_SUCCESS else FE_NOMATCH)"

lemma irc_compare_nicks_int_0:
  "irc_compare_nicks_int a b = 0 \<longleftrightarrow> map irc_tolower a = map irc_tolower b"
  by (induction a b rule: irc_compare_nicks_int.induct) (auto split: list.splits)

lemma irc_compare_nicks_iff:
  "irc_compare_nicks a b = FE_SUCCESS \<longleftrightarrow> map irc_tolower a = map irc_tolower b"
  by (simp add: irc_compare_nicks_def irc_compare_nicks_int_0)

interpretation irc_nicks: nick_compare irc_compare_nicks
  by unfold_locales (simp_all add: irc_compare_nicks_iff)

section \<open>AIM (TOC)\<close>

text \<open>
  \<open>toc_compare_nicks\<close> skips blanks before every comparison and compares without case. The
  loop that skips blanks is \<open>dropWhile\<close>; reading the NUL of the second string compares
  unequal, because \<open>tolower\<close> of a character of the first one is not NUL.
\<close>

abbreviation skip_blanks :: "string \<Rightarrow> string" where
  "skip_blanks \<equiv> dropWhile (\<lambda>c. c = CHR '' '')"

function toc_compare_loop :: "string \<Rightarrow> string \<Rightarrow> fte" where
  "toc_compare_loop s1 s2 =
     (case s1 of
        [] \<Rightarrow> if s2 \<noteq> [] then FE_NOMATCH else FE_SUCCESS
      | c # s1' \<Rightarrow>
          (case s2 of
             [] \<Rightarrow> FE_NOMATCH
           | d # s2' \<Rightarrow>
               if c_tolower c \<noteq> c_tolower d then FE_NOMATCH
               else toc_compare_loop (skip_blanks s1') (skip_blanks s2')))"
  by pat_completeness auto
termination
  by (relation "measure (\<lambda>(s1, s2). length s1)") (auto simp: le_imp_less_Suc length_dropWhile_le)

declare toc_compare_loop.simps [simp del]

lemma toc_compare_loop_simps [simp]:
  "toc_compare_loop [] [] = FE_SUCCESS"
  "toc_compare_loop [] (d # s2) = FE_NOMATCH"
  "toc_compare_loop (c # s1) [] = FE_NOMATCH"
  "toc_compare_loop (c # s1) (d # s2) =
     (if c_tolower c \<noteq> c_tolower d then FE_NOMATCH
      else toc_compare_loop (skip_blanks s1) (skip_blanks s2))"
  by (simp_all add: toc_compare_loop.simps)

definition toc_compare_nicks :: "string option \<Rightarrow> string option \<Rightarrow> fte" where
  "toc_compare_nicks s1 s2 =
     (case s1 of
        None \<Rightarrow> FE_NOMATCH
      | Some a \<Rightarrow> (case s2 of
          None \<Rightarrow> FE_NOMATCH
        | Some b \<Rightarrow> toc_compare_loop (skip_blanks a) (skip_blanks b)))"

text \<open>The canonical form of a screen name: no blanks, lower case.\<close>

definition toc_canon :: "string \<Rightarrow> string" where
  "toc_canon s = map c_tolower (filter (\<lambda>c. c \<noteq> CHR '' '') s)"

lemma filter_skip_blanks [simp]:
  "filter (\<lambda>c. c \<noteq> CHR '' '') (skip_blanks s) = filter (\<lambda>c. c \<noteq> CHR '' '') s"
  by (induction s) auto

lemma toc_canon_skip [simp]: "toc_canon (skip_blanks s) = toc_canon s"
  by (simp add: toc_canon_def)

lemma skip_blanks_hd: "skip_blanks s = c # cs \<Longrightarrow> c \<noteq> CHR '' ''"
  using hd_dropWhile [of "\<lambda>c. c = CHR '' ''" s] by auto

lemma toc_canon_Cons: "c \<noteq> CHR '' '' \<Longrightarrow> toc_canon (c # s) = c_tolower c # toc_canon s"
  by (simp add: toc_canon_def)

lemma toc_canon_Nil [simp]: "toc_canon [] = []"
  by (simp add: toc_canon_def)

lemma toc_compare_loop_iff:
  "(\<And>c cs. s1 = c # cs \<Longrightarrow> c \<noteq> CHR '' '') \<Longrightarrow> (\<And>c cs. s2 = c # cs \<Longrightarrow> c \<noteq> CHR '' '') \<Longrightarrow>
   toc_compare_loop s1 s2 = FE_SUCCESS \<longleftrightarrow> toc_canon s1 = toc_canon s2"
proof (induction s1 s2 rule: toc_compare_loop.induct)
  case (1 s1 s2)
  show ?case
  proof (cases s1)
    case Nil
    with "1.prems" show ?thesis by (cases s2) (auto simp: toc_canon_Cons)
  next
    case s1: (Cons c s1')
    show ?thesis
    proof (cases s2)
      case Nil
      with "1.prems" s1 show ?thesis by (auto simp: toc_canon_Cons)
    next
      case s2: (Cons d s2')
      have "toc_compare_loop (skip_blanks s1') (skip_blanks s2') = FE_SUCCESS \<longleftrightarrow>
          toc_canon (skip_blanks s1') = toc_canon (skip_blanks s2')" if "c_tolower c = c_tolower d"
        using that by (intro "1.IH" [OF s1 s2]) (auto dest: skip_blanks_hd)
      with s1 s2 "1.prems" show ?thesis by (auto simp: toc_canon_Cons)
    qed
  qed
qed

lemma toc_compare_loop_range: "toc_compare_loop s t \<in> {FE_SUCCESS, FE_NOMATCH}"
proof (induction s t rule: toc_compare_loop.induct)
  case (1 s t)
  then show ?case by (cases s; cases t) auto
qed

lemma toc_compare_nicks_iff:
  "toc_compare_nicks (Some a) (Some b) = FE_SUCCESS \<longleftrightarrow> toc_canon a = toc_canon b"
proof -
  have "toc_compare_loop (skip_blanks a) (skip_blanks b) = FE_SUCCESS \<longleftrightarrow>
      toc_canon (skip_blanks a) = toc_canon (skip_blanks b)"
    by (intro toc_compare_loop_iff) (auto dest: skip_blanks_hd)
  then show ?thesis by (simp add: toc_compare_nicks_def)
qed

interpretation toc_nicks: nick_compare "\<lambda>a b. toc_compare_nicks (Some a) (Some b)"
  by unfold_locales (simp_all add: toc_compare_nicks_iff)

section \<open>Room names\<close>

text \<open>
  \<open>irc_normalize_room_name\<close> prefixes a \<open>#\<close> unless the name starts with one of
  \<open>ROOMSTARTS\<close>; \<open>strchr\<close> with the NUL of an empty name finds the terminator, so the
  empty name is returned as it is. The result is cut to the 2047 characters of the buffer.
  \<open>aim_normalize_room_name\<close> prefixes the exchange number 4 unless the name, from its second
  character on, has a colon; it refuses names that do not fit. (For the empty name the C code
  looks one byte past the terminator; the model finds no colon there.)
\<close>

definition irc_normalize_room_name :: "string \<Rightarrow> string option" where
  "irc_normalize_room_name name =
     (case name of
        [] \<Rightarrow> Some name
      | c # _ \<Rightarrow>
          if strchr ''#+&'' c \<noteq> None then Some name
          else Some (take 2047 (CHR ''#'' # name)))"

definition aim_normalize_room_name :: "string option \<Rightarrow> string option" where
  "aim_normalize_room_name nm =
     (case nm of
        None \<Rightarrow> None
      | Some name \<Rightarrow>
          if strchr (tl name) (CHR '':'') \<noteq> None then Some name
          else if length name \<ge> 2048 - 2 then None
          else Some (''4:'' @ name))"

lemma irc_normalize_idem:
  "irc_normalize_room_name n = Some m \<Longrightarrow> irc_normalize_room_name m = Some m"
  by (auto simp: irc_normalize_room_name_def split: list.splits if_splits)

lemma aim_normalize_idem:
  "aim_normalize_room_name (Some n) = Some m \<Longrightarrow> aim_normalize_room_name (Some m) = Some m"
  by (auto simp: aim_normalize_room_name_def split: if_splits)

section \<open>Properties\<close>

text \<open>
  The screen name comparison of the TOC protocol decides equality of the names with all
  blanks removed and case ignored: the two-pointer loop with its blank skipping is equivalent
  to comparing canonical forms.
\<close>

theorem toc_compare_canonical:
  "toc_compare_nicks (Some a) (Some b) =
     (if toc_canon a = toc_canon b then FE_SUCCESS else FE_NOMATCH)"
proof -
  have "toc_compare_nicks (Some a) (Some b) \<in> {FE_SUCCESS, FE_NOMATCH}"
    using toc_compare_loop_range by (simp add: toc_compare_nicks_def)
  with toc_compare_nicks_iff [of a b] show ?thesis by auto
qed

text \<open>
  The IRC comparison is an equivalence on nicknames that ignores case but, because
  \<open>irc_tolower\<close> maps both square brackets to the same brace, it also identifies nicknames
  that differ only in the direction of a bracket and keeps apart the closing bracket and the
  closing brace, which RFC 1459 makes the same letter.
\<close>

theorem irc_compare_brackets:
  "irc_compare_nicks (xs @ CHR ''['' # ys) (xs @ CHR '']'' # ys) = FE_SUCCESS \<and>
   irc_compare_nicks (xs @ CHR '']'' # ys) (xs @ CHR ''}'' # ys) = FE_NOMATCH"
proof -
  have "irc_tolower (CHR ''['') = irc_tolower (CHR '']'')"
    and "irc_tolower (CHR '']'') \<noteq> irc_tolower (CHR ''}'')"
    by (simp_all add: irc_tolower_def)
  then show ?thesis
    by (simp add: irc_compare_nicks_iff irc_compare_nicks_def irc_compare_nicks_int_0)
qed

end
