(* ===== verification/FtQueue.thy ===== *)
theory FtQueue
  imports Prelude
begin

text \<open>
  The keyed queues of the session layer (\<open>firetalk_enqueue\<close>, \<open>firetalk_peek\<close>,
  \<open>firetalk_dequeue\<close>, \<open>firetalk_queue_append\<close> of \<open>firetalk/firetalk.c\<close>): two parallel
  arrays and a count. Subcode requests and replies wait in them until a message to their
  recipient is sent.
\<close>

record 'a ft_queue =
  q_keys :: "string list"
  q_data :: "'a option list"
  q_count :: nat

definition empty_queue :: "'a ft_queue" where
  "empty_queue = \<lparr>q_keys = [], q_data = [], q_count = 0\<rparr>"

text \<open>The arrays are reallocated to the new count, and the last slot is filled.\<close>

definition firetalk_enqueue :: "'a ft_queue \<Rightarrow> string \<Rightarrow> 'a option \<Rightarrow> 'a ft_queue" where
  "firetalk_enqueue q key d =
     q\<lparr>q_count := q_count q + 1,
       q_keys := take (q_count q) (q_keys q) @ [key],
       q_data := take (q_count q) (q_data q) @ [d]\<rparr>"

text \<open>
  \<open>queue_find q key i\<close> is the scan of the loops from index \<open>i\<close>: the first index below the
  count whose key matches.
\<close>

function queue_find :: "'a ft_queue \<Rightarrow> string \<Rightarrow> nat \<Rightarrow> nat option" where
  "queue_find q key i =
     (if i < q_count q
      then if strcmp (q_keys q ! i) key = 0 then Some i else queue_find q key (Suc i)
      else None)"
  by pat_completeness auto
termination
  by (relation "measure (\<lambda>(q, key, i). q_count q - i)") auto

declare queue_find.simps [simp del]

definition firetalk_peek :: "'a ft_queue \<Rightarrow> string \<Rightarrow> 'a option" where
  "firetalk_peek q key =
     (case queue_find q key 0 of None \<Rightarrow> None | Some i \<Rightarrow> q_data q ! i)"

text \<open>
  \<open>memmove(keys+i, keys+i+1, (count-i-1)*size)\<close> followed by the \<open>realloc\<close> to the smaller
  count drops slot \<open>i\<close>.
\<close>

definition drop_slot :: "nat \<Rightarrow> nat \<Rightarrow> 'b list \<Rightarrow> 'b list" where
  "drop_slot i n xs = take i xs @ take (n - i - 1) (drop (i + 1) xs)"

definition firetalk_dequeue :: "'a ft_queue \<Rightarrow> string \<Rightarrow> 'a option \<times> 'a ft_queue" where
  "firetalk_dequeue q key =
     (case queue_find q key 0 of
        None \<Rightarrow> (None, q)
      | Some i \<Rightarrow>
          (q_data q ! i,
           q\<lparr>q_keys := drop_slot i (q_count q) (q_keys q),
             q_data := drop_slot i (q_count q) (q_data q),
             q_count := q_count q - 1\<rparr>))"

text \<open>The arrays have the length that the count says.\<close>

definition queue_wf :: "'a ft_queue \<Rightarrow> bool" where
  "queue_wf q \<longleftrightarrow> length (q_keys q) = q_count q \<and> length (q_data q) = q_count q"

lemma queue_wf_empty [simp]: "queue_wf empty_queue"
  by (simp add: queue_wf_def empty_queue_def)

lemma queue_wf_enqueue [inv_intros]: "queue_wf q \<Longrightarrow> queue_wf (firetalk_enqueue q key d)"
  by (simp add: queue_wf_def firetalk_enqueue_def)

lemma queue_find_Some:
  "queue_find q key i = Some j \<Longrightarrow> i \<le> j \<and> j < q_count q \<and> q_keys q ! j = key"
proof (induction q key i rule: queue_find.induct)
  case (1 q key i)
  show ?case
  proof (cases "i < q_count q \<and> q_keys q ! i \<noteq> key")
    case True
    with "1.prems" have "queue_find q key (Suc i) = Some j"
      by (simp add: queue_find.simps [of q key i])
    with True "1.IH" show ?thesis by simp
  next
    case False
    with "1.prems" show ?thesis
      by (auto simp: queue_find.simps [of q key i] split: if_splits)
  qed
qed

lemma queue_wf_dequeue [inv_intros]: "queue_wf q \<Longrightarrow> queue_wf (snd (firetalk_dequeue q key))"
  by (auto simp: queue_wf_def firetalk_dequeue_def drop_slot_def dest: queue_find_Some
      split: option.splits)

text \<open>The abstract content: the pairs of key and data in the order they were enqueued.\<close>

definition queue_items :: "'a ft_queue \<Rightarrow> (string \<times> 'a option) list" where
  "queue_items q = zip (q_keys q) (q_data q)"

lemma queue_items_empty [simp]: "queue_items empty_queue = []"
  by (simp add: queue_items_def empty_queue_def)

lemma queue_items_enqueue:
  "queue_wf q \<Longrightarrow> queue_items (firetalk_enqueue q key d) = queue_items q @ [(key, d)]"
  by (simp add: queue_items_def firetalk_enqueue_def queue_wf_def)

lemma length_queue_items: "queue_wf q \<Longrightarrow> length (queue_items q) = q_count q"
  by (simp add: queue_items_def queue_wf_def)

lemma queue_find_split:
  assumes "queue_wf q" "queue_items q = as @ bs" "length as = i"
  shows "queue_find q key i =
    map_option (\<lambda>k. i + k) (if \<exists>p \<in> set bs. fst p = key
      then Some (length (takeWhile (\<lambda>p. fst p \<noteq> key) bs)) else None)"
  using assms(2,3)
proof (induction bs arbitrary: as i)
  case Nil
  then have "q_count q = i" using length_queue_items [OF assms(1)] by simp
  then show ?case by (simp add: queue_find.simps)
next
  case (Cons p bs)
  have i: "i < q_count q" and key: "q_keys q ! i = fst p"
  proof -
    show i: "i < q_count q" using Cons.prems length_queue_items [OF assms(1)] by simp
    have "queue_items q ! i = p" using Cons.prems by (metis nth_append_length)
    then show "q_keys q ! i = fst p"
      using i assms(1) by (auto simp: queue_items_def queue_wf_def)
  qed
  show ?case
  proof (cases "fst p = key")
    case True
    with i key show ?thesis by (simp add: queue_find.simps [of q key i])
  next
    case False
    have "queue_find q key (Suc i) = map_option (\<lambda>k. Suc i + k) (if \<exists>p \<in> set bs. fst p = key
        then Some (length (takeWhile (\<lambda>p. fst p \<noteq> key) bs)) else None)"
      using Cons.prems by (intro Cons.IH [of "as @ [p]"]) simp_all
    with False i key show ?thesis by (simp add: queue_find.simps [of q key i])
  qed
qed

lemma queue_find_items:
  assumes "queue_wf q"
  shows "queue_find q key 0 =
    (if \<exists>p \<in> set (queue_items q). fst p = key
     then Some (length (takeWhile (\<lambda>p. fst p \<noteq> key) (queue_items q))) else None)"
  using queue_find_split [OF assms, of "[]" "queue_items q" 0 key] by (simp add: option.map_ident)

lemma drop_slot_split:
  "length xs = n \<Longrightarrow> xs = as @ x # bs \<Longrightarrow> drop_slot (length as) n xs = as @ bs"
  by (auto simp: drop_slot_def)

lemma queue_items_dequeue:
  assumes wf: "queue_wf q" and ex: "\<exists>p \<in> set (queue_items q). fst p = key"
  shows "queue_items (snd (firetalk_dequeue q key)) = remove_first (\<lambda>p. fst p = key) (queue_items q)"
    and "List.find (\<lambda>p. fst p = key) (queue_items q) = Some (key, fst (firetalk_dequeue q key))"
proof -
  from ex obtain as p bs where split: "queue_items q = as @ p # bs" "fst p = key"
    and as: "\<forall>p \<in> set as. fst p \<noteq> key"
    using split_list_first_prop [of "queue_items q" "\<lambda>p. fst p = key"] by auto
  then have tw: "takeWhile (\<lambda>p. fst p \<noteq> key) (queue_items q) = as"
    by (simp add: takeWhile_tail takeWhile_append2)
  with ex wf have find: "queue_find q key 0 = Some (length as)"
    by (simp add: queue_find_items)
  have ks: "q_keys q = map fst as @ fst p # map fst bs"
    and ds: "q_data q = map snd as @ snd p # map snd bs"
    using split(1) wf map_fst_zip [of "q_keys q" "q_data q"] map_snd_zip [of "q_keys q" "q_data q"]
    by (simp_all add: queue_items_def queue_wf_def)
  have "drop_slot (length as) (q_count q) (q_keys q) = map fst as @ map fst bs"
    using drop_slot_split [OF _ ks, of "q_count q"] wf by (simp add: queue_wf_def)
  moreover have "drop_slot (length as) (q_count q) (q_data q) = map snd as @ map snd bs"
    using drop_slot_split [OF _ ds, of "q_count q"] wf by (simp add: queue_wf_def)
  moreover have "remove_first (\<lambda>p. fst p = key) (as @ p # bs) = as @ bs"
    using as split(2) by (induction as) auto
  ultimately show "queue_items (snd (firetalk_dequeue q key)) =
      remove_first (\<lambda>p. fst p = key) (queue_items q)"
    using find split(1) by (simp add: firetalk_dequeue_def queue_items_def zip_map_fst_snd
        flip: map_append)
  have "List.find (\<lambda>p. fst p = key) (as @ p # bs) = Some p"
    using as split(2) by (induction as) auto
  moreover have "fst (firetalk_dequeue q key) = snd p"
    using find ds by (simp add: firetalk_dequeue_def nth_append)
  ultimately show "List.find (\<lambda>p. fst p = key) (queue_items q) = Some (key, fst (firetalk_dequeue q key))"
    using split by (cases p) simp
qed

lemma firetalk_peek_items:
  assumes "queue_wf q"
  shows "firetalk_peek q key =
    (case List.find (\<lambda>p. fst p = key) (queue_items q) of None \<Rightarrow> None | Some p \<Rightarrow> snd p)"
proof (cases "\<exists>p \<in> set (queue_items q). fst p = key")
  case True
  then have "firetalk_peek q key = fst (firetalk_dequeue q key)"
    by (simp add: firetalk_peek_def firetalk_dequeue_def split: option.splits)
  with queue_items_dequeue(2) [OF assms True] show ?thesis by simp
next
  case False
  then show ?thesis
    by (simp add: firetalk_peek_def queue_find_items [OF assms] find_None_conv [THEN iffD2])
qed

lemma firetalk_dequeue_none:
  assumes "queue_wf q" "\<not> (\<exists>p \<in> set (queue_items q). fst p = key)"
  shows "firetalk_dequeue q key = (None, q)"
  using assms by (simp add: firetalk_dequeue_def queue_find_items)

text \<open>
  \<open>firetalk_queue_append\<close> moves the data waiting for one recipient into the message buffer as
  long as it fits. \<open>buflen - 1\<close> is computed in \<open>int\<close> and compared as \<open>size_t\<close>, so a zero
  \<open>buflen\<close> is no limit at all. The queue gets shorter in every round.
\<close>

definition append_limit :: "nat \<Rightarrow> nat" where
  "append_limit buflen = (if buflen = 0 then 2 ^ 64 - 1 else buflen - 1)"

lemma q_count_dequeue:
  "firetalk_peek q key \<noteq> None \<Longrightarrow> q_count (snd (firetalk_dequeue q key)) < q_count q"
  by (auto simp: firetalk_peek_def firetalk_dequeue_def dest: queue_find_Some split: option.splits)

function firetalk_queue_append ::
  "string \<Rightarrow> nat \<Rightarrow> string ft_queue \<Rightarrow> string \<Rightarrow> string \<times> string ft_queue" where
  "firetalk_queue_append buf buflen q key =
     (case firetalk_peek q key of
        None \<Rightarrow> (buf, q)
      | Some d \<Rightarrow>
          if length buf + length d \<ge> append_limit buflen then (buf, q)
          else firetalk_queue_append (buf @ d) buflen (snd (firetalk_dequeue q key)) key)"
  by pat_completeness auto
termination
  by (relation "measure (\<lambda>(buf, buflen, q, key). q_count q)") (simp_all add: q_count_dequeue)

declare firetalk_queue_append.simps [simp del]

section \<open>The interface of a keyed queue\<close>

text \<open>
  What the session layer relies on: items come out in the order they went in, per key, and
  the items of the other keys are not touched.
\<close>

locale keyed_queue =
  fixes empty :: 'q
    and enq :: "'q \<Rightarrow> string \<Rightarrow> 'a option \<Rightarrow> 'q"
    and peek :: "'q \<Rightarrow> string \<Rightarrow> 'a option"
    and deq :: "'q \<Rightarrow> string \<Rightarrow> 'a option \<times> 'q"
    and items :: "'q \<Rightarrow> (string \<times> 'a option) list"
    and invar :: "'q \<Rightarrow> bool"
  assumes items_empty: "items empty = []"
    and items_enq: "invar q \<Longrightarrow> items (enq q k d) = items q @ [(k, d)]"
    and items_deq: "invar q \<Longrightarrow> items (snd (deq q k)) = remove_first (\<lambda>p. fst p = k) (items q)"
    and fst_deq: "invar q \<Longrightarrow> fst (deq q k) = peek q k"
    and peek_items: "invar q \<Longrightarrow> peek q k =
      (case List.find (\<lambda>p. fst p = k) (items q) of None \<Rightarrow> None | Some p \<Rightarrow> snd p)"
    and invar_empty: "invar empty"
    and invar_enq: "invar q \<Longrightarrow> invar (enq q k d)"
    and invar_deq: "invar q \<Longrightarrow> invar (snd (deq q k))"
begin

text \<open>The items of one key, oldest first.\<close>

definition of_key :: "string \<Rightarrow> 'q \<Rightarrow> 'a option list" where
  "of_key k q = map snd (filter (\<lambda>p. fst p = k) (items q))"

lemma of_key_enq:
  "invar q \<Longrightarrow> of_key k (enq q k' d) = (if k' = k then of_key k q @ [d] else of_key k q)"
  by (simp add: of_key_def items_enq)

lemma filter_remove_first_same: "filter p (remove_first p xs) = tl (filter p xs)"
  by (induction xs) auto

lemma filter_remove_first_other:
  "k' \<noteq> k \<Longrightarrow>
   filter (\<lambda>p. fst p = k) (remove_first (\<lambda>p. fst p = k') xs) = filter (\<lambda>p. fst p = k) xs"
  by (induction xs) auto

lemma of_key_deq:
  "invar q \<Longrightarrow> of_key k (snd (deq q k')) = (if k' = k then tl (of_key k q) else of_key k q)"
  by (auto simp: of_key_def items_deq filter_remove_first_same filter_remove_first_other map_tl)

lemma find_filter: "List.find p xs = (case filter p xs of [] \<Rightarrow> None | x # _ \<Rightarrow> Some x)"
  by (induction xs) auto

lemma peek_of_key: "invar q \<Longrightarrow> peek q k = (case of_key k q of [] \<Rightarrow> None | d # _ \<Rightarrow> d)"
  by (simp add: peek_items of_key_def find_filter split: list.splits)

end

interpretation ftq: keyed_queue empty_queue firetalk_enqueue firetalk_peek firetalk_dequeue
  queue_items queue_wf
proof unfold_locales
  fix q :: "'a ft_queue" and k
  assume wf: "queue_wf q"
  show "queue_items (snd (firetalk_dequeue q k)) = remove_first (\<lambda>p. fst p = k) (queue_items q)"
    using queue_items_dequeue(1) [OF wf] firetalk_dequeue_none [OF wf]
    by (cases "\<exists>p \<in> set (queue_items q). fst p = k") simp_all
  show "fst (firetalk_dequeue q k) = firetalk_peek q k"
    by (simp add: firetalk_peek_def firetalk_dequeue_def split: option.splits)
qed (simp_all add: queue_items_enqueue firetalk_peek_items queue_wf_enqueue queue_wf_dequeue)

section \<open>Properties\<close>

text \<open>
  C19. The keyed queue is first in, first out for every recipient: what is taken for a recipient is
  the oldest entry for it, the others for it stay in order, and no entry of another recipient is
  touched; adding puts the entry last for its recipient.
\<close>

theorem queue_fifo_per_recipient:
  assumes wf: "queue_wf q" and key: "ftq.of_key k q = d # ds"
  shows "fst (firetalk_dequeue q k) = d \<and>
    ftq.of_key k (snd (firetalk_dequeue q k)) = ds \<and>
    (\<forall>k'. k' \<noteq> k \<longrightarrow> ftq.of_key k' (snd (firetalk_dequeue q k)) = ftq.of_key k' q) \<and>
    (\<forall>e. ftq.of_key k (firetalk_enqueue q k e) = d # ds @ [e])"
  using key by (simp add: ftq.fst_deq [OF wf] ftq.peek_of_key [OF wf] ftq.of_key_deq [OF wf]
      ftq.of_key_enq [OF wf])

theorem queue_fifo_per_recipient_witness:
  "fst (firetalk_dequeue (firetalk_enqueue (firetalk_enqueue (firetalk_enqueue empty_queue
     ''bob'' (Some ''1'')) ''ann'' (Some ''2'')) ''bob'' (Some ''3'')) ''bob'') = Some ''1''"
proof -
  let ?q = "firetalk_enqueue (firetalk_enqueue (firetalk_enqueue empty_queue
     ''bob'' (Some ''1'')) ''ann'' (Some ''2'')) ''bob'' (Some ''3'')"
  have wf: "queue_wf ?q" by (intro queue_wf_enqueue queue_wf_empty)
  have "ftq.of_key ''bob'' ?q = [Some ''1'', Some ''3'']"
    by (simp add: ftq.of_key_def queue_items_enqueue queue_wf_enqueue)
  then show ?thesis using queue_fifo_per_recipient [OF wf] by blast
qed

lemma of_key_peek_Some:
  "queue_wf q \<Longrightarrow> firetalk_peek q k = Some d \<Longrightarrow> \<exists>ds. ftq.of_key k q = Some d # ds"
  by (auto simp: ftq.peek_of_key split: list.splits)

lemma queue_append_spec:
  assumes "queue_wf q" "firetalk_queue_append buf n q k = (buf', q')"
  shows "queue_wf q' \<and> q_count q' \<le> q_count q \<and> set (queue_items q') \<subseteq> set (queue_items q) \<and>
    (\<exists>m. buf' = buf @ concat (map the (take m (ftq.of_key k q))) \<and>
       ftq.of_key k q' = drop m (ftq.of_key k q)) \<and>
    (\<forall>k'. k' \<noteq> k \<longrightarrow> ftq.of_key k' q' = ftq.of_key k' q) \<and>
    (buf' = buf \<or> length buf' < append_limit n)"
  using assms
proof (induction buf n q k arbitrary: buf' q' rule: firetalk_queue_append.induct)
  case (1 buf n q k)
  show ?case
  proof (cases "\<exists>d. firetalk_peek q k = Some d \<and> length buf + length d < append_limit n")
    case False
    with "1.prems" have "buf' = buf" "q' = q"
      by (auto simp: firetalk_queue_append.simps [of buf] split: option.splits)
    with "1.prems"(1) show ?thesis by (auto intro: exI [of _ 0])
  next
    case True
    then obtain d where d: "firetalk_peek q k = Some d" "length buf + length d < append_limit n"
      by blast
    let ?q = "snd (firetalk_dequeue q k)"
    have wf: "queue_wf ?q" using "1.prems"(1) by (rule queue_wf_dequeue)
    obtain ds where ds: "ftq.of_key k q = Some d # ds"
      using of_key_peek_Some [OF "1.prems"(1) d(1)] by blast
    then have key: "ftq.of_key k ?q = ds" "\<And>k'. k' \<noteq> k \<Longrightarrow> ftq.of_key k' ?q = ftq.of_key k' q"
      using "1.prems"(1) by (simp_all add: ftq.of_key_deq)
    have sub: "set (queue_items ?q) \<subseteq> set (queue_items q)"
      using ftq.items_deq [OF "1.prems"(1)] set_remove_first_subset by metis
    have cnt: "q_count ?q < q_count q" using d(1) by (intro q_count_dequeue) simp
    have run: "firetalk_queue_append (buf @ d) n ?q k = (buf', q')"
      using "1.prems"(2) d by (simp add: firetalk_queue_append.simps [of buf])
    have IH: "queue_wf q' \<and> q_count q' \<le> q_count ?q \<and> set (queue_items q') \<subseteq> set (queue_items ?q) \<and>
      (\<exists>m. buf' = (buf @ d) @ concat (map the (take m (ftq.of_key k ?q))) \<and>
         ftq.of_key k q' = drop m (ftq.of_key k ?q)) \<and>
      (\<forall>k'. k' \<noteq> k \<longrightarrow> ftq.of_key k' q' = ftq.of_key k' ?q) \<and>
      (buf' = buf @ d \<or> length buf' < append_limit n)"
      using "1.IH" [OF d(1) _ wf run] d(2) by simp
    then obtain m where m: "buf' = (buf @ d) @ concat (map the (take m ds))" "ftq.of_key k q' = drop m ds"
      unfolding key(1) by blast
    have "buf' = buf @ concat (map the (take (Suc m) (ftq.of_key k q))) \<and>
        ftq.of_key k q' = drop (Suc m) (ftq.of_key k q)"
      using m ds by simp
    moreover have "length buf' < append_limit n"
    proof -
      have "buf' = buf @ d \<or> length buf' < append_limit n" using IH by blast
      then show ?thesis using d(2) by (elim disjE) simp_all
    qed
    moreover have "q_count q' \<le> q_count q" "queue_wf q'" "set (queue_items q') \<subseteq> set (queue_items q)"
      "\<forall>k'. k' \<noteq> k \<longrightarrow> ftq.of_key k' q' = ftq.of_key k' q"
      using IH cnt sub key(2) by auto
    ultimately show ?thesis by blast
  qed
qed

text \<open>
  C26. Taking the queued subcodes of a recipient into a message appends a prefix of its entries
  in order and leaves the rest and all other recipients in the queue; whatever is appended, the
  text and its terminator stay inside a buffer of the given length.
\<close>

theorem queue_append_prefix_in_bounds:
  assumes "queue_wf q" "0 < n" "length buf < n" "firetalk_queue_append buf n q k = (buf', q')"
  shows "length buf' < n \<and>
    (\<exists>m. buf' = buf @ concat (map the (take m (ftq.of_key k q))) \<and>
       ftq.of_key k q' = drop m (ftq.of_key k q)) \<and>
    (\<forall>k'. k' \<noteq> k \<longrightarrow> ftq.of_key k' q' = ftq.of_key k' q)"
proof -
  note spec = queue_append_spec [OF assms(1,4)]
  have "buf' = buf \<or> length buf' < append_limit n" using spec by blast
  then have "length buf' < n" using assms(2,3) by (auto simp: append_limit_def)
  with spec show ?thesis by blast
qed

theorem queue_append_prefix_in_bounds_witness:
  "length (fst (firetalk_queue_append ''PRIVMSG bob :'' 20
     (firetalk_enqueue (firetalk_enqueue empty_queue ''bob'' (Some ''abc'')) ''bob'' (Some ''defg'')) ''bob'')) < 20"
proof -
  let ?q = "firetalk_enqueue (firetalk_enqueue empty_queue ''bob'' (Some ''abc'')) ''bob'' (Some ''defg'')"
  obtain b q' where run: "firetalk_queue_append ''PRIVMSG bob :'' 20 ?q ''bob'' = (b, q')"
    by (cases "firetalk_queue_append ''PRIVMSG bob :'' 20 ?q ''bob''")
  have "queue_wf ?q" by (intro queue_wf_enqueue queue_wf_empty)
  from queue_append_prefix_in_bounds [OF this _ _ run] run show ?thesis by simp
qed

end
