(* ===== verification/FtTypes.thy ===== *)
theory FtTypes
  imports FtNicks FtQueue "HOL-Library.AList" "HOL-Library.Word"
begin

text \<open>
  The data of the FireTalk session layer (\<open>firetalk/firetalk-int.h\<close>): handles with their
  lists of buddies, denied users, rooms, file transfers and subcode callbacks, the table of
  protocol functions, and the global state of \<open>firetalk/firetalk.c\<close>.

  A singly linked list that only its owner points to is a HOL list whose head is the first
  node. Handles are identified by their address (\<open>nat\<close>), because clients hold pointers to
  them and \<open>VERIFYCONN\<close> compares them; file transfers carry an identity for the same reason.
  A client callback is an event of the log, recorded when the callback is registered; the
  handlers themselves belong to the client.
\<close>

datatype connectstate =
  FCS_NOTCONNECTED | FCS_WAITING_SYNACK | FCS_WAITING_SIGNON | FCS_ACTIVE

record ft_buddy =
  b_nickname :: string
  b_group :: string
  b_friendly :: "string option"
  b_idletime :: int
  b_warnval :: int
  b_online :: bool
  b_away :: bool
  b_typing :: int
  b_capabilities :: "string option"

record ft_deny =
  d_nickname :: string

record ft_member =
  m_nickname :: string
  m_admin :: bool

record ft_room =
  r_name :: string
  r_members :: "ft_member list"
  r_admin :: bool
  r_sentjoin :: bool

datatype file_state =
  FF_STATE_WAITLOCAL | FF_STATE_WAITREMOTE | FF_STATE_WAITSYNACK | FF_STATE_TRANSFERRING

datatype file_direction = FF_DIRECTION_SENDING | FF_DIRECTION_RECEIVING

datatype file_type = FF_TYPE_DCC | FF_TYPE_RAW

record ft_file =
  f_id :: nat
  f_who :: string
  f_filename :: string
  f_inet_ip :: "32 word"
  f_port :: "16 word"
  f_size :: int
  f_bytes :: int
  f_acked :: "32 word"
  f_state :: file_state
  f_direction :: file_direction
  f_type :: file_type
  f_sockfd :: int
  f_filefd :: int
  f_clientfilestruct :: "nat option"

record ft_subcode_callback =
  sc_command :: "string option"
  sc_staticresp :: "string option"
  sc_callback :: "nat option"

datatype ft_callback =
    FC_CONNECTED | FC_CONNECTFAILED | FC_DOINIT | FC_ERROR | FC_LOG | FC_DISCONNECT
  | FC_SETIDLE | FC_EVILED | FC_NEWNICK | FC_PASSCHANGED | FC_NEEDPASS | FC_PRESELECT
  | FC_POSTSELECT | FC_IM_IDLEINFO | FC_IM_STATUSINFO | FC_IM_EVILINFO | FC_IM_BUDDYADDED
  | FC_IM_BUDDYREMOVED | FC_IM_TYPINGINFO | FC_IM_CAPABILITIES | FC_IM_GOTINFO
  | FC_IM_USER_NICKCHANGED | FC_IM_GOTCHANNELS | FC_IM_GETMESSAGE | FC_IM_GETACTION
  | FC_IM_BUDDYONLINE | FC_IM_BUDDYOFFLINE | FC_IM_BUDDYAWAY | FC_IM_BUDDYUNAWAY
  | FC_IM_LISTBUDDY | FC_CHAT_JOINED | FC_CHAT_LEFT | FC_CHAT_KICKED | FC_CHAT_GETMESSAGE
  | FC_CHAT_GETACTION | FC_CHAT_INVITED | FC_CHAT_MODECHANGED | FC_CHAT_OPPED
  | FC_CHAT_DEOPPED | FC_CHAT_USER_JOINED | FC_CHAT_USER_LEFT | FC_CHAT_GOTTOPIC
  | FC_CHAT_USER_OPPED | FC_CHAT_USER_DEOPPED | FC_CHAT_USER_KICKED
  | FC_CHAT_USER_NICKCHANGED | FC_CHAT_KEYCHANGED | FC_CHAT_LISTMEMBER
  | FC_CHAT_LIST_EXTENDED | FC_CHAT_END_EXTENDED | FC_CHAT_NAMES | FC_FILE_OFFER
  | FC_FILE_START | FC_FILE_PROGRESS | FC_FILE_FINISH | FC_FILE_ERROR

text \<open>
  The arguments a callback gets: strings (with \<open>None\<close> for \<open>NULL\<close>), numbers, an error code,
  the identity of a transfer.
\<close>

datatype ft_arg = AStr "string option" | AInt int | AErr fte | AFile nat | AClient "nat option"

datatype ft_event =
    Callback ft_callback "ft_arg list"
  | SubcodeCallback nat "ft_arg list"
  | CloseFd int
  | WriteFd int string

record ft_handle =
  h_handle :: "nat option"
  h_clientstruct :: nat
  h_connected :: connectstate
  h_localip :: "32 word"
  h_protocol :: nat
  h_username :: "string option"
  h_fd :: int
  h_callbacks :: "ft_callback \<Rightarrow> bool"
  h_buffer :: string
  h_bufferpos :: nat
  h_buddies :: "ft_buddy list"
  h_denies :: "ft_deny list"
  h_rooms :: "ft_room list"
  h_files :: "ft_file list"
  h_subcode_request :: "ft_subcode_callback list"
  h_subcode_reply :: "ft_subcode_callback list"
  h_subcode_request_default :: "ft_subcode_callback option"
  h_subcode_reply_default :: "ft_subcode_callback option"
  h_subcode_requests :: "string ft_queue"
  h_subcode_replies :: "string ft_queue"
  h_deleted :: bool

record ft_state =
  s_handles :: "(nat \<times> ft_handle) list"
  s_fresh :: nat
  s_error :: fte
  s_isonline_hack :: "string option"
  s_log :: "(nat \<times> ft_event) list"

text \<open>
  \<open>firetalk_protocol_t\<close>: the functions of a protocol. The session layer calls them through
  the table with the protocol's own handle (\<open>client_t\<close>, \<open>None\<close> once destroyed); they may
  call back into the session layer, so each maps a state to a result and a state, and may
  abort.
\<close>

type_synonym ft_op = "ft_state \<Rightarrow> (fte \<times> ft_state) option"
type_synonym client = "nat option"

record ft_protocol =
  p_strprotocol :: string
  p_default_server :: string
  p_default_port :: int
  p_default_buffersize :: nat
  p_periodic :: "nat \<Rightarrow> ft_op"
  p_comparenicks :: "string \<Rightarrow> string \<Rightarrow> fte"
  p_isprintable :: "int \<Rightarrow> fte"
  p_disconnect :: "client \<Rightarrow> ft_op"
  p_signon :: "client \<Rightarrow> string option \<Rightarrow> ft_op"
  p_get_info :: "client \<Rightarrow> string \<Rightarrow> ft_op"
  p_set_info :: "client \<Rightarrow> string \<Rightarrow> ft_op"
  p_set_away :: "client \<Rightarrow> string option \<Rightarrow> int \<Rightarrow> ft_op"
  p_set_nickname :: "client \<Rightarrow> string \<Rightarrow> ft_op"
  p_set_password :: "client \<Rightarrow> string \<Rightarrow> string \<Rightarrow> ft_op"
  p_set_privacy :: "client \<Rightarrow> string \<Rightarrow> ft_op"
  p_im_add_buddy :: "client \<Rightarrow> string \<Rightarrow> string \<Rightarrow> string option \<Rightarrow> ft_op"
  p_im_remove_buddy :: "client \<Rightarrow> string \<Rightarrow> string \<Rightarrow> ft_op"
  p_im_add_deny :: "client \<Rightarrow> string \<Rightarrow> ft_op"
  p_im_remove_deny :: "client \<Rightarrow> string \<Rightarrow> ft_op"
  p_im_upload_buddies :: "client \<Rightarrow> ft_op"
  p_im_upload_denies :: "client \<Rightarrow> ft_op"
  p_im_send_message :: "client \<Rightarrow> string \<Rightarrow> string \<Rightarrow> int \<Rightarrow> ft_op"
  p_im_send_action :: "client \<Rightarrow> string \<Rightarrow> string \<Rightarrow> int \<Rightarrow> ft_op"
  p_im_evil :: "client \<Rightarrow> string \<Rightarrow> ft_op"
  p_chat_join :: "client \<Rightarrow> string \<Rightarrow> ft_op"
  p_chat_part :: "client \<Rightarrow> string \<Rightarrow> ft_op"
  p_chat_invite :: "client \<Rightarrow> string \<Rightarrow> string \<Rightarrow> string \<Rightarrow> ft_op"
  p_chat_set_topic :: "client \<Rightarrow> string \<Rightarrow> string \<Rightarrow> ft_op"
  p_chat_op :: "client \<Rightarrow> string \<Rightarrow> string \<Rightarrow> ft_op"
  p_chat_deop :: "client \<Rightarrow> string \<Rightarrow> string \<Rightarrow> ft_op"
  p_chat_kick :: "client \<Rightarrow> string \<Rightarrow> string \<Rightarrow> string \<Rightarrow> ft_op"
  p_chat_requestextended :: "client \<Rightarrow> string \<Rightarrow> ft_op"
  p_im_searchemail :: "client \<Rightarrow> string \<Rightarrow> ft_op"
  p_chat_send_message :: "client \<Rightarrow> string \<Rightarrow> string \<Rightarrow> int \<Rightarrow> ft_op"
  p_chat_send_action :: "client \<Rightarrow> string \<Rightarrow> string \<Rightarrow> int \<Rightarrow> ft_op"
  p_subcode_encode :: "client \<Rightarrow> string \<Rightarrow> string option \<Rightarrow> string option"
  p_room_normalize :: "string \<Rightarrow> string option"
  p_create_handle :: "ft_state \<Rightarrow> (nat \<times> ft_state) option"
  p_destroy_handle :: "client \<Rightarrow> ft_state \<Rightarrow> ft_state option"

text \<open>A handle as \<open>calloc\<close> leaves it.\<close>

definition new_handle :: "nat option \<Rightarrow> nat \<Rightarrow> nat \<Rightarrow> ft_handle" where
  "new_handle hdl cs prot =
     \<lparr>h_handle = hdl, h_clientstruct = cs, h_connected = FCS_NOTCONNECTED, h_localip = 0,
      h_protocol = prot, h_username = None, h_fd = 0, h_callbacks = (\<lambda>_. False),
      h_buffer = [], h_bufferpos = 0, h_buddies = [], h_denies = [], h_rooms = [], h_files = [],
      h_subcode_request = [], h_subcode_reply = [], h_subcode_request_default = None,
      h_subcode_reply_default = None, h_subcode_requests = empty_queue,
      h_subcode_replies = empty_queue, h_deleted = False\<rparr>"

section \<open>Reading and writing a handle\<close>

text \<open>
  \<open>the_handle\<close> is \<open>VERIFYCONN\<close> (\<open>firetalk_check_handle\<close>): a pointer that is not in the list
  of handles aborts. \<open>proto\<close> is \<open>firetalk_protocols[conn->protocol]\<close>.
\<close>

definition the_handle :: "nat \<Rightarrow> ft_state \<Rightarrow> ft_handle option" where
  "the_handle conn st = map_of (s_handles st) conn"

definition firetalk_check_handle :: "nat \<Rightarrow> ft_state \<Rightarrow> fte" where
  "firetalk_check_handle c st =
     (if \<exists>p \<in> set (s_handles st). fst p = c then FE_SUCCESS else FE_BADHANDLE)"

definition put_handle :: "nat \<Rightarrow> ft_handle \<Rightarrow> ft_state \<Rightarrow> ft_state" where
  "put_handle conn h st = st\<lparr>s_handles := AList.update conn h (s_handles st)\<rparr>"

definition proto :: "ft_protocol list \<Rightarrow> ft_handle \<Rightarrow> ft_protocol" where
  "proto ps h = ps ! h_protocol h"

definition same_nick :: "ft_protocol list \<Rightarrow> ft_handle \<Rightarrow> string \<Rightarrow> string \<Rightarrow> bool" where
  "same_nick ps h a b \<longleftrightarrow> p_comparenicks (proto ps h) a b = FE_SUCCESS"

definition log_event :: "nat \<Rightarrow> ft_event \<Rightarrow> ft_state \<Rightarrow> ft_state" where
  "log_event conn ev st = st\<lparr>s_log := s_log st @ [(conn, ev)]\<rparr>"

text \<open>\<open>if (conn->callbacks[X]) conn->callbacks[X](...)\<close>\<close>

definition emit :: "nat \<Rightarrow> ft_callback \<Rightarrow> ft_arg list \<Rightarrow> ft_state \<Rightarrow> ft_state" where
  "emit conn fc args st =
     (case the_handle conn st of
        None \<Rightarrow> st
      | Some h \<Rightarrow> if h_callbacks h fc then log_event conn (Callback fc args) st else st)"

text \<open>
  \<open>firetalk_find_handle\<close> finds the session handle of a protocol handle, and aborts when there
  is none; \<open>firetalk_find_clientstruct\<close> finds it by the client's own pointer.
\<close>

definition firetalk_find_handle :: "client \<Rightarrow> ft_state \<Rightarrow> nat option" where
  "firetalk_find_handle c st = map_option fst (List.find (\<lambda>(a, h). h_handle h = c) (s_handles st))"

definition firetalk_find_clientstruct :: "nat \<Rightarrow> ft_state \<Rightarrow> nat option" where
  "firetalk_find_clientstruct cs st =
     map_option fst (List.find (\<lambda>(a, h). h_clientstruct h = cs) (s_handles st))"

lemma the_handle_put [conn_simps]:
  "the_handle c (put_handle conn h st) = (if c = conn then Some h else the_handle c st)"
  by (simp add: the_handle_def put_handle_def update_conv')

lemma the_handle_log [conn_simps]: "the_handle c (log_event conn ev st) = the_handle c st"
  by (simp add: the_handle_def log_event_def)

lemma the_handle_emit [conn_simps]: "the_handle c (emit conn fc args st) = the_handle c st"
  by (simp add: emit_def conn_simps split: option.splits)

lemma the_handle_hack [conn_simps]: "the_handle c (st\<lparr>s_isonline_hack := x\<rparr>) = the_handle c st"
  by (simp add: the_handle_def)

lemma the_handle_error [conn_simps]: "the_handle c (st\<lparr>s_error := x\<rparr>) = the_handle c st"
  by (simp add: the_handle_def)

lemma put_put [conn_simps]: "put_handle c h (put_handle c h' st) = put_handle c h st"
  by (simp add: put_handle_def)

lemma s_handles_emit [frame_simps]: "s_handles (emit conn fc args st) = s_handles st"
  by (simp add: emit_def log_event_def split: option.splits)

lemma s_handles_log [frame_simps]: "s_handles (log_event conn ev st) = s_handles st"
  by (simp add: log_event_def)

lemma the_handle_in: "the_handle conn st = Some h \<Longrightarrow> (conn, h) \<in> set (s_handles st)"
  by (simp add: the_handle_def map_of_SomeD)

lemma firetalk_find_handle_the:
  assumes "firetalk_find_handle c st = Some conn" "distinct (map fst (s_handles st))"
  obtains h where "the_handle conn st = Some h" "h_handle h = c"
proof -
  from assms(1) obtain h where "List.find (\<lambda>(a, h). h_handle h = c) (s_handles st) = Some (conn, h)"
    by (auto simp: firetalk_find_handle_def)
  then have "(conn, h) \<in> set (s_handles st)" and "h_handle h = c"
    by (auto dest: find_Some_set)
  with assms(2) that show thesis by (simp add: the_handle_def)
qed

lemma find_update_same:
  "map_of xs k = Some v \<Longrightarrow> g v' = g v \<Longrightarrow>
   map_option fst (List.find (\<lambda>(a, h). g h = c) (AList.update k v' xs)) =
   map_option fst (List.find (\<lambda>(a, h). g h = c) xs)"
  by (induction xs) (auto split: if_splits)

lemma firetalk_find_handle_put [conn_simps]:
  "the_handle conn st = Some h \<Longrightarrow> h_handle h' = h_handle h \<Longrightarrow>
   firetalk_find_handle c (put_handle conn h' st) = firetalk_find_handle c st"
  by (simp add: the_handle_def firetalk_find_handle_def put_handle_def find_update_same)

lemma firetalk_find_handle_frame [conn_simps]:
  "firetalk_find_handle c (emit conn fc args st) = firetalk_find_handle c st"
  "firetalk_find_handle c (log_event conn ev st) = firetalk_find_handle c st"
  "firetalk_find_handle c (st\<lparr>s_isonline_hack := x\<rparr>) = firetalk_find_handle c st"
  "firetalk_find_handle c (st\<lparr>s_error := e\<rparr>) = firetalk_find_handle c st"
  by (simp_all add: firetalk_find_handle_def frame_simps)

lemma firetalk_check_handle_iff:
  "firetalk_check_handle c st = FE_SUCCESS \<longleftrightarrow> the_handle c st \<noteq> None"
  by (force simp: firetalk_check_handle_def the_handle_def map_of_eq_None_iff)

section \<open>Invariants over all handles\<close>

definition handles_distinct :: "ft_state \<Rightarrow> bool" where
  "handles_distinct st \<longleftrightarrow>
     distinct (map fst (s_handles st)) \<and> (\<forall>(a, h) \<in> set (s_handles st). a < s_fresh st)"

definition all_handles :: "(ft_handle \<Rightarrow> bool) \<Rightarrow> ft_state \<Rightarrow> bool" where
  "all_handles P st \<longleftrightarrow> (\<forall>a h. the_handle a st = Some h \<longrightarrow> P h)"

lemma all_handles_put [inv_intros]:
  "all_handles P st \<Longrightarrow> P h \<Longrightarrow> all_handles P (put_handle conn h st)"
  by (auto simp: all_handles_def conn_simps)

lemma all_handles_emit [simp]: "all_handles P (emit conn fc args st) \<longleftrightarrow> all_handles P st"
  by (simp add: all_handles_def conn_simps)

lemma all_handles_log [simp]: "all_handles P (log_event conn ev st) \<longleftrightarrow> all_handles P st"
  by (simp add: all_handles_def conn_simps)

lemma all_handles_hack [simp]: "all_handles P (st\<lparr>s_isonline_hack := x\<rparr>) \<longleftrightarrow> all_handles P st"
  by (simp add: all_handles_def conn_simps)

lemma all_handles_error [simp]: "all_handles P (st\<lparr>s_error := x\<rparr>) \<longleftrightarrow> all_handles P st"
  by (simp add: all_handles_def conn_simps)

lemma all_handlesD: "all_handles P st \<Longrightarrow> the_handle a st = Some h \<Longrightarrow> P h"
  by (simp add: all_handles_def)

end
