(* ===== verification/FtBuddy.thy ===== *)
theory FtBuddy
  imports FtTypes
begin

text \<open>
  The buddy and deny lists of \<open>firetalk/firetalk.c\<close>: the client's operations, the callbacks
  through which a protocol reports the state of a buddy, and the delivery of messages. A
  failed \<open>assert\<close> is \<open>None\<close>, like \<open>abort()\<close>.
\<close>

section \<open>The buddy list\<close>

definition firetalk_im_find_buddy :: "ft_protocol list \<Rightarrow> ft_handle \<Rightarrow> string \<Rightarrow> ft_buddy option" where
  "firetalk_im_find_buddy ps h name =
     List.find (\<lambda>iter. same_nick ps h (b_nickname iter) name) (h_buddies h)"

text \<open>Writing through the pointer that \<open>firetalk_im_find_buddy\<close> returned.\<close>

definition upd_buddy ::
  "ft_protocol list \<Rightarrow> string \<Rightarrow> (ft_buddy \<Rightarrow> ft_buddy) \<Rightarrow> ft_handle \<Rightarrow> ft_handle" where
  "upd_buddy ps name f h =
     h\<lparr>h_buddies := map_first (\<lambda>iter. same_nick ps h (b_nickname iter) name) f (h_buddies h)\<rparr>"

definition firetalk_im_delete_buddy ::
  "ft_protocol list \<Rightarrow> nat \<Rightarrow> string \<Rightarrow> ft_state \<Rightarrow> ft_state option" where
  "firetalk_im_delete_buddy ps conn nickname st = do {
     h \<leftarrow> the_handle conn st;
     Some (put_handle conn (h\<lparr>h_buddies :=
       remove_first (\<lambda>iter. same_nick ps h nickname (b_nickname iter)) (h_buddies h)\<rparr>) st)
   }"

definition new_buddy :: "string \<Rightarrow> string \<Rightarrow> string option \<Rightarrow> ft_buddy" where
  "new_buddy name grp friendly =
     \<lparr>b_nickname = name, b_group = grp, b_friendly = friendly, b_idletime = 0, b_warnval = 0,
      b_online = False, b_away = False, b_typing = 0, b_capabilities = None\<rparr>"

definition firetalk_im_insert_buddy ::
  "nat \<Rightarrow> string \<Rightarrow> string \<Rightarrow> string option \<Rightarrow> ft_state \<Rightarrow> ft_state option" where
  "firetalk_im_insert_buddy conn name grp friendly st = do {
     h \<leftarrow> the_handle conn st;
     Some (put_handle conn (h\<lparr>h_buddies := new_buddy name grp friendly # h_buddies h\<rparr>) st)
   }"

definition firetalk_im_remove_buddy :: "ft_protocol list \<Rightarrow> nat \<Rightarrow> string \<Rightarrow> ft_op" where
  "firetalk_im_remove_buddy ps conn name st = do {
     h \<leftarrow> the_handle conn st;
     (case firetalk_im_find_buddy ps h name of
        None \<Rightarrow> Some (FE_NOTFOUND, st)
      | Some iter \<Rightarrow> do {
          (ret, st) \<leftarrow>
            (if h_connected h \<noteq> FCS_NOTCONNECTED
             then p_im_remove_buddy (proto ps h) (h_handle h) (b_nickname iter) (b_group iter) st
             else Some (FE_SUCCESS, st));
          if ret \<noteq> FE_SUCCESS then Some (ret, st)
          else do {
            st \<leftarrow> firetalk_im_delete_buddy ps conn name st;
            Some (FE_SUCCESS, st)
          }
        })
   }"

section \<open>What the protocol reports about a buddy\<close>

text \<open>
  \<open>online\<close>, \<open>away\<close> are one-bit fields: an \<open>int\<close> stored in them is reduced to its lowest bit,
  and they are compared with the unreduced argument.
\<close>

definition bit1 :: "bool \<Rightarrow> int" where
  "bit1 b = (if b then 1 else 0)"

definition firetalk_callback_im_buddyonline ::
  "ft_protocol list \<Rightarrow> client \<Rightarrow> string \<Rightarrow> int \<Rightarrow> ft_state \<Rightarrow> ft_state option" where
  "firetalk_callback_im_buddyonline ps c nickname onl st = do {
     conn \<leftarrow> firetalk_find_handle c st;
     h \<leftarrow> the_handle conn st;
     let online = (onl \<noteq> 0);
     (case firetalk_im_find_buddy ps h nickname of
        None \<Rightarrow> Some st
      | Some b \<Rightarrow>
          if b_online b \<noteq> online then
            if online then
              if b_away b \<or> b_typing b \<noteq> 0 \<or> b_warnval b \<noteq> 0 \<or> b_idletime b \<noteq> 0 then None
              else Some (emit conn FC_IM_BUDDYONLINE [AStr (Some nickname)]
                (put_handle conn (upd_buddy ps nickname (\<lambda>b. b\<lparr>b_online := True,
                   b_nickname := (if strcmp (b_nickname b) nickname \<noteq> 0 then nickname
                                  else b_nickname b)\<rparr>) h) st))
            else Some (emit conn FC_IM_BUDDYOFFLINE [AStr (Some nickname)]
                (put_handle conn (upd_buddy ps nickname (\<lambda>b. b\<lparr>b_online := False,
                   b_away := False, b_typing := 0, b_warnval := 0, b_idletime := 0\<rparr>) h) st))
          else Some st)
   }"

definition firetalk_callback_im_buddyaway ::
  "ft_protocol list \<Rightarrow> client \<Rightarrow> string \<Rightarrow> int \<Rightarrow> ft_state \<Rightarrow> ft_state option" where
  "firetalk_callback_im_buddyaway ps c nickname away st = do {
     conn \<leftarrow> firetalk_find_handle c st;
     h \<leftarrow> the_handle conn st;
     (case firetalk_im_find_buddy ps h nickname of
        None \<Rightarrow> Some st
      | Some b \<Rightarrow>
          if bit1 (b_away b) \<noteq> away \<and> b_online b then
            let st = put_handle conn (upd_buddy ps nickname (\<lambda>b. b\<lparr>b_away := odd away\<rparr>) h) st in
            Some (if away = 1 \<and> h_callbacks h FC_IM_BUDDYAWAY
                  then emit conn FC_IM_BUDDYAWAY [AStr (Some nickname)] st
                  else if away = 0 \<and> h_callbacks h FC_IM_BUDDYUNAWAY
                  then emit conn FC_IM_BUDDYUNAWAY [AStr (Some nickname)] st
                  else st)
          else Some st)
   }"

definition firetalk_callback_buddyadded ::
  "ft_protocol list \<Rightarrow> client \<Rightarrow> string \<Rightarrow> string \<Rightarrow> string option \<Rightarrow> ft_state \<Rightarrow> ft_state option" where
  "firetalk_callback_buddyadded ps c name grp friendly st = do {
     conn \<leftarrow> firetalk_find_handle c st;
     h \<leftarrow> the_handle conn st;
     if firetalk_im_find_buddy ps h name = None then do {
       st \<leftarrow> firetalk_im_insert_buddy conn name grp friendly st;
       Some (emit conn FC_IM_BUDDYADDED [AStr (Some name), AStr (Some grp), AStr friendly] st)
     } else Some st
   }"

definition firetalk_callback_buddyremoved ::
  "ft_protocol list \<Rightarrow> client \<Rightarrow> string \<Rightarrow> string option \<Rightarrow> ft_state \<Rightarrow> ft_state option" where
  "firetalk_callback_buddyremoved ps c name grp st = do {
     conn \<leftarrow> firetalk_find_handle c st;
     h \<leftarrow> the_handle conn st;
     (case firetalk_im_find_buddy ps h name of
        None \<Rightarrow> Some st
      | Some iter \<Rightarrow>
          if (case grp of None \<Rightarrow> True | Some g \<Rightarrow> strcmp (b_group iter) g = 0) then do {
            st \<leftarrow> firetalk_im_delete_buddy ps conn name st;
            Some (emit conn FC_IM_BUDDYREMOVED [AStr (Some name)] st)
          } else Some st)
   }"

definition firetalk_callback_typing ::
  "ft_protocol list \<Rightarrow> client \<Rightarrow> string \<Rightarrow> int \<Rightarrow> ft_state \<Rightarrow> ft_state option" where
  "firetalk_callback_typing ps c name typing st = do {
     conn \<leftarrow> firetalk_find_handle c st;
     h \<leftarrow> the_handle conn st;
     if h_username h = None \<or> typing < 0 then None
     else if \<not> h_callbacks h FC_IM_TYPINGINFO then Some st
     else (case firetalk_im_find_buddy ps h name of
        None \<Rightarrow> Some st
      | Some b \<Rightarrow>
          if \<not> b_online b then None
          else if b_typing b \<noteq> typing then
            Some (emit conn FC_IM_TYPINGINFO [AStr (Some (b_nickname b)), AInt typing]
              (put_handle conn (upd_buddy ps name (\<lambda>b. b\<lparr>b_typing := typing\<rparr>) h) st))
          else Some st)
   }"

definition firetalk_callback_capabilities ::
  "ft_protocol list \<Rightarrow> client \<Rightarrow> string \<Rightarrow> string \<Rightarrow> ft_state \<Rightarrow> ft_state option" where
  "firetalk_callback_capabilities ps c nickname caps st = do {
     conn \<leftarrow> firetalk_find_handle c st;
     h \<leftarrow> the_handle conn st;
     if \<not> h_callbacks h FC_IM_CAPABILITIES then Some st
     else (case firetalk_im_find_buddy ps h nickname of
        None \<Rightarrow> Some st
      | Some b \<Rightarrow>
          if (case b_capabilities b of None \<Rightarrow> True | Some cs \<Rightarrow> strcmp cs caps \<noteq> 0) then
            Some (emit conn FC_IM_CAPABILITIES [AStr (Some nickname), AStr (Some caps)]
              (put_handle conn (upd_buddy ps nickname (\<lambda>b. b\<lparr>b_capabilities := Some caps\<rparr>) h) st))
          else Some st)
   }"

definition firetalk_callback_warninfo ::
  "ft_protocol list \<Rightarrow> client \<Rightarrow> string \<Rightarrow> int \<Rightarrow> ft_state \<Rightarrow> ft_state option" where
  "firetalk_callback_warninfo ps c nickname warnval st = do {
     conn \<leftarrow> firetalk_find_handle c st;
     h \<leftarrow> the_handle conn st;
     if \<not> h_callbacks h FC_IM_EVILINFO then Some st
     else (case firetalk_im_find_buddy ps h nickname of
        None \<Rightarrow> Some st
      | Some b \<Rightarrow>
          if b_warnval b \<noteq> warnval \<and> b_online b then
            Some (emit conn FC_IM_EVILINFO [AStr (Some nickname), AInt warnval]
              (put_handle conn (upd_buddy ps nickname (\<lambda>b. b\<lparr>b_warnval := warnval\<rparr>) h) st))
          else Some st)
   }"

definition firetalk_callback_idleinfo ::
  "ft_protocol list \<Rightarrow> client \<Rightarrow> string \<Rightarrow> int \<Rightarrow> ft_state \<Rightarrow> ft_state option" where
  "firetalk_callback_idleinfo ps c nickname idletime st = do {
     conn \<leftarrow> firetalk_find_handle c st;
     h \<leftarrow> the_handle conn st;
     if \<not> h_callbacks h FC_IM_IDLEINFO then Some st
     else (case firetalk_im_find_buddy ps h nickname of
        None \<Rightarrow> Some st
      | Some b \<Rightarrow>
          if b_idletime b \<noteq> idletime \<and> b_online b then
            Some (emit conn FC_IM_IDLEINFO [AStr (Some nickname), AInt idletime]
              (put_handle conn (upd_buddy ps nickname (\<lambda>b. b\<lparr>b_idletime := idletime\<rparr>) h) st))
          else Some st)
   }"

section \<open>Adding a buddy\<close>

definition same_place :: "ft_buddy \<Rightarrow> string \<Rightarrow> string option \<Rightarrow> bool" where
  "same_place iter grp friendly \<longleftrightarrow>
     strcmp (b_group iter) grp = 0 \<and>
     (case (b_friendly iter, friendly) of
        (None, None) \<Rightarrow> True
      | (Some a, Some b) \<Rightarrow> strcmp a b = 0
      | _ \<Rightarrow> False)"

text \<open>The branch for a buddy that is already in the list, in another group or with another name.\<close>

definition move_buddy ::
  "ft_protocol list \<Rightarrow> nat \<Rightarrow> ft_buddy \<Rightarrow> string \<Rightarrow> string \<Rightarrow> string option \<Rightarrow> ft_op" where
  "move_buddy ps conn iter name grp friendly st = do {
     h \<leftarrow> the_handle conn st;
     (ret, st) \<leftarrow>
       (if h_connected h \<noteq> FCS_NOTCONNECTED
        then p_im_remove_buddy (proto ps h) (h_handle h) (b_nickname iter) (b_group iter) st
        else Some (FE_SUCCESS, st));
     if ret \<noteq> FE_SUCCESS then Some (ret, st)
     else do {
       h \<leftarrow> the_handle conn st;
       Some (FE_SUCCESS, put_handle conn (upd_buddy ps name
         (\<lambda>b. b\<lparr>b_group := grp, b_friendly := friendly\<rparr>) h) st)
     }
   }"

definition firetalk_im_add_buddy ::
  "ft_protocol list \<Rightarrow> nat \<Rightarrow> string \<Rightarrow> string \<Rightarrow> string option \<Rightarrow> ft_op" where
  "firetalk_im_add_buddy ps conn name grp friendly st = do {
     h \<leftarrow> the_handle conn st;
     (ret, st) \<leftarrow>
       (case firetalk_im_find_buddy ps h name of
          Some iter \<Rightarrow>
            if \<not> same_place iter grp friendly then move_buddy ps conn iter name grp friendly st
            else Some (FE_SUCCESS, st)
        | None \<Rightarrow> do {
            st \<leftarrow> firetalk_im_insert_buddy conn name grp friendly st;
            Some (FE_SUCCESS, st)
          });
     if ret \<noteq> FE_SUCCESS then Some (ret, st)
     else do {
       h \<leftarrow> the_handle conn st;
       (ret, st) \<leftarrow>
         (if h_connected h \<noteq> FCS_NOTCONNECTED
          then p_im_add_buddy (proto ps h) (h_handle h) name grp friendly st
          else Some (FE_SUCCESS, st));
       if ret \<noteq> FE_SUCCESS then Some (ret, st)
       else do {
         h \<leftarrow> the_handle conn st;
         (case s_isonline_hack st of
            None \<Rightarrow> Some (FE_SUCCESS, st)
          | Some who \<Rightarrow>
              if same_nick ps h name who then do {
                st \<leftarrow> firetalk_callback_im_buddyonline ps (h_handle h) who 1 st;
                Some (FE_SUCCESS, st)
              } else Some (FE_SUCCESS, st))
       }
     }
   }"

fun list_buddies_events :: "ft_buddy list \<Rightarrow> (ft_callback \<times> ft_arg list) list" where
  "list_buddies_events [] = []"
| "list_buddies_events (b # bs) =
     (FC_IM_LISTBUDDY, [AStr (Some (b_nickname b)), AStr (Some (b_group b)), AStr (b_friendly b),
        AInt (bit1 (b_online b)), AInt (bit1 (b_away b)), AInt (b_idletime b)])
     # list_buddies_events bs"

definition emit_all :: "nat \<Rightarrow> (ft_callback \<times> ft_arg list) list \<Rightarrow> ft_state \<Rightarrow> ft_state" where
  "emit_all conn evs st = fold (\<lambda>(fc, args). emit conn fc args) evs st"

definition firetalk_im_list_buddies :: "nat \<Rightarrow> ft_op" where
  "firetalk_im_list_buddies conn st = do {
     h \<leftarrow> the_handle conn st;
     if h_connected h \<noteq> FCS_ACTIVE then Some (FE_NOTCONNECTED, st)
     else if \<not> h_callbacks h FC_IM_LISTBUDDY then Some (FE_SUCCESS, st)
     else Some (FE_SUCCESS, emit_all conn (list_buddies_events (h_buddies h)) st)
   }"

section \<open>The deny list\<close>

definition firetalk_im_internal_add_deny :: "ft_protocol list \<Rightarrow> nat \<Rightarrow> string \<Rightarrow> ft_op" where
  "firetalk_im_internal_add_deny ps conn nickname st = do {
     h \<leftarrow> the_handle conn st;
     let st =
       (if \<exists>iter \<in> set (h_denies h). same_nick ps h (d_nickname iter) nickname then st
        else put_handle conn (h\<lparr>h_denies := \<lparr>d_nickname = nickname\<rparr> # h_denies h\<rparr>) st);
     st \<leftarrow> firetalk_callback_im_buddyonline ps (h_handle h) nickname 0 st;
     Some (FE_SUCCESS, st)
   }"

definition firetalk_im_internal_remove_deny :: "ft_protocol list \<Rightarrow> nat \<Rightarrow> string \<Rightarrow> ft_op" where
  "firetalk_im_internal_remove_deny ps conn nickname st = do {
     h \<leftarrow> the_handle conn st;
     if \<exists>iter \<in> set (h_denies h). same_nick ps h nickname (d_nickname iter) then
       Some (FE_SUCCESS, put_handle conn (h\<lparr>h_denies :=
         remove_first (\<lambda>iter. same_nick ps h nickname (d_nickname iter)) (h_denies h)\<rparr>) st)
     else Some (FE_NOTFOUND, st)
   }"

definition firetalk_im_add_deny :: "ft_protocol list \<Rightarrow> nat \<Rightarrow> string \<Rightarrow> ft_op" where
  "firetalk_im_add_deny ps conn nickname st = do {
     h \<leftarrow> the_handle conn st;
     if h_connected h \<noteq> FCS_ACTIVE then Some (FE_NOTCONNECTED, st)
     else do {
       (ret, st) \<leftarrow> firetalk_im_internal_add_deny ps conn nickname st;
       if ret \<noteq> FE_SUCCESS then Some (ret, st)
       else do {
         h \<leftarrow> the_handle conn st;
         p_im_add_deny (proto ps h) (h_handle h) nickname st
       }
     }
   }"

definition firetalk_im_remove_deny :: "ft_protocol list \<Rightarrow> nat \<Rightarrow> string \<Rightarrow> ft_op" where
  "firetalk_im_remove_deny ps conn nickname st = do {
     h \<leftarrow> the_handle conn st;
     if h_connected h \<noteq> FCS_ACTIVE then Some (FE_NOTCONNECTED, st)
     else do {
       (ret, st) \<leftarrow> firetalk_im_internal_remove_deny ps conn nickname st;
       if ret \<noteq> FE_SUCCESS then Some (ret, st)
       else do {
         h \<leftarrow> the_handle conn st;
         p_im_remove_deny (proto ps h) (h_handle h) nickname st
       }
     }
   }"

section \<open>Messages from a user\<close>

definition firetalk_im_evil :: "ft_protocol list \<Rightarrow> nat \<Rightarrow> string \<Rightarrow> ft_op" where
  "firetalk_im_evil ps conn who st = do {
     h \<leftarrow> the_handle conn st;
     if h_connected h \<noteq> FCS_ACTIVE then Some (FE_NOTCONNECTED, st)
     else p_im_evil (proto ps h) (h_handle h) who st
   }"

definition candidclicks :: string where
  "candidclicks = ''<a href='' @ [CHR 0x22] @ ''http://www.candidclicks.com/cgi-bin/enter.cgi?''"

text \<open>
  While the client's handler runs, \<open>isonline_hack\<close> names the sender, so that a buddy the
  handler adds is marked online at once. The handler is a parameter: it may call back into
  the session layer.
\<close>

definition deliver ::
  "ft_protocol list \<Rightarrow> nat \<Rightarrow> ft_callback \<Rightarrow> string \<Rightarrow> ft_arg list \<Rightarrow>
   (ft_state \<Rightarrow> ft_state option) \<Rightarrow> ft_state \<Rightarrow> ft_state option" where
  "deliver ps conn fc sender args handler st = do {
     h \<leftarrow> the_handle conn st;
     if h_callbacks h fc then
       if \<exists>iter \<in> set (h_denies h). same_nick ps h sender (d_nickname iter) then Some st
       else do {
         st \<leftarrow> handler (log_event conn (Callback fc args) (st\<lparr>s_isonline_hack := Some sender\<rparr>));
         Some (st\<lparr>s_isonline_hack := None\<rparr>)
       }
     else Some st
   }"

definition firetalk_callback_im_getmessage ::
  "ft_protocol list \<Rightarrow> client \<Rightarrow> string \<Rightarrow> int \<Rightarrow> string \<Rightarrow>
   (ft_state \<Rightarrow> ft_state option) \<Rightarrow> ft_state \<Rightarrow> ft_state option" where
  "firetalk_callback_im_getmessage ps c sender automessage message handler st = do {
     conn \<leftarrow> firetalk_find_handle c st;
     if strstr message candidclicks \<noteq> None then do {
       (_, st) \<leftarrow> firetalk_im_evil ps conn sender st;
       Some st
     } else deliver ps conn FC_IM_GETMESSAGE sender
         [AStr (Some sender), AInt automessage, AStr (Some message)] handler st
   }"

definition firetalk_callback_im_getaction ::
  "ft_protocol list \<Rightarrow> client \<Rightarrow> string \<Rightarrow> int \<Rightarrow> string \<Rightarrow>
   (ft_state \<Rightarrow> ft_state option) \<Rightarrow> ft_state \<Rightarrow> ft_state option" where
  "firetalk_callback_im_getaction ps c sender automessage message handler st = do {
     conn \<leftarrow> firetalk_find_handle c st;
     deliver ps conn FC_IM_GETACTION sender
       [AStr (Some sender), AInt automessage, AStr (Some message)] handler st
   }"

end
