(* ===== verification/FtRoster.thy ===== *)
theory FtRoster
  imports FtBuddy
begin

text \<open>
  Correctness of the buddy and deny lists: the invariant of a handle's roster, its
  preservation by every operation of \<open>FtBuddy\<close>, and the properties of the operations.
\<close>


section \<open>Invariants of the roster\<close>

text \<open>The comparison functions of the table meet their contract.\<close>

definition protocols_ok :: "ft_protocol list \<Rightarrow> bool" where
  "protocols_ok ps \<longleftrightarrow> (\<forall>p \<in> set ps. nick_compare (p_comparenicks p))"

text \<open>
  \<open>buddy_clean\<close> is what the assertions of \<open>firetalk_callback_im_buddyonline\<close> say of a buddy
  that is offline. The name predicates say that no user is twice in a list.
\<close>

definition buddy_clean :: "ft_buddy \<Rightarrow> bool" where
  "buddy_clean b \<longleftrightarrow>
     (\<not> b_online b \<longrightarrow> \<not> b_away b \<and> b_typing b = 0 \<and> b_warnval b = 0 \<and> b_idletime b = 0)"

definition buddies_clean :: "ft_handle \<Rightarrow> bool" where
  "buddies_clean h \<longleftrightarrow> (\<forall>b \<in> set (h_buddies h). buddy_clean b)"

definition buddy_names_ok :: "ft_protocol list \<Rightarrow> ft_handle \<Rightarrow> bool" where
  "buddy_names_ok ps h \<longleftrightarrow>
     pairwise_unrelated (\<lambda>x y. same_nick ps h (b_nickname x) (b_nickname y)) (h_buddies h)"

definition deny_names_ok :: "ft_protocol list \<Rightarrow> ft_handle \<Rightarrow> bool" where
  "deny_names_ok ps h \<longleftrightarrow>
     pairwise_unrelated (\<lambda>x y. same_nick ps h (d_nickname x) (d_nickname y)) (h_denies h)"

definition protocol_known :: "ft_protocol list \<Rightarrow> ft_handle \<Rightarrow> bool" where
  "protocol_known ps h \<longleftrightarrow> h_protocol h < length ps"

definition roster_ok :: "ft_protocol list \<Rightarrow> ft_handle \<Rightarrow> bool" where
  "roster_ok ps h \<longleftrightarrow>
     protocol_known ps h \<and> buddies_clean h \<and> buddy_names_ok ps h \<and> deny_names_ok ps h"

lemma same_nick_fields [simp]:
  "same_nick ps (h\<lparr>h_buddies := bs\<rparr>) = same_nick ps h"
  "same_nick ps (h\<lparr>h_denies := ds\<rparr>) = same_nick ps h"
  "same_nick ps (h\<lparr>h_rooms := rs\<rparr>) = same_nick ps h"
  "same_nick ps (upd_buddy ps n f h) = same_nick ps h"
  by (auto simp: same_nick_def proto_def upd_buddy_def fun_eq_iff)

lemma upd_buddy_fields [conn_simps]:
  "h_handle (upd_buddy ps n f h) = h_handle h" "h_protocol (upd_buddy ps n f h) = h_protocol h"
  "h_connected (upd_buddy ps n f h) = h_connected h" "h_denies (upd_buddy ps n f h) = h_denies h"
  "h_rooms (upd_buddy ps n f h) = h_rooms h" "h_files (upd_buddy ps n f h) = h_files h"
  "h_username (upd_buddy ps n f h) = h_username h"
  by (simp_all add: upd_buddy_def)

lemma h_buddies_upd:
  "h_buddies (upd_buddy ps name f h) =
     map_first (\<lambda>iter. same_nick ps h (b_nickname iter) name) f (h_buddies h)"
  by (simp add: upd_buddy_def)

lemma nick_compare_proto:
  "protocols_ok ps \<Longrightarrow> protocol_known ps h \<Longrightarrow> nick_compare (p_comparenicks (proto ps h))"
  by (simp add: protocols_ok_def protocol_known_def proto_def)

lemma same_nick_equiv:
  assumes "protocols_ok ps" "protocol_known ps h"
  shows "same_nick ps h a a" "same_nick ps h a b \<Longrightarrow> same_nick ps h b a"
    "same_nick ps h a b \<Longrightarrow> same_nick ps h b c \<Longrightarrow> same_nick ps h a c"
  using nick_compare.cmp_refl nick_compare.cmp_sym nick_compare.cmp_trans
    nick_compare_proto [OF assms]
  unfolding same_nick_def by blast+

lemma find_buddy_names:
  assumes "protocols_ok ps" "protocol_known ps h" "firetalk_im_find_buddy ps h name = None"
    "b \<in> set (h_buddies h)"
  shows "\<not> same_nick ps h name (b_nickname b)" "\<not> same_nick ps h (b_nickname b) name"
proof -
  show *: "\<not> same_nick ps h (b_nickname b) name"
    using assms(3,4) by (simp add: firetalk_im_find_buddy_def find_None_conv)
  then show "\<not> same_nick ps h name (b_nickname b)"
    using same_nick_equiv(2) [OF assms(1,2)] by blast
qed

lemma roster_ok_upd_buddy [inv_intros]:
  assumes ps: "protocols_ok ps" and ok: "roster_ok ps h"
    and clean: "\<And>b. firetalk_im_find_buddy ps h name = Some b \<Longrightarrow> buddy_clean b \<Longrightarrow> buddy_clean (f b)"
    and names: "\<And>b. same_nick ps h (b_nickname b) name \<Longrightarrow>
      same_nick ps h (b_nickname (f b)) (b_nickname b)"
  shows "roster_ok ps (upd_buddy ps name f h)"
proof -
  have known: "protocol_known ps h" using ok by (simp add: roster_ok_def)
  have all: "buddy_clean b" if "b \<in> set (h_buddies h)" for b
    using ok that by (simp add: roster_ok_def buddies_clean_def)
  have "buddy_clean y" if y: "y \<in> set (h_buddies (upd_buddy ps name f h))" for y
    using set_map_first_cases [OF y [unfolded upd_buddy_def, simplified]]
  proof (elim disjE exE conjE)
    fix z
    assume z: "List.find (\<lambda>iter. same_nick ps h (b_nickname iter) name) (h_buddies h) = Some z"
      and "y = f z"
    with clean [of z] all find_Some_set [OF z] show ?thesis
      by (simp add: firetalk_im_find_buddy_def)
  qed (rule all)
  then have "buddies_clean (upd_buddy ps name f h)"
    by (simp add: buddies_clean_def)
  moreover have "buddy_names_ok ps (upd_buddy ps name f h)"
    unfolding buddy_names_ok_def same_nick_fields h_buddies_upd
  proof (rule pairwise_unrelated_map_first [where r = "same_nick ps h" and g = b_nickname])
    show "pairwise_unrelated (\<lambda>x y. same_nick ps h (b_nickname x) (b_nickname y)) (h_buddies h)"
      using ok by (simp add: roster_ok_def buddy_names_ok_def)
  qed (fact names same_nick_equiv(2,3) [OF ps known])+
  ultimately show ?thesis
    using ok by (simp add: roster_ok_def conn_simps protocol_known_def deny_names_ok_def)
qed

lemma roster_ok_insert [inv_intros]:
  assumes "protocols_ok ps" "roster_ok ps h" "firetalk_im_find_buddy ps h name = None"
  shows "roster_ok ps (h\<lparr>h_buddies := new_buddy name grp fr # h_buddies h\<rparr>)"
proof -
  have known: "protocol_known ps h" using assms(2) by (simp add: roster_ok_def)
  have "\<forall>b \<in> set (h_buddies h). \<not> same_nick ps h name (b_nickname b)"
    using find_buddy_names(1) [OF assms(1) known assms(3)] by blast
  moreover have "buddy_clean (new_buddy name grp fr)" "b_nickname (new_buddy name grp fr) = name"
    by (simp_all add: buddy_clean_def new_buddy_def)
  ultimately show ?thesis using assms(2)
    by (simp add: roster_ok_def buddies_clean_def buddy_names_ok_def deny_names_ok_def
        protocol_known_def)
qed

lemma roster_ok_remove [inv_intros]:
  assumes "roster_ok ps h"
  shows "roster_ok ps (h\<lparr>h_buddies := remove_first p (h_buddies h)\<rparr>)"
  using assms set_remove_first_subset [of p "h_buddies h"]
  by (auto simp: roster_ok_def buddies_clean_def buddy_names_ok_def deny_names_ok_def
      protocol_known_def)

lemma roster_ok_deny [inv_intros]:
  assumes "protocols_ok ps" "roster_ok ps h"
    "\<not> (\<exists>iter \<in> set (h_denies h). same_nick ps h (d_nickname iter) name)"
  shows "roster_ok ps (h\<lparr>h_denies := \<lparr>d_nickname = name\<rparr> # h_denies h\<rparr>)"
proof -
  have "\<not> same_nick ps h name (d_nickname y)" if "y \<in> set (h_denies h)" for y
    using assms that same_nick_equiv(2) [OF assms(1), of h] by (auto simp: roster_ok_def)
  with assms show ?thesis
    by (auto simp: roster_ok_def buddies_clean_def buddy_names_ok_def deny_names_ok_def
      protocol_known_def)
qed

lemma roster_ok_undeny [inv_intros]:
  "roster_ok ps h \<Longrightarrow> roster_ok ps (h\<lparr>h_denies := remove_first p (h_denies h)\<rparr>)"
  by (auto simp: roster_ok_def buddies_clean_def buddy_names_ok_def deny_names_ok_def
      protocol_known_def)

lemma keep_delete [inv_intros]:
  assumes "all_handles (roster_ok ps) st" "firetalk_im_delete_buddy ps conn n st = Some st'"
  shows "all_handles (roster_ok ps) st'"
  using assms by (auto simp: firetalk_im_delete_buddy_def elim!: bindE
      intro!: inv_intros dest: all_handlesD)

text \<open>
  Every report on a buddy either leaves the state alone or rewrites one buddy of one handle
  and emits an event; what it writes keeps a clean buddy clean and its name in its class.
\<close>

definition keeps_buddy :: "ft_protocol list \<Rightarrow> ft_handle \<Rightarrow> string \<Rightarrow> (ft_buddy \<Rightarrow> ft_buddy) \<Rightarrow> bool" where
  "keeps_buddy ps h name f \<longleftrightarrow>
     (\<forall>b. firetalk_im_find_buddy ps h name = Some b \<longrightarrow> buddy_clean b \<longrightarrow> buddy_clean (f b)) \<and>
     (\<forall>b. same_nick ps h (b_nickname b) name \<longrightarrow> same_nick ps h (b_nickname (f b)) (b_nickname b))"

lemma keep_upd_emit:
  assumes "protocols_ok ps" "all_handles (roster_ok ps) st" "the_handle conn st = Some h"
    "keeps_buddy ps h name f"
  shows "all_handles (roster_ok ps) (put_handle conn (upd_buddy ps name f h) st)"
proof -
  have "roster_ok ps (upd_buddy ps name f h)"
    using assms(4) all_handlesD [OF assms(2,3)]
    by (intro roster_ok_upd_buddy [OF assms(1)]) (auto simp: keeps_buddy_def)
  with assms(2) show ?thesis by (rule all_handles_put)
qed

lemma keeps_buddy_status [intro]:
  assumes "protocols_ok ps" "all_handles (roster_ok ps) st" "the_handle conn st = Some h"
  shows "keeps_buddy ps h n (\<lambda>b. b\<lparr>b_online := True,
      b_nickname := (if b_nickname b \<noteq> n then n else b_nickname b)\<rparr>)"
    and "keeps_buddy ps h n (\<lambda>b. b\<lparr>b_online := False,
      b_away := False, b_typing := 0, b_warnval := 0, b_idletime := 0\<rparr>)"
    and "keeps_buddy ps h n (b_capabilities_update (\<lambda>_. caps))"
    and "keeps_buddy ps h n (\<lambda>b. b\<lparr>b_group := grp, b_friendly := friendly\<rparr>)"
proof -
  have "protocol_known ps h" using all_handlesD [OF assms(2,3)] by (simp add: roster_ok_def)
  note eq = same_nick_equiv(1,2) [OF assms(1) this]
  show "keeps_buddy ps h n (\<lambda>b. b\<lparr>b_online := True,
      b_nickname := (if b_nickname b \<noteq> n then n else b_nickname b)\<rparr>)"
    using eq by (auto simp: keeps_buddy_def buddy_clean_def)
  show "keeps_buddy ps h n (\<lambda>b. b\<lparr>b_online := False,
      b_away := False, b_typing := 0, b_warnval := 0, b_idletime := 0\<rparr>)"
    "keeps_buddy ps h n (b_capabilities_update (\<lambda>_. caps))"
    "keeps_buddy ps h n (\<lambda>b. b\<lparr>b_group := grp, b_friendly := friendly\<rparr>)"
    using eq(1) by (auto simp: keeps_buddy_def buddy_clean_def)
qed

lemma keeps_buddy_online [intro]:
  assumes "protocols_ok ps" "all_handles (roster_ok ps) st" "the_handle conn st = Some h"
    and "firetalk_im_find_buddy ps h n = Some b" "b_online b"
  shows "keeps_buddy ps h n (b_away_update (\<lambda>_. x))"
    and "keeps_buddy ps h n (b_typing_update (\<lambda>_. t))"
    and "keeps_buddy ps h n (b_warnval_update (\<lambda>_. w))"
    and "keeps_buddy ps h n (b_idletime_update (\<lambda>_. i))"
proof -
  have "protocol_known ps h" using all_handlesD [OF assms(2,3)] by (simp add: roster_ok_def)
  note eq = same_nick_equiv(1) [OF assms(1) this]
  show "keeps_buddy ps h n (b_away_update (\<lambda>_. x))" "keeps_buddy ps h n (b_typing_update (\<lambda>_. t))"
    "keeps_buddy ps h n (b_warnval_update (\<lambda>_. w))" "keeps_buddy ps h n (b_idletime_update (\<lambda>_. i))"
    using eq assms(4,5) by (auto simp: keeps_buddy_def buddy_clean_def)
qed

lemma keep_insert [inv_intros]:
  assumes "protocols_ok ps" "all_handles (roster_ok ps) st" "the_handle conn st = Some h"
    "firetalk_im_find_buddy ps h name = None" "firetalk_im_insert_buddy conn name grp fr st = Some st'"
  shows "all_handles (roster_ok ps) st'"
  using assms by (auto simp: firetalk_im_insert_buddy_def elim!: bindE
      intro!: all_handles_put roster_ok_insert dest: all_handlesD)

lemma keep_buddyonline [inv_intros]:
  assumes "protocols_ok ps" "all_handles (roster_ok ps) st"
    "firetalk_callback_im_buddyonline ps c n onl st = Some st'"
  shows "all_handles (roster_ok ps) st'"
  using assms by (auto simp: firetalk_callback_im_buddyonline_def Let_def elim!: bindE
      split: branch_splits) (blast intro: keep_upd_emit)+

lemma keep_buddyaway [inv_intros]:
  assumes "protocols_ok ps" "all_handles (roster_ok ps) st"
    "firetalk_callback_im_buddyaway ps c n away st = Some st'"
  shows "all_handles (roster_ok ps) st'"
  using assms by (auto simp: firetalk_callback_im_buddyaway_def Let_def elim!: bindE
      split: branch_splits) (blast intro: keep_upd_emit)+

lemma keep_buddyadded [inv_intros]:
  assumes "protocols_ok ps" "all_handles (roster_ok ps) st"
    "firetalk_callback_buddyadded ps c n grp fr st = Some st'"
  shows "all_handles (roster_ok ps) st'"
  using assms by (auto simp: firetalk_callback_buddyadded_def elim!: bindE
      split: branch_splits) (blast intro: keep_insert)+

lemma keep_buddyremoved [inv_intros]:
  assumes "all_handles (roster_ok ps) st"
    "firetalk_callback_buddyremoved ps c n grp st = Some st'"
  shows "all_handles (roster_ok ps) st'"
  using assms by (auto simp: firetalk_callback_buddyremoved_def elim!: bindE
      split: branch_splits) (blast intro: keep_delete)+

lemma keep_typing [inv_intros]:
  assumes "protocols_ok ps" "all_handles (roster_ok ps) st"
    "firetalk_callback_typing ps c n t st = Some st'"
  shows "all_handles (roster_ok ps) st'"
  using assms by (auto simp: firetalk_callback_typing_def elim!: bindE
      split: branch_splits) (blast intro: keep_upd_emit)+

lemma keep_capabilities [inv_intros]:
  assumes "protocols_ok ps" "all_handles (roster_ok ps) st"
    "firetalk_callback_capabilities ps c n caps st = Some st'"
  shows "all_handles (roster_ok ps) st'"
  using assms by (auto simp: firetalk_callback_capabilities_def elim!: bindE
      split: branch_splits) (blast intro: keep_upd_emit)+

lemma keep_warninfo [inv_intros]:
  assumes "protocols_ok ps" "all_handles (roster_ok ps) st"
    "firetalk_callback_warninfo ps c n w st = Some st'"
  shows "all_handles (roster_ok ps) st'"
  using assms by (auto simp: firetalk_callback_warninfo_def elim!: bindE
      split: branch_splits) (blast intro: keep_upd_emit)+

lemma keep_idleinfo [inv_intros]:
  assumes "protocols_ok ps" "all_handles (roster_ok ps) st"
    "firetalk_callback_idleinfo ps c n i st = Some st'"
  shows "all_handles (roster_ok ps) st'"
  using assms by (auto simp: firetalk_callback_idleinfo_def elim!: bindE
      split: branch_splits) (blast intro: keep_upd_emit)+


section \<open>Operations that call the protocol\<close>

text \<open>
  What the session layer needs of the functions in the table: they keep the invariant of the
  states they are given.
\<close>

definition op_keeps :: "(ft_state \<Rightarrow> bool) \<Rightarrow> ft_op \<Rightarrow> bool" where
  "op_keeps I f \<longleftrightarrow> (\<forall>st r st'. I st \<longrightarrow> f st = Some (r, st') \<longrightarrow> I st')"

definition roster_calls_keep :: "(ft_state \<Rightarrow> bool) \<Rightarrow> ft_protocol \<Rightarrow> bool" where
  "roster_calls_keep I p \<longleftrightarrow>
     (\<forall>c n g f. op_keeps I (p_im_add_buddy p c n g f)) \<and>
     (\<forall>c n g. op_keeps I (p_im_remove_buddy p c n g)) \<and>
     (\<forall>c n. op_keeps I (p_im_add_deny p c n)) \<and>
     (\<forall>c n. op_keeps I (p_im_remove_deny p c n)) \<and>
     (\<forall>c n. op_keeps I (p_im_evil p c n))"

definition roster_table_keeps :: "(ft_state \<Rightarrow> bool) \<Rightarrow> ft_protocol list \<Rightarrow> bool" where
  "roster_table_keeps I ps \<longleftrightarrow> (\<forall>p \<in> set ps. roster_calls_keep I p)"

lemma op_keepsD: "op_keeps I f \<Longrightarrow> I st \<Longrightarrow> f st = Some (r, st') \<Longrightarrow> I st'"
  by (auto simp: op_keeps_def)

lemma roster_call_keeps:
  assumes "roster_table_keeps (all_handles (roster_ok ps)) ps"
    and "all_handles (roster_ok ps) st0" "the_handle conn st0 = Some h"
    and "all_handles (roster_ok ps) st"
  shows "p_im_add_buddy (proto ps h) c n g f st = Some (r, st') \<Longrightarrow> all_handles (roster_ok ps) st'"
    and "p_im_remove_buddy (proto ps h) c n g st = Some (r, st') \<Longrightarrow> all_handles (roster_ok ps) st'"
    and "p_im_add_deny (proto ps h) c n st = Some (r, st') \<Longrightarrow> all_handles (roster_ok ps) st'"
    and "p_im_remove_deny (proto ps h) c n st = Some (r, st') \<Longrightarrow> all_handles (roster_ok ps) st'"
    and "p_im_evil (proto ps h) c n st = Some (r, st') \<Longrightarrow> all_handles (roster_ok ps) st'"
proof -
  have "proto ps h \<in> set ps"
    using all_handlesD [OF assms(2,3)] by (simp add: roster_ok_def protocol_known_def proto_def)
  then have "roster_calls_keep (all_handles (roster_ok ps)) (proto ps h)"
    using assms(1) by (simp add: roster_table_keeps_def)
  then show "p_im_add_buddy (proto ps h) c n g f st = Some (r, st') \<Longrightarrow> all_handles (roster_ok ps) st'"
    "p_im_remove_buddy (proto ps h) c n g st = Some (r, st') \<Longrightarrow> all_handles (roster_ok ps) st'"
    "p_im_add_deny (proto ps h) c n st = Some (r, st') \<Longrightarrow> all_handles (roster_ok ps) st'"
    "p_im_remove_deny (proto ps h) c n st = Some (r, st') \<Longrightarrow> all_handles (roster_ok ps) st'"
    "p_im_evil (proto ps h) c n st = Some (r, st') \<Longrightarrow> all_handles (roster_ok ps) st'"
    using assms(4) unfolding roster_calls_keep_def by (blast intro: op_keepsD)+
qed

lemma keep_remove_buddy [inv_intros]:
  assumes ps: "protocols_ok ps" and calls: "roster_table_keeps (all_handles (roster_ok ps)) ps"
    and ok: "all_handles (roster_ok ps) st"
    and run: "firetalk_im_remove_buddy ps conn name st = Some (r, st')"
  shows "all_handles (roster_ok ps) st'"
  using run ok
  by (auto simp: firetalk_im_remove_buddy_def elim!: bindE split: branch_splits)
    (blast intro: keep_delete roster_call_keeps(2) [OF calls])+

lemma keep_move_buddy [inv_intros]:
  assumes ps: "protocols_ok ps" and calls: "roster_table_keeps (all_handles (roster_ok ps)) ps"
    and ok: "all_handles (roster_ok ps) st"
    and run: "move_buddy ps conn iter name grp fr st = Some (r, st')"
  shows "all_handles (roster_ok ps) st'"
  using run ok
  by (auto simp: move_buddy_def elim!: bindE split: branch_splits)
    (blast intro: keep_upd_emit [OF ps] keeps_buddy_status(4) [OF ps] roster_call_keeps(2) [OF calls])+

lemma keep_add_buddy [inv_intros]:
  assumes ps: "protocols_ok ps" and calls: "roster_table_keeps (all_handles (roster_ok ps)) ps"
    and ok: "all_handles (roster_ok ps) st"
    and run: "firetalk_im_add_buddy ps conn name grp fr st = Some (r, st')"
  shows "all_handles (roster_ok ps) st'"
proof -
  from run obtain h ret st1 where h: "the_handle conn st = Some h" and
    placed: "(case firetalk_im_find_buddy ps h name of
          Some iter \<Rightarrow>
            if \<not> same_place iter grp fr then move_buddy ps conn iter name grp fr st
            else Some (FE_SUCCESS, st)
        | None \<Rightarrow> do {
            st \<leftarrow> firetalk_im_insert_buddy conn name grp fr st;
            Some (FE_SUCCESS, st)
          }) = Some (ret, st1)"
    by (auto simp: firetalk_im_add_buddy_def elim!: bindE)
  have st1: "all_handles (roster_ok ps) st1"
    using placed h ok
    by (auto elim!: bindE split: branch_splits)
      (blast intro: keep_insert [OF ps] keep_move_buddy [OF ps calls])+
  from run h placed show ?thesis using st1
    by (auto simp: firetalk_im_add_buddy_def elim!: bindE split: branch_splits)
      (blast intro: keep_buddyonline [OF ps] roster_call_keeps(1) [OF calls])+
qed

lemma keep_internal_add_deny [inv_intros]:
  assumes ps: "protocols_ok ps" and ok: "all_handles (roster_ok ps) st"
    and run: "firetalk_im_internal_add_deny ps conn name st = Some (r, st')"
  shows "all_handles (roster_ok ps) st'"
proof -
  have "all_handles (roster_ok ps)
      (put_handle conn (h\<lparr>h_denies := \<lparr>d_nickname = name\<rparr> # h_denies h\<rparr>) st)"
    if "the_handle conn st = Some h"
      "\<not> (\<exists>iter \<in> set (h_denies h). same_nick ps h (d_nickname iter) name)" for h
    using that all_handlesD [OF ok] by (intro all_handles_put [OF ok] roster_ok_deny [OF ps]) auto
  with run ok show ?thesis
    by (auto simp: firetalk_im_internal_add_deny_def Let_def elim!: bindE split: branch_splits)
      (blast intro: keep_buddyonline [OF ps])+
qed

lemma keep_internal_remove_deny [inv_intros]:
  assumes ok: "all_handles (roster_ok ps) st"
    and run: "firetalk_im_internal_remove_deny ps conn name st = Some (r, st')"
  shows "all_handles (roster_ok ps) st'"
  using run ok by (auto simp: firetalk_im_internal_remove_deny_def elim!: bindE
      split: branch_splits intro!: all_handles_put roster_ok_undeny dest: all_handlesD)

lemma keep_add_deny [inv_intros]:
  assumes ps: "protocols_ok ps" and calls: "roster_table_keeps (all_handles (roster_ok ps)) ps"
    and ok: "all_handles (roster_ok ps) st"
    and run: "firetalk_im_add_deny ps conn name st = Some (r, st')"
  shows "all_handles (roster_ok ps) st'"
  using run ok
  by (auto simp: firetalk_im_add_deny_def elim!: bindE split: branch_splits)
    (blast intro: keep_internal_add_deny [OF ps] roster_call_keeps(3) [OF calls])+

lemma keep_remove_deny [inv_intros]:
  assumes calls: "roster_table_keeps (all_handles (roster_ok ps)) ps"
    and ok: "all_handles (roster_ok ps) st"
    and run: "firetalk_im_remove_deny ps conn name st = Some (r, st')"
  shows "all_handles (roster_ok ps) st'"
  using run ok
  by (auto simp: firetalk_im_remove_deny_def elim!: bindE split: branch_splits)
    (blast intro: keep_internal_remove_deny roster_call_keeps(4) [OF calls])+

lemma keep_evil [inv_intros]:
  assumes calls: "roster_table_keeps (all_handles (roster_ok ps)) ps"
    and ok: "all_handles (roster_ok ps) st"
    and run: "firetalk_im_evil ps conn name st = Some (r, st')"
  shows "all_handles (roster_ok ps) st'"
  using run ok
  by (auto simp: firetalk_im_evil_def elim!: bindE split: branch_splits)
    (blast intro: roster_call_keeps(5) [OF calls])+

lemma keep_deliver [inv_intros]:
  assumes ok: "all_handles (roster_ok ps) st"
    and handler: "\<And>s s'. all_handles (roster_ok ps) s \<Longrightarrow> handler s = Some s' \<Longrightarrow> all_handles (roster_ok ps) s'"
    and run: "deliver ps conn fc sender args handler st = Some st'"
  shows "all_handles (roster_ok ps) st'"
  using run ok
  by (auto simp: deliver_def elim!: bindE split: branch_splits)
    (drule handler [rotated], simp_all)+

section \<open>Running a session\<close>

text \<open>
  The calls that reach the roster of a session: requests of the client and reports of the
  protocol. \<open>roster_run\<close> performs one of them; an abort is \<open>None\<close>.
\<close>

datatype roster_call =
    Add_buddy nat string string "string option"
  | Remove_buddy nat string
  | Add_deny nat string
  | Remove_deny nat string
  | Evil nat string
  | Buddy_online client string int
  | Buddy_away client string int
  | Buddy_added client string string "string option"
  | Buddy_removed client string "string option"
  | Typing client string int
  | Capabilities client string string
  | Warn_info client string int
  | Idle_info client string int

fun roster_run :: "ft_protocol list \<Rightarrow> roster_call \<Rightarrow> ft_state \<Rightarrow> ft_state option" where
  "roster_run ps (Add_buddy conn n g f) st = map_option snd (firetalk_im_add_buddy ps conn n g f st)"
| "roster_run ps (Remove_buddy conn n) st = map_option snd (firetalk_im_remove_buddy ps conn n st)"
| "roster_run ps (Add_deny conn n) st = map_option snd (firetalk_im_add_deny ps conn n st)"
| "roster_run ps (Remove_deny conn n) st = map_option snd (firetalk_im_remove_deny ps conn n st)"
| "roster_run ps (Evil conn n) st = map_option snd (firetalk_im_evil ps conn n st)"
| "roster_run ps (Buddy_online c n x) st = firetalk_callback_im_buddyonline ps c n x st"
| "roster_run ps (Buddy_away c n x) st = firetalk_callback_im_buddyaway ps c n x st"
| "roster_run ps (Buddy_added c n g f) st = firetalk_callback_buddyadded ps c n g f st"
| "roster_run ps (Buddy_removed c n g) st = firetalk_callback_buddyremoved ps c n g st"
| "roster_run ps (Typing c n t) st = firetalk_callback_typing ps c n t st"
| "roster_run ps (Capabilities c n x) st = firetalk_callback_capabilities ps c n x st"
| "roster_run ps (Warn_info c n w) st = firetalk_callback_warninfo ps c n w st"
| "roster_run ps (Idle_info c n i) st = firetalk_callback_idleinfo ps c n i st"

fun roster_runs :: "ft_protocol list \<Rightarrow> roster_call list \<Rightarrow> ft_state \<Rightarrow> ft_state option" where
  "roster_runs ps [] st = Some st"
| "roster_runs ps (c # cs) st = Option.bind (roster_run ps c st) (roster_runs ps cs)"

lemma keep_roster_run:
  assumes "protocols_ok ps" "roster_table_keeps (all_handles (roster_ok ps)) ps"
    "all_handles (roster_ok ps) st" "roster_run ps call st = Some st'"
  shows "all_handles (roster_ok ps) st'"
  using assms by (cases call) (auto dest: inv_intros)

lemma keep_roster_runs:
  assumes "protocols_ok ps" "roster_table_keeps (all_handles (roster_ok ps)) ps"
  shows "all_handles (roster_ok ps) st \<Longrightarrow> roster_runs ps calls st = Some st' \<Longrightarrow>
    all_handles (roster_ok ps) st'"
  by (induction calls arbitrary: st) (auto elim!: bindE dest: keep_roster_run [OF assms])


section \<open>A protocol for examples\<close>

text \<open>
  A protocol whose functions succeed without calling
  back; the name functions are those of the IRC protocol. Witnesses run on them.
\<close>

definition succeed :: ft_op where
  "succeed st = Some (FE_SUCCESS, st)"

definition quiet_protocol :: ft_protocol where
  "quiet_protocol =
     \<lparr>p_strprotocol = ''IRC'', p_default_server = ''irc.freenode.net'', p_default_port = 6667,
      p_default_buffersize = 513, p_periodic = (\<lambda>_. succeed), p_comparenicks = irc_compare_nicks,
      p_isprintable = (\<lambda>_. FE_SUCCESS), p_disconnect = (\<lambda>_. succeed), p_signon = (\<lambda>_ _. succeed),
      p_get_info = (\<lambda>_ _. succeed), p_set_info = (\<lambda>_ _. succeed), p_set_away = (\<lambda>_ _ _. succeed),
      p_set_nickname = (\<lambda>_ _. succeed), p_set_password = (\<lambda>_ _ _. succeed),
      p_set_privacy = (\<lambda>_ _. succeed), p_im_add_buddy = (\<lambda>_ _ _ _. succeed),
      p_im_remove_buddy = (\<lambda>_ _ _. succeed), p_im_add_deny = (\<lambda>_ _. succeed),
      p_im_remove_deny = (\<lambda>_ _. succeed), p_im_upload_buddies = (\<lambda>_. succeed),
      p_im_upload_denies = (\<lambda>_. succeed), p_im_send_message = (\<lambda>_ _ _ _. succeed),
      p_im_send_action = (\<lambda>_ _ _ _. succeed), p_im_evil = (\<lambda>_ _. succeed),
      p_chat_join = (\<lambda>_ _. succeed), p_chat_part = (\<lambda>_ _. succeed),
      p_chat_invite = (\<lambda>_ _ _ _. succeed), p_chat_set_topic = (\<lambda>_ _ _. succeed),
      p_chat_op = (\<lambda>_ _ _. succeed), p_chat_deop = (\<lambda>_ _ _. succeed),
      p_chat_kick = (\<lambda>_ _ _ _. succeed), p_chat_requestextended = (\<lambda>_ _. succeed),
      p_im_searchemail = (\<lambda>_ _. succeed), p_chat_send_message = (\<lambda>_ _ _ _. succeed),
      p_chat_send_action = (\<lambda>_ _ _ _. succeed), p_subcode_encode = (\<lambda>_ cmd args. Some cmd),
      p_room_normalize = irc_normalize_room_name, p_create_handle = (\<lambda>st. Some (1, st)),
      p_destroy_handle = (\<lambda>_ st. Some st)\<rparr>"

lemma op_keeps_succeed [simp]: "op_keeps I succeed"
  by (simp add: op_keeps_def succeed_def)

lemma protocols_ok_quiet [simp]: "protocols_ok [quiet_protocol]"
  using irc_nicks.nick_compare_axioms by (simp add: protocols_ok_def quiet_protocol_def)

lemma roster_table_quiet [simp]: "roster_table_keeps I [quiet_protocol]"
  by (simp add: roster_table_keeps_def roster_calls_keep_def quiet_protocol_def)

lemma roster_ok_new [simp]: "roster_ok [quiet_protocol] (new_handle hdl cs 0)"
  by (simp add: roster_ok_def protocol_known_def buddies_clean_def buddy_names_ok_def
      deny_names_ok_def new_handle_def)

text \<open>One handle, at address 7, whose protocol handle is 1.\<close>

definition single_state :: "ft_handle \<Rightarrow> ft_state" where
  "single_state h = \<lparr>s_handles = [(7, h)], s_fresh = 8, s_error = FE_SUCCESS,
     s_isonline_hack = None, s_log = []\<rparr>"

lemma the_handle_single [simp]:
  "the_handle a (single_state h) = (if a = 7 then Some h else None)"
  by (simp add: the_handle_def single_state_def)

lemma s_log_single [simp]: "s_log (single_state h) = []"
  by (simp add: single_state_def)

lemma all_handles_single [simp]: "all_handles P (single_state h) \<longleftrightarrow> P h"
  by (auto simp: all_handles_def)

definition online_handle :: ft_handle where
  "online_handle = (new_handle (Some 1) 0 0)\<lparr>h_connected := FCS_ACTIVE, h_fd := 3,
     h_username := Some ''me'', h_callbacks := (\<lambda>_. True),
     h_buddies := [new_buddy ''Alice'' ''Friends'' None],
     h_denies := [\<lparr>d_nickname = ''Mallory''\<rparr>]\<rparr>"

lemma roster_ok_online [simp]: "roster_ok [quiet_protocol] online_handle"
  by (simp add: roster_ok_def protocol_known_def buddies_clean_def buddy_names_ok_def
      deny_names_ok_def new_handle_def online_handle_def new_buddy_def buddy_clean_def)

section \<open>Properties\<close>



lemma buddyonline_returns:
  assumes ok: "all_handles (roster_ok ps) st" and c: "firetalk_find_handle c st = Some conn"
  shows "firetalk_callback_im_buddyonline ps c nickname onl st \<noteq> None"
proof -
  from c obtain h where "(conn, h) \<in> set (s_handles st)"
    by (auto simp: firetalk_find_handle_def dest: find_Some_set)
  then obtain h where h: "the_handle conn st = Some h"
    unfolding the_handle_def by (metis weak_map_of_SomeI)
  have "b_online b \<noteq> (onl \<noteq> 0) \<Longrightarrow> onl \<noteq> 0 \<Longrightarrow>
      \<not> b_away b \<and> b_typing b = 0 \<and> b_warnval b = 0 \<and> b_idletime b = 0"
    if "firetalk_im_find_buddy ps h nickname = Some b" for b
    using that all_handlesD [OF ok h] find_Some_set
    by (fastforce simp: firetalk_im_find_buddy_def roster_ok_def buddies_clean_def buddy_clean_def)
  with c h show ?thesis
    by (auto simp: firetalk_callback_im_buddyonline_def Let_def split: option.splits)
qed

text \<open>
  The assertions of \<open>firetalk_callback_im_buddyonline\<close> never fail: in a state that keeps the
  roster invariant, reporting any user online or offline on a known protocol handle returns.
\<close>

theorem buddyonline_never_aborts:
  assumes "all_handles (roster_ok ps) st" "firetalk_find_handle c st = Some conn"
  shows "firetalk_callback_im_buddyonline ps c nickname onl st \<noteq> None"
  using buddyonline_returns [OF assms] .

theorem buddyonline_never_aborts_witness:
  "firetalk_callback_im_buddyonline [quiet_protocol] (Some 1) ''ALICE'' 1
     (single_state online_handle) \<noteq> None"
proof -
  have "firetalk_find_handle (Some 1) (single_state online_handle) = Some 7"
    by (simp add: firetalk_find_handle_def single_state_def online_handle_def new_handle_def)
  then show ?thesis
    by (intro buddyonline_never_aborts [of "[quiet_protocol]"]) simp_all
qed

text \<open>
  A typing report aborts the program exactly when no handle is signed on for it, when the
  number is negative, or when the client listens for typing and the user is a buddy that is
  offline. The TOC protocol passes the server's number and name on unchecked.
\<close>

theorem typing_aborts_iff:
  assumes "firetalk_find_handle c st = Some conn" "the_handle conn st = Some h"
  shows "firetalk_callback_typing ps c name typing st = None \<longleftrightarrow>
    h_username h = None \<or> typing < 0 \<or>
    (h_callbacks h FC_IM_TYPINGINFO \<and>
     (\<exists>b. firetalk_im_find_buddy ps h name = Some b \<and> \<not> b_online b))"
  using assms by (auto simp: firetalk_callback_typing_def split: option.splits)

theorem typing_aborts_iff_witness:
  "firetalk_callback_typing [quiet_protocol] (Some 1) ''alice'' 1 (single_state online_handle) = None"
proof -
  have "firetalk_find_handle (Some 1) (single_state online_handle) = Some 7"
    by (simp add: firetalk_find_handle_def single_state_def online_handle_def new_handle_def)
  moreover have "firetalk_im_find_buddy [quiet_protocol] online_handle ''alice'' =
      Some (new_buddy ''Alice'' ''Friends'' None)"
    by code_simp
  then have "\<exists>b. firetalk_im_find_buddy [quiet_protocol] online_handle ''alice'' = Some b \<and> \<not> b_online b"
    by (simp add: new_buddy_def)
  moreover have "h_callbacks online_handle FC_IM_TYPINGINFO"
    by (simp add: online_handle_def)
  ultimately show ?thesis
    using typing_aborts_iff [of "Some 1" "single_state online_handle" 7 online_handle
        "[quiet_protocol]" "''alice''" 1] by simp
qed


lemma s_log_put [frame_simps]: "s_log (put_handle conn h st) = s_log st"
  by (simp add: put_handle_def)

lemma s_log_emit [frame_simps]:
  "s_log (emit conn fc args st) = s_log st @
     (case the_handle conn st of
        None \<Rightarrow> []
      | Some h \<Rightarrow> if h_callbacks h fc then [(conn, Callback fc args)] else [])"
  by (simp add: emit_def log_event_def split: option.splits)

lemma h_callbacks_upd [conn_simps]: "h_callbacks (upd_buddy ps n f h) = h_callbacks h"
  by (simp add: upd_buddy_def)

lemma find_buddy_put [conn_simps]:
  "firetalk_im_find_buddy ps (h\<lparr>h_buddies := bs\<rparr>) name =
     List.find (\<lambda>iter. same_nick ps h (b_nickname iter) name) bs"
  by (simp add: firetalk_im_find_buddy_def)

lemma find_upd_buddy:
  assumes "\<And>b. same_nick ps h (b_nickname b) name \<Longrightarrow> same_nick ps h (b_nickname (f b)) name"
  shows "firetalk_im_find_buddy ps (upd_buddy ps name f h) name =
    map_option f (firetalk_im_find_buddy ps h name)"
  using assms by (simp add: firetalk_im_find_buddy_def h_buddies_upd find_map_first)

text \<open>
  A report of a user going on or off line emits one event exactly when the user is a buddy
  whose status differs from the report and the client has registered the callback, and no
  event otherwise; afterwards the buddy has the reported status.
\<close>

theorem buddyonline_event:
  assumes ps: "protocols_ok ps" and ok: "all_handles (roster_ok ps) st"
    and c: "firetalk_find_handle c st = Some conn" and h: "the_handle conn st = Some h"
    and b: "firetalk_im_find_buddy ps h nickname = Some b"
    and fc: "fc = (if onl \<noteq> 0 then FC_IM_BUDDYONLINE else FC_IM_BUDDYOFFLINE)"
  shows "\<exists>st' h' b'. firetalk_callback_im_buddyonline ps c nickname onl st = Some st' \<and>
    the_handle conn st' = Some h' \<and> firetalk_im_find_buddy ps h' nickname = Some b' \<and>
    b_online b' = (onl \<noteq> 0) \<and>
    s_log st' = s_log st @ (if b_online b \<noteq> (onl \<noteq> 0) \<and> h_callbacks h fc
      then [(conn, Callback fc [AStr (Some nickname)])] else [])"
proof -
  obtain st' where run: "firetalk_callback_im_buddyonline ps c nickname onl st = Some st'"
    using buddyonline_returns [OF ok c] by blast
  have known: "protocol_known ps h" using all_handlesD [OF ok h] by (simp add: roster_ok_def)
  note eq = same_nick_equiv [OF ps known]
  have nb: "same_nick ps h (b_nickname b) nickname"
    using b find_Some_set by (fastforce simp: firetalk_im_find_buddy_def)
  show ?thesis
  proof (cases "b_online b = (onl \<noteq> 0)")
    case True
    with run c h b show ?thesis by (auto simp: firetalk_callback_im_buddyonline_def Let_def)
  next
    case False
    let ?on = "\<lambda>b. b\<lparr>b_online := True,
       b_nickname := (if b_nickname b \<noteq> nickname then nickname else b_nickname b)\<rparr>"
    let ?off = "\<lambda>b. b\<lparr>b_online := False, b_away := False, b_typing := 0, b_warnval := 0, b_idletime := 0\<rparr>"
    let ?f = "if onl \<noteq> 0 then ?on else ?off"
    have st': "st' = emit conn fc [AStr (Some nickname)] (put_handle conn (upd_buddy ps nickname ?f h) st)"
      using run c h b False fc
      by (auto simp: firetalk_callback_im_buddyonline_def Let_def split: if_split_asm)
    have "firetalk_im_find_buddy ps (upd_buddy ps nickname ?f h) nickname = Some (?f b)"
      using eq(1) b by (subst find_upd_buddy) auto
    moreover have "s_log st' = s_log st @ (if h_callbacks h fc
        then [(conn, Callback fc [AStr (Some nickname)])] else [])"
      unfolding st' by (simp add: frame_simps conn_simps)
    moreover have "the_handle conn st' = Some (upd_buddy ps nickname ?f h)"
      unfolding st' by (simp add: conn_simps)
    moreover have "b_online (?f b) = (onl \<noteq> 0)" by simp
    ultimately show ?thesis using run False by auto
  qed
qed

theorem buddyonline_event_witness:
  "\<exists>st'. firetalk_callback_im_buddyonline [quiet_protocol] (Some 1) ''alice'' 1
      (single_state online_handle) = Some st' \<and>
    s_log st' = [(7, Callback FC_IM_BUDDYONLINE [AStr (Some ''alice'')])]"
proof -
  let ?b = "new_buddy ''Alice'' ''Friends'' None"
  have "firetalk_find_handle (Some 1) (single_state online_handle) = Some 7"
    by (simp add: firetalk_find_handle_def single_state_def online_handle_def new_handle_def)
  moreover have "firetalk_im_find_buddy [quiet_protocol] online_handle ''alice'' = Some ?b"
    by code_simp
  ultimately have "\<exists>st' h' b'. firetalk_callback_im_buddyonline [quiet_protocol] (Some 1) ''alice'' 1
        (single_state online_handle) = Some st' \<and>
      the_handle 7 st' = Some h' \<and> firetalk_im_find_buddy [quiet_protocol] h' ''alice'' = Some b' \<and>
      b_online b' = ((1::int) \<noteq> 0) \<and>
      s_log st' = s_log (single_state online_handle) @
        (if b_online ?b \<noteq> ((1::int) \<noteq> 0) \<and> h_callbacks online_handle FC_IM_BUDDYONLINE
         then [(7, Callback FC_IM_BUDDYONLINE [AStr (Some ''alice'')])] else [])"
    by (intro buddyonline_event) simp_all
  then show ?thesis
    by (auto simp: single_state_def online_handle_def new_buddy_def)
qed

text \<open>
  Nothing a denied user says reaches the client: for a sender in the deny list a message
  (other than the advertisement that is reported as abuse) and an action leave the session
  unchanged, whatever the client's handler does.
\<close>

theorem denied_sender_not_delivered:
  assumes "firetalk_find_handle c st = Some conn" "the_handle conn st = Some h"
    and "iter \<in> set (h_denies h)" "same_nick ps h sender (d_nickname iter)"
  shows "firetalk_callback_im_getaction ps c sender auto msg handler st = Some st \<and>
    (strstr msg candidclicks = None \<longrightarrow>
      firetalk_callback_im_getmessage ps c sender auto msg handler st = Some st)"
  using assms
  by (auto simp: firetalk_callback_im_getaction_def firetalk_callback_im_getmessage_def deliver_def)

theorem denied_sender_not_delivered_witness:
  "firetalk_callback_im_getmessage [quiet_protocol] (Some 1) ''MALLORY'' 0 ''hi'' (\<lambda>st. Some st)
     (single_state online_handle) = Some (single_state online_handle)"
proof -
  have "firetalk_find_handle (Some 1) (single_state online_handle) = Some 7"
    by (simp add: firetalk_find_handle_def single_state_def online_handle_def new_handle_def)
  moreover have "\<lparr>d_nickname = ''Mallory''\<rparr> \<in> set (h_denies online_handle)"
    by (simp add: online_handle_def)
  moreover have "same_nick [quiet_protocol] online_handle ''MALLORY'' (d_nickname \<lparr>d_nickname = ''Mallory''\<rparr>)"
    by code_simp
  moreover have "strstr ''hi'' candidclicks = None" by code_simp
  ultimately show ?thesis
    using denied_sender_not_delivered [of "Some 1" "single_state online_handle" 7 online_handle
        "\<lparr>d_nickname = ''Mallory''\<rparr>" "[quiet_protocol]" "''MALLORY''" 0 "''hi''" "\<lambda>st. Some st"]
    by simp
qed

section \<open>Adding and removing\<close>

text \<open>The state after a client request on a handle that is not connected.\<close>

lemma add_buddy_offline:
  assumes h: "the_handle conn st = Some h" "h_connected h = FCS_NOTCONNECTED"
    and hack: "s_isonline_hack st = None"
  shows "\<exists>st1 h1. firetalk_im_add_buddy ps conn name grp fr st = Some (FE_SUCCESS, st1) \<and>
    the_handle conn st1 = Some h1 \<and> h_connected h1 = FCS_NOTCONNECTED \<and>
    h1 = (case firetalk_im_find_buddy ps h name of
       None \<Rightarrow> h\<lparr>h_buddies := new_buddy name grp fr # h_buddies h\<rparr>
     | Some iter \<Rightarrow> if same_place iter grp fr then h
         else upd_buddy ps name (\<lambda>b. b\<lparr>b_group := grp, b_friendly := fr\<rparr>) h)"
proof -
  have hk: "s_isonline_hack (put_handle conn h' st) = None" for h'
    using hack by (simp add: put_handle_def)
  show ?thesis
    using h hack by (auto simp: firetalk_im_add_buddy_def firetalk_im_insert_buddy_def move_buddy_def
      conn_simps hk split: option.split)
qed

lemma remove_buddy_offline:
  assumes "the_handle conn st = Some h" "h_connected h = FCS_NOTCONNECTED"
    "firetalk_im_find_buddy ps h name = Some b"
  shows "firetalk_im_remove_buddy ps conn name st = Some (FE_SUCCESS, put_handle conn (h\<lparr>h_buddies :=
       remove_first (\<lambda>iter. same_nick ps h name (b_nickname iter)) (h_buddies h)\<rparr>) st)"
  using assms by (simp add: firetalk_im_remove_buddy_def firetalk_im_delete_buddy_def)

lemma same_placeD: "same_place b grp fr \<Longrightarrow> b_group b = grp \<and> b_friendly b = fr"
  by (auto simp: same_place_def split: option.splits)

text \<open>
  Adding a user to the roster of a handle that is not connected succeeds and puts the user
  in the list with the group and the display name asked for, whether the user was there or not;
  removing the user then succeeds and no entry for the user is left.
\<close>

theorem add_then_remove_buddy:
  assumes ps: "protocols_ok ps" and ok: "all_handles (roster_ok ps) st"
    and h: "the_handle conn st = Some h" "h_connected h = FCS_NOTCONNECTED"
    and hack: "s_isonline_hack st = None"
  shows "\<exists>st1 h1 b st2 h2. firetalk_im_add_buddy ps conn name grp fr st = Some (FE_SUCCESS, st1) \<and>
    the_handle conn st1 = Some h1 \<and> firetalk_im_find_buddy ps h1 name = Some b \<and>
    b_group b = grp \<and> b_friendly b = fr \<and>
    firetalk_im_remove_buddy ps conn name st1 = Some (FE_SUCCESS, st2) \<and>
    the_handle conn st2 = Some h2 \<and> firetalk_im_find_buddy ps h2 name = None"
proof -
  have rok: "roster_ok ps h" using all_handlesD [OF ok h(1)] .
  then have known: "protocol_known ps h" by (simp add: roster_ok_def)
  note eq = same_nick_equiv [OF ps known]
  obtain st1 h1 where st1: "firetalk_im_add_buddy ps conn name grp fr st = Some (FE_SUCCESS, st1)"
    "the_handle conn st1 = Some h1" "h_connected h1 = FCS_NOTCONNECTED"
    and h1: "h1 = (case firetalk_im_find_buddy ps h name of
       None \<Rightarrow> h\<lparr>h_buddies := new_buddy name grp fr # h_buddies h\<rparr>
     | Some iter \<Rightarrow> if same_place iter grp fr then h
         else upd_buddy ps name (\<lambda>b. b\<lparr>b_group := grp, b_friendly := fr\<rparr>) h)"
    using add_buddy_offline [OF h hack] by blast
  have sn: "same_nick ps h1 = same_nick ps h"
    unfolding h1 by (simp split: option.split)
  have rok1: "roster_ok ps h1"
    unfolding h1 using rok eq(1)
    by (auto split: option.split intro!: roster_ok_insert [OF ps] roster_ok_upd_buddy [OF ps]
        simp: buddy_clean_def)
  obtain b where b: "firetalk_im_find_buddy ps h1 name = Some b" "b_group b = grp" "b_friendly b = fr"
  proof (cases "firetalk_im_find_buddy ps h name")
    case None
    then show thesis using that h1 eq(1) by (simp add: find_buddy_put new_buddy_def)
  next
    case (Some iter)
    show thesis
    proof (cases "same_place iter grp fr")
      case True
      with Some h1 show thesis using that same_placeD by auto
    next
      case False
      have "firetalk_im_find_buddy ps h1 name = Some (iter\<lparr>b_group := grp, b_friendly := fr\<rparr>)"
        using False Some h1 by (simp add: find_upd_buddy)
      then show thesis by (rule that) simp_all
    qed
  qed
  let ?h2 = "h1\<lparr>h_buddies := remove_first (\<lambda>iter. same_nick ps h1 name (b_nickname iter)) (h_buddies h1)\<rparr>"
  have "\<not> (\<exists>y \<in> set (remove_first (\<lambda>iter. same_nick ps h1 name (b_nickname iter)) (h_buddies h1)).
      same_nick ps h1 name (b_nickname y))"
    using rok1 eq(2,3) unfolding roster_ok_def buddy_names_ok_def sn
    by (intro remove_first_key_gone) blast+
  then have "firetalk_im_find_buddy ps ?h2 name = None"
    unfolding find_buddy_put find_None_conv sn using eq(2) by blast
  then show ?thesis
    using st1 b remove_buddy_offline [OF st1(2,3) b(1)] by (auto simp: conn_simps)
qed

theorem add_then_remove_buddy_witness:
  "\<exists>st1 st2. firetalk_im_add_buddy [quiet_protocol] 7 ''Bob'' ''Work'' None
       (single_state (new_handle (Some 1) 0 0)) = Some (FE_SUCCESS, st1) \<and>
     firetalk_im_remove_buddy [quiet_protocol] 7 ''Bob'' st1 = Some (FE_SUCCESS, st2)"
proof -
  have "h_connected (new_handle (Some 1) 0 0) = FCS_NOTCONNECTED"
    and "s_isonline_hack (single_state (new_handle (Some 1) 0 0)) = None"
    by (simp_all add: new_handle_def single_state_def)
  then show ?thesis
    using add_then_remove_buddy [of "[quiet_protocol]" "single_state (new_handle (Some 1) 0 0)" 7
        "new_handle (Some 1) 0 0" "''Bob''" "''Work''" None]
    by auto
qed

section \<open>The sender of a message becomes an online buddy\<close>

text \<open>
  If the client's handler for a message adds the sender to the roster (of a listening,
  connected handle, the sender being neither denied nor yet a buddy) and the protocol accepts
  the buddy, then after the message the sender is in the roster and online, and
  \<open>isonline_hack\<close> is cleared.
\<close>

theorem message_adds_sender_online:
  assumes ps: "protocols_ok ps" and ok: "all_handles (roster_ok ps) st"
    and c: "firetalk_find_handle c st = Some conn" and h: "the_handle conn st = Some h"
    and dist: "distinct (map fst (s_handles st))"
    and listen: "h_callbacks h FC_IM_GETMESSAGE" and conn: "h_connected h \<noteq> FCS_NOTCONNECTED"
    and new: "firetalk_im_find_buddy ps h sender = None"
    and denied: "\<not> (\<exists>iter \<in> set (h_denies h). same_nick ps h sender (d_nickname iter))"
    and ad: "strstr msg candidclicks = None"
    and accept: "\<And>cl n g f s. p_im_add_buddy (proto ps h) cl n g f s = Some (FE_SUCCESS, s)"
  shows "\<exists>st' h' b. firetalk_callback_im_getmessage ps c sender auto msg
      (\<lambda>s. map_option snd (firetalk_im_add_buddy ps conn sender grp fr s)) st = Some st' \<and>
    the_handle conn st' = Some h' \<and> firetalk_im_find_buddy ps h' sender = Some b \<and>
    b_online b \<and> s_isonline_hack st' = None"
proof -
  have known: "protocol_known ps h" using all_handlesD [OF ok h] by (simp add: roster_ok_def)
  have hc: "h_handle h = c" using c dist h by (elim firetalk_find_handle_the) auto
  note refl = same_nick_equiv(1) [OF ps known]
  let ?s0 = "log_event conn (Callback FC_IM_GETMESSAGE
      [AStr (Some sender), AInt auto, AStr (Some msg)]) (st\<lparr>s_isonline_hack := Some sender\<rparr>)"
  let ?h1 = "h\<lparr>h_buddies := new_buddy sender grp fr # h_buddies h\<rparr>"
  let ?s1 = "put_handle conn ?h1 ?s0"
  have s0: "the_handle conn ?s0 = Some h" and s1: "the_handle conn ?s1 = Some ?h1"
    using h by (simp_all add: conn_simps)
  have hack: "s_isonline_hack ?s1 = Some sender" by (simp add: put_handle_def log_event_def)
  have p1: "proto ps ?h1 = proto ps h" by (simp add: proto_def)
  have find1: "firetalk_find_handle c ?s1 = Some conn"
    using c s0 hc by (simp add: conn_simps)
  have clean: "\<not> b_away (new_buddy sender grp fr)" "b_typing (new_buddy sender grp fr) = 0"
    "b_warnval (new_buddy sender grp fr) = 0" "b_idletime (new_buddy sender grp fr) = 0"
    "\<not> b_online (new_buddy sender grp fr)" "b_nickname (new_buddy sender grp fr) = sender"
    by (simp_all add: new_buddy_def)
  have fb: "firetalk_im_find_buddy ps ?h1 sender = Some (new_buddy sender grp fr)"
    using refl clean by (simp add: find_buddy_put)
  let ?on = "\<lambda>b. b\<lparr>b_online := True,
     b_nickname := (if strcmp (b_nickname b) sender \<noteq> 0 then sender else b_nickname b)\<rparr>"
  let ?h2 = "upd_buddy ps sender ?on ?h1"
  let ?s2 = "emit conn FC_IM_BUDDYONLINE [AStr (Some sender)] (put_handle conn ?h2 ?s1)"
  have online: "firetalk_callback_im_buddyonline ps c sender 1 ?s1 = Some ?s2"
    using find1 s1 fb clean by (simp add: firetalk_callback_im_buddyonline_def)
  have "firetalk_im_add_buddy ps conn sender grp fr ?s0 = Some (FE_SUCCESS, ?s2)"
    using s0 s1 new conn hack refl online accept p1 hc
    by (simp add: firetalk_im_add_buddy_def firetalk_im_insert_buddy_def)
  then have "firetalk_callback_im_getmessage ps c sender auto msg
      (\<lambda>s. map_option snd (firetalk_im_add_buddy ps conn sender grp fr s)) st =
      Some (?s2\<lparr>s_isonline_hack := None\<rparr>)"
    using c h listen denied ad by (simp add: firetalk_callback_im_getmessage_def deliver_def)
  moreover have "the_handle conn (?s2\<lparr>s_isonline_hack := None\<rparr>) = Some ?h2"
    by (simp add: conn_simps)
  moreover have "firetalk_im_find_buddy ps ?h2 sender = Some (?on (new_buddy sender grp fr))"
    using refl fb by (subst find_upd_buddy) auto
  ultimately show ?thesis by auto
qed

theorem message_adds_sender_online_witness:
  "\<exists>st'. firetalk_callback_im_getmessage [quiet_protocol] (Some 1) ''Bob'' 0 ''hi''
      (\<lambda>s. map_option snd (firetalk_im_add_buddy [quiet_protocol] 7 ''Bob'' ''Work'' None s))
      (single_state online_handle) = Some st' \<and> s_isonline_hack st' = None"
proof -
  have "firetalk_find_handle (Some 1) (single_state online_handle) = Some 7"
    by (simp add: firetalk_find_handle_def single_state_def online_handle_def new_handle_def)
  moreover have "distinct (map fst (s_handles (single_state online_handle)))"
    by (simp add: single_state_def)
  moreover have "h_callbacks online_handle FC_IM_GETMESSAGE"
    and "h_connected online_handle \<noteq> FCS_NOTCONNECTED"
    by (simp_all add: online_handle_def)
  moreover have "firetalk_im_find_buddy [quiet_protocol] online_handle ''Bob'' = None"
    by code_simp
  moreover have "\<not> (\<exists>iter \<in> set (h_denies online_handle).
      same_nick [quiet_protocol] online_handle ''Bob'' (d_nickname iter))"
    by code_simp
  moreover have "strstr ''hi'' candidclicks = None" by code_simp
  moreover have "p_im_add_buddy (proto [quiet_protocol] online_handle) cl n g f s = Some (FE_SUCCESS, s)"
    for cl n g f s
    by (simp add: proto_def online_handle_def new_handle_def quiet_protocol_def succeed_def)
  ultimately have "\<exists>st' h' b. firetalk_callback_im_getmessage [quiet_protocol] (Some 1) ''Bob'' 0 ''hi''
      (\<lambda>s. map_option snd (firetalk_im_add_buddy [quiet_protocol] 7 ''Bob'' ''Work'' None s))
      (single_state online_handle) = Some st' \<and>
    the_handle 7 st' = Some h' \<and> firetalk_im_find_buddy [quiet_protocol] h' ''Bob'' = Some b \<and>
    b_online b \<and> s_isonline_hack st' = None"
    by (intro message_adds_sender_online [where h = online_handle]) simp_all
  then show ?thesis by blast
qed

end
