(* ===== verification/FtChat.thy ===== *)
theory FtChat
  imports FtRoster
begin

text \<open>
  The chat rooms of \<open>firetalk/firetalk.c\<close>: the list of rooms of a handle, each with its list
  of members, and the callbacks through which a protocol reports what happens in a room.
\<close>

section \<open>Rooms and members\<close>

definition new_room :: "string \<Rightarrow> ft_room" where
  "new_room name = \<lparr>r_name = name, r_members = [], r_admin = False, r_sentjoin = False\<rparr>"

definition new_member :: "string \<Rightarrow> ft_member" where
  "new_member nickname = \<lparr>m_nickname = nickname, m_admin = False\<rparr>"

definition firetalk_chat_internal_add_room :: "ft_protocol list \<Rightarrow> nat \<Rightarrow> string \<Rightarrow> ft_op" where
  "firetalk_chat_internal_add_room ps conn name st = do {
     h \<leftarrow> the_handle conn st;
     if \<exists>iter \<in> set (h_rooms h). same_nick ps h (r_name iter) name then Some (FE_DUPEROOM, st)
     else Some (FE_SUCCESS, put_handle conn (h\<lparr>h_rooms := new_room name # h_rooms h\<rparr>) st)
   }"

text \<open>Writing through a pointer to the first room that has the given name.\<close>

definition upd_room ::
  "ft_protocol list \<Rightarrow> string \<Rightarrow> (ft_room \<Rightarrow> ft_room) \<Rightarrow> ft_handle \<Rightarrow> ft_handle" where
  "upd_room ps room f h =
     h\<lparr>h_rooms := map_first (\<lambda>iter. same_nick ps h (r_name iter) room) f (h_rooms h)\<rparr>"

definition firetalk_chat_internal_add_member ::
  "ft_protocol list \<Rightarrow> nat \<Rightarrow> string \<Rightarrow> string \<Rightarrow> ft_op" where
  "firetalk_chat_internal_add_member ps conn room nickname st = do {
     h \<leftarrow> the_handle conn st;
     (case List.find (\<lambda>iter. same_nick ps h (r_name iter) room) (h_rooms h) of
        None \<Rightarrow> Some (FE_NOTFOUND, st)
      | Some iter \<Rightarrow>
          if \<exists>m \<in> set (r_members iter). same_nick ps h (m_nickname m) nickname
          then Some (FE_SUCCESS, st)
          else Some (FE_SUCCESS, put_handle conn (upd_room ps room
            (\<lambda>iter. iter\<lparr>r_members := new_member nickname # r_members iter\<rparr>) h) st))
   }"

definition firetalk_chat_internal_remove_room :: "ft_protocol list \<Rightarrow> nat \<Rightarrow> string \<Rightarrow> ft_op" where
  "firetalk_chat_internal_remove_room ps conn name st = do {
     h \<leftarrow> the_handle conn st;
     if \<exists>iter \<in> set (h_rooms h). same_nick ps h name (r_name iter) then
       Some (FE_SUCCESS, put_handle conn (h\<lparr>h_rooms :=
         remove_first (\<lambda>iter. same_nick ps h name (r_name iter)) (h_rooms h)\<rparr>) st)
     else Some (FE_NOTFOUND, st)
   }"

text \<open>A member that is not in the room is removed successfully, too.\<close>

definition firetalk_chat_internal_remove_member ::
  "ft_protocol list \<Rightarrow> nat \<Rightarrow> string \<Rightarrow> string \<Rightarrow> ft_op" where
  "firetalk_chat_internal_remove_member ps conn room nickname st = do {
     h \<leftarrow> the_handle conn st;
     (case List.find (\<lambda>iter. same_nick ps h (r_name iter) room) (h_rooms h) of
        None \<Rightarrow> Some (FE_NOTFOUND, st)
      | Some iter \<Rightarrow>
          Some (FE_SUCCESS, put_handle conn (upd_room ps room (\<lambda>iter. iter\<lparr>r_members :=
            remove_first (\<lambda>m. same_nick ps h (m_nickname m) nickname) (r_members iter)\<rparr>) h) st))
   }"

text \<open>
  \<open>firetalk_find_room\<close> normalises the name first; it and \<open>firetalk_find_member\<close> leave
  \<open>FE_NOTFOUND\<close> in the global error variable when they fail. A normalised name of \<open>NULL\<close>
  (the TOC protocol answers it for a name that is too long) matches no room, as
  \<open>toc_compare_nicks\<close> has it.
\<close>

definition firetalk_find_room ::
  "ft_protocol list \<Rightarrow> nat \<Rightarrow> string \<Rightarrow> ft_state \<Rightarrow> (ft_room option \<times> ft_state) option" where
  "firetalk_find_room ps conn room st = do {
     h \<leftarrow> the_handle conn st;
     (case p_room_normalize (proto ps h) room of
        None \<Rightarrow> Some (None, st\<lparr>s_error := FE_NOTFOUND\<rparr>)
      | Some normalroom \<Rightarrow>
          (case List.find (\<lambda>iter. same_nick ps h (r_name iter) normalroom) (h_rooms h) of
             None \<Rightarrow> Some (None, st\<lparr>s_error := FE_NOTFOUND\<rparr>)
           | Some r \<Rightarrow> Some (Some r, st)))
   }"

definition firetalk_find_member ::
  "ft_protocol list \<Rightarrow> ft_handle \<Rightarrow> ft_room \<Rightarrow> string \<Rightarrow> ft_state \<Rightarrow> ft_member option \<times> ft_state" where
  "firetalk_find_member ps h r name st =
     (case List.find (\<lambda>m. same_nick ps h (m_nickname m) name) (r_members r) of
        None \<Rightarrow> (None, st\<lparr>s_error := FE_NOTFOUND\<rparr>)
      | Some m \<Rightarrow> (Some m, st))"

definition firetalk_user_visible :: "ft_protocol list \<Rightarrow> nat \<Rightarrow> string \<Rightarrow> ft_state \<Rightarrow> fte option" where
  "firetalk_user_visible ps conn nickname st = do {
     h \<leftarrow> the_handle conn st;
     Some (if \<exists>iter \<in> set (h_rooms h). \<exists>mem \<in> set (r_members iter).
              same_nick ps h (m_nickname mem) nickname
           then FE_SUCCESS else FE_NOMATCH)
   }"

definition firetalk_user_visible_but ::
  "ft_protocol list \<Rightarrow> nat \<Rightarrow> string \<Rightarrow> string \<Rightarrow> ft_state \<Rightarrow> fte option" where
  "firetalk_user_visible_but ps conn room nickname st = do {
     h \<leftarrow> the_handle conn st;
     Some (if \<exists>iter \<in> set (h_rooms h). \<not> same_nick ps h (r_name iter) room \<and>
              (\<exists>mem \<in> set (r_members iter). same_nick ps h (m_nickname mem) nickname)
           then FE_SUCCESS else FE_NOMATCH)
   }"

section \<open>What the protocol reports about a room\<close>

definition firetalk_callback_chat_joined ::
  "ft_protocol list \<Rightarrow> client \<Rightarrow> string \<Rightarrow> ft_state \<Rightarrow> ft_state option" where
  "firetalk_callback_chat_joined ps c room st = do {
     conn \<leftarrow> firetalk_find_handle c st;
     (_, st) \<leftarrow> firetalk_chat_internal_add_room ps conn room st;
     Some st
   }"

definition firetalk_callback_chat_left ::
  "ft_protocol list \<Rightarrow> client \<Rightarrow> string \<Rightarrow> ft_state \<Rightarrow> ft_state option" where
  "firetalk_callback_chat_left ps c room st = do {
     conn \<leftarrow> firetalk_find_handle c st;
     (e, st) \<leftarrow> firetalk_chat_internal_remove_room ps conn room st;
     if e \<noteq> FE_SUCCESS then Some st
     else Some (emit conn FC_CHAT_LEFT [AStr (Some room)] st)
   }"

definition firetalk_callback_chat_kicked ::
  "ft_protocol list \<Rightarrow> client \<Rightarrow> string \<Rightarrow> string option \<Rightarrow> string option \<Rightarrow> ft_state \<Rightarrow> ft_state option" where
  "firetalk_callback_chat_kicked ps c room by_who reason st = do {
     conn \<leftarrow> firetalk_find_handle c st;
     (e, st) \<leftarrow> firetalk_chat_internal_remove_room ps conn room st;
     if e \<noteq> FE_SUCCESS then Some st
     else Some (emit conn FC_CHAT_KICKED [AStr (Some room), AStr by_who, AStr reason] st)
   }"

text \<open>A report that is only passed on to the client.\<close>

definition pass_on :: "client \<Rightarrow> ft_callback \<Rightarrow> ft_arg list \<Rightarrow> ft_state \<Rightarrow> ft_state option" where
  "pass_on c fc args st = do {
     conn \<leftarrow> firetalk_find_handle c st;
     _ \<leftarrow> the_handle conn st;
     Some (emit conn fc args st)
   }"

definition firetalk_callback_chat_getmessage ::
  "client \<Rightarrow> string \<Rightarrow> string option \<Rightarrow> int \<Rightarrow> string \<Rightarrow> ft_state \<Rightarrow> ft_state option" where
  "firetalk_callback_chat_getmessage c room who automessage message =
     pass_on c FC_CHAT_GETMESSAGE [AStr (Some room), AStr who, AInt automessage, AStr (Some message)]"

definition firetalk_callback_chat_getaction ::
  "client \<Rightarrow> string \<Rightarrow> string option \<Rightarrow> int \<Rightarrow> string \<Rightarrow> ft_state \<Rightarrow> ft_state option" where
  "firetalk_callback_chat_getaction c room who automessage message =
     pass_on c FC_CHAT_GETACTION [AStr (Some room), AStr who, AInt automessage, AStr (Some message)]"

definition firetalk_callback_chat_invited ::
  "client \<Rightarrow> string \<Rightarrow> string option \<Rightarrow> string option \<Rightarrow> ft_state \<Rightarrow> ft_state option" where
  "firetalk_callback_chat_invited c room who message =
     pass_on c FC_CHAT_INVITED [AStr (Some room), AStr who, AStr message]"

definition firetalk_callback_chat_keychanged ::
  "client \<Rightarrow> string \<Rightarrow> string option \<Rightarrow> string option \<Rightarrow> ft_state \<Rightarrow> ft_state option" where
  "firetalk_callback_chat_keychanged c room what by_who =
     pass_on c FC_CHAT_KEYCHANGED [AStr (Some room), AStr what, AStr by_who]"

text \<open>
  \<open>who\<close> is \<open>NULL\<close> for the end of the member list: the client then learns, once, that it has
  joined. The flag \<open>sentjoin\<close> is read through the pointer that \<open>firetalk_find_room\<close> returned
  before the member was added.
\<close>

definition firetalk_callback_chat_user_joined ::
  "ft_protocol list \<Rightarrow> client \<Rightarrow> string \<Rightarrow> string option \<Rightarrow> string option \<Rightarrow> ft_state \<Rightarrow> ft_state option" where
  "firetalk_callback_chat_user_joined ps c room who extra st = do {
     conn \<leftarrow> firetalk_find_handle c st;
     (iter, st) \<leftarrow> firetalk_find_room ps conn room st;
     (case iter of
        None \<Rightarrow> Some st
      | Some r \<Rightarrow>
          (case who of
             None \<Rightarrow>
               if \<not> r_sentjoin r then do {
                 h \<leftarrow> the_handle conn st;
                 normalroom \<leftarrow> p_room_normalize (proto ps h) room;
                 Some (emit conn FC_CHAT_JOINED [AStr (Some room)]
                   (put_handle conn (upd_room ps normalroom (\<lambda>r. r\<lparr>r_sentjoin := True\<rparr>) h) st))
               } else Some st
           | Some nick \<Rightarrow> do {
               (e, st) \<leftarrow> firetalk_chat_internal_add_member ps conn room nick st;
               if e \<noteq> FE_SUCCESS then Some st
               else if r_sentjoin r
               then Some (emit conn FC_CHAT_USER_JOINED
                 [AStr (Some room), AStr (Some nick), AStr extra] st)
               else Some st
             }))
   }"

definition firetalk_callback_chat_user_left ::
  "ft_protocol list \<Rightarrow> client \<Rightarrow> string \<Rightarrow> string \<Rightarrow> string option \<Rightarrow> ft_state \<Rightarrow> ft_state option" where
  "firetalk_callback_chat_user_left ps c room who reason st = do {
     conn \<leftarrow> firetalk_find_handle c st;
     (e, st) \<leftarrow> firetalk_chat_internal_remove_member ps conn room who st;
     if e \<noteq> FE_SUCCESS then Some st
     else Some (emit conn FC_CHAT_USER_LEFT [AStr (Some room), AStr (Some who), AStr reason] st)
   }"

definition firetalk_callback_chat_user_kicked ::
  "ft_protocol list \<Rightarrow> client \<Rightarrow> string \<Rightarrow> string \<Rightarrow> string option \<Rightarrow> string option \<Rightarrow>
   ft_state \<Rightarrow> ft_state option" where
  "firetalk_callback_chat_user_kicked ps c room who by_who reason st = do {
     conn \<leftarrow> firetalk_find_handle c st;
     (e, st) \<leftarrow> firetalk_chat_internal_remove_member ps conn room who st;
     if e \<noteq> FE_SUCCESS then Some st
     else Some (emit conn FC_CHAT_USER_KICKED
       [AStr (Some room), AStr (Some who), AStr by_who, AStr reason] st)
   }"

text \<open>
  The two nested loops of \<open>firetalk_callback_chat_user_quit\<close>: for every room, for every member
  of that room that is the user, the user leaves the room. The names of rooms and members are
  the ones the loops read before the call that may free the member.
\<close>

fun quit_members ::
  "ft_protocol list \<Rightarrow> client \<Rightarrow> string \<Rightarrow> (string \<Rightarrow> bool) \<Rightarrow> string \<Rightarrow> string option \<Rightarrow>
   ft_member list \<Rightarrow> ft_state \<Rightarrow> ft_state option" where
  "quit_members ps c room is_who who reason [] st = Some st"
| "quit_members ps c room is_who who reason (m # ms) st =
     (if is_who (m_nickname m) then do {
        st \<leftarrow> firetalk_callback_chat_user_left ps c room who reason st;
        quit_members ps c room is_who who reason ms st
      } else quit_members ps c room is_who who reason ms st)"

fun quit_rooms ::
  "ft_protocol list \<Rightarrow> client \<Rightarrow> (string \<Rightarrow> bool) \<Rightarrow> string \<Rightarrow> string option \<Rightarrow>
   ft_room list \<Rightarrow> ft_state \<Rightarrow> ft_state option" where
  "quit_rooms ps c is_who who reason [] st = Some st"
| "quit_rooms ps c is_who who reason (r # rs) st = do {
     st \<leftarrow> quit_members ps c (r_name r) is_who who reason (r_members r) st;
     quit_rooms ps c is_who who reason rs st
   }"

definition firetalk_callback_chat_user_quit ::
  "ft_protocol list \<Rightarrow> client \<Rightarrow> string \<Rightarrow> string option \<Rightarrow> ft_state \<Rightarrow> ft_state option" where
  "firetalk_callback_chat_user_quit ps c who reason st = do {
     conn \<leftarrow> firetalk_find_handle c st;
     h \<leftarrow> the_handle conn st;
     quit_rooms ps c (\<lambda>nick. same_nick ps h nick who) who reason (h_rooms h) st
   }"

definition firetalk_callback_chat_gottopic ::
  "ft_protocol list \<Rightarrow> client \<Rightarrow> string \<Rightarrow> string option \<Rightarrow> string option \<Rightarrow> ft_state \<Rightarrow> ft_state option" where
  "firetalk_callback_chat_gottopic ps c room topic author st = do {
     conn \<leftarrow> firetalk_find_handle c st;
     (r, st) \<leftarrow> firetalk_find_room ps conn room st;
     (case r of
        None \<Rightarrow> Some st
      | Some _ \<Rightarrow> Some (emit conn FC_CHAT_GOTTOPIC [AStr (Some room), AStr topic, AStr author] st))
   }"

text \<open>
  \<open>firetalk_callback_chat_user_opped\<close> and \<open>_deopped\<close>: find the room and the member, set the
  flag, tell the client when it changed. \<open>op_member\<close> is their common shape.
\<close>

definition op_member ::
  "ft_protocol list \<Rightarrow> client \<Rightarrow> string \<Rightarrow> string \<Rightarrow> string option \<Rightarrow> bool \<Rightarrow> ft_callback \<Rightarrow>
   ft_state \<Rightarrow> ft_state option" where
  "op_member ps c room who by_who flag fc st = do {
     conn \<leftarrow> firetalk_find_handle c st;
     (r, st) \<leftarrow> firetalk_find_room ps conn room st;
     h \<leftarrow> the_handle conn st;
     (case r of
        None \<Rightarrow> Some st
      | Some r \<Rightarrow>
          (case firetalk_find_member ps h r who st of
             (None, st) \<Rightarrow> Some st
           | (Some m, st) \<Rightarrow>
               if m_admin m \<noteq> flag then do {
                 normalroom \<leftarrow> p_room_normalize (proto ps h) room;
                 Some (emit conn fc [AStr (Some room), AStr (Some who), AStr by_who]
                   (put_handle conn (upd_room ps normalroom (\<lambda>r. r\<lparr>r_members :=
                      map_first (\<lambda>m. same_nick ps h (m_nickname m) who) (\<lambda>m. m\<lparr>m_admin := flag\<rparr>)
                        (r_members r)\<rparr>) h) st))
               } else Some st))
   }"

definition firetalk_callback_chat_user_opped ::
  "ft_protocol list \<Rightarrow> client \<Rightarrow> string \<Rightarrow> string \<Rightarrow> string option \<Rightarrow> ft_state \<Rightarrow> ft_state option" where
  "firetalk_callback_chat_user_opped ps c room who by_who =
     op_member ps c room who by_who True FC_CHAT_USER_OPPED"

definition firetalk_callback_chat_user_deopped ::
  "ft_protocol list \<Rightarrow> client \<Rightarrow> string \<Rightarrow> string \<Rightarrow> string option \<Rightarrow> ft_state \<Rightarrow> ft_state option" where
  "firetalk_callback_chat_user_deopped ps c room who by_who =
     op_member ps c room who by_who False FC_CHAT_USER_DEOPPED"

definition op_room ::
  "ft_protocol list \<Rightarrow> client \<Rightarrow> string \<Rightarrow> string option \<Rightarrow> bool \<Rightarrow> ft_callback \<Rightarrow>
   ft_state \<Rightarrow> ft_state option" where
  "op_room ps c room by_who flag fc st = do {
     conn \<leftarrow> firetalk_find_handle c st;
     (r, st) \<leftarrow> firetalk_find_room ps conn room st;
     (case r of
        None \<Rightarrow> Some st
      | Some r \<Rightarrow>
          if r_admin r \<noteq> flag then do {
            h \<leftarrow> the_handle conn st;
            normalroom \<leftarrow> p_room_normalize (proto ps h) room;
            Some (emit conn fc [AStr (Some room), AStr by_who]
              (put_handle conn (upd_room ps normalroom (\<lambda>r. r\<lparr>r_admin := flag\<rparr>) h) st))
          } else Some st)
   }"

definition firetalk_callback_chat_opped ::
  "ft_protocol list \<Rightarrow> client \<Rightarrow> string \<Rightarrow> string option \<Rightarrow> ft_state \<Rightarrow> ft_state option" where
  "firetalk_callback_chat_opped ps c room by_who = op_room ps c room by_who True FC_CHAT_OPPED"

definition firetalk_callback_chat_deopped ::
  "ft_protocol list \<Rightarrow> client \<Rightarrow> string \<Rightarrow> string option \<Rightarrow> ft_state \<Rightarrow> ft_state option" where
  "firetalk_callback_chat_deopped ps c room by_who = op_room ps c room by_who False FC_CHAT_DEOPPED"

section \<open>A user changes the nickname\<close>

text \<open>
  The buddy first, then in every room the first member with the old name (the inner loop ends
  with \<open>break\<close> at it). The client is told with the name the list had before.
\<close>

definition rename_member ::
  "ft_protocol list \<Rightarrow> ft_handle \<Rightarrow> string \<Rightarrow> string \<Rightarrow> ft_room \<Rightarrow> ft_room" where
  "rename_member ps h oldnick newnick r =
     r\<lparr>r_members := map_first (\<lambda>m. same_nick ps h (m_nickname m) oldnick)
        (\<lambda>m. m\<lparr>m_nickname := newnick\<rparr>) (r_members r)\<rparr>"

definition rename_event ::
  "ft_protocol list \<Rightarrow> ft_handle \<Rightarrow> string \<Rightarrow> string \<Rightarrow> ft_room \<Rightarrow> (ft_callback \<times> ft_arg list) list" where
  "rename_event ps h oldnick newnick r =
     (case List.find (\<lambda>m. same_nick ps h (m_nickname m) oldnick) (r_members r) of
        None \<Rightarrow> []
      | Some m \<Rightarrow>
          if strcmp (m_nickname m) newnick \<noteq> 0
          then [(FC_CHAT_USER_NICKCHANGED,
                 [AStr (Some (r_name r)), AStr (Some (m_nickname m)), AStr (Some newnick)])]
          else [])"

definition firetalk_callback_user_nickchanged ::
  "ft_protocol list \<Rightarrow> client \<Rightarrow> string \<Rightarrow> string \<Rightarrow> ft_state \<Rightarrow> ft_state option" where
  "firetalk_callback_user_nickchanged ps c oldnick newnick st = do {
     conn \<leftarrow> firetalk_find_handle c st;
     h \<leftarrow> the_handle conn st;
     let st =
       (case firetalk_im_find_buddy ps h oldnick of
          None \<Rightarrow> st
        | Some b \<Rightarrow>
            if strcmp (b_nickname b) newnick \<noteq> 0 then
              emit conn FC_IM_USER_NICKCHANGED [AStr (Some (b_nickname b)), AStr (Some newnick)]
                (put_handle conn (upd_buddy ps oldnick (\<lambda>b. b\<lparr>b_nickname := newnick\<rparr>) h) st)
            else st);
     h \<leftarrow> the_handle conn st;
     Some (emit_all conn (concat (map (rename_event ps h oldnick newnick) (h_rooms h)))
       (put_handle conn (h\<lparr>h_rooms := map (rename_member ps h oldnick newnick) (h_rooms h)\<rparr>) st))
   }"

section \<open>Requests of the client\<close>

text \<open>
  Every request checks the connection state, normalises the room name and hands over to the
  protocol; joining, leaving need only a connection, the others an active session.
\<close>

definition chat_request ::
  "ft_protocol list \<Rightarrow> (connectstate \<Rightarrow> bool) \<Rightarrow> (ft_protocol \<Rightarrow> client \<Rightarrow> string \<Rightarrow> ft_op) \<Rightarrow>
   nat \<Rightarrow> string \<Rightarrow> ft_op" where
  "chat_request ps allowed call conn room st = do {
     h \<leftarrow> the_handle conn st;
     if \<not> allowed (h_connected h) then Some (FE_NOTCONNECTED, st)
     else (case p_room_normalize (proto ps h) room of
        None \<Rightarrow> Some (FE_ROOMUNAVAILABLE, st)
      | Some normalroom \<Rightarrow> call (proto ps h) (h_handle h) normalroom st)
   }"

definition connected_any :: "connectstate \<Rightarrow> bool" where
  "connected_any s \<longleftrightarrow> s \<noteq> FCS_NOTCONNECTED"

definition connected_active :: "connectstate \<Rightarrow> bool" where
  "connected_active s \<longleftrightarrow> s = FCS_ACTIVE"

definition firetalk_chat_join :: "ft_protocol list \<Rightarrow> nat \<Rightarrow> string \<Rightarrow> ft_op" where
  "firetalk_chat_join ps = chat_request ps connected_any p_chat_join"

definition firetalk_chat_part :: "ft_protocol list \<Rightarrow> nat \<Rightarrow> string \<Rightarrow> ft_op" where
  "firetalk_chat_part ps = chat_request ps connected_any p_chat_part"

text \<open>A room that starts with a colon is a raw target and is not normalised.\<close>

definition firetalk_chat_send_message ::
  "ft_protocol list \<Rightarrow> nat \<Rightarrow> string \<Rightarrow> string \<Rightarrow> int \<Rightarrow> ft_op" where
  "firetalk_chat_send_message ps conn room message auto_flag st = do {
     h \<leftarrow> the_handle conn st;
     if h_connected h \<noteq> FCS_ACTIVE then Some (FE_NOTCONNECTED, st)
     else (case (if (case room of [] \<Rightarrow> False | ch # _ \<Rightarrow> ch = CHR '':'') then Some room
                 else p_room_normalize (proto ps h) room) of
        None \<Rightarrow> Some (FE_ROOMUNAVAILABLE, st)
      | Some normalroom \<Rightarrow>
          p_chat_send_message (proto ps h) (h_handle h) normalroom message auto_flag st)
   }"

definition firetalk_chat_send_action ::
  "ft_protocol list \<Rightarrow> nat \<Rightarrow> string \<Rightarrow> string \<Rightarrow> int \<Rightarrow> ft_op" where
  "firetalk_chat_send_action ps conn room message auto_flag =
     chat_request ps connected_active
       (\<lambda>p c r. p_chat_send_action p c r message auto_flag) conn room"

definition firetalk_chat_invite ::
  "ft_protocol list \<Rightarrow> nat \<Rightarrow> string \<Rightarrow> string \<Rightarrow> string \<Rightarrow> ft_op" where
  "firetalk_chat_invite ps conn room who message =
     chat_request ps connected_active (\<lambda>p c r. p_chat_invite p c r who message) conn room"

definition firetalk_chat_set_topic :: "ft_protocol list \<Rightarrow> nat \<Rightarrow> string \<Rightarrow> string \<Rightarrow> ft_op" where
  "firetalk_chat_set_topic ps conn room topic =
     chat_request ps connected_active (\<lambda>p c r. p_chat_set_topic p c r topic) conn room"

definition firetalk_chat_op :: "ft_protocol list \<Rightarrow> nat \<Rightarrow> string \<Rightarrow> string \<Rightarrow> ft_op" where
  "firetalk_chat_op ps conn room who =
     chat_request ps connected_active (\<lambda>p c r. p_chat_op p c r who) conn room"

definition firetalk_chat_deop :: "ft_protocol list \<Rightarrow> nat \<Rightarrow> string \<Rightarrow> string \<Rightarrow> ft_op" where
  "firetalk_chat_deop ps conn room who =
     chat_request ps connected_active (\<lambda>p c r. p_chat_deop p c r who) conn room"

definition firetalk_chat_kick :: "ft_protocol list \<Rightarrow> nat \<Rightarrow> string \<Rightarrow> string \<Rightarrow> string \<Rightarrow> ft_op" where
  "firetalk_chat_kick ps conn room who reason =
     chat_request ps connected_active (\<lambda>p c r. p_chat_kick p c r who reason) conn room"

definition firetalk_chat_requestextended :: "ft_protocol list \<Rightarrow> nat \<Rightarrow> string \<Rightarrow> ft_op" where
  "firetalk_chat_requestextended ps =
     chat_request ps connected_active p_chat_requestextended"

definition list_member_event :: "string \<Rightarrow> ft_member \<Rightarrow> ft_callback \<times> ft_arg list" where
  "list_member_event room m =
     (FC_CHAT_LISTMEMBER, [AStr (Some room), AStr (Some (m_nickname m)), AInt (bit1 (m_admin m))])"

definition firetalk_chat_listmembers :: "ft_protocol list \<Rightarrow> nat \<Rightarrow> string \<Rightarrow> ft_op" where
  "firetalk_chat_listmembers ps conn roomname st = do {
     h \<leftarrow> the_handle conn st;
     if h_connected h \<noteq> FCS_ACTIVE then Some (FE_NOTCONNECTED, st)
     else if \<not> h_callbacks h FC_CHAT_LISTMEMBER then Some (FE_SUCCESS, st)
     else do {
       (r, st) \<leftarrow> firetalk_find_room ps conn roomname st;
       (case r of
          None \<Rightarrow> Some (s_error st, st)
        | Some room \<Rightarrow>
            Some (FE_SUCCESS, emit_all conn (map (list_member_event (r_name room)) (r_members room)) st))
     }
   }"

definition firetalk_chat_normalize ::
  "ft_protocol list \<Rightarrow> nat \<Rightarrow> string \<Rightarrow> ft_state \<Rightarrow> string option option" where
  "firetalk_chat_normalize ps conn room st =
     map_option (\<lambda>h. p_room_normalize (proto ps h) room) (the_handle conn st)"

end
