(* ===== verification/FtRooms.thy ===== *)
theory FtRooms
  imports FtChat
begin

text \<open>
  The invariant of the chat rooms of a handle (no room twice, no member twice in a room), its
  preservation by every report of \<open>FtChat\<close>, and what the reports do: a user who quits leaves all
  rooms, joining is told once, a member who is not there can still leave.
\<close>

section \<open>The invariant of the rooms of a handle\<close>

definition members_ok :: "ft_protocol list \<Rightarrow> ft_handle \<Rightarrow> ft_room \<Rightarrow> bool" where
  "members_ok ps h r \<longleftrightarrow>
     pairwise_unrelated (\<lambda>x y. same_nick ps h (m_nickname x) (m_nickname y)) (r_members r)"

definition room_names_ok :: "ft_protocol list \<Rightarrow> ft_handle \<Rightarrow> bool" where
  "room_names_ok ps h \<longleftrightarrow>
     pairwise_unrelated (\<lambda>x y. same_nick ps h (r_name x) (r_name y)) (h_rooms h)"

definition rooms_ok :: "ft_protocol list \<Rightarrow> ft_handle \<Rightarrow> bool" where
  "rooms_ok ps h \<longleftrightarrow>
     protocol_known ps h \<and> room_names_ok ps h \<and> (\<forall>r \<in> set (h_rooms h). members_ok ps h r)"

lemma upd_room_fields [conn_simps]:
  "h_handle (upd_room ps n f h) = h_handle h" "h_protocol (upd_room ps n f h) = h_protocol h"
  "h_connected (upd_room ps n f h) = h_connected h" "h_callbacks (upd_room ps n f h) = h_callbacks h"
  "h_buddies (upd_room ps n f h) = h_buddies h" "h_denies (upd_room ps n f h) = h_denies h"
  "h_rooms (upd_room ps n f h) = map_first (\<lambda>iter. same_nick ps h (r_name iter) n) f (h_rooms h)"
  by (simp_all add: upd_room_def)

lemma same_nick_upd_room [simp]: "same_nick ps (upd_room ps n f h) = same_nick ps h"
  by (simp add: upd_room_def)

lemma protocol_known_fields [simp]:
  "protocol_known ps (h\<lparr>h_rooms := rs\<rparr>) = protocol_known ps h"
  "protocol_known ps (upd_room ps n f h) = protocol_known ps h"
  by (simp_all add: protocol_known_def upd_room_def)

lemma members_ok_fields [simp]:
  "members_ok ps (h\<lparr>h_rooms := rs\<rparr>) = members_ok ps h"
  "members_ok ps (upd_room ps n f h) = members_ok ps h"
  by (auto simp: members_ok_def fun_eq_iff)

lemma rooms_ok_upd_room [inv_intros]:
  assumes ps: "protocols_ok ps" and ok: "rooms_ok ps h"
    and name: "\<And>r. r_name (f r) = r_name r"
    and mem: "\<And>r. List.find (\<lambda>iter. same_nick ps h (r_name iter) n) (h_rooms h) = Some r \<Longrightarrow>
      members_ok ps h r \<Longrightarrow> members_ok ps h (f r)"
  shows "rooms_ok ps (upd_room ps n f h)"
proof -
  have names: "map r_name (h_rooms (upd_room ps n f h)) = map r_name (h_rooms h)"
    by (simp add: conn_simps map_map_first name)
  have "room_names_ok ps (upd_room ps n f h) = room_names_ok ps h"
    unfolding room_names_ok_def same_nick_upd_room by (rule pairwise_unrelated_map_cong [OF names])
  moreover have "members_ok ps h r" if "r \<in> set (h_rooms (upd_room ps n f h))" for r
    using set_map_first_cases [OF that [unfolded conn_simps]]
  proof (elim disjE exE conjE)
    assume "r \<in> set (h_rooms h)" then show ?thesis using ok by (simp add: rooms_ok_def)
  next
    fix z
    assume z: "List.find (\<lambda>iter. same_nick ps h (r_name iter) n) (h_rooms h) = Some z" "r = f z"
    then have "members_ok ps h z" using find_Some_set [OF z(1)] ok by (simp add: rooms_ok_def)
    with mem [OF z(1)] z(2) show ?thesis by simp
  qed
  ultimately show ?thesis using ok by (simp add: rooms_ok_def)
qed

lemma members_ok_add:
  assumes "protocols_ok ps" "protocol_known ps h" "members_ok ps h r"
    "\<not> (\<exists>m \<in> set (r_members r). same_nick ps h (m_nickname m) nick)"
  shows "members_ok ps h (r\<lparr>r_members := new_member nick # r_members r\<rparr>)"
proof -
  have "\<not> same_nick ps h nick (m_nickname m)" if "m \<in> set (r_members r)" for m
    using assms(4) that same_nick_equiv(2) [OF assms(1,2)] by blast
  with assms(3) show ?thesis by (simp add: members_ok_def new_member_def)
qed

lemma members_ok_remove:
  "members_ok ps h r \<Longrightarrow> members_ok ps h (r\<lparr>r_members := remove_first p (r_members r)\<rparr>)"
  by (auto simp: members_ok_def)

lemma members_ok_flags [simp]:
  "members_ok ps h (r\<lparr>r_admin := a\<rparr>) = members_ok ps h r"
  "members_ok ps h (r\<lparr>r_sentjoin := s\<rparr>) = members_ok ps h r"
  by (simp_all add: members_ok_def)

lemma members_ok_op:
  "members_ok ps h r \<Longrightarrow>
   members_ok ps h (r\<lparr>r_members := map_first p (\<lambda>m. m\<lparr>m_admin := a\<rparr>) (r_members r)\<rparr>)"
  using pairwise_unrelated_map_cong [of m_nickname
      "map_first p (\<lambda>m. m\<lparr>m_admin := a\<rparr>) (r_members r)" "r_members r" "same_nick ps h"]
  by (simp add: members_ok_def map_map_first)

lemma keep_add_room [inv_intros]:
  assumes ps: "protocols_ok ps" and ok: "all_handles (rooms_ok ps) st"
    and run: "firetalk_chat_internal_add_room ps conn n st = Some (e, st')"
  shows "all_handles (rooms_ok ps) st'"
proof -
  have "rooms_ok ps (h\<lparr>h_rooms := new_room n # h_rooms h\<rparr>)"
    if h: "the_handle conn st = Some h" and
      new: "\<not> (\<exists>iter \<in> set (h_rooms h). same_nick ps h (r_name iter) n)" for h
  proof -
    have rok: "rooms_ok ps h" using all_handlesD [OF ok h] .
    then have "\<not> same_nick ps h n (r_name r)" if "r \<in> set (h_rooms h)" for r
      using new that same_nick_equiv(2) [OF ps, of h] by (auto simp: rooms_ok_def)
    with rok show ?thesis
      by (simp add: rooms_ok_def room_names_ok_def members_ok_def new_room_def)
  qed
  with run ok show ?thesis
    by (auto simp: firetalk_chat_internal_add_room_def elim!: bindE split: branch_splits
        intro!: all_handles_put)
qed

lemma keep_remove_room [inv_intros]:
  assumes "all_handles (rooms_ok ps) st"
    and "firetalk_chat_internal_remove_room ps conn n st = Some (e, st')"
  shows "all_handles (rooms_ok ps) st'"
  using assms set_remove_first_subset
  by (fastforce simp: firetalk_chat_internal_remove_room_def rooms_ok_def room_names_ok_def
      elim!: bindE split: branch_splits intro!: all_handles_put dest: all_handlesD)

lemma keep_add_member [inv_intros]:
  assumes ps: "protocols_ok ps" and ok: "all_handles (rooms_ok ps) st"
    and run: "firetalk_chat_internal_add_member ps conn n nick st = Some (e, st')"
  shows "all_handles (rooms_ok ps) st'"
proof -
  have "rooms_ok ps (upd_room ps n (\<lambda>iter. iter\<lparr>r_members := new_member nick # r_members iter\<rparr>) h)"
    if h: "the_handle conn st = Some h"
      and r: "List.find (\<lambda>iter. same_nick ps h (r_name iter) n) (h_rooms h) = Some r"
      and new: "\<not> (\<exists>m \<in> set (r_members r). same_nick ps h (m_nickname m) nick)" for h r
    using all_handlesD [OF ok h] r new members_ok_add [OF ps, of h]
    by (intro rooms_ok_upd_room [OF ps]) (auto simp: rooms_ok_def)
  with run ok show ?thesis
    by (auto simp: firetalk_chat_internal_add_member_def elim!: bindE split: branch_splits
        intro!: all_handles_put)
qed

lemma keep_remove_member [inv_intros]:
  assumes ps: "protocols_ok ps" and ok: "all_handles (rooms_ok ps) st"
    and run: "firetalk_chat_internal_remove_member ps conn n nick st = Some (e, st')"
  shows "all_handles (rooms_ok ps) st'"
proof -
  have "rooms_ok ps (upd_room ps n (\<lambda>iter. iter\<lparr>r_members := remove_first p (r_members iter)\<rparr>) h)"
    if h: "the_handle conn st = Some h" for h p
    using all_handlesD [OF ok h] by (intro rooms_ok_upd_room [OF ps]) (auto intro: members_ok_remove)
  with run ok show ?thesis
    by (auto simp: firetalk_chat_internal_remove_member_def elim!: bindE split: branch_splits
        intro!: all_handles_put)
qed

lemma find_room_keep:
  "firetalk_find_room ps conn room st = Some (r, st') \<Longrightarrow> all_handles P st \<Longrightarrow> all_handles P st'"
  by (auto simp: firetalk_find_room_def elim!: bindE split: branch_splits)

lemma find_room_Some:
  "firetalk_find_room ps conn room st = Some (Some r, st') \<Longrightarrow> st' = st"
  by (auto simp: firetalk_find_room_def elim!: bindE split: branch_splits)

lemma find_member_keep:
  "firetalk_find_member ps h r who st = (m, st') \<Longrightarrow> all_handles P st \<Longrightarrow> all_handles P st'"
  by (auto simp: firetalk_find_member_def split: branch_splits)

lemma find_member_Some:
  "firetalk_find_member ps h r who st = (Some m, st') \<Longrightarrow> st' = st"
  by (auto simp: firetalk_find_member_def split: branch_splits)

lemma keep_upd_room:
  assumes "protocols_ok ps" "all_handles (rooms_ok ps) st" "the_handle conn st = Some h"
    "\<And>r. r_name (f r) = r_name r" "\<And>r. members_ok ps h r \<Longrightarrow> members_ok ps h (f r)"
  shows "all_handles (rooms_ok ps) (put_handle conn (upd_room ps n f h) st)"
  using assms by (intro all_handles_put rooms_ok_upd_room) (auto dest: all_handlesD)


section \<open>Reports on rooms\<close>

datatype chat_report =
    Joined string
  | Room_left string
  | Kicked string "string option" "string option"
  | Chat_message string "string option" int string
  | Chat_action string "string option" int string
  | Invited string "string option" "string option"
  | Key_changed string "string option" "string option"
  | User_joined string "string option" "string option"
  | User_left string string "string option"
  | User_kicked string string "string option" "string option"
  | User_quit string "string option"
  | Got_topic string "string option" "string option"
  | User_opped string string "string option"
  | User_deopped string string "string option"
  | Opped string "string option"
  | Deopped string "string option"

fun chat_run :: "ft_protocol list \<Rightarrow> client \<Rightarrow> chat_report \<Rightarrow> ft_state \<Rightarrow> ft_state option" where
  "chat_run ps c (Joined r) st = firetalk_callback_chat_joined ps c r st"
| "chat_run ps c (Room_left r) st = firetalk_callback_chat_left ps c r st"
| "chat_run ps c (Kicked r b x) st = firetalk_callback_chat_kicked ps c r b x st"
| "chat_run ps c (Chat_message r w a m) st = firetalk_callback_chat_getmessage c r w a m st"
| "chat_run ps c (Chat_action r w a m) st = firetalk_callback_chat_getaction c r w a m st"
| "chat_run ps c (Invited r w m) st = firetalk_callback_chat_invited c r w m st"
| "chat_run ps c (Key_changed r k b) st = firetalk_callback_chat_keychanged c r k b st"
| "chat_run ps c (User_joined r w x) st = firetalk_callback_chat_user_joined ps c r w x st"
| "chat_run ps c (User_left r w x) st = firetalk_callback_chat_user_left ps c r w x st"
| "chat_run ps c (User_kicked r w b x) st = firetalk_callback_chat_user_kicked ps c r w b x st"
| "chat_run ps c (User_quit w x) st = firetalk_callback_chat_user_quit ps c w x st"
| "chat_run ps c (Got_topic r t a) st = firetalk_callback_chat_gottopic ps c r t a st"
| "chat_run ps c (User_opped r w b) st = firetalk_callback_chat_user_opped ps c r w b st"
| "chat_run ps c (User_deopped r w b) st = firetalk_callback_chat_user_deopped ps c r w b st"
| "chat_run ps c (Opped r b) st = firetalk_callback_chat_opped ps c r b st"
| "chat_run ps c (Deopped r b) st = firetalk_callback_chat_deopped ps c r b st"

fun chat_runs :: "ft_protocol list \<Rightarrow> (client \<times> chat_report) list \<Rightarrow> ft_state \<Rightarrow> ft_state option" where
  "chat_runs ps [] st = Some st"
| "chat_runs ps ((c, e) # es) st = Option.bind (chat_run ps c e st) (chat_runs ps es)"

lemma keep_user_left [inv_intros]:
  assumes "protocols_ok ps" "all_handles (rooms_ok ps) st"
    "firetalk_callback_chat_user_left ps c r w x st = Some st'"
  shows "all_handles (rooms_ok ps) st'"
  using assms
  by (auto simp: firetalk_callback_chat_user_left_def elim!: bindE split: branch_splits)
    (blast intro: keep_remove_member)+

lemma keep_quit_members:
  assumes "protocols_ok ps"
  shows "all_handles (rooms_ok ps) st \<Longrightarrow> quit_members ps c r p w x ms st = Some st' \<Longrightarrow>
    all_handles (rooms_ok ps) st'"
  by (induction ms arbitrary: st) (auto elim!: bindE split: branch_splits dest: keep_user_left [OF assms])

lemma keep_quit_rooms:
  assumes "protocols_ok ps"
  shows "all_handles (rooms_ok ps) st \<Longrightarrow> quit_rooms ps c p w x rs st = Some st' \<Longrightarrow>
    all_handles (rooms_ok ps) st'"
  by (induction rs arbitrary: st) (auto elim!: bindE split: branch_splits dest: keep_quit_members [OF assms])

lemma keep_op_member:
  assumes ps: "protocols_ok ps" and ok: "all_handles (rooms_ok ps) st"
    and run: "op_member ps c room who by_who flag fc st = Some st'"
  shows "all_handles (rooms_ok ps) st'"
proof -
  have "all_handles (rooms_ok ps) (put_handle conn (upd_room ps n (\<lambda>r. r\<lparr>r_members :=
      map_first p (\<lambda>m. m\<lparr>m_admin := flag\<rparr>) (r_members r)\<rparr>) h) s)"
    if "all_handles (rooms_ok ps) s" "the_handle conn s = Some h" for conn h n p s
    using that by (intro keep_upd_room [OF ps]) (auto intro: members_ok_op)
  with run ok show ?thesis
    by (auto simp: op_member_def elim!: bindE split: branch_splits
        dest!: find_room_Some find_member_Some dest: find_room_keep find_member_keep)
qed

lemma keep_op_room:
  assumes ps: "protocols_ok ps" and ok: "all_handles (rooms_ok ps) st"
    and run: "op_room ps c room by_who flag fc st = Some st'"
  shows "all_handles (rooms_ok ps) st'"
proof -
  have "all_handles (rooms_ok ps) (put_handle conn (upd_room ps n (\<lambda>r. r\<lparr>r_admin := flag\<rparr>) h) s)"
    if "all_handles (rooms_ok ps) s" "the_handle conn s = Some h" for conn h n s
    using that by (intro keep_upd_room [OF ps]) auto
  with run ok show ?thesis
    by (auto simp: op_room_def elim!: bindE split: branch_splits
        dest!: find_room_Some dest: find_room_keep)
qed

lemma keep_user_joined:
  assumes ps: "protocols_ok ps" and ok: "all_handles (rooms_ok ps) st"
    and run: "firetalk_callback_chat_user_joined ps c room who extra st = Some st'"
  shows "all_handles (rooms_ok ps) st'"
proof -
  have "all_handles (rooms_ok ps) (put_handle conn (upd_room ps n (\<lambda>r. r\<lparr>r_sentjoin := True\<rparr>) h) s)"
    if "all_handles (rooms_ok ps) s" "the_handle conn s = Some h" for conn h n s
    using that by (intro keep_upd_room [OF ps]) auto
  with run ok show ?thesis
    by (auto simp: firetalk_callback_chat_user_joined_def elim!: bindE split: branch_splits
        dest!: find_room_Some dest: find_room_keep)
      (blast intro: keep_add_member [OF ps] find_room_keep)+
qed

lemma keep_pass_on [inv_intros]:
  "all_handles P st \<Longrightarrow> pass_on c fc args st = Some st' \<Longrightarrow> all_handles P st'"
  by (auto simp: pass_on_def elim!: bindE)

lemma keep_chat_run:
  assumes ps: "protocols_ok ps" and ok: "all_handles (rooms_ok ps) st"
    and run: "chat_run ps c e st = Some st'"
  shows "all_handles (rooms_ok ps) st'"
proof (cases e)
  case (User_quit w x)
  with run ok show ?thesis
    by (auto simp: firetalk_callback_chat_user_quit_def elim!: bindE dest: keep_quit_rooms [OF ps])
next
  case (User_kicked r w b x)
  with run ok show ?thesis
    by (auto simp: firetalk_callback_chat_user_kicked_def elim!: bindE split: branch_splits)
      (blast intro: keep_remove_member [OF ps])+
next
  case (Got_topic r t a)
  with run ok show ?thesis
    by (auto simp: firetalk_callback_chat_gottopic_def elim!: bindE split: branch_splits
        dest!: find_room_Some dest: find_room_keep)
next
  case (Room_left r)
  with run ok show ?thesis
    by (auto simp: firetalk_callback_chat_left_def elim!: bindE split: branch_splits)
      (blast intro: keep_remove_room)+
next
  case (Kicked r b x)
  with run ok show ?thesis
    by (auto simp: firetalk_callback_chat_kicked_def elim!: bindE split: branch_splits)
      (blast intro: keep_remove_room)+
qed (use run ok in \<open>auto simp: firetalk_callback_chat_joined_def firetalk_callback_chat_getmessage_def
      firetalk_callback_chat_getaction_def firetalk_callback_chat_invited_def
      firetalk_callback_chat_keychanged_def firetalk_callback_chat_user_opped_def
      firetalk_callback_chat_user_deopped_def firetalk_callback_chat_opped_def
      firetalk_callback_chat_deopped_def elim!: bindE split: branch_splits
      dest: keep_add_room [OF ps] keep_pass_on keep_user_left [OF ps]
        keep_op_member [OF ps] keep_op_room [OF ps] keep_user_joined [OF ps]\<close>)

lemma keep_chat_runs:
  assumes "protocols_ok ps"
  shows "all_handles (rooms_ok ps) st \<Longrightarrow> chat_runs ps es st = Some st' \<Longrightarrow>
    all_handles (rooms_ok ps) st'"
proof (induction es arbitrary: st)
  case Nil
  then show ?case by simp
next
  case (Cons e es)
  then show ?case by (cases e) (auto elim!: bindE dest: keep_chat_run [OF assms])
qed


section \<open>A user quits\<close>

text \<open>The room without the first member that is the user.\<close>

definition strip_member :: "ft_protocol list \<Rightarrow> ft_handle \<Rightarrow> string \<Rightarrow> ft_room \<Rightarrow> ft_room" where
  "strip_member ps h who r =
     r\<lparr>r_members := remove_first (\<lambda>m. same_nick ps h (m_nickname m) who) (r_members r)\<rparr>"

definition has_member :: "ft_protocol list \<Rightarrow> ft_handle \<Rightarrow> string \<Rightarrow> ft_room \<Rightarrow> bool" where
  "has_member ps h who r \<longleftrightarrow> (\<exists>m \<in> set (r_members r). same_nick ps h (m_nickname m) who)"

definition left_event :: "nat \<Rightarrow> string \<Rightarrow> string option \<Rightarrow> ft_room \<Rightarrow> nat \<times> ft_event" where
  "left_event conn who reason r =
     (conn, Callback FC_CHAT_USER_LEFT [AStr (Some (r_name r)), AStr (Some who), AStr reason])"

lemma strip_member_none: "\<not> has_member ps h who r \<Longrightarrow> strip_member ps h who r = r"
  by (simp add: strip_member_def has_member_def)

lemma strip_member_name [simp]: "r_name (strip_member ps h who r) = r_name r"
  by (simp add: strip_member_def)

lemma map_first_middle:
  "\<not> (\<exists>x \<in> set xs. p x) \<Longrightarrow> p y \<Longrightarrow> map_first p f (xs @ y # ys) = xs @ f y # ys"
  by (induction xs) auto

lemma find_middle:
  "\<not> (\<exists>x \<in> set xs. p x) \<Longrightarrow> p y \<Longrightarrow> List.find p (xs @ y # ys) = Some y"
  by (induction xs) auto

lemma quit_members_none:
  "\<not> (\<exists>m \<in> set ms. p (m_nickname m)) \<Longrightarrow> quit_members ps c room p who reason ms st = Some st"
  by (induction ms) auto

text \<open>A room without duplicates has at most one member to remove, so the inner loop acts once.\<close>

lemma quit_members_once:
  assumes eq: "\<And>a b c. same_nick ps h a c \<Longrightarrow> same_nick ps h b c \<Longrightarrow> same_nick ps h a b"
    and ok: "pairwise_unrelated (\<lambda>x y. same_nick ps h (m_nickname x) (m_nickname y)) ms"
  shows "quit_members ps c room (\<lambda>nick. same_nick ps h nick who) who reason ms st =
    (if \<exists>m \<in> set ms. same_nick ps h (m_nickname m) who
     then firetalk_callback_chat_user_left ps c room who reason st else Some st)"
  using ok
proof (induction ms arbitrary: st)
  case Nil
  then show ?case by simp
next
  case (Cons m ms)
  show ?case
  proof (cases "same_nick ps h (m_nickname m) who")
    case True
    then have "\<not> (\<exists>m \<in> set ms. same_nick ps h (m_nickname m) who)"
      using Cons.prems eq [OF True] by (simp only: pairwise_unrelated.simps) blast
    with True show ?thesis
      using quit_members_none by (cases "firetalk_callback_chat_user_left ps c room who reason st") simp_all
  next
    case False
    with Cons show ?thesis by simp
  qed
qed

text \<open>The state of a handle while the rooms are walked: the rooms before the current one are done.\<close>

lemma user_left_step:
  assumes ps: "protocols_ok ps" "protocol_known ps h"
    and c: "firetalk_find_handle c st = Some conn"
    and h: "the_handle conn st = Some (h\<lparr>h_rooms := done @ r # todo\<rparr>)"
    and names: "\<forall>d \<in> set done. \<not> same_nick ps h (r_name d) (r_name r)"
  shows "\<exists>st'. firetalk_callback_chat_user_left ps c (r_name r) who reason st = Some st' \<and>
    firetalk_find_handle c st' = Some conn \<and>
    the_handle conn st' = Some (h\<lparr>h_rooms := done @ strip_member ps h who r # todo\<rparr>) \<and>
    s_log st' = s_log st @ (if h_callbacks h FC_CHAT_USER_LEFT then [left_event conn who reason r] else [])"
proof -
  note refl = same_nick_equiv(1) [OF ps]
  let ?h = "h\<lparr>h_rooms := done @ r # todo\<rparr>"
  let ?h' = "upd_room ps (r_name r) (\<lambda>iter. iter\<lparr>r_members :=
      remove_first (\<lambda>m. same_nick ps h (m_nickname m) who) (r_members iter)\<rparr>) ?h"
  have nd: "\<not> (\<exists>d \<in> set done. same_nick ps h (r_name d) (r_name r))" using names by blast
  have h': "?h' = h\<lparr>h_rooms := done @ strip_member ps h who r # todo\<rparr>"
    using map_first_middle [OF nd, of r] refl by (simp add: upd_room_def strip_member_def)
  have "firetalk_chat_internal_remove_member ps conn (r_name r) who st =
      Some (FE_SUCCESS, put_handle conn ?h' st)"
    using h find_middle [OF nd, of r todo] refl by (simp add: firetalk_chat_internal_remove_member_def)
  with c have "firetalk_callback_chat_user_left ps c (r_name r) who reason st =
      Some (emit conn FC_CHAT_USER_LEFT [AStr (Some (r_name r)), AStr (Some who), AStr reason]
        (put_handle conn ?h' st))"
    by (simp add: firetalk_callback_chat_user_left_def)
  with c h show ?thesis
    unfolding h' by (simp add: conn_simps frame_simps left_event_def)
qed

lemma quit_rooms_spec:
  assumes ps: "protocols_ok ps" "protocol_known ps h"
  shows "firetalk_find_handle c st = Some conn \<Longrightarrow>
    the_handle conn st = Some (h\<lparr>h_rooms := done @ todo\<rparr>) \<Longrightarrow>
    pairwise_unrelated (\<lambda>x y. same_nick ps h (r_name x) (r_name y)) (done @ todo) \<Longrightarrow>
    \<forall>r \<in> set todo. members_ok ps h r \<Longrightarrow>
    \<exists>st'. quit_rooms ps c (\<lambda>nick. same_nick ps h nick who) who reason todo st = Some st' \<and>
      the_handle conn st' = Some (h\<lparr>h_rooms := done @ map (strip_member ps h who) todo\<rparr>) \<and>
      s_log st' = s_log st @ (if h_callbacks h FC_CHAT_USER_LEFT
        then map (left_event conn who reason) (filter (has_member ps h who) todo) else [])"
proof (induction todo arbitrary: "done" st)
  case Nil
  then show ?case by simp
next
  case (Cons r todo)
  have eq: "same_nick ps h a c' \<Longrightarrow> same_nick ps h b c' \<Longrightarrow> same_nick ps h a b" for a b c'
    using same_nick_equiv(2,3) [OF ps] by blast
  have mem: "quit_members ps c (r_name r) (\<lambda>nick. same_nick ps h nick who) who reason (r_members r) st =
    (if has_member ps h who r
     then firetalk_callback_chat_user_left ps c (r_name r) who reason st else Some st)"
    using Cons.prems(4) unfolding has_member_def
    by (intro quit_members_once [OF eq]) (auto simp: members_ok_def)
  let ?d = "done @ [strip_member ps h who r]"
  have "map r_name (?d @ todo) = map r_name (done @ r # todo)" by simp
  from pairwise_unrelated_map_cong [OF this, of "same_nick ps h"] Cons.prems(3)
  have pw: "pairwise_unrelated (\<lambda>x y. same_nick ps h (r_name x) (r_name y)) (?d @ todo)"
    by (rule iffD2)
  have names: "\<forall>d \<in> set done. \<not> same_nick ps h (r_name d) (r_name r)"
    using Cons.prems(3) by (simp add: pairwise_unrelated_append)
  show ?case
  proof (cases "has_member ps h who r")
    case True
    obtain st1 where st1: "firetalk_callback_chat_user_left ps c (r_name r) who reason st = Some st1"
      "firetalk_find_handle c st1 = Some conn"
      "the_handle conn st1 = Some (h\<lparr>h_rooms := ?d @ todo\<rparr>)"
      "s_log st1 = s_log st @ (if h_callbacks h FC_CHAT_USER_LEFT then [left_event conn who reason r] else [])"
      using user_left_step [OF ps Cons.prems(1,2) names] by auto
    from Cons.IH [OF st1(2,3) pw] Cons.prems(4) st1 mem True show ?thesis by auto
  next
    case False
    have "the_handle conn st = Some (h\<lparr>h_rooms := ?d @ todo\<rparr>)"
      using Cons.prems(2) strip_member_none [OF False] by simp
    from Cons.IH [OF Cons.prems(1) this pw] Cons.prems(4) mem False show ?thesis by auto
  qed
qed

lemma strip_member_members:
  "r_members (strip_member ps h who r) =
     remove_first (\<lambda>m. same_nick ps h (m_nickname m) who) (r_members r)"
  by (cases r) (simp add: strip_member_def)

lemma strip_member_gone:
  assumes ps: "protocols_ok ps" "protocol_known ps h" and ok: "members_ok ps h r"
  shows "\<not> has_member ps h who (strip_member ps h who r)"
proof -
  note eq = same_nick_equiv [OF ps]
  have comm: "(\<lambda>m. same_nick ps h (m_nickname m) who) = (\<lambda>m. same_nick ps h who (m_nickname m))"
    using eq(2) by (intro ext) blast
  have "\<not> (\<exists>y \<in> set (remove_first (\<lambda>m. same_nick ps h who (m_nickname m)) (r_members r)).
      same_nick ps h who (m_nickname y))"
    using ok eq(2,3) unfolding members_ok_def by (intro remove_first_key_gone) blast+
  then show ?thesis
    unfolding has_member_def strip_member_members comm .
qed

section \<open>Properties\<close>


definition chat_handle :: ft_handle where
  "chat_handle = (new_handle (Some 1) 0 0)\<lparr>h_connected := FCS_ACTIVE, h_fd := 3,
     h_callbacks := (\<lambda>_. True),
     h_rooms := [\<lparr>r_name = ''#one'', r_members = [new_member ''Ann'', new_member ''bob''],
                  r_admin = False, r_sentjoin = True\<rparr>,
                \<lparr>r_name = ''#two'', r_members = [new_member ''bob''],
                  r_admin = False, r_sentjoin = True\<rparr>]\<rparr>"

lemma rooms_ok_chat [simp]: "rooms_ok [quiet_protocol] chat_handle"
  by code_simp


text \<open>
  C6. A user who quits leaves every room: the report returns, no room of the handle has the user
  any more, all other members stay, and the client is told once for each room the user was in,
  in the order of the rooms.
\<close>

theorem user_quit_leaves_all_rooms:
  assumes ps: "protocols_ok ps" and ok: "all_handles (rooms_ok ps) st"
    and c: "firetalk_find_handle c st = Some conn" and h: "the_handle conn st = Some h"
  shows "\<exists>st'. firetalk_callback_chat_user_quit ps c who reason st = Some st' \<and>
    the_handle conn st' = Some (h\<lparr>h_rooms := map (strip_member ps h who) (h_rooms h)\<rparr>) \<and>
    firetalk_user_visible ps conn who st' = Some FE_NOMATCH \<and>
    s_log st' = s_log st @ (if h_callbacks h FC_CHAT_USER_LEFT
      then map (left_event conn who reason) (filter (has_member ps h who) (h_rooms h)) else [])"
proof -
  have rok: "rooms_ok ps h" using all_handlesD [OF ok h] .
  then have known: "protocol_known ps h" by (simp add: rooms_ok_def)
  have "the_handle conn st = Some (h\<lparr>h_rooms := [] @ h_rooms h\<rparr>)" using h by simp
  from quit_rooms_spec [OF ps known c this, where who = who and reason = reason] rok
  obtain st' where
    run: "quit_rooms ps c (\<lambda>nick. same_nick ps h nick who) who reason (h_rooms h) st = Some st'" and
    h': "the_handle conn st' = Some (h\<lparr>h_rooms := map (strip_member ps h who) (h_rooms h)\<rparr>)" and
    log: "s_log st' = s_log st @ (if h_callbacks h FC_CHAT_USER_LEFT
      then map (left_event conn who reason) (filter (has_member ps h who) (h_rooms h)) else [])"
    by (fastforce simp: rooms_ok_def room_names_ok_def)
  have "\<not> has_member ps h who (strip_member ps h who r)" if "r \<in> set (h_rooms h)" for r
    using rok that by (intro strip_member_gone [OF ps known]) (simp add: rooms_ok_def)
  then have "firetalk_user_visible ps conn who st' = Some FE_NOMATCH"
    using h' by (auto simp: firetalk_user_visible_def has_member_def)
  with run c h h' log show ?thesis by (auto simp: firetalk_callback_chat_user_quit_def)
qed

theorem user_quit_leaves_all_rooms_witness:
  "\<exists>st'. firetalk_callback_chat_user_quit [quiet_protocol] (Some 1) ''BOB'' None
      (single_state chat_handle) = Some st' \<and>
    s_log st' = [(7, Callback FC_CHAT_USER_LEFT [AStr (Some ''#one''), AStr (Some ''BOB''), AStr None]),
                 (7, Callback FC_CHAT_USER_LEFT [AStr (Some ''#two''), AStr (Some ''BOB''), AStr None])]"
proof -
  have "firetalk_find_handle (Some 1) (single_state chat_handle) = Some 7"
    by (simp add: firetalk_find_handle_def single_state_def chat_handle_def new_handle_def)
  then obtain st' where "firetalk_callback_chat_user_quit [quiet_protocol] (Some 1) ''BOB'' None
      (single_state chat_handle) = Some st'"
    and log: "s_log st' = s_log (single_state chat_handle) @
      (if h_callbacks chat_handle FC_CHAT_USER_LEFT then map (left_event 7 ''BOB'' None)
        (filter (has_member [quiet_protocol] chat_handle ''BOB'') (h_rooms chat_handle)) else [])"
    using user_quit_leaves_all_rooms [of "[quiet_protocol]" "single_state chat_handle" "Some 1" 7
        chat_handle "''BOB''" None] by auto
  moreover have "filter (has_member [quiet_protocol] chat_handle ''BOB'') (h_rooms chat_handle) =
      h_rooms chat_handle"
    by code_simp
  ultimately show ?thesis
    by (simp add: left_event_def chat_handle_def single_state_def)
qed


text \<open>
  The client learns only once that it has joined a room: reporting the end of the member
  list emits at most one event, and reporting it again changes nothing.
\<close>

theorem joined_reported_once:
  assumes run: "firetalk_callback_chat_user_joined ps c room None extra st = Some st1"
  shows "length (s_log st1) \<le> Suc (length (s_log st)) \<and>
    firetalk_callback_chat_user_joined ps c room None extra' st1 = Some st1"
proof -
  from run obtain conn iter s h where c: "firetalk_find_handle c st = Some conn"
    and fr: "firetalk_find_room ps conn room st = Some (iter, s)"
    and h: "the_handle conn st = Some h"
    by (auto simp: firetalk_callback_chat_user_joined_def firetalk_find_room_def elim!: bindE)
  show ?thesis
  proof (cases iter)
    case None
    then have "st1 = s" using run c fr by (simp add: firetalk_callback_chat_user_joined_def)
    moreover have "s = st\<lparr>s_error := FE_NOTFOUND\<rparr>"
      using None fr by (auto simp: firetalk_find_room_def elim!: bindE split: branch_splits)
    ultimately show ?thesis using c fr None h
      by (auto simp: firetalk_callback_chat_user_joined_def firetalk_find_room_def conn_simps
          split: option.splits)
  next
    case (Some r)
    then obtain n where n: "p_room_normalize (proto ps h) room = Some n" and s: "s = st"
      and r: "List.find (\<lambda>iter. same_nick ps h (r_name iter) n) (h_rooms h) = Some r"
      using fr h by (auto simp: firetalk_find_room_def split: branch_splits)
    show ?thesis
    proof (cases "r_sentjoin r")
      case True
      then have "st1 = st" using run c fr Some s
        by (simp add: firetalk_callback_chat_user_joined_def)
      with run show ?thesis
        using True c fr Some s by (simp add: firetalk_callback_chat_user_joined_def)
    next
      case False
      let ?h = "upd_room ps n (\<lambda>r. r\<lparr>r_sentjoin := True\<rparr>) h"
      have st1: "st1 = emit conn FC_CHAT_JOINED [AStr (Some room)] (put_handle conn ?h st)"
        using run c fr Some s False n h by (simp add: firetalk_callback_chat_user_joined_def)
      have h1: "the_handle conn st1 = Some ?h" unfolding st1 by (simp add: conn_simps)
      have c1: "firetalk_find_handle c st1 = Some conn"
        unfolding st1 using c h by (simp add: conn_simps upd_room_def)
      have p1: "proto ps ?h = proto ps h" by (simp add: proto_def upd_room_def)
      have "List.find (\<lambda>iter. same_nick ps ?h (r_name iter) n) (h_rooms ?h) =
          Some (r\<lparr>r_sentjoin := True\<rparr>)"
        using r by (simp add: conn_simps find_map_first)
      then have "firetalk_find_room ps conn room st1 = Some (Some (r\<lparr>r_sentjoin := True\<rparr>), st1)"
        using h1 n p1 by (simp add: firetalk_find_room_def)
      then show ?thesis
        using c1 st1 h by (auto simp: firetalk_callback_chat_user_joined_def frame_simps conn_simps)
    qed
  qed
qed

theorem joined_reported_once_witness:
  "\<exists>st1. firetalk_callback_chat_user_joined [quiet_protocol] (Some 1) ''#ONE'' None None
      (single_state chat_handle) = Some st1 \<and>
    firetalk_callback_chat_user_joined [quiet_protocol] (Some 1) ''#ONE'' None None st1 = Some st1"
proof -
  have "firetalk_callback_chat_user_joined [quiet_protocol] (Some 1) ''#ONE'' None None
      (single_state chat_handle) \<noteq> None"
    by code_simp
  then obtain st1 where run: "firetalk_callback_chat_user_joined [quiet_protocol] (Some 1) ''#ONE'' None None
      (single_state chat_handle) = Some st1"
    unfolding not_None_eq by (elim exE)
  from joined_reported_once [OF run] run show ?thesis by blast
qed

lemma map_first_fix: "List.find p xs = Some x \<Longrightarrow> f x = x \<Longrightarrow> map_first p f xs = xs"
  by (induction xs) (auto split: if_splits)

text \<open>
  A user who is not in a room is still reported to have left it: the removal of an absent
  member succeeds, so the client gets the event although no list changes.
\<close>

theorem absent_member_left_event:
  assumes c: "firetalk_find_handle c st = Some conn" and h: "the_handle conn st = Some h"
    and r: "List.find (\<lambda>iter. same_nick ps h (r_name iter) room) (h_rooms h) = Some r"
    and absent: "\<not> has_member ps h who r" and listen: "h_callbacks h FC_CHAT_USER_LEFT"
  shows "\<exists>st'. firetalk_callback_chat_user_left ps c room who reason st = Some st' \<and>
    the_handle conn st' = Some h \<and>
    s_log st' = s_log st @
      [(conn, Callback FC_CHAT_USER_LEFT [AStr (Some room), AStr (Some who), AStr reason])]"
proof -
  have c': "firetalk_find_handle c (put_handle conn h st) = Some conn"
    using c h by (simp add: conn_simps)
  have "\<not> (\<exists>m \<in> set (r_members r). same_nick ps h (m_nickname m) who)"
    using absent by (simp add: has_member_def)
  then have "upd_room ps room (\<lambda>iter. iter\<lparr>r_members :=
      remove_first (\<lambda>m. same_nick ps h (m_nickname m) who) (r_members iter)\<rparr>) h = h"
    using r by (simp add: upd_room_def map_first_fix)
  then have "firetalk_callback_chat_user_left ps c room who reason st =
      Some (emit conn FC_CHAT_USER_LEFT [AStr (Some room), AStr (Some who), AStr reason]
        (put_handle conn h st))"
    using c h r by (simp add: firetalk_callback_chat_user_left_def
        firetalk_chat_internal_remove_member_def)
  then show ?thesis using listen by (simp add: conn_simps frame_simps)
qed

theorem absent_member_left_event_witness:
  "\<exists>st'. firetalk_callback_chat_user_left [quiet_protocol] (Some 1) ''#two'' ''ann'' None
      (single_state chat_handle) = Some st' \<and> the_handle 7 st' = Some chat_handle \<and>
    s_log st' = [(7, Callback FC_CHAT_USER_LEFT [AStr (Some ''#two''), AStr (Some ''ann''), AStr None])]"
proof -
  let ?r = "\<lparr>r_name = ''#two'', r_members = [new_member ''bob''], r_admin = False, r_sentjoin = True\<rparr>"
  have "firetalk_find_handle (Some 1) (single_state chat_handle) = Some 7"
    by (simp add: firetalk_find_handle_def single_state_def chat_handle_def new_handle_def)
  moreover have "List.find (\<lambda>iter. same_nick [quiet_protocol] chat_handle (r_name iter) ''#two'')
      (h_rooms chat_handle) = Some ?r"
    by code_simp
  moreover have "\<not> has_member [quiet_protocol] chat_handle ''ann'' ?r" by code_simp
  moreover have "h_callbacks chat_handle FC_CHAT_USER_LEFT" by (simp add: chat_handle_def)
  ultimately show ?thesis
    using absent_member_left_event [of "Some 1" "single_state chat_handle" 7 chat_handle
        "[quiet_protocol]" "''#two''" ?r "''ann''" None]
    by simp
qed

text \<open>
  A nickname report is not checked against the members of a room: when a user takes a name
  that another member still has, the room lists the name twice and the invariant of the rooms
  is lost.
\<close>

theorem nickchange_can_duplicate:
  "\<exists>st'. firetalk_callback_user_nickchanged [quiet_protocol] (Some 1) ''ann'' ''Bob''
      (single_state chat_handle) = Some st' \<and>
    all_handles (rooms_ok [quiet_protocol]) (single_state chat_handle) \<and>
    \<not> all_handles (rooms_ok [quiet_protocol]) st'"
proof -
  have "(case Option.bind (firetalk_callback_user_nickchanged [quiet_protocol] (Some 1) ''ann'' ''Bob''
      (single_state chat_handle)) (the_handle 7) of None \<Rightarrow> False
      | Some h \<Rightarrow> \<not> rooms_ok [quiet_protocol] h)"
    by code_simp
  then show ?thesis
    unfolding all_handles_def [of _ st for st]
    by (auto split: option.split_asm elim!: bindE simp: bind_eq_Some_conv)
qed

end
