(* ===== verification/FtConn.thy ===== *)
theory FtConn
  imports FtRooms
begin

text \<open>
  The connection of a handle in \<open>firetalk/firetalk.c\<close>: creating and destroying handles, signing
  on, the answer to the connection attempt, the reports of success and failure, disconnecting,
  and the requests whose only duty is the check of the connection state. What the operating
  system answers (the descriptor of a connection attempt, the pending socket error, the number
  of bytes sent, the local address) is an argument.
\<close>

section \<open>The table of protocols\<close>

definition firetalk_register_protocol ::
  "ft_protocol \<Rightarrow> ft_protocol list \<Rightarrow> fte \<times> ft_protocol list" where
  "firetalk_register_protocol p ps = (FE_SUCCESS, ps @ [p])"

definition firetalk_register_default_protocols ::
  "ft_protocol \<Rightarrow> ft_protocol \<Rightarrow> ft_protocol list \<Rightarrow> ft_protocol list option" where
  "firetalk_register_default_protocols irc toc2 ps =
     (case firetalk_register_protocol irc ps of (e, ps) \<Rightarrow>
        if e \<noteq> FE_SUCCESS then None
        else (case firetalk_register_protocol toc2 ps of (e, ps) \<Rightarrow>
          if e \<noteq> FE_SUCCESS then None else Some ps))"

fun find_strprotocol :: "string \<Rightarrow> ft_protocol list \<Rightarrow> nat \<Rightarrow> int" where
  "find_strprotocol name [] i = - 1"
| "find_strprotocol name (p # ps) i =
     (if strcasecmp name (p_strprotocol p) = 0 then int i else find_strprotocol name ps (Suc i))"

text \<open>
  The two protocols of the program are registered when a name is not found for the first time.
  The state is the table and the flag \<open>registered_defaults\<close>.
\<close>

definition firetalk_find_protocol ::
  "ft_protocol \<Rightarrow> ft_protocol \<Rightarrow> string \<Rightarrow> ft_protocol list \<times> bool \<Rightarrow>
   (int \<times> ft_protocol list \<times> bool) option" where
  "firetalk_find_protocol irc toc2 name s =
     (case s of (ps, registered) \<Rightarrow>
        let i = find_strprotocol name ps 0 in
        if i \<noteq> - 1 then Some (i, ps, registered)
        else if registered then Some (- 1, ps, registered)
        else do {
          ps \<leftarrow> firetalk_register_default_protocols irc toc2 ps;
          Some (find_strprotocol name ps 0, ps, True)
        })"

definition firetalk_strprotocol :: "ft_protocol list \<Rightarrow> int \<Rightarrow> string option" where
  "firetalk_strprotocol ps p =
     (if 0 \<le> p \<and> p < int (length ps) then Some (p_strprotocol (ps ! nat p)) else None)"

fun firetalk_strerror :: "fte \<Rightarrow> string" where
  "firetalk_strerror FE_SUCCESS = ''Success''"
| "firetalk_strerror FE_CONNECT = ''Connection failed''"
| "firetalk_strerror FE_NOMATCH = ''Usernames do not match''"
| "firetalk_strerror FE_PACKET = ''Packet transfer error''"
| "firetalk_strerror FE_RECONNECTING = ''Server wants us to reconnect elsewhere''"
| "firetalk_strerror FE_BADUSERPASS = ''Invalid username or password''"
| "firetalk_strerror FE_SEQUENCE = ''Invalid sequence number from server''"
| "firetalk_strerror FE_FRAMETYPE = ''Invalid frame type from server''"
| "firetalk_strerror FE_PACKETSIZE = ''Packet too long''"
| "firetalk_strerror FE_SERVER = ''Server problem; try again later''"
| "firetalk_strerror FE_UNKNOWN = ''Unknown error''"
| "firetalk_strerror FE_BLOCKED = ''You are blocked''"
| "firetalk_strerror FE_WEIRDPACKET = ''Unknown packet received from server''"
| "firetalk_strerror FE_CALLBACKNUM = ''Invalid callback number''"
| "firetalk_strerror FE_BADUSER = ''Invalid username''"
| "firetalk_strerror FE_NOTFOUND = ''Username not found in list''"
| "firetalk_strerror FE_DISCONNECT = ''Server disconnected''"
| "firetalk_strerror FE_SOCKET = ''Unable to create socket''"
| "firetalk_strerror FE_RESOLV = ''Unable to resolve hostname''"
| "firetalk_strerror FE_VERSION = ''Wrong server version''"
| "firetalk_strerror FE_USERUNAVAILABLE = ''User is currently unavailable''"
| "firetalk_strerror FE_USERINFOUNAVAILABLE = ''User information is currently unavailable''"
| "firetalk_strerror FE_TOOFAST =
     ''You are sending messages too fast; last message was dropped''"
| "firetalk_strerror FE_ROOMUNAVAILABLE = ''Chat room is currently unavailable''"
| "firetalk_strerror FE_INCOMINGERROR = ''Incoming message delivery failure''"
| "firetalk_strerror FE_USERDISCONNECT = ''User disconnected''"
| "firetalk_strerror FE_INVALIDFORMAT = ''Server response was formatted incorrectly''"
| "firetalk_strerror FE_IDLEFAST = ''You have requested idle to be reset too fast''"
| "firetalk_strerror FE_BADROOM = ''Invalid room name''"
| "firetalk_strerror FE_BADMESSAGE = ''Invalid message (too long?)''"
| "firetalk_strerror FE_MESSAGETRUNCATED = ''Message truncated''"
| "firetalk_strerror FE_BADPROTO = ''Invalid protocol''"
| "firetalk_strerror FE_NOTCONNECTED = ''Not connected''"
| "firetalk_strerror FE_BADCONNECTION = ''Invalid connection number''"
| "firetalk_strerror FE_NOPERMS = ''No permission to perform operation''"
| "firetalk_strerror FE_NOCHANGEPASS = ''Unable to change password''"
| "firetalk_strerror FE_DUPEROOM = ''Room already in list''"
| "firetalk_strerror FE_IOERROR = ''Input/output error''"
| "firetalk_strerror FE_BADHANDLE = ''Invalid handle''"
| "firetalk_strerror FE_TIMEOUT = ''Operation timed out''"

section \<open>Reports of the protocol on the connection\<close>

definition firetalk_internal_get_connectstate :: "client \<Rightarrow> ft_state \<Rightarrow> connectstate option" where
  "firetalk_internal_get_connectstate c st = do {
     conn \<leftarrow> firetalk_find_handle c st;
     h \<leftarrow> the_handle conn st;
     Some (h_connected h)
   }"

definition firetalk_internal_set_connectstate ::
  "client \<Rightarrow> connectstate \<Rightarrow> ft_state \<Rightarrow> ft_state option" where
  "firetalk_internal_set_connectstate c fcs st = do {
     conn \<leftarrow> firetalk_find_handle c st;
     h \<leftarrow> the_handle conn st;
     Some (put_handle conn (h\<lparr>h_connected := fcs\<rparr>) st)
   }"

text \<open>
  Freeing the user name, the buddies, the denied users and the rooms. Transfers, queues and
  subcode handlers stay.
\<close>

definition forget_session :: "ft_handle \<Rightarrow> ft_handle" where
  "forget_session h = h\<lparr>h_username := None, h_buddies := [], h_denies := [], h_rooms := []\<rparr>"

definition firetalk_callback_disconnect :: "client \<Rightarrow> fte \<Rightarrow> ft_state \<Rightarrow> ft_state option" where
  "firetalk_callback_disconnect c error st = do {
     conn \<leftarrow> firetalk_find_handle c st;
     h \<leftarrow> the_handle conn st;
     if h_connected h = FCS_NOTCONNECTED then Some st
     else
       let st = put_handle conn ((forget_session h)\<lparr>h_connected := FCS_NOTCONNECTED\<rparr>)
         (log_event conn (CloseFd (h_fd h)) st) in
       Some (if h_connected h = FCS_ACTIVE then emit conn FC_DISCONNECT [AErr error] st else st)
   }"

definition firetalk_callback_connectfailed ::
  "client \<Rightarrow> fte \<Rightarrow> string \<Rightarrow> ft_state \<Rightarrow> ft_state option" where
  "firetalk_callback_connectfailed c error description st = do {
     conn \<leftarrow> firetalk_find_handle c st;
     h \<leftarrow> the_handle conn st;
     if h_connected h = FCS_NOTCONNECTED then Some st
     else Some (emit conn FC_CONNECTFAILED [AErr error, AStr (Some description)]
       (put_handle conn (h\<lparr>h_connected := FCS_NOTCONNECTED\<rparr>)
         (log_event conn (CloseFd (h_fd h)) st)))
   }"

text \<open>The local address is in the byte order of the host after \<open>htonl\<close>; it is an argument.\<close>

definition firetalk_callback_connected :: "client \<Rightarrow> 32 word \<Rightarrow> ft_state \<Rightarrow> ft_state option" where
  "firetalk_callback_connected c localip st = do {
     conn \<leftarrow> firetalk_find_handle c st;
     h \<leftarrow> the_handle conn st;
     Some (emit conn FC_CONNECTED []
       (put_handle conn (h\<lparr>h_connected := FCS_ACTIVE, h_localip := localip\<rparr>) st))
   }"

text \<open>
  \<open>sent\<close> is what \<open>send\<close> returns. A handle whose connection attempt is still pending sends
  nothing; anything but a complete transmission ends the session.
\<close>

definition firetalk_internal_send_data ::
  "nat \<Rightarrow> string \<Rightarrow> int \<Rightarrow> ft_state \<Rightarrow> ft_state option" where
  "firetalk_internal_send_data conn data sent st = do {
     h \<leftarrow> the_handle conn st;
     if h_connected h = FCS_NOTCONNECTED \<or> h_connected h = FCS_WAITING_SYNACK then Some st
     else if sent \<noteq> int (length data) then firetalk_callback_disconnect (h_handle h) FE_PACKET st
     else Some st
   }"

definition firetalk_callback_error ::
  "client \<Rightarrow> fte \<Rightarrow> string option \<Rightarrow> string option \<Rightarrow> ft_state \<Rightarrow> ft_state option" where
  "firetalk_callback_error c error roomoruser description =
     pass_on c FC_ERROR [AErr error, AStr roomoruser, AStr description]"

definition firetalk_callback_gotinfo ::
  "client \<Rightarrow> string \<Rightarrow> string option \<Rightarrow> int \<Rightarrow> int \<Rightarrow> int \<Rightarrow> int \<Rightarrow> ft_state \<Rightarrow> ft_state option" where
  "firetalk_callback_gotinfo c nickname info warning onl idle flags =
     pass_on c FC_IM_GOTINFO
       [AStr (Some nickname), AStr info, AInt warning, AInt onl, AInt idle, AInt flags]"

definition firetalk_callback_statusinfo ::
  "client \<Rightarrow> string \<Rightarrow> string option \<Rightarrow> ft_state \<Rightarrow> ft_state option" where
  "firetalk_callback_statusinfo c nickname message =
     pass_on c FC_IM_STATUSINFO [AStr (Some nickname), AStr message]"

definition firetalk_callback_doinit :: "client \<Rightarrow> string \<Rightarrow> ft_state \<Rightarrow> ft_state option" where
  "firetalk_callback_doinit c nickname = pass_on c FC_DOINIT [AStr (Some nickname)]"

definition firetalk_callback_setidle :: "client \<Rightarrow> int \<Rightarrow> ft_state \<Rightarrow> ft_state option" where
  "firetalk_callback_setidle c idle = pass_on c FC_SETIDLE [AInt idle]"

definition firetalk_callback_eviled :: "client \<Rightarrow> int \<Rightarrow> string option \<Rightarrow> ft_state \<Rightarrow> ft_state option" where
  "firetalk_callback_eviled c newevil eviler = pass_on c FC_EVILED [AInt newevil, AStr eviler]"

definition firetalk_callback_newnick :: "client \<Rightarrow> string \<Rightarrow> ft_state \<Rightarrow> ft_state option" where
  "firetalk_callback_newnick c nickname = pass_on c FC_NEWNICK [AStr (Some nickname)]"

definition firetalk_callback_passchanged :: "client \<Rightarrow> ft_state \<Rightarrow> ft_state option" where
  "firetalk_callback_passchanged c = pass_on c FC_PASSCHANGED []"

definition firetalk_callback_needpass :: "client \<Rightarrow> int \<Rightarrow> ft_state \<Rightarrow> ft_state option" where
  "firetalk_callback_needpass c bufsize = pass_on c FC_NEEDPASS [AInt bufsize]"

section \<open>The life of a handle\<close>

text \<open>
  The handle is in the list before the protocol creates its own; addresses are given out in
  increasing order.
\<close>

definition firetalk_create_handle ::
  "ft_protocol list \<Rightarrow> int \<Rightarrow> nat \<Rightarrow> ft_state \<Rightarrow> (nat option \<times> ft_state) option" where
  "firetalk_create_handle ps protocol cs st =
     (if protocol < 0 \<or> protocol \<ge> int (length ps) then Some (None, st\<lparr>s_error := FE_BADPROTO\<rparr>)
      else do {
        let conn = s_fresh st;
        let st = st\<lparr>s_handles := (conn, new_handle None cs (nat protocol)) # s_handles st,
                    s_fresh := Suc conn\<rparr>;
        (c, st) \<leftarrow> p_create_handle (ps ! nat protocol) st;
        h \<leftarrow> the_handle conn st;
        Some (Some conn, put_handle conn (h\<lparr>h_handle := Some c\<rparr>) st)
      })"

definition firetalk_destroy_handle :: "ft_protocol list \<Rightarrow> nat \<Rightarrow> ft_state \<Rightarrow> ft_state option" where
  "firetalk_destroy_handle ps conn st = do {
     h \<leftarrow> the_handle conn st;
     if h_deleted h \<or> h_handle h = None then None
     else do {
       st \<leftarrow> p_destroy_handle (proto ps h) (h_handle h) st;
       h \<leftarrow> the_handle conn st;
       Some (put_handle conn (h\<lparr>h_handle := None, h_deleted := True\<rparr>) st)
     }
   }"

text \<open>
  The last part of \<open>firetalk_select_custom\<close>: handles marked as deleted leave the list and all
  they own is freed. A deleted handle that still has a protocol handle is an assertion failure.
\<close>

fun sweep_deleted :: "(nat \<times> ft_handle) list \<Rightarrow> (nat \<times> ft_handle) list option" where
  "sweep_deleted [] = Some []"
| "sweep_deleted ((a, h) # hs) =
     (if h_deleted h then
        (if h_handle h \<noteq> None then None else sweep_deleted hs)
      else map_option ((#) (a, h)) (sweep_deleted hs))"

definition firetalk_sweep :: "ft_state \<Rightarrow> ft_state option" where
  "firetalk_sweep st = map_option (\<lambda>hs. st\<lparr>s_handles := hs\<rparr>) (sweep_deleted (s_handles st))"

definition firetalk_disconnect :: "ft_protocol list \<Rightarrow> nat \<Rightarrow> ft_op" where
  "firetalk_disconnect ps conn st = do {
     h \<leftarrow> the_handle conn st;
     if h_connected h = FCS_NOTCONNECTED then Some (FE_NOTCONNECTED, st)
     else p_disconnect (proto ps h) (h_handle h) st
   }"

text \<open>
  \<open>dial host port\<close> is the answer of \<open>firetalk_internal_connect_host_addr\<close>: a descriptor, or
  \<open>-1\<close> with the code it leaves in the error variable. The default port is an \<open>int\<close> that is
  assigned to the \<open>short\<close> argument.
\<close>

definition firetalk_signon ::
  "ft_protocol list \<Rightarrow> (string \<Rightarrow> 16 word \<Rightarrow> int \<times> fte) \<Rightarrow> nat \<Rightarrow> string option \<Rightarrow> 16 word \<Rightarrow>
   string \<Rightarrow> ft_op" where
  "firetalk_signon ps dial conn server port username st = do {
     h \<leftarrow> the_handle conn st;
     st \<leftarrow> (if h_connected h \<noteq> FCS_NOTCONNECTED then do {
              (_, st) \<leftarrow> firetalk_disconnect ps conn st;
              h \<leftarrow> the_handle conn st;
              Some (put_handle conn (h\<lparr>h_connected := FCS_NOTCONNECTED\<rparr>) st)
            } else Some st);
     h \<leftarrow> the_handle conn st;
     let h = h\<lparr>h_username := Some username, h_bufferpos := 0\<rparr>;
     let server = (case server of None \<Rightarrow> p_default_server (proto ps h) | Some s \<Rightarrow> s);
     let port = (if port = 0 then word_of_int (p_default_port (proto ps h)) else port);
     (case dial server port of (fd, e) \<Rightarrow>
        if fd \<noteq> - 1
        then Some (FE_SUCCESS, put_handle conn (h\<lparr>h_fd := fd, h_connected := FCS_WAITING_SYNACK\<rparr>) st)
        else Some (e, (put_handle conn (h\<lparr>h_fd := fd\<rparr>) st)\<lparr>s_error := e\<rparr>))
   }"

text \<open>
  The socket of a pending connection became writable: \<open>so_error\<close> is \<open>None\<close> when
  \<open>getsockopt\<close> fails (with the text of \<open>errno\<close>), otherwise the pending error, 0 for success.
\<close>

definition synack_failed :: "nat \<Rightarrow> fte \<Rightarrow> string \<Rightarrow> ft_state \<Rightarrow> ft_state option" where
  "synack_failed conn e msg st = do {
     h \<leftarrow> the_handle conn st;
     Some (emit conn FC_CONNECTFAILED [AErr e, AStr (Some msg)]
       (put_handle conn (h\<lparr>h_connected := FCS_NOTCONNECTED\<rparr>) (log_event conn (CloseFd (h_fd h)) st)))
   }"

definition firetalk_handle_synack ::
  "ft_protocol list \<Rightarrow> nat \<Rightarrow> int option \<Rightarrow> string \<Rightarrow> ft_op" where
  "firetalk_handle_synack ps conn so_error msg st =
     (case so_error of
        None \<Rightarrow> map_option (Pair FE_SOCKET) (synack_failed conn FE_SOCKET msg st)
      | Some i \<Rightarrow>
          if i \<noteq> 0 then map_option (Pair FE_CONNECT) (synack_failed conn FE_CONNECT msg st)
          else do {
            h \<leftarrow> the_handle conn st;
            let st = put_handle conn (h\<lparr>h_connected := FCS_WAITING_SIGNON\<rparr>) st;
            p_signon (proto ps h) (h_handle h) (h_username h) st
          })"

section \<open>Requests that check the connection\<close>

definition firetalk_get_protocol :: "nat \<Rightarrow> ft_state \<Rightarrow> nat option" where
  "firetalk_get_protocol conn st = map_option h_protocol (the_handle conn st)"

text \<open>The numbers of the callbacks (\<open>enum firetalk_callback\<close>), in order.\<close>

definition all_callbacks :: "ft_callback list" where
  "all_callbacks =
    [FC_CONNECTED, FC_CONNECTFAILED, FC_DOINIT, FC_ERROR, FC_LOG, FC_DISCONNECT,
     FC_SETIDLE, FC_EVILED, FC_NEWNICK, FC_PASSCHANGED, FC_NEEDPASS, FC_PRESELECT,
     FC_POSTSELECT, FC_IM_IDLEINFO, FC_IM_STATUSINFO, FC_IM_EVILINFO, FC_IM_BUDDYADDED,
     FC_IM_BUDDYREMOVED, FC_IM_TYPINGINFO, FC_IM_CAPABILITIES, FC_IM_GOTINFO,
     FC_IM_USER_NICKCHANGED, FC_IM_GOTCHANNELS, FC_IM_GETMESSAGE, FC_IM_GETACTION,
     FC_IM_BUDDYONLINE, FC_IM_BUDDYOFFLINE, FC_IM_BUDDYAWAY, FC_IM_BUDDYUNAWAY,
     FC_IM_LISTBUDDY, FC_CHAT_JOINED, FC_CHAT_LEFT, FC_CHAT_KICKED, FC_CHAT_GETMESSAGE,
     FC_CHAT_GETACTION, FC_CHAT_INVITED, FC_CHAT_MODECHANGED, FC_CHAT_OPPED,
     FC_CHAT_DEOPPED, FC_CHAT_USER_JOINED, FC_CHAT_USER_LEFT, FC_CHAT_GOTTOPIC,
     FC_CHAT_USER_OPPED, FC_CHAT_USER_DEOPPED, FC_CHAT_USER_KICKED,
     FC_CHAT_USER_NICKCHANGED, FC_CHAT_KEYCHANGED, FC_CHAT_LISTMEMBER,
     FC_CHAT_LIST_EXTENDED, FC_CHAT_END_EXTENDED, FC_CHAT_NAMES, FC_FILE_OFFER,
     FC_FILE_START, FC_FILE_PROGRESS, FC_FILE_FINISH, FC_FILE_ERROR]"

definition FC_MAX :: int where
  "FC_MAX = int (length all_callbacks)"

definition firetalk_register_callback :: "nat \<Rightarrow> int \<Rightarrow> bool \<Rightarrow> ft_op" where
  "firetalk_register_callback conn type function st = do {
     h \<leftarrow> the_handle conn st;
     if type < 0 \<or> type \<ge> FC_MAX then Some (FE_CALLBACKNUM, st)
     else Some (FE_SUCCESS, put_handle conn
       (h\<lparr>h_callbacks := (h_callbacks h)(all_callbacks ! nat type := function)\<rparr>) st)
   }"

definition conn_request ::
  "ft_protocol list \<Rightarrow> (connectstate \<Rightarrow> bool) \<Rightarrow> (ft_protocol \<Rightarrow> client \<Rightarrow> ft_op) \<Rightarrow> nat \<Rightarrow> ft_op" where
  "conn_request ps allowed call conn st = do {
     h \<leftarrow> the_handle conn st;
     if \<not> allowed (h_connected h) then Some (FE_NOTCONNECTED, st)
     else call (proto ps h) (h_handle h) st
   }"

definition firetalk_im_upload_buddies :: "ft_protocol list \<Rightarrow> nat \<Rightarrow> ft_op" where
  "firetalk_im_upload_buddies ps = conn_request ps connected_active p_im_upload_buddies"

definition firetalk_im_upload_denies :: "ft_protocol list \<Rightarrow> nat \<Rightarrow> ft_op" where
  "firetalk_im_upload_denies ps = conn_request ps connected_active p_im_upload_denies"

definition firetalk_im_get_info :: "ft_protocol list \<Rightarrow> nat \<Rightarrow> string \<Rightarrow> ft_op" where
  "firetalk_im_get_info ps conn nickname =
     conn_request ps connected_active (\<lambda>p c. p_get_info p c nickname) conn"

definition firetalk_set_info :: "ft_protocol list \<Rightarrow> nat \<Rightarrow> string \<Rightarrow> ft_op" where
  "firetalk_set_info ps conn info =
     conn_request ps connected_any (\<lambda>p c. p_set_info p c info) conn"

definition firetalk_set_away :: "ft_protocol list \<Rightarrow> nat \<Rightarrow> string option \<Rightarrow> int \<Rightarrow> ft_op" where
  "firetalk_set_away ps conn message auto_flag =
     conn_request ps connected_any (\<lambda>p c. p_set_away p c message auto_flag) conn"

definition firetalk_set_nickname :: "ft_protocol list \<Rightarrow> nat \<Rightarrow> string \<Rightarrow> ft_op" where
  "firetalk_set_nickname ps conn nickname =
     conn_request ps connected_any (\<lambda>p c. p_set_nickname p c nickname) conn"

definition firetalk_set_password :: "ft_protocol list \<Rightarrow> nat \<Rightarrow> string \<Rightarrow> string \<Rightarrow> ft_op" where
  "firetalk_set_password ps conn oldpass newpass =
     conn_request ps connected_active (\<lambda>p c. p_set_password p c oldpass newpass) conn"

definition firetalk_set_privacy :: "ft_protocol list \<Rightarrow> nat \<Rightarrow> string option \<Rightarrow> ft_op" where
  "firetalk_set_privacy ps conn mode st = do {
     h \<leftarrow> the_handle conn st;
     (case mode of
        None \<Rightarrow> None
      | Some m \<Rightarrow> conn_request ps connected_any (\<lambda>p c. p_set_privacy p c m) conn st)
   }"

definition firetalk_im_searchemail :: "ft_protocol list \<Rightarrow> nat \<Rightarrow> string \<Rightarrow> ft_op" where
  "firetalk_im_searchemail ps conn email =
     conn_request ps connected_active (\<lambda>p c. p_im_searchemail p c email) conn"

text \<open>After a message the protocol's \<open>periodic\<close> runs; being asked to slow down is no failure.\<close>

definition after_send :: "ft_protocol list \<Rightarrow> nat \<Rightarrow> fte \<times> ft_state \<Rightarrow> (fte \<times> ft_state) option" where
  "after_send ps conn r =
     (case r of (e, st) \<Rightarrow>
        if e \<noteq> FE_SUCCESS then Some (e, st)
        else do {
          h \<leftarrow> the_handle conn st;
          (e, st) \<leftarrow> p_periodic (proto ps h) conn st;
          if e \<noteq> FE_SUCCESS \<and> e \<noteq> FE_IDLEFAST then Some (e, st)
          else Some (FE_SUCCESS, st)
        })"

definition firetalk_im_send_message ::
  "ft_protocol list \<Rightarrow> nat \<Rightarrow> string \<Rightarrow> string \<Rightarrow> int \<Rightarrow> ft_op" where
  "firetalk_im_send_message ps conn dest message auto_flag st = do {
     h \<leftarrow> the_handle conn st;
     if h_connected h \<noteq> FCS_ACTIVE \<and> strcasecmp dest '':RAW'' \<noteq> 0 then Some (FE_NOTCONNECTED, st)
     else do {
       r \<leftarrow> p_im_send_message (proto ps h) (h_handle h) dest message auto_flag st;
       after_send ps conn r
     }
   }"

definition firetalk_im_send_action ::
  "ft_protocol list \<Rightarrow> nat \<Rightarrow> string \<Rightarrow> string \<Rightarrow> int \<Rightarrow> ft_op" where
  "firetalk_im_send_action ps conn dest message auto_flag st = do {
     h \<leftarrow> the_handle conn st;
     if h_connected h \<noteq> FCS_ACTIVE then Some (FE_NOTCONNECTED, st)
     else do {
       r \<leftarrow> p_im_send_action (proto ps h) (h_handle h) dest message auto_flag st;
       after_send ps conn r
     }
   }"

definition firetalk_compare_nicks ::
  "ft_protocol list \<Rightarrow> nat \<Rightarrow> string \<Rightarrow> string \<Rightarrow> ft_state \<Rightarrow> fte option" where
  "firetalk_compare_nicks ps conn nick1 nick2 st =
     map_option (\<lambda>h. p_comparenicks (proto ps h) nick1 nick2) (the_handle conn st)"

definition firetalk_isprint :: "ft_protocol list \<Rightarrow> nat \<Rightarrow> int \<Rightarrow> ft_state \<Rightarrow> fte option" where
  "firetalk_isprint ps conn c st =
     map_option (\<lambda>h. p_isprintable (proto ps h) c) (the_handle conn st)"

end
