(* ===== verification/FtLife.thy ===== *)
theory FtLife
  imports FtConn
begin

text \<open>
  The life of the connections as a state machine: the steps are the operations of \<open>FtConn\<close>
  with what the system and the protocols may answer. The invariant of the reachable states is
  what the assertions of \<open>firetalk_select_custom\<close> rely on: a connected handle has a descriptor,
  a deleted handle has given up its protocol handle.
\<close>

section \<open>The invariant\<close>

definition conn_ok :: "ft_protocol list \<Rightarrow> ft_handle \<Rightarrow> bool" where
  "conn_ok ps h \<longleftrightarrow> protocol_known ps h \<and>
     (h_connected h \<noteq> FCS_NOTCONNECTED \<longrightarrow> 0 \<le> h_fd h) \<and> (h_deleted h \<longrightarrow> h_handle h = None)"

definition conn_inv :: "ft_protocol list \<Rightarrow> ft_state \<Rightarrow> bool" where
  "conn_inv ps st \<longleftrightarrow> handles_distinct st \<and> all_handles (conn_ok ps) st"

text \<open>
  What the functions of the table that concern the connection must keep. Creating a protocol
  handle allocates memory of the protocol and leaves the list of session handles alone.
\<close>

definition conn_table_keeps :: "(ft_state \<Rightarrow> bool) \<Rightarrow> ft_protocol list \<Rightarrow> bool" where
  "conn_table_keeps I ps \<longleftrightarrow>
     (\<forall>p \<in> set ps. (\<forall>c. op_keeps I (p_disconnect p c)) \<and> (\<forall>c u. op_keeps I (p_signon p c u)) \<and>
        (\<forall>st c st'. p_create_handle p st = Some (c, st') \<longrightarrow>
           s_handles st' = s_handles st \<and> s_fresh st' = s_fresh st) \<and>
        (\<forall>c st st'. I st \<longrightarrow> p_destroy_handle p c st = Some st' \<longrightarrow> I st'))"

lemma map_fst_update:
  "map_of xs k \<noteq> None \<Longrightarrow> map fst (AList.update k v xs) = map fst xs"
  by (induction xs) auto

lemma handles_distinct_iff:
  "handles_distinct st \<longleftrightarrow>
     distinct (map fst (s_handles st)) \<and> (\<forall>a \<in> set (map fst (s_handles st)). a < s_fresh st)"
  by (auto simp: handles_distinct_def)

lemma handles_distinct_put [inv_intros]:
  "handles_distinct st \<Longrightarrow> the_handle conn st = Some h' \<Longrightarrow> handles_distinct (put_handle conn h st)"
  by (simp add: handles_distinct_iff put_handle_def the_handle_def map_fst_update)

lemma handles_distinct_log [simp]:
  "handles_distinct (log_event conn ev st) \<longleftrightarrow> handles_distinct st"
  "handles_distinct (st\<lparr>s_error := e\<rparr>) \<longleftrightarrow> handles_distinct st"
  by (simp_all add: handles_distinct_def log_event_def)

lemma handles_distinct_emit [simp]:
  "handles_distinct (emit conn fc args st) \<longleftrightarrow> handles_distinct st"
  by (simp add: emit_def split: option.split)

lemma conn_inv_put [inv_intros]:
  "conn_inv ps st \<Longrightarrow> the_handle conn st = Some h' \<Longrightarrow> conn_ok ps h \<Longrightarrow>
   conn_inv ps (put_handle conn h st)"
  by (simp add: conn_inv_def handles_distinct_put all_handles_put)

lemma conn_inv_frame [simp]:
  "conn_inv ps (log_event conn ev st) \<longleftrightarrow> conn_inv ps st"
  "conn_inv ps (emit conn fc args st) \<longleftrightarrow> conn_inv ps st"
  "conn_inv ps (st\<lparr>s_error := e\<rparr>) \<longleftrightarrow> conn_inv ps st"
  by (simp_all add: conn_inv_def)

lemma conn_okD: "conn_inv ps st \<Longrightarrow> the_handle conn st = Some h \<Longrightarrow> conn_ok ps h"
  by (auto simp: conn_inv_def dest: all_handlesD)

lemma conn_ok_fields [simp]:
  "conn_ok ps (h\<lparr>h_connected := FCS_NOTCONNECTED\<rparr>) \<longleftrightarrow>
     protocol_known ps h \<and> (h_deleted h \<longrightarrow> h_handle h = None)"
  "conn_ok ps ((forget_session h)\<lparr>h_connected := FCS_NOTCONNECTED\<rparr>) \<longleftrightarrow>
     protocol_known ps h \<and> (h_deleted h \<longrightarrow> h_handle h = None)"
  by (simp_all add: conn_ok_def protocol_known_def forget_session_def)

lemma conn_ok_forget [simp]:
  "protocol_known ps (forget_session h) = protocol_known ps h"
  "h_deleted (forget_session h) = h_deleted h" "h_handle (forget_session h) = h_handle h"
  by (simp_all add: protocol_known_def forget_session_def)

lemma proto_user [simp]: "proto ps (h\<lparr>h_username := u, h_bufferpos := n\<rparr>) = proto ps h"
  by (simp add: proto_def)

lemma proto_in: "conn_ok ps h \<Longrightarrow> proto ps h \<in> set ps"
  by (simp add: conn_ok_def protocol_known_def proto_def)

section \<open>The operations keep it\<close>

lemma conn_call_keeps:
  assumes "conn_table_keeps I ps" "p \<in> set ps" "I st"
  shows "p_disconnect p c st = Some (r, st') \<Longrightarrow> I st'"
    "p_signon p c u st = Some (r, st') \<Longrightarrow> I st'"
    "p_create_handle p st = Some (d, st') \<Longrightarrow> s_handles st' = s_handles st \<and> s_fresh st' = s_fresh st"
    "p_destroy_handle p c st = Some st' \<Longrightarrow> I st'"
proof -
  have disc: "op_keeps I (p_disconnect p c)" and sign: "op_keeps I (p_signon p c u)"
    and create: "\<forall>st c st'. p_create_handle p st = Some (c, st') \<longrightarrow>
      s_handles st' = s_handles st \<and> s_fresh st' = s_fresh st"
    and destroy: "\<forall>c st st'. I st \<longrightarrow> p_destroy_handle p c st = Some st' \<longrightarrow> I st'"
    using bspec [OF assms(1) [unfolded conn_table_keeps_def] assms(2)] by blast+
  show "I st'" if "p_disconnect p c st = Some (r, st')"
    using op_keepsD [OF disc assms(3) that] .
  show "I st'" if "p_signon p c u st = Some (r, st')"
    using op_keepsD [OF sign assms(3) that] .
  show "s_handles st' = s_handles st \<and> s_fresh st' = s_fresh st"
    if "p_create_handle p st = Some (d, st')"
    using that create by blast
  show "I st'" if "p_destroy_handle p c st = Some st'"
    using that destroy assms(3) by blast
qed

text \<open>Going down: the descriptor is closed and the handle is no longer connected.\<close>

lemma conn_inv_down [inv_intros]:
  assumes "conn_inv ps st" "the_handle conn st = Some h"
  shows "conn_inv ps (put_handle conn (h\<lparr>h_connected := FCS_NOTCONNECTED\<rparr>) (log_event conn ev st))"
    "conn_inv ps (put_handle conn (h\<lparr>h_connected := FCS_NOTCONNECTED\<rparr>) st)"
    "conn_inv ps (put_handle conn ((forget_session h)\<lparr>h_connected := FCS_NOTCONNECTED\<rparr>)
      (log_event conn ev st))"
proof -
  have "protocol_known ps h \<and> (h_deleted h \<longrightarrow> h_handle h = None)"
    using conn_okD [OF assms] by (simp add: conn_ok_def)
  then show "conn_inv ps (put_handle conn (h\<lparr>h_connected := FCS_NOTCONNECTED\<rparr>) (log_event conn ev st))"
    "conn_inv ps (put_handle conn (h\<lparr>h_connected := FCS_NOTCONNECTED\<rparr>) st)"
    "conn_inv ps (put_handle conn ((forget_session h)\<lparr>h_connected := FCS_NOTCONNECTED\<rparr>)
      (log_event conn ev st))"
    using assms by (intro conn_inv_put [where h' = h]; simp add: the_handle_log)+
qed

lemma keep_disconnected [inv_intros]:
  assumes "conn_inv ps st" "firetalk_callback_disconnect c e st = Some st'"
  shows "conn_inv ps st'"
  using assms conn_inv_down(3) [OF assms(1)]
  by (auto simp: firetalk_callback_disconnect_def Let_def elim!: bindE split: branch_splits)

lemma keep_connectfailed [inv_intros]:
  assumes "conn_inv ps st" "firetalk_callback_connectfailed c e d st = Some st'"
  shows "conn_inv ps st'"
  using assms conn_inv_down(1) [OF assms(1)]
  by (auto simp: firetalk_callback_connectfailed_def elim!: bindE split: branch_splits)

lemma keep_client_disconnect [inv_intros]:
  assumes "conn_table_keeps (conn_inv ps) ps"
    and "conn_inv ps st" "firetalk_disconnect ps conn st = Some (r, st')"
  shows "conn_inv ps st'"
  using assms(2,3)
  by (auto simp: firetalk_disconnect_def elim!: bindE split: branch_splits)
    (blast intro: conn_call_keeps(1) [OF assms(1)] proto_in conn_okD)+

lemma keep_synack [inv_intros]:
  assumes "conn_table_keeps (conn_inv ps) ps" and ok: "conn_inv ps st"
    and h: "the_handle conn st = Some h" "h_connected h = FCS_WAITING_SYNACK"
    and run: "firetalk_handle_synack ps conn so msg st = Some (r, st')"
  shows "conn_inv ps st'"
proof -
  have hok: "conn_ok ps h" using conn_okD [OF ok h(1)] .
  have "conn_inv ps (put_handle conn (h\<lparr>h_connected := FCS_WAITING_SIGNON\<rparr>) st)"
    using ok h hok by (intro conn_inv_put) (auto simp: conn_ok_def protocol_known_def)
  moreover note conn_inv_down(1) [OF ok h(1)]
  ultimately show ?thesis
    using run h proto_in [OF hok] conn_call_keeps(2) [OF assms(1)]
    by (auto simp: firetalk_handle_synack_def synack_failed_def elim!: bindE split: branch_splits)
qed

lemma keep_signon [inv_intros]:
  assumes calls: "conn_table_keeps (conn_inv ps) ps" and ok: "conn_inv ps st"
    and dial: "\<And>s p. - 1 \<le> fst (dial s p)"
    and run: "firetalk_signon ps dial conn server port user st = Some (r, st')"
  shows "conn_inv ps st'"
proof -
  from run obtain h0 st1 h1 where h0: "the_handle conn st = Some h0"
    and st1: "(if h_connected h0 \<noteq> FCS_NOTCONNECTED then do {
              (_, st) \<leftarrow> firetalk_disconnect ps conn st;
              h \<leftarrow> the_handle conn st;
              Some (put_handle conn (h\<lparr>h_connected := FCS_NOTCONNECTED\<rparr>) st)
            } else Some st) = Some st1"
    and h1: "the_handle conn st1 = Some h1"
    by (auto simp: firetalk_signon_def elim!: bindE)
  have ok1: "conn_inv ps st1"
    using st1 ok
    by (auto elim!: bindE split: branch_splits)
      (blast intro: conn_inv_down(2) keep_client_disconnect [OF calls])+
  have nc: "h_connected h1 = FCS_NOTCONNECTED"
    using st1 h1 h0 by (auto simp: conn_simps elim!: bindE split: branch_splits)
  have hok: "conn_ok ps h1" using conn_okD [OF ok1 h1] .
  have up: "conn_inv ps (put_handle conn (h1\<lparr>h_username := Some user, h_bufferpos := 0, h_fd := fd,
      h_connected := FCS_WAITING_SYNACK\<rparr>) st1)" if "0 \<le> fd" for fd
    using that hok by (intro conn_inv_put [OF ok1 h1]) (auto simp: conn_ok_def protocol_known_def)
  have down: "conn_inv ps (put_handle conn (h1\<lparr>h_username := Some user, h_bufferpos := 0, h_fd := - 1\<rparr>) st1)"
    using nc hok by (intro conn_inv_put [OF ok1 h1]) (auto simp: conn_ok_def protocol_known_def)
  obtain fd e where d: "dial (case server of None \<Rightarrow> p_default_server (proto ps h1) | Some s \<Rightarrow> s)
      (if port = 0 then word_of_int (p_default_port (proto ps h1)) else port) = (fd, e)"
    by (cases "dial (case server of None \<Rightarrow> p_default_server (proto ps h1) | Some s \<Rightarrow> s)
      (if port = 0 then word_of_int (p_default_port (proto ps h1)) else port)")
  have "fd = - 1 \<or> 0 \<le> fd" proof -
    have "- 1 \<le> fst (fd, e)" unfolding d [symmetric] by (rule dial)
    then show ?thesis by simp linarith
  qed
  moreover have "(if fd \<noteq> - 1
       then Some (FE_SUCCESS, put_handle conn (h1\<lparr>h_username := Some user, h_bufferpos := 0, h_fd := fd,
         h_connected := FCS_WAITING_SYNACK\<rparr>) st1)
       else Some (e, (put_handle conn (h1\<lparr>h_username := Some user, h_bufferpos := 0, h_fd := fd\<rparr>)
         st1)\<lparr>s_error := e\<rparr>)) = Some (r, st')"
    using run unfolding firetalk_signon_def h0 bind.simps st1 h1 Let_def proto_user d by simp
  ultimately show ?thesis
    using up [of fd] down by (auto split: branch_splits)
qed

lemma keep_create [inv_intros]:
  assumes calls: "conn_table_keeps (conn_inv ps) ps" and ok: "conn_inv ps st"
    and run: "firetalk_create_handle ps prot cs st = Some (r, st')"
  shows "conn_inv ps st'"
proof (cases "prot < 0 \<or> prot \<ge> int (length ps)")
  case True
  with run ok show ?thesis by (auto simp: firetalk_create_handle_def)
next
  case False
  let ?new = "new_handle None cs (nat prot)"
  let ?st1 = "st\<lparr>s_handles := (s_fresh st, ?new) # s_handles st, s_fresh := Suc (s_fresh st)\<rparr>"
  have "conn_ok ps ?new"
    using False by (simp add: conn_ok_def protocol_known_def new_handle_def nat_less_iff)
  then have ok1: "conn_inv ps ?st1"
    using ok by (auto simp: conn_inv_def handles_distinct_def all_handles_def the_handle_def
        intro: less_SucI)
  have p: "ps ! nat prot \<in> set ps" using False by (simp add: nat_less_iff)
  obtain c st2 h where st2: "p_create_handle (ps ! nat prot) ?st1 = Some (c, st2)"
    and h: "the_handle (s_fresh st) st2 = Some h"
    and st': "st' = put_handle (s_fresh st) (h\<lparr>h_handle := Some c\<rparr>) st2"
    using run False by (auto simp: firetalk_create_handle_def Let_def elim!: bindE)
  have same: "s_handles st2 = s_handles ?st1" "s_fresh st2 = s_fresh ?st1"
    using conn_call_keeps(3) [OF calls p ok1 st2] by simp_all
  then have ok2: "conn_inv ps st2"
    using ok1 by (simp add: conn_inv_def handles_distinct_def all_handles_def the_handle_def)
  have "h = ?new" using h same by (simp add: the_handle_def)
  then have "conn_ok ps (h\<lparr>h_handle := Some c\<rparr>)"
    using False by (simp add: conn_ok_def protocol_known_def new_handle_def nat_less_iff)
  with ok2 h show ?thesis unfolding st' by (intro conn_inv_put)
qed

lemma keep_destroy [inv_intros]:
  assumes calls: "conn_table_keeps (conn_inv ps) ps" and ok: "conn_inv ps st"
    and run: "firetalk_destroy_handle ps conn st = Some st'"
  shows "conn_inv ps st'"
proof -
  obtain h st1 h1 where h: "the_handle conn st = Some h"
    and st1: "p_destroy_handle (proto ps h) (h_handle h) st = Some st1"
    and h1: "the_handle conn st1 = Some h1"
    and st': "st' = put_handle conn (h1\<lparr>h_handle := None, h_deleted := True\<rparr>) st1"
    using run by (auto simp: firetalk_destroy_handle_def elim!: bindE split: if_split_asm)
  have ok1: "conn_inv ps st1"
    using conn_call_keeps(4) [OF calls proto_in [OF conn_okD [OF ok h]] ok st1] .
  have "conn_ok ps (h1\<lparr>h_handle := None, h_deleted := True\<rparr>)"
    using conn_okD [OF ok1 h1] by (simp add: conn_ok_def protocol_known_def)
  with ok1 h1 show ?thesis unfolding st' by (intro conn_inv_put)
qed

text \<open>The sweep drops the deleted handles and keeps the others in order.\<close>

lemma sweep_deleted_spec:
  "\<forall>(a, h) \<in> set hs. h_deleted h \<longrightarrow> h_handle h = None \<Longrightarrow>
   sweep_deleted hs = Some (filter (\<lambda>(a, h). \<not> h_deleted h) hs)"
  by (induction hs rule: sweep_deleted.induct) auto

lemma conn_inv_deleted:
  assumes "conn_inv ps st" "(a, h) \<in> set (s_handles st)"
  shows "conn_ok ps h"
  using assms by (auto simp: conn_inv_def handles_distinct_def all_handles_def the_handle_def)

lemma sweep_result:
  "conn_inv ps st \<Longrightarrow> firetalk_sweep st =
     Some (st\<lparr>s_handles := filter (\<lambda>(a, h). \<not> h_deleted h) (s_handles st)\<rparr>)"
  by (subst firetalk_sweep_def, subst sweep_deleted_spec)
    (auto dest: conn_inv_deleted simp: conn_ok_def)

lemma distinct_map_filter_fst: "distinct (map f xs) \<Longrightarrow> distinct (map f (filter P xs))"
  by (induction xs) auto

lemma map_of_filter_distinct:
  "distinct (map fst hs) \<Longrightarrow> map_of (filter keep hs) conn =
     (case map_of hs conn of Some h \<Rightarrow> if keep (conn, h) then Some h else None | None \<Rightarrow> None)"
  by (induction hs) (auto split: option.splits simp: map_of_eq_None_iff rev_image_eqI)

lemma the_handle_sweep:
  assumes "conn_inv ps st" "firetalk_sweep st = Some st'"
  shows "the_handle a st' =
    (case the_handle a st of None \<Rightarrow> None | Some h \<Rightarrow> if h_deleted h then None else Some h)"
  using assms sweep_result [OF assms(1)]
  by (auto simp: the_handle_def map_of_filter_distinct conn_inv_def handles_distinct_def
      split: option.split)

lemma keep_sweep [inv_intros]:
  assumes "conn_inv ps st" "firetalk_sweep st = Some st'"
  shows "conn_inv ps st'"
proof -
  have "all_handles (conn_ok ps) st'"
    using assms(1) unfolding all_handles_def the_handle_sweep [OF assms]
    by (auto dest: conn_okD split: option.splits if_splits)
  moreover have "handles_distinct st'"
    using assms sweep_result [OF assms(1)]
    by (auto simp: conn_inv_def handles_distinct_def distinct_map_filter_fst)
  ultimately show ?thesis by (simp add: conn_inv_def)
qed

section \<open>Steps and reachable states\<close>

text \<open>
  A protocol reports success only for a handle whose connection is not down (it gets data only
  then), and the socket of a pending connection is examined only while it is pending.
\<close>

inductive conn_step :: "ft_protocol list \<Rightarrow> ft_state \<Rightarrow> ft_state \<Rightarrow> bool" for ps where
  create: "firetalk_create_handle ps prot cs st = Some (r, st') \<Longrightarrow> conn_step ps st st'"
| destroy: "firetalk_destroy_handle ps conn st = Some st' \<Longrightarrow> conn_step ps st st'"
| signon: "(\<And>s p. - 1 \<le> fst (dial s p)) \<Longrightarrow>
    firetalk_signon ps dial conn server port user st = Some (r, st') \<Longrightarrow> conn_step ps st st'"
| synack: "the_handle conn st = Some h \<Longrightarrow> h_connected h = FCS_WAITING_SYNACK \<Longrightarrow>
    firetalk_handle_synack ps conn so msg st = Some (r, st') \<Longrightarrow> conn_step ps st st'"
| connected: "firetalk_find_handle c st = Some conn \<Longrightarrow> the_handle conn st = Some h \<Longrightarrow>
    h_connected h \<noteq> FCS_NOTCONNECTED \<Longrightarrow>
    firetalk_callback_connected c ip st = Some st' \<Longrightarrow> conn_step ps st st'"
| failed: "firetalk_callback_connectfailed c e d st = Some st' \<Longrightarrow> conn_step ps st st'"
| lost: "firetalk_callback_disconnect c e st = Some st' \<Longrightarrow> conn_step ps st st'"
| disconnect: "firetalk_disconnect ps conn st = Some (r, st') \<Longrightarrow> conn_step ps st st'"
| send: "firetalk_internal_send_data conn data sent st = Some st' \<Longrightarrow> conn_step ps st st'"
| sweep: "firetalk_sweep st = Some st' \<Longrightarrow> conn_step ps st st'"

inductive_cases conn_stepE: "conn_step ps st st'"

definition initial_state :: ft_state where
  "initial_state = \<lparr>s_handles = [], s_fresh = 0, s_error = FE_SUCCESS, s_isonline_hack = None,
     s_log = []\<rparr>"

inductive conn_reach :: "ft_protocol list \<Rightarrow> ft_state \<Rightarrow> bool" for ps where
  start: "conn_reach ps initial_state"
| step: "conn_reach ps st \<Longrightarrow> conn_step ps st st' \<Longrightarrow> conn_reach ps st'"

lemma keep_connected [inv_intros]:
  assumes ok: "conn_inv ps st" and c: "firetalk_find_handle c st = Some conn"
    and h: "the_handle conn st = Some h" "h_connected h \<noteq> FCS_NOTCONNECTED"
    and run: "firetalk_callback_connected c ip st = Some st'"
  shows "conn_inv ps st'"
proof -
  have "conn_inv ps (put_handle conn (h\<lparr>h_connected := FCS_ACTIVE, h_localip := ip\<rparr>) st)"
    using ok h conn_okD [OF ok h(1)]
    by (intro conn_inv_put) (auto simp: conn_ok_def protocol_known_def)
  with run c h(1) show ?thesis by (auto simp: firetalk_callback_connected_def)
qed

lemma keep_send [inv_intros]:
  assumes "conn_inv ps st" "firetalk_internal_send_data conn data sent st = Some st'"
  shows "conn_inv ps st'"
  using assms
  by (auto simp: firetalk_internal_send_data_def elim!: bindE split: branch_splits)
    (blast intro: keep_disconnected)+

lemma keep_step:
  assumes calls: "conn_table_keeps (conn_inv ps) ps" and ok: "conn_inv ps st"
    and run: "conn_step ps st st'"
  shows "conn_inv ps st'"
  using run ok
proof cases
  case (signon dial conn server port user r)
  show ?thesis using keep_signon [OF calls ok signon] .
next
  case (synack conn h so msg r)
  show ?thesis using keep_synack [OF calls ok synack] .
next
  case (connected c conn h ip)
  show ?thesis using keep_connected [OF ok connected] .
qed (blast intro: keep_create [OF calls] keep_destroy [OF calls] keep_client_disconnect [OF calls]
    keep_connectfailed keep_disconnected keep_send keep_sweep)+

section \<open>Properties\<close>


lemma conn_table_quiet: "conn_table_keeps I [quiet_protocol]"
  by (simp add: conn_table_keeps_def quiet_protocol_def)


text \<open>
  C4. Losing the connection leaves nothing of the session behind: the handle is down, user name,
  buddies, denied users and rooms are gone, its descriptor is closed exactly once, the client
  is told exactly if the session was active, and a second report changes nothing.
\<close>

theorem disconnect_clears_session:
  assumes c: "firetalk_find_handle c st = Some conn" and h: "the_handle conn st = Some h"
    and up: "h_connected h \<noteq> FCS_NOTCONNECTED"
  shows "\<exists>st' h'. firetalk_callback_disconnect c e st = Some st' \<and> the_handle conn st' = Some h' \<and>
    h_connected h' = FCS_NOTCONNECTED \<and> h_username h' = None \<and> h_buddies h' = [] \<and>
    h_denies h' = [] \<and> h_rooms h' = [] \<and> h_files h' = h_files h \<and>
    s_log st' = s_log st @ (conn, CloseFd (h_fd h)) #
      (if h_connected h = FCS_ACTIVE \<and> h_callbacks h FC_DISCONNECT
       then [(conn, Callback FC_DISCONNECT [AErr e])] else []) \<and>
    firetalk_callback_disconnect c e' st' = Some st'"
proof -
  let ?h = "(forget_session h)\<lparr>h_connected := FCS_NOTCONNECTED\<rparr>"
  let ?st = "put_handle conn ?h (log_event conn (CloseFd (h_fd h)) st)"
  let ?st' = "if h_connected h = FCS_ACTIVE then emit conn FC_DISCONNECT [AErr e] ?st else ?st"
  have run: "firetalk_callback_disconnect c e st = Some ?st'"
    using c h up by (simp add: firetalk_callback_disconnect_def Let_def)
  have h': "the_handle conn ?st' = Some ?h" by (simp add: conn_simps)
  have "firetalk_find_handle c ?st' = Some conn"
    using c h by (simp add: conn_simps forget_session_def)
  then have "firetalk_callback_disconnect c e' ?st' = Some ?st'"
    using h' by (simp add: firetalk_callback_disconnect_def)
  moreover have "s_log ?st' = s_log st @ (conn, CloseFd (h_fd h)) #
      (if h_connected h = FCS_ACTIVE \<and> h_callbacks h FC_DISCONNECT
       then [(conn, Callback FC_DISCONNECT [AErr e])] else [])"
    by (simp add: frame_simps conn_simps forget_session_def log_event_def)
  ultimately show ?thesis
    using run h' by (intro exI [of _ ?st'] exI [of _ ?h]) (simp add: forget_session_def)
qed

theorem disconnect_clears_session_witness:
  "\<exists>st' h'. firetalk_callback_disconnect (Some 1) FE_PACKET (single_state chat_handle) = Some st' \<and>
    the_handle 7 st' = Some h' \<and> h_rooms h' = [] \<and>
    s_log st' = [(7, CloseFd 3), (7, Callback FC_DISCONNECT [AErr FE_PACKET])]"
proof -
  have "firetalk_find_handle (Some 1) (single_state chat_handle) = Some 7"
    by (simp add: firetalk_find_handle_def single_state_def chat_handle_def new_handle_def)
  moreover have "h_connected chat_handle \<noteq> FCS_NOTCONNECTED" by (simp add: chat_handle_def)
  ultimately have "\<exists>st' h'. firetalk_callback_disconnect (Some 1) FE_PACKET (single_state chat_handle) = Some st' \<and>
    the_handle 7 st' = Some h' \<and>
    h_connected h' = FCS_NOTCONNECTED \<and> h_username h' = None \<and> h_buddies h' = [] \<and>
    h_denies h' = [] \<and> h_rooms h' = [] \<and> h_files h' = h_files chat_handle \<and>
    s_log st' = s_log (single_state chat_handle) @ (7, CloseFd (h_fd chat_handle)) #
      (if h_connected chat_handle = FCS_ACTIVE \<and> h_callbacks chat_handle FC_DISCONNECT
       then [(7, Callback FC_DISCONNECT [AErr FE_PACKET])] else []) \<and>
    firetalk_callback_disconnect (Some 1) FE_PACKET st' = Some st'"
    by (intro disconnect_clears_session) simp_all
  then show ?thesis by (auto simp: chat_handle_def)
qed



text \<open>The answer to a request of a client on a handle that is not connected.\<close>

lemma chat_request_refused:
  "the_handle conn st = Some h \<Longrightarrow> \<not> allowed (h_connected h) \<Longrightarrow>
   chat_request ps allowed call conn room st = Some (FE_NOTCONNECTED, st)"
  by (simp add: chat_request_def)

lemma conn_request_refused:
  "the_handle conn st = Some h \<Longrightarrow> \<not> allowed (h_connected h) \<Longrightarrow>
   conn_request ps allowed call conn st = Some (FE_NOTCONNECTED, st)"
  by (simp add: conn_request_def)

lemmas request_defs =
  firetalk_chat_join_def firetalk_chat_part_def firetalk_chat_send_message_def
  firetalk_chat_send_action_def firetalk_chat_invite_def firetalk_chat_set_topic_def
  firetalk_chat_op_def firetalk_chat_deop_def firetalk_chat_kick_def
  firetalk_chat_requestextended_def firetalk_chat_listmembers_def firetalk_im_upload_buddies_def
  firetalk_im_upload_denies_def firetalk_im_get_info_def firetalk_set_info_def
  firetalk_set_away_def firetalk_set_nickname_def firetalk_set_password_def
  firetalk_set_privacy_def firetalk_im_searchemail_def firetalk_im_send_message_def
  firetalk_im_send_action_def firetalk_im_evil_def firetalk_im_add_deny_def
  firetalk_im_remove_deny_def firetalk_im_list_buddies_def firetalk_disconnect_def

text \<open>
  Every request on a handle that is down is refused with \<open>FE_NOTCONNECTED\<close> and leaves the
  session unchanged; no protocol function is called. Only a raw message, whose recipient is
  \<open>:RAW\<close>, passes.
\<close>

theorem down_handle_refuses:
  assumes h: "the_handle conn st = Some h" "h_connected h = FCS_NOTCONNECTED"
    and dest: "strcasecmp dest '':RAW'' \<noteq> 0"
  shows "\<forall>f \<in> {firetalk_chat_join ps conn x, firetalk_chat_part ps conn x,
      firetalk_chat_send_message ps conn x y n, firetalk_chat_send_action ps conn x y n,
      firetalk_chat_invite ps conn x y z, firetalk_chat_set_topic ps conn x y,
      firetalk_chat_op ps conn x y, firetalk_chat_deop ps conn x y,
      firetalk_chat_kick ps conn x y z, firetalk_chat_requestextended ps conn x,
      firetalk_chat_listmembers ps conn x, firetalk_im_upload_buddies ps conn,
      firetalk_im_upload_denies ps conn, firetalk_im_get_info ps conn x,
      firetalk_set_info ps conn x, firetalk_set_away ps conn m n, firetalk_set_nickname ps conn x,
      firetalk_set_password ps conn x y, firetalk_set_privacy ps conn (Some x),
      firetalk_im_searchemail ps conn x, firetalk_im_send_message ps conn dest y n,
      firetalk_im_send_action ps conn x y n, firetalk_im_evil ps conn x,
      firetalk_im_add_deny ps conn x, firetalk_im_remove_deny ps conn x,
      firetalk_im_list_buddies conn, firetalk_disconnect ps conn}.
    f st = Some (FE_NOTCONNECTED, st)"
  using h dest
  by (simp add: request_defs chat_request_refused conn_request_refused connected_any_def
      connected_active_def)

theorem down_handle_refuses_witness:
  "firetalk_chat_join [quiet_protocol] 7 ''#x'' (single_state (new_handle (Some 1) 0 0)) =
     Some (FE_NOTCONNECTED, single_state (new_handle (Some 1) 0 0))"
proof -
  have "h_connected (new_handle (Some 1) 0 0) = FCS_NOTCONNECTED" by (simp add: new_handle_def)
  moreover have "strcasecmp ''bob'' '':RAW'' \<noteq> 0" by code_simp
  ultimately show ?thesis
    using down_handle_refuses [of 7 "single_state (new_handle (Some 1) 0 0)"
        "new_handle (Some 1) 0 0" "''bob''"] by simp
qed

text \<open>Looking up a protocol by name.\<close>

lemma find_strprotocol_bounds:
  "find_strprotocol name ps i = - 1 \<or>
   (int i \<le> find_strprotocol name ps i \<and> find_strprotocol name ps i < int (i + length ps) \<and>
    strcasecmp name (p_strprotocol (ps ! nat (find_strprotocol name ps i - int i))) = 0)"
proof (induction ps arbitrary: i)
  case Nil
  then show ?case by simp
next
  case (Cons p ps)
  have "nat (k - int i) = Suc (nat (k - int (Suc i)))" if "int (Suc i) \<le> k" for k
    using that by linarith
  with Cons.IH [of "Suc i"] show ?case by auto
qed

lemma find_strprotocol_none:
  "find_strprotocol name ps i = - 1 \<longleftrightarrow> (\<forall>p \<in> set ps. strcasecmp name (p_strprotocol p) \<noteq> 0)"
  by (induction ps arbitrary: i) auto

text \<open>
  Looking up a protocol answers an index into the table whose protocol has the name, or
  \<open>-1\<close> when neither the table nor the two protocols of the program have it; looking it up again
  gives the same answer and leaves the table as it is, so the defaults are registered once.
\<close>

theorem find_protocol_stable:
  assumes run: "firetalk_find_protocol irc toc2 name (ps, registered) = Some (i, ps', registered')"
  shows "(if i = - 1 then \<forall>p \<in> set ps'. strcasecmp name (p_strprotocol p) \<noteq> 0
     else 0 \<le> i \<and> i < int (length ps') \<and> strcasecmp name (p_strprotocol (ps' ! nat i)) = 0) \<and>
    (i = - 1 \<longrightarrow> registered') \<and> (\<exists>more. ps' = ps @ more) \<and>
    firetalk_find_protocol irc toc2 name (ps', registered') = Some (i, ps', registered')"
proof -
  have i: "i = find_strprotocol name ps' 0"
    and cases: "registered' \<or> (i \<noteq> - 1)" and more: "\<exists>more. ps' = ps @ more"
    using run by (auto simp: firetalk_find_protocol_def Let_def firetalk_register_default_protocols_def
        firetalk_register_protocol_def split: if_split_asm)
  have "firetalk_find_protocol irc toc2 name (ps', registered') = Some (i, ps', registered')"
    using i cases by (auto simp: firetalk_find_protocol_def Let_def)
  with i cases more show ?thesis
    using find_strprotocol_bounds [of name ps' 0] find_strprotocol_none [of name ps' 0] by auto
qed

theorem find_protocol_stable_witness:
  "\<exists>ps'. firetalk_find_protocol quiet_protocol (quiet_protocol\<lparr>p_strprotocol := ''AIM''\<rparr>) ''aim'' ([], False) =
       Some (1, ps', True) \<and>
     firetalk_find_protocol quiet_protocol (quiet_protocol\<lparr>p_strprotocol := ''AIM''\<rparr>) ''aim'' (ps', True) =
       Some (1, ps', True)"
proof -
  let ?toc = "quiet_protocol\<lparr>p_strprotocol := ''AIM''\<rparr>"
  have "find_strprotocol ''aim'' [quiet_protocol, ?toc] 0 = 1" by code_simp
  then have "firetalk_find_protocol quiet_protocol ?toc ''aim'' ([], False) =
      Some (1, [quiet_protocol, ?toc], True)"
    by (simp add: firetalk_find_protocol_def firetalk_register_default_protocols_def
        firetalk_register_protocol_def)
  from find_protocol_stable [OF this] this show ?thesis by auto
qed

end
