(* ===== verification/FtSubcode.thy ===== *)
theory FtSubcode
  imports FtConn
begin

text \<open>
  Subcodes (CTCP requests and replies) in \<open>firetalk/firetalk.c\<close>: their encoding is queued for the
  recipient and leaves with the next message; the client registers handlers and fixed answers;
  incoming requests are answered from these or by the session layer itself. Also the decoder
  for base64 that the protocols use.
\<close>

section \<open>Sending\<close>

definition firetalk_subcode_send_request ::
  "ft_protocol list \<Rightarrow> nat \<Rightarrow> string \<Rightarrow> string \<Rightarrow> string option \<Rightarrow> ft_op" where
  "firetalk_subcode_send_request ps conn to command args st = do {
     h \<leftarrow> the_handle conn st;
     if h_connected h \<noteq> FCS_ACTIVE then Some (FE_NOTCONNECTED, st)
     else Some (FE_SUCCESS, put_handle conn (h\<lparr>h_subcode_requests :=
       firetalk_enqueue (h_subcode_requests h) to
         (p_subcode_encode (proto ps h) (h_handle h) command args)\<rparr>) st)
   }"

text \<open>The first byte of the recipient is read; of the empty string it is the terminator.\<close>

definition first_char :: "string \<Rightarrow> char" where
  "first_char s = (case s of [] \<Rightarrow> CHR 0x00 | c # _ \<Rightarrow> c)"

definition firetalk_subcode_send_reply ::
  "ft_protocol list \<Rightarrow> nat \<Rightarrow> string \<Rightarrow> string \<Rightarrow> string option \<Rightarrow> ft_op" where
  "firetalk_subcode_send_reply ps conn to command args st = do {
     h \<leftarrow> the_handle conn st;
     if h_connected h \<noteq> FCS_ACTIVE \<and> first_char to \<noteq> CHR '':'' then Some (FE_NOTCONNECTED, st)
     else Some (FE_SUCCESS, put_handle conn (h\<lparr>h_subcode_replies :=
       firetalk_enqueue (h_subcode_replies h) to
         (p_subcode_encode (proto ps h) (h_handle h) command args)\<rparr>) st)
   }"

section \<open>Registering\<close>

definition firetalk_subcode_register_request_callback ::
  "nat \<Rightarrow> string option \<Rightarrow> nat option \<Rightarrow> ft_op" where
  "firetalk_subcode_register_request_callback conn command callback st = do {
     h \<leftarrow> the_handle conn st;
     (case command of
        None \<Rightarrow> Some (FE_SUCCESS, put_handle conn (h\<lparr>h_subcode_request_default :=
          Some \<lparr>sc_command = None, sc_staticresp = None, sc_callback = callback\<rparr>\<rparr>) st)
      | Some cmd \<Rightarrow> Some (FE_SUCCESS, put_handle conn (h\<lparr>h_subcode_request :=
          \<lparr>sc_command = Some cmd, sc_staticresp = None, sc_callback = callback\<rparr>
            # h_subcode_request h\<rparr>) st))
   }"

definition firetalk_subcode_register_request_reply ::
  "nat \<Rightarrow> string option \<Rightarrow> string \<Rightarrow> ft_op" where
  "firetalk_subcode_register_request_reply conn command reply st = do {
     h \<leftarrow> the_handle conn st;
     (case command of
        None \<Rightarrow> Some (FE_SUCCESS, put_handle conn (h\<lparr>h_subcode_request_default :=
          Some \<lparr>sc_command = None, sc_staticresp = Some reply, sc_callback = None\<rparr>\<rparr>) st)
      | Some cmd \<Rightarrow> Some (FE_SUCCESS, put_handle conn (h\<lparr>h_subcode_request :=
          \<lparr>sc_command = Some cmd, sc_staticresp = Some reply, sc_callback = None\<rparr>
            # h_subcode_request h\<rparr>) st))
   }"

definition firetalk_subcode_register_reply_callback ::
  "nat \<Rightarrow> string option \<Rightarrow> nat option \<Rightarrow> ft_op" where
  "firetalk_subcode_register_reply_callback conn command callback st = do {
     h \<leftarrow> the_handle conn st;
     (case command of
        None \<Rightarrow> Some (FE_SUCCESS, put_handle conn (h\<lparr>h_subcode_reply_default :=
          Some \<lparr>sc_command = None, sc_staticresp = None, sc_callback = callback\<rparr>\<rparr>) st)
      | Some cmd \<Rightarrow> Some (FE_SUCCESS, put_handle conn (h\<lparr>h_subcode_reply :=
          \<lparr>sc_command = Some cmd, sc_staticresp = None, sc_callback = callback\<rparr>
            # h_subcode_reply h\<rparr>) st))
   }"

fun request_reply :: "string \<Rightarrow> ft_subcode_callback list \<Rightarrow> string option" where
  "request_reply command [] = None"
| "request_reply command (iter # iters) =
     (if sc_command iter = Some command \<and> sc_staticresp iter \<noteq> None then sc_staticresp iter
      else request_reply command iters)"

definition firetalk_subcode_get_request_reply ::
  "client \<Rightarrow> string \<Rightarrow> ft_state \<Rightarrow> string option option" where
  "firetalk_subcode_get_request_reply c command st = do {
     conn \<leftarrow> firetalk_find_handle c st;
     h \<leftarrow> the_handle conn st;
     Some (request_reply command (h_subcode_request h))
   }"

section \<open>Receiving\<close>

text \<open>
  \<open>firetalk_parse_subcode_args\<close> splits at single blanks into at most 255 arguments. After a
  blank the loop skips one more byte (the index is advanced twice), so a blank that follows a
  blank begins the next argument.
\<close>

fun split_args :: "nat \<Rightarrow> string \<Rightarrow> string \<Rightarrow> string list" where
  "split_args n cur [] = [rev cur]"
| "split_args n cur (c # cs) =
     (if n < 255 \<and> c = CHR '' '' then
        rev cur # (case cs of [] \<Rightarrow> [[]] | d # ds \<Rightarrow> split_args (Suc n) [d] ds)
      else split_args n (c # cur) cs)"

definition firetalk_parse_subcode_args :: "string \<Rightarrow> string list" where
  "firetalk_parse_subcode_args s = split_args 1 [] s"

text \<open>
  Running a handler of the client: it may call back into the session layer, so it is an
  argument. A handler that is \<open>NULL\<close> (a fixed answer has none) cannot be called.
\<close>

definition call_subcode ::
  "(nat \<Rightarrow> ft_state \<Rightarrow> ft_state option) \<Rightarrow> nat \<Rightarrow> ft_subcode_callback \<Rightarrow> ft_arg list \<Rightarrow>
   ft_state \<Rightarrow> ft_state option" where
  "call_subcode handler conn iter args st =
     (case sc_callback iter of
        None \<Rightarrow> None
      | Some f \<Rightarrow> handler f (log_event conn (SubcodeCallback f args) st))"

definition find_subcode :: "string \<Rightarrow> ft_subcode_callback list \<Rightarrow> ft_subcode_callback option" where
  "find_subcode command = List.find (\<lambda>iter. sc_command iter = Some command)"

end
