(* ===== verification/FtFile.thy ===== *)
theory FtFile
  imports FtSubcode
begin

text \<open>
  File transfers of \<open>firetalk/firetalk.c\<close>: offering, accepting, cancelling, the answer to a
  connection attempt, receiving and sending the contents. What the system calls answer is an
  argument; the bytes written to a descriptor are recorded in the log. A transfer is named by
  its identity; touching a transfer that is no longer in the list is reading freed memory and
  has no result.
\<close>

section \<open>The list of transfers\<close>

definition find_file :: "nat \<Rightarrow> ft_handle \<Rightarrow> ft_file option" where
  "find_file fid h = List.find (\<lambda>f. f_id f = fid) (h_files h)"

definition upd_file :: "nat \<Rightarrow> (ft_file \<Rightarrow> ft_file) \<Rightarrow> ft_handle \<Rightarrow> ft_handle" where
  "upd_file fid g h = h\<lparr>h_files := map_first (\<lambda>f. f_id f = fid) g (h_files h)\<rparr>"

definition close_if :: "nat \<Rightarrow> int \<Rightarrow> ft_state \<Rightarrow> ft_state" where
  "close_if conn fd st = (if 0 \<le> fd then log_event conn (CloseFd fd) st else st)"

definition firetalk_file_cancel :: "nat \<Rightarrow> nat \<Rightarrow> ft_op" where
  "firetalk_file_cancel conn fid st = do {
     h \<leftarrow> the_handle conn st;
     (case find_file fid h of
        None \<Rightarrow> Some (FE_NOTFOUND, st)
      | Some f \<Rightarrow> Some (FE_SUCCESS,
          close_if conn (f_filefd f) (close_if conn (f_sockfd f)
            (put_handle conn (h\<lparr>h_files := remove_first (\<lambda>f. f_id f = fid) (h_files h)\<rparr>) st))))
   }"

definition firetalk_file_refuse :: "nat \<Rightarrow> nat \<Rightarrow> ft_op" where
  "firetalk_file_refuse = firetalk_file_cancel"

text \<open>A transfer as \<open>calloc\<close> leaves it, with the given identity.\<close>

definition blank_file :: "nat \<Rightarrow> string \<Rightarrow> string \<Rightarrow> ft_file" where
  "blank_file fid who filename =
     \<lparr>f_id = fid, f_who = who, f_filename = filename, f_inet_ip = 0, f_port = 0, f_size = 0,
      f_bytes = 0, f_acked = 0, f_state = FF_STATE_WAITLOCAL, f_direction = FF_DIRECTION_SENDING,
      f_type = FF_TYPE_DCC, f_sockfd = 0, f_filefd = 0, f_clientfilestruct = None\<rparr>"

text \<open>\<open>htons\<close> and \<open>ntohs\<close> on a little-endian host swap the two bytes.\<close>

definition htons :: "16 word \<Rightarrow> 16 word" where
  "htons w = push_bit 8 w + drop_bit 8 w"

text \<open>
  A remote user offers a file. \<open>aton\<close> is \<open>inet_aton\<close>. When the address is not valid the
  transfer is cancelled through the pointer of the protocol instead of the session handle,
  which \<open>VERIFYCONN\<close> does not find: the program aborts.
\<close>

definition firetalk_callback_file_offer ::
  "(string \<Rightarrow> 32 word option) \<Rightarrow> client \<Rightarrow> string \<Rightarrow> string \<Rightarrow> int \<Rightarrow> string \<Rightarrow> 16 word \<Rightarrow>
   file_type \<Rightarrow> ft_state \<Rightarrow> ft_state option" where
  "firetalk_callback_file_offer aton c from_user filename size_arg ipstring port type_arg st = do {
     conn \<leftarrow> firetalk_find_handle c st;
     h \<leftarrow> the_handle conn st;
     let fid = s_fresh st;
     let f = (blank_file fid from_user filename)\<lparr>f_size := size_arg, f_bytes := 0, f_acked := 0,
        f_state := FF_STATE_WAITLOCAL, f_direction := FF_DIRECTION_RECEIVING, f_sockfd := - 1,
        f_filefd := - 1, f_port := htons port, f_type := type_arg, f_clientfilestruct := None\<rparr>;
     (case aton ipstring of
        None \<Rightarrow> None
      | Some ip \<Rightarrow> Some (emit conn FC_FILE_OFFER
          [AFile fid, AStr (Some from_user), AStr (Some filename), AInt size_arg]
          (put_handle conn (h\<lparr>h_files := f\<lparr>f_inet_ip := ip\<rparr> # h_files h\<rparr>)
            (st\<lparr>s_fresh := Suc fid\<rparr>))))
   }"

text \<open>What the system answers to the calls of \<open>firetalk_file_offer\<close>, in their order.\<close>

record offer_env =
  e_open :: int
  e_fstat :: "int option"
  e_socket :: int
  e_bind :: int
  e_listen :: int
  e_sockname :: "16 word option"

definition offer_args :: "string \<Rightarrow> 32 word \<Rightarrow> 16 word \<Rightarrow> int \<Rightarrow> string" where
  "offer_args filename ip port sz =
     take 255 (''SEND '' @ filename @ '' '' @ show_nat (unat ip) @ '' '' @ show_nat (unat port) @
       '' '' @ show_int sz)"

text \<open>
  The new transfer becomes the head of the list at once, but its \<open>next\<close> is set only at the
  end: until then the list is the new transfer alone, and a failure cancels it out of that
  list.
\<close>

definition offer_failed ::
  "nat \<Rightarrow> ft_handle \<Rightarrow> ft_file \<Rightarrow> fte \<Rightarrow> ft_state \<Rightarrow> (fte \<times> ft_state) option" where
  "offer_failed conn h f e st = do {
     (_, st) \<leftarrow> firetalk_file_cancel conn (f_id f) (put_handle conn (h\<lparr>h_files := [f]\<rparr>) st);
     Some (e, st)
   }"

definition firetalk_file_offer ::
  "ft_protocol list \<Rightarrow> offer_env \<Rightarrow> nat \<Rightarrow> string \<Rightarrow> string \<Rightarrow> nat option \<Rightarrow> ft_op" where
  "firetalk_file_offer ps env conn nickname filename clientfilestruct st = do {
     h \<leftarrow> the_handle conn st;
     let fid = s_fresh st;
     let st = st\<lparr>s_fresh := Suc fid\<rparr>;
     let f = (blank_file fid nickname filename)
        \<lparr>f_sockfd := - 1, f_clientfilestruct := clientfilestruct, f_filefd := e_open env\<rparr>;
     if e_open env = - 1 then offer_failed conn h f FE_IOERROR st
     else (case e_fstat env of
        None \<Rightarrow> offer_failed conn h f FE_IOERROR st
      | Some sz \<Rightarrow>
          let f = f\<lparr>f_size := sz, f_sockfd := e_socket env\<rparr> in
          if e_socket env = - 1 \<or> e_bind env \<noteq> 0 \<or> e_listen env \<noteq> 0
          then offer_failed conn h f FE_SOCKET st
          else (case e_sockname env of
             None \<Rightarrow> offer_failed conn h f FE_SOCKET st
           | Some sin_port \<Rightarrow>
               let f = f\<lparr>f_bytes := 0, f_state := FF_STATE_WAITREMOTE,
                 f_direction := FF_DIRECTION_SENDING, f_port := htons sin_port,
                 f_type := FF_TYPE_DCC\<rparr>;
                 st = put_handle conn (h\<lparr>h_files := f # h_files h\<rparr>) st in
               firetalk_subcode_send_request ps conn nickname ''DCC''
                 (Some (offer_args filename (h_localip h) (f_port f) sz)) st))
   }"

text \<open>\<open>open_fd\<close> and \<open>conn_fd\<close> are the results of \<open>open\<close> and of the connection attempt.\<close>

definition firetalk_file_accept :: "int \<Rightarrow> int \<Rightarrow> nat \<Rightarrow> nat \<Rightarrow> nat option \<Rightarrow> ft_op" where
  "firetalk_file_accept open_fd conn_fd conn fid clientfilestruct st = do {
     h \<leftarrow> the_handle conn st;
     _ \<leftarrow> find_file fid h;
     let h = upd_file fid (\<lambda>f. f\<lparr>f_clientfilestruct := clientfilestruct, f_filefd := open_fd\<rparr>) h;
     if open_fd = - 1 then Some (FE_NOPERMS, put_handle conn h st)
     else
       let st = put_handle conn (upd_file fid (\<lambda>f. f\<lparr>f_sockfd := conn_fd\<rparr>) h) st in
       if conn_fd = - 1 then do {
         (_, st) \<leftarrow> firetalk_file_cancel conn fid st;
         Some (FE_SOCKET, st)
       } else Some (FE_SUCCESS, put_handle conn
         (upd_file fid (\<lambda>f. f\<lparr>f_sockfd := conn_fd, f_state := FF_STATE_WAITSYNACK\<rparr>) h) st)
   }"

definition firetalk_handle_file_synack :: "nat \<Rightarrow> nat \<Rightarrow> int option \<Rightarrow> ft_op" where
  "firetalk_handle_file_synack conn fid so_error st =
     (if so_error = None then do {
        (_, st) \<leftarrow> firetalk_file_cancel conn fid st;
        Some (FE_SOCKET, st)
      } else if so_error \<noteq> Some 0 then do {
        (_, st) \<leftarrow> firetalk_file_cancel conn fid st;
        Some (FE_CONNECT, st)
      } else do {
        h \<leftarrow> the_handle conn st;
        f \<leftarrow> find_file fid h;
        Some (FE_SUCCESS, emit conn FC_FILE_START [AFile fid, AClient (f_clientfilestruct f)]
          (put_handle conn (upd_file fid (\<lambda>f. f\<lparr>f_state := FF_STATE_TRANSFERRING\<rparr>) h) st))
      })"

section \<open>Receiving\<close>

text \<open>
  The answers to the pairs of \<open>recv\<close> and \<open>write\<close>: the bytes received (\<open>None\<close> for an error,
  such as nothing being there) and what \<open>write\<close> returns for them. When the answers are used
  up nothing more is there.
\<close>

type_synonym recv_env = "(string option \<times> int) list"

definition file_failed :: "nat \<Rightarrow> nat \<Rightarrow> ft_file \<Rightarrow> fte \<Rightarrow> ft_state \<Rightarrow> ft_state option" where
  "file_failed conn fid f e st = do {
     (_, st) \<leftarrow> firetalk_file_cancel conn fid
       (emit conn FC_FILE_ERROR [AFile fid, AClient (f_clientfilestruct f), AErr e] st);
     Some st
   }"

text \<open>
  One block is copied from the socket to the file: the state after it, and whether the copying
  succeeded.
\<close>

definition copy_block ::
  "nat \<Rightarrow> nat \<Rightarrow> string \<Rightarrow> int \<Rightarrow> ft_state \<Rightarrow> (bool \<times> ft_state) option" where
  "copy_block conn fid data written st = do {
     h \<leftarrow> the_handle conn st;
     f \<leftarrow> find_file fid h;
     if written \<noteq> int (length data) then map_option (Pair False) (file_failed conn fid f FE_IOERROR st)
     else Some (True, put_handle conn
       (upd_file fid (\<lambda>f. f\<lparr>f_bytes := f_bytes f + int (length data)\<rparr>) h)
       (log_event conn (WriteFd (f_filefd f) data) st))
   }"

fun receive_blocks :: "nat \<Rightarrow> nat \<Rightarrow> recv_env \<Rightarrow> ft_state \<Rightarrow> (bool \<times> ft_state) option" where
  "receive_blocks conn fid [] st = Some (True, st)"
| "receive_blocks conn fid ((None, w) # env) st = Some (True, st)"
| "receive_blocks conn fid ((Some data, w) # env) st =
     (if length data = 4096 then do {
        (ok, st) \<leftarrow> copy_block conn fid data w st;
        if ok then receive_blocks conn fid env st else Some (False, st)
      } else copy_block conn fid data w st)"

text \<open>
  After the blocks a DCC transfer acknowledges the number of bytes, in network byte order;
  \<open>acked_len\<close> is what that \<open>write\<close> returns. The client sees the progress, and the end when the
  size is reached.
\<close>

definition firetalk_handle_receive ::
  "nat \<Rightarrow> nat \<Rightarrow> recv_env \<Rightarrow> int \<Rightarrow> ft_state \<Rightarrow> ft_state option" where
  "firetalk_handle_receive conn fid env acked_len st = do {
     (ok, st) \<leftarrow> receive_blocks conn fid env st;
     if \<not> ok then Some st
     else do {
       h \<leftarrow> the_handle conn st;
       f \<leftarrow> find_file fid h;
       if f_type f = FF_TYPE_DCC \<and> acked_len \<noteq> 4 then file_failed conn fid f FE_IOERROR st
       else
         let st = emit conn FC_FILE_PROGRESS
           [AFile fid, AClient (f_clientfilestruct f), AInt (f_bytes f), AInt (f_size f)] st in
         if f_bytes f = f_size f then do {
           (_, st) \<leftarrow> firetalk_file_cancel conn fid (emit conn FC_FILE_FINISH
             [AFile fid, AClient (f_clientfilestruct f), AInt (f_size f)] st);
           Some st
         } else Some st
     }
   }"

section \<open>Sending\<close>

text \<open>
  The file that is read: its contents and the position. \<open>lseek\<close> relative to the position
  refuses a negative result and then leaves the position.
\<close>

record send_io =
  io_content :: string
  io_pos :: nat

definition lseek_cur :: "int \<Rightarrow> send_io \<Rightarrow> send_io" where
  "lseek_cur off io =
     (if int (io_pos io) + off < 0 then io else io\<lparr>io_pos := nat (int (io_pos io) + off)\<rparr>)"

definition read_block :: "send_io \<Rightarrow> string \<times> send_io" where
  "read_block io =
     (let data = take 4096 (drop (io_pos io) (io_content io))
      in (data, io\<lparr>io_pos := io_pos io + length data\<rparr>))"

text \<open>
  What the peer and the network do: for every \<open>send\<close> its result and the acknowledgements that
  can be read after it without waiting, then the acknowledgements that arrive at the end.
\<close>

record send_env =
  se_sends :: "(int \<times> 32 word list) list"
  se_final :: "32 word list"

definition send_progress :: "nat \<Rightarrow> nat \<Rightarrow> ft_state \<Rightarrow> ft_state option" where
  "send_progress conn fid st = do {
     h \<leftarrow> the_handle conn st;
     f \<leftarrow> find_file fid h;
     Some (emit conn FC_FILE_PROGRESS
       [AFile fid, AClient (f_clientfilestruct f), AInt (f_bytes f), AInt (f_size f)] st)
   }"

text \<open>Counting what \<open>send\<close> returned: the value is added even when it is \<open>-1\<close>.\<close>

definition count_sent :: "nat \<Rightarrow> nat \<Rightarrow> string \<Rightarrow> int \<Rightarrow> ft_state \<Rightarrow> ft_state option" where
  "count_sent conn fid data s st = do {
     h \<leftarrow> the_handle conn st;
     f \<leftarrow> find_file fid h;
     Some (put_handle conn (upd_file fid (\<lambda>f. f\<lparr>f_bytes := f_bytes f + s\<rparr>) h)
       (log_event conn (WriteFd (f_sockfd f) (take (nat s) data)) st))
   }"

definition note_acks :: "nat \<Rightarrow> nat \<Rightarrow> 32 word list \<Rightarrow> ft_state \<Rightarrow> ft_state option" where
  "note_acks conn fid acks st = do {
     h \<leftarrow> the_handle conn st;
     f \<leftarrow> find_file fid h;
     Some (if f_type f = FF_TYPE_DCC \<and> acks \<noteq> []
       then put_handle conn (upd_file fid (\<lambda>f. f\<lparr>f_acked := last acks\<rparr>) h) st else st)
   }"

text \<open>
  The wait for the last acknowledgement: \<open>None\<close> when it never comes, for then the loop does not
  end.
\<close>

fun wait_ack :: "32 word \<Rightarrow> 32 word \<Rightarrow> 32 word list \<Rightarrow> 32 word option" where
  "wait_ack acked target acks =
     (if acked < target then
        (case acks of [] \<Rightarrow> None | a # rest \<Rightarrow> wait_ack a target rest)
      else Some acked)"

declare wait_ack.simps [simp del]

definition settle_acks :: "nat \<Rightarrow> nat \<Rightarrow> 32 word list \<Rightarrow> ft_state \<Rightarrow> ft_state option" where
  "settle_acks conn fid final st = do {
     h \<leftarrow> the_handle conn st;
     f \<leftarrow> find_file fid h;
     if f_type f = FF_TYPE_DCC then do {
       acked \<leftarrow> wait_ack (f_acked f) (word_of_int (f_bytes f)) final;
       Some (put_handle conn (upd_file fid (\<lambda>f. f\<lparr>f_acked := acked\<rparr>) h) st)
     } else Some st
   }"

definition file_done :: "nat \<Rightarrow> nat \<Rightarrow> ft_state \<Rightarrow> ft_state option" where
  "file_done conn fid st = do {
     h \<leftarrow> the_handle conn st;
     f \<leftarrow> find_file fid h;
     (_, st) \<leftarrow> firetalk_file_cancel conn fid (emit conn FC_FILE_FINISH
       [AFile fid, AClient (f_clientfilestruct f), AInt (f_bytes f)] st);
     Some st
   }"

definition finish_send ::
  "nat \<Rightarrow> nat \<Rightarrow> string \<Rightarrow> int \<Rightarrow> 32 word list \<Rightarrow> ft_state \<Rightarrow> ft_state option" where
  "finish_send conn fid data r final st = do {
     h \<leftarrow> the_handle conn st;
     f \<leftarrow> find_file fid h;
     if r \<noteq> int (length data) then file_failed conn fid f FE_IOERROR st
     else do {
       st \<leftarrow> count_sent conn fid data (int (length data)) st;
       st \<leftarrow> settle_acks conn fid final st;
       st \<leftarrow> send_progress conn fid st;
       file_done conn fid st
     }
   }"

text \<open>
  The loop over full blocks. The answers to \<open>send\<close> are used up one by one; without an answer
  the call would block and returns \<open>-1\<close>.
\<close>

fun send_blocks ::
  "nat \<Rightarrow> nat \<Rightarrow> (int \<times> 32 word list) list \<Rightarrow> 32 word list \<Rightarrow> send_io \<Rightarrow> ft_state \<Rightarrow>
   (send_io \<times> ft_state) option" where
  "send_blocks conn fid sends final io st =
     (case read_block io of (data, io') \<Rightarrow>
        if length data = 4096 then
          (case sends of
             [] \<Rightarrow> do {
               st \<leftarrow> count_sent conn fid data (- 1) st;
               st \<leftarrow> send_progress conn fid st;
               Some (lseek_cur (- 4097) io', st)
             }
           | (s, acks) # rest \<Rightarrow> do {
               st \<leftarrow> count_sent conn fid data s st;
               st \<leftarrow> send_progress conn fid st;
               if s \<noteq> 4096 then Some (lseek_cur (- (4096 - s)) io', st)
               else do {
                 st \<leftarrow> note_acks conn fid acks st;
                 send_blocks conn fid rest final io' st
               }
             })
        else do {
          st \<leftarrow> finish_send conn fid data (case sends of [] \<Rightarrow> - 1 | (s, _) # _ \<Rightarrow> s) final st;
          Some (io', st)
        })"

declare send_blocks.simps [simp del]

definition firetalk_handle_send ::
  "nat \<Rightarrow> nat \<Rightarrow> send_env \<Rightarrow> send_io \<Rightarrow> ft_state \<Rightarrow> (send_io \<times> ft_state) option" where
  "firetalk_handle_send conn fid env io st =
     send_blocks conn fid (se_sends env) (se_final env) io st"

section \<open>What was written to a descriptor\<close>

definition written_bytes :: "nat \<Rightarrow> int \<Rightarrow> ft_state \<Rightarrow> string" where
  "written_bytes conn fd st = concat (map (\<lambda>(a, ev).
     case ev of WriteFd fd' data \<Rightarrow> if a = conn \<and> fd' = fd then data else [] | _ \<Rightarrow> []) (s_log st))"

lemma written_log [conn_simps]:
  "written_bytes conn fd (log_event a ev st) = written_bytes conn fd st @
     (case ev of WriteFd fd' data \<Rightarrow> if a = conn \<and> fd' = fd then data else [] | _ \<Rightarrow> [])"
  by (simp add: written_bytes_def log_event_def)

lemma written_emit [conn_simps]: "written_bytes conn fd (emit a fc args st) = written_bytes conn fd st"
  by (simp add: emit_def conn_simps split: option.split)

lemma written_put [conn_simps]: "written_bytes conn fd (put_handle a h st) = written_bytes conn fd st"
  by (simp add: written_bytes_def put_handle_def)

lemma written_close [conn_simps]: "written_bytes conn fd (close_if a d st) = written_bytes conn fd st"
  by (simp add: close_if_def conn_simps)

lemma the_handle_close [conn_simps]: "the_handle a (close_if conn fd st) = the_handle a st"
  by (simp add: close_if_def conn_simps)

lemma find_upd_file [conn_simps]:
  "(\<And>f. f_id (g f) = f_id f) \<Longrightarrow> find_file fid (upd_file fid g h) = map_option g (find_file fid h)"
  by (simp add: find_file_def upd_file_def find_map_first)

lemma upd_file_callbacks [conn_simps]: "h_callbacks (upd_file fid g h) = h_callbacks h"
  by (simp add: upd_file_def)

lemma map_first_compose:
  "(\<And>x. p x \<Longrightarrow> p (g x)) \<Longrightarrow> map_first p f (map_first p g xs) = map_first p (f \<circ> g) xs"
  by (induction xs) auto

lemma upd_upd_file [conn_simps]:
  "(\<And>x. f_id (g x) = f_id x) \<Longrightarrow> upd_file fid f (upd_file fid g h) = upd_file fid (f \<circ> g) h"
  by (simp add: upd_file_def map_first_compose)

text \<open>The other transfers of the handle.\<close>

definition other_files :: "nat \<Rightarrow> ft_handle \<Rightarrow> ft_file list" where
  "other_files fid h = filter (\<lambda>f. f_id f \<noteq> fid) (h_files h)"

lemma other_files_upd [conn_simps]:
  "(\<And>f. f_id (g f) = f_id f) \<Longrightarrow> other_files fid (upd_file fid g h) = other_files fid h"
proof -
  assume g: "\<And>f. f_id (g f) = f_id f"
  have "filter (\<lambda>f. f_id f \<noteq> fid) (map_first (\<lambda>f. f_id f = fid) g xs) =
      filter (\<lambda>f. f_id f \<noteq> fid) xs" for xs
    by (induction xs) (auto simp: g)
  then show ?thesis by (simp add: other_files_def upd_file_def)
qed

lemma remove_first_distinct_key:
  "distinct (map key xs) \<Longrightarrow> remove_first (\<lambda>x. key x = k) xs = filter (\<lambda>x. key x \<noteq> k) xs"
proof (induction xs)
  case (Cons x xs)
  show ?case
  proof (cases "key x = k")
    case True
    moreover have "key x \<notin> key ` set xs" using Cons.prems by simp
    ultimately have "\<forall>y \<in> set xs. key y \<noteq> k" by (metis imageI)
    then show ?thesis using True by simp
  qed (use Cons in simp)
qed simp

section \<open>Properties\<close>

text \<open>
  C20. Cancelling a transfer removes it and no other transfer from its handle and closes those
  of its two descriptors that are open; a second cancellation finds nothing.
\<close>

theorem cancel_removes_transfer:
  assumes h: "the_handle conn st = Some h" and f: "find_file fid h = Some f"
    and ids: "distinct (map f_id (h_files h))"
  shows "\<exists>st' h'. firetalk_file_cancel conn fid st = Some (FE_SUCCESS, st') \<and>
    the_handle conn st' = Some h' \<and> h_files h' = other_files fid h \<and>
    s_log st' = s_log st @ (if 0 \<le> f_sockfd f then [(conn, CloseFd (f_sockfd f))] else []) @
      (if 0 \<le> f_filefd f then [(conn, CloseFd (f_filefd f))] else []) \<and>
    firetalk_file_cancel conn fid st' = Some (FE_NOTFOUND, st')"
proof -
  let ?h = "h\<lparr>h_files := remove_first (\<lambda>f. f_id f = fid) (h_files h)\<rparr>"
  let ?st = "close_if conn (f_filefd f) (close_if conn (f_sockfd f) (put_handle conn ?h st))"
  have files: "h_files ?h = other_files fid h"
    using remove_first_distinct_key [OF ids] by (simp add: other_files_def)
  then have "find_file fid ?h = None"
    by (simp add: find_file_def find_None_conv other_files_def)
  then have "firetalk_file_cancel conn fid ?st = Some (FE_NOTFOUND, ?st)"
    by (simp add: firetalk_file_cancel_def conn_simps)
  moreover have "firetalk_file_cancel conn fid st = Some (FE_SUCCESS, ?st)"
    using h f by (simp add: firetalk_file_cancel_def)
  moreover have "s_log ?st = s_log st @ (if 0 \<le> f_sockfd f then [(conn, CloseFd (f_sockfd f))] else []) @
      (if 0 \<le> f_filefd f then [(conn, CloseFd (f_filefd f))] else [])"
    by (simp add: close_if_def log_event_def frame_simps)
  ultimately show ?thesis
    using files by (intro exI [of _ ?st] exI [of _ ?h]) (simp add: conn_simps)
qed

definition file_handle :: ft_handle where
  "file_handle = (new_handle (Some 1) 0 0)\<lparr>h_connected := FCS_ACTIVE, h_fd := 3,
     h_callbacks := (\<lambda>_. True),
     h_files := [(blank_file 4 ''bob'' ''a.txt'')\<lparr>f_sockfd := 5, f_filefd := 6, f_type := FF_TYPE_RAW,
                    f_state := FF_STATE_TRANSFERRING\<rparr>,
                 (blank_file 3 ''ann'' ''b.txt'')\<lparr>f_sockfd := 8, f_filefd := 9, f_size := 3,
                    f_state := FF_STATE_TRANSFERRING, f_direction := FF_DIRECTION_RECEIVING\<rparr>]\<rparr>"

theorem cancel_removes_transfer_witness:
  "\<exists>st'. firetalk_file_cancel 7 4 (single_state file_handle) = Some (FE_SUCCESS, st') \<and>
     s_log st' = [(7, CloseFd 5), (7, CloseFd 6)]"
proof -
  let ?f = "(blank_file 4 ''bob'' ''a.txt'')\<lparr>f_sockfd := 5, f_filefd := 6, f_type := FF_TYPE_RAW,
      f_state := FF_STATE_TRANSFERRING\<rparr>"
  have "find_file 4 file_handle = Some ?f"
    by (simp add: find_file_def file_handle_def blank_file_def)
  moreover have "distinct (map f_id (h_files file_handle))"
    by (simp add: file_handle_def blank_file_def)
  moreover have "f_sockfd ?f = 5" "f_filefd ?f = 6" by (simp_all add: blank_file_def)
  ultimately show ?thesis
    using cancel_removes_transfer [of 7 "single_state file_handle" file_handle 4 ?f] by auto
qed

lemma cancel_spec:
  assumes "the_handle conn st = Some h" "find_file fid h = Some f"
  shows "\<exists>st'. firetalk_file_cancel conn fid st = Some (FE_SUCCESS, st') \<and>
    the_handle conn st' = Some (h\<lparr>h_files := remove_first (\<lambda>f. f_id f = fid) (h_files h)\<rparr>) \<and>
    (\<forall>a fd. written_bytes a fd st' = written_bytes a fd st)"
  using assms by (simp add: firetalk_file_cancel_def conn_simps)

section \<open>A complete reception\<close>

text \<open>Blocks as a stream socket hands them over: all but the last one full.\<close>

fun full_blocks :: "string list \<Rightarrow> bool" where
  "full_blocks [] \<longleftrightarrow> True"
| "full_blocks [b] \<longleftrightarrow> True"
| "full_blocks (b # bs) \<longleftrightarrow> length b = 4096 \<and> full_blocks bs"

definition all_written :: "string list \<Rightarrow> recv_env" where
  "all_written bs = map (\<lambda>b. (Some b, int (length b))) bs"

lemma receive_blocks_copies:
  assumes "the_handle conn st = Some h" "find_file fid h = Some f" "full_blocks bs"
  shows "\<exists>st'. receive_blocks conn fid (all_written bs) st = Some (True, st') \<and>
    the_handle conn st' = Some
      (upd_file fid (\<lambda>f. f\<lparr>f_bytes := f_bytes f + int (length (concat bs))\<rparr>) h) \<and>
    written_bytes conn (f_filefd f) st' = written_bytes conn (f_filefd f) st @ concat bs"
  using assms
proof (induction bs arbitrary: st h f rule: full_blocks.induct)
  case 1
  have "map_first p (\<lambda>f. f) xs = xs" for p and xs :: "ft_file list"
    by (induction xs) auto
  with 1 show ?case by (simp add: all_written_def upd_file_def)
next
  case (2 b)
  then show ?case
    by (simp add: all_written_def copy_block_def conn_simps)
next
  case (3 b b' bs)
  let ?add = "\<lambda>n f. f\<lparr>f_bytes := f_bytes f + int n\<rparr>"
  let ?st = "put_handle conn (upd_file fid (?add (length b)) h)
      (log_event conn (WriteFd (f_filefd f) b) st)"
  have copy: "copy_block conn fid b (int (length b)) st = Some (True, ?st)"
    using 3 by (simp add: copy_block_def)
  have f1: "find_file fid (upd_file fid (?add (length b)) h) = Some (?add (length b) f)"
    using 3 by (simp add: conn_simps)
  from "3.IH" [of ?st "upd_file fid (?add (length b)) h" "?add (length b) f"] f1 "3.prems"(3)
  obtain st' where "receive_blocks conn fid (all_written (b' # bs)) ?st = Some (True, st')"
    "the_handle conn st' = Some (upd_file fid (?add (length (concat (b' # bs))))
      (upd_file fid (?add (length b)) h))"
    "written_bytes conn (f_filefd f) st' = written_bytes conn (f_filefd f) ?st @ concat (b' # bs)"
    by (auto simp: conn_simps)
  with copy "3.prems"(3) show ?case
    by (simp add: all_written_def conn_simps o_def algebra_simps)
qed



section \<open>A complete transmission\<close>

text \<open>Every call of \<open>send\<close> takes all it is given.\<close>

fun sends_complete :: "(int \<times> 32 word list) list \<Rightarrow> nat \<Rightarrow> bool" where
  "sends_complete [] rest \<longleftrightarrow> False"
| "sends_complete ((s, acks) # sends) rest \<longleftrightarrow>
     (if 4096 \<le> rest then s = 4096 \<and> sends_complete sends (rest - 4096) else s = int rest)"

lemma wait_ack_single: "\<exists>acked. wait_ack a t [t] = Some acked"
  by (simp add: wait_ack.simps [of a t] wait_ack.simps [of t t])

text \<open>The state between the steps: the handle still has the transfer, and the same other ones.\<close>

definition sending ::
  "nat \<Rightarrow> nat \<Rightarrow> ft_file \<Rightarrow> ft_handle \<Rightarrow> string \<Rightarrow> ft_state \<Rightarrow> bool" where
  "sending conn fid f h sent st \<longleftrightarrow>
     (\<exists>h'. the_handle conn st = Some h' \<and> find_file fid h' = Some f \<and>
       map f_id (h_files h') = map f_id (h_files h) \<and> other_files fid h' = other_files fid h \<and>
       written_bytes conn (f_sockfd f) st = sent)"

lemma sending_upd:
  assumes "sending conn fid f h sent st" "\<And>f. f_id (g f) = f_id f" "f_sockfd (g f) = f_sockfd f"
  obtains h' where "the_handle conn st = Some h'" "find_file fid h' = Some f"
    "sending conn fid (g f) h sent (put_handle conn (upd_file fid g h') st)"
  using assms unfolding sending_def
  by (auto simp: conn_simps) (simp add: upd_file_def map_map_first)

lemma sending_emit [simp]: "sending conn fid f h sent (emit conn fc args st) = sending conn fid f h sent st"
  by (simp add: sending_def conn_simps)

lemma count_sent_ok:
  assumes "sending conn fid f h sent st"
  shows "\<exists>st'. count_sent conn fid data (int (length data)) st = Some st' \<and>
    sending conn fid (f\<lparr>f_bytes := f_bytes f + int (length data)\<rparr>) h (sent @ data) st'"
proof -
  let ?g = "\<lambda>f. f\<lparr>f_bytes := f_bytes f + int (length data)\<rparr>"
  let ?st = "log_event conn (WriteFd (f_sockfd f) data) st"
  have "sending conn fid f h (sent @ data) ?st"
    using assms by (auto simp: sending_def conn_simps)
  then obtain h' where "the_handle conn ?st = Some h'" "find_file fid h' = Some f"
    "sending conn fid (?g f) h (sent @ data) (put_handle conn (upd_file fid ?g h') ?st)"
    by (rule sending_upd [where g = ?g]) simp_all
  then show ?thesis by (simp add: count_sent_def conn_simps)
qed

lemma send_progress_ok:
  "sending conn fid f h sent st \<Longrightarrow>
   \<exists>st'. send_progress conn fid st = Some st' \<and> sending conn fid f h sent st'"
  by (auto simp: send_progress_def) (auto simp: sending_def conn_simps)

lemma note_acks_ok:
  assumes "sending conn fid f h sent st"
  shows "\<exists>st' f'. note_acks conn fid acks st = Some st' \<and> sending conn fid f' h sent st' \<and>
    f_bytes f' = f_bytes f \<and> f_type f' = f_type f \<and> f_sockfd f' = f_sockfd f"
proof -
  let ?g = "\<lambda>f. f\<lparr>f_acked := last acks\<rparr>"
  obtain h' where h': "the_handle conn st = Some h'" "find_file fid h' = Some f"
    "sending conn fid (?g f) h sent (put_handle conn (upd_file fid ?g h') st)"
    using assms by (rule sending_upd [where g = ?g]) simp_all
  show ?thesis
  proof (cases "f_type f = FF_TYPE_DCC \<and> acks \<noteq> []")
    case True
    with h' show ?thesis
      by (intro exI [of _ "put_handle conn (upd_file fid ?g h') st"] exI [of _ "?g f"])
        (simp add: note_acks_def)
  next
    case False
    with h' assms show ?thesis
      by (intro exI [of _ st] exI [of _ f]) (auto simp: note_acks_def)
  qed
qed

lemma settle_acks_ok:
  assumes "sending conn fid f h sent st"
    and "f_type f = FF_TYPE_DCC \<Longrightarrow> final = [word_of_int (f_bytes f)]"
  shows "\<exists>st' f'. settle_acks conn fid final st = Some st' \<and> sending conn fid f' h sent st' \<and>
    f_sockfd f' = f_sockfd f"
proof -
  obtain acked where acked: "wait_ack (f_acked f) (word_of_int (f_bytes f)) [word_of_int (f_bytes f)] = Some acked"
    using wait_ack_single by blast
  let ?g = "\<lambda>f. f\<lparr>f_acked := acked\<rparr>"
  obtain h' where h': "the_handle conn st = Some h'" "find_file fid h' = Some f"
    "sending conn fid (?g f) h sent (put_handle conn (upd_file fid ?g h') st)"
    using assms(1) by (rule sending_upd [where g = ?g]) simp_all
  show ?thesis
  proof (cases "f_type f = FF_TYPE_DCC")
    case True
    with h' acked assms(2) show ?thesis
      by (intro exI [of _ "put_handle conn (upd_file fid ?g h') st"] exI [of _ "?g f"])
        (simp add: settle_acks_def)
  next
    case False
    with h' assms show ?thesis
      by (intro exI [of _ st] exI [of _ f]) (simp add: settle_acks_def)
  qed
qed

lemma file_done_ok:
  assumes "sending conn fid f h sent st" "distinct (map f_id (h_files h))"
  shows "\<exists>st' h'. file_done conn fid st = Some st' \<and> the_handle conn st' = Some h' \<and>
    h_files h' = other_files fid h \<and> written_bytes conn (f_sockfd f) st' = sent"
proof -
  obtain h1 where h1: "the_handle conn st = Some h1" "find_file fid h1 = Some f"
    "map f_id (h_files h1) = map f_id (h_files h)" "other_files fid h1 = other_files fid h"
    "written_bytes conn (f_sockfd f) st = sent"
    using assms(1) by (auto simp: sending_def)
  have "remove_first (\<lambda>f. f_id f = fid) (h_files h1) = other_files fid h"
    using remove_first_distinct_key [of f_id "h_files h1" fid] h1 assms(2) by (simp add: other_files_def)
  with h1 cancel_spec [of conn "emit conn FC_FILE_FINISH
      [AFile fid, AClient (f_clientfilestruct f), AInt (f_bytes f)] st" h1 fid f]
  show ?thesis by (auto simp: file_done_def conn_simps)
qed

lemma finish_send_ok:
  assumes s: "sending conn fid f h sent st" and ids: "distinct (map f_id (h_files h))"
    and acks: "f_type f = FF_TYPE_DCC \<Longrightarrow> final = [word_of_int (f_bytes f + int (length data))]"
  shows "\<exists>st' h'. finish_send conn fid data (int (length data)) final st = Some st' \<and>
    the_handle conn st' = Some h' \<and> h_files h' = other_files fid h \<and>
    written_bytes conn (f_sockfd f) st' = sent @ data"
proof -
  obtain h0 where h0: "the_handle conn st = Some h0" "find_file fid h0 = Some f"
    using s by (auto simp: sending_def)
  let ?f1 = "f\<lparr>f_bytes := f_bytes f + int (length data)\<rparr>"
  obtain st1 where 1: "count_sent conn fid data (int (length data)) st = Some st1"
    "sending conn fid ?f1 h (sent @ data) st1"
    using count_sent_ok [OF s] by blast
  obtain st2 f2 where 2: "settle_acks conn fid final st1 = Some st2"
    "sending conn fid f2 h (sent @ data) st2" "f_sockfd f2 = f_sockfd f"
    using settle_acks_ok [OF 1(2), of final] acks by auto
  obtain st3 where 3: "send_progress conn fid st2 = Some st3" "sending conn fid f2 h (sent @ data) st3"
    using send_progress_ok [OF 2(2)] by blast
  from file_done_ok [OF 3(2) ids] h0 1(1) 2 3(1) show ?thesis
    by (auto simp: finish_send_def)
qed

lemma send_blocks_ok:
  assumes "sending conn fid f h sent st" "distinct (map f_id (h_files h))"
    and "io_pos io \<le> length (io_content io)"
    and "sends_complete sends (length (io_content io) - io_pos io)"
    and "f_type f = FF_TYPE_DCC \<Longrightarrow>
      final = [word_of_int (f_bytes f + int (length (io_content io) - io_pos io))]"
  shows "\<exists>io' st' h'. send_blocks conn fid sends final io st = Some (io', st') \<and>
    the_handle conn st' = Some h' \<and> h_files h' = other_files fid h \<and>
    written_bytes conn (f_sockfd f) st' = sent @ drop (io_pos io) (io_content io)"
  using assms
proof (induction sends arbitrary: io st f sent)
  case Nil
  then show ?case by simp
next
  case (Cons sa sends)
  obtain s acks where sa: "sa = (s, acks)" by (cases sa)
  let ?n = "length (io_content io) - io_pos io"
  let ?data = "take 4096 (drop (io_pos io) (io_content io))"
  show ?case
  proof (cases "4096 \<le> ?n")
    case False
    then have data: "?data = drop (io_pos io) (io_content io)" by simp
    let ?rest = "drop (io_pos io) (io_content io)"
    have "\<exists>st' h'. finish_send conn fid ?rest (int (length ?rest)) final st = Some st' \<and>
      the_handle conn st' = Some h' \<and> h_files h' = other_files fid h \<and>
      written_bytes conn (f_sockfd f) st' = sent @ ?rest"
      using Cons.prems(5) by (intro finish_send_ok [OF Cons.prems(1,2)]) simp
    moreover have "send_blocks conn fid (sa # sends) final io st =
        Option.bind (finish_send conn fid ?rest s final st)
          (\<lambda>st'. Some (io\<lparr>io_pos := io_pos io + length ?rest\<rparr>, st'))"
      using False data sa
      by (simp add: send_blocks.simps [of conn fid "(s, acks) # sends"] read_block_def Let_def)
    moreover have "s = int (length ?rest)" using Cons.prems(4) False sa by simp
    ultimately show ?thesis by auto
  next
    case True
    then have len: "length ?data = 4096" by simp
    let ?io = "io\<lparr>io_pos := io_pos io + 4096\<rparr>"
    obtain st1 where 1: "count_sent conn fid ?data 4096 st = Some st1"
      "sending conn fid (f\<lparr>f_bytes := f_bytes f + 4096\<rparr>) h (sent @ ?data) st1"
      using count_sent_ok [OF Cons.prems(1), of ?data] len by auto
    obtain st2 where 2: "send_progress conn fid st1 = Some st2"
      "sending conn fid (f\<lparr>f_bytes := f_bytes f + 4096\<rparr>) h (sent @ ?data) st2"
      using send_progress_ok [OF 1(2)] by blast
    obtain st3 f3 where 3: "note_acks conn fid acks st2 = Some st3"
      "sending conn fid f3 h (sent @ ?data) st3" "f_bytes f3 = f_bytes f + 4096"
      "f_type f3 = f_type f" "f_sockfd f3 = f_sockfd f"
      using note_acks_ok [OF 2(2)] by fastforce
    have rest: "?data @ drop (io_pos io + 4096) (io_content io) = drop (io_pos io) (io_content io)"
      by (metis add.commute append_take_drop_id drop_drop)
    have "\<exists>io' st' h'. send_blocks conn fid sends final ?io st3 = Some (io', st') \<and>
      the_handle conn st' = Some h' \<and> h_files h' = other_files fid h \<and>
      written_bytes conn (f_sockfd f3) st' = (sent @ ?data) @ drop (io_pos ?io) (io_content ?io)"
    proof (rule Cons.IH [OF 3(2) Cons.prems(2)])
      show "io_pos ?io \<le> length (io_content ?io)" using True by simp
      have rem: "length (io_content ?io) - io_pos ?io = ?n - 4096" by simp
      show "sends_complete sends (length (io_content ?io) - io_pos ?io)"
        using Cons.prems(4) True sa unfolding rem by simp
      have "f_bytes f + int ?n = f_bytes f3 + int (length (io_content ?io) - io_pos ?io)"
        using True 3(3) unfolding rem by linarith
      then show "final = [word_of_int (f_bytes f3 + int (length (io_content ?io) - io_pos ?io))]"
        if "f_type f3 = FF_TYPE_DCC"
        using Cons.prems(5) that 3(4) by simp
    qed
    moreover have "s = 4096" using Cons.prems(4) True sa by simp
    then have "send_blocks conn fid (sa # sends) final io st = send_blocks conn fid sends final ?io st3"
      unfolding sa send_blocks.simps [of conn fid "(s, acks) # sends" final io st]
      using len 1(1) 2(1) 3(1) by (simp add: read_block_def Let_def)
    ultimately show ?thesis using 3(5) rest by simp
  qed
qed



text \<open>
  When the socket would block on a full block, \<open>-1\<close> is counted as sent: the transfer's
  count goes down by one and the file position goes back by one byte too many (at the start of
  the file it does not go back at all and the block is lost), so what is sent afterwards is not
  the file.
\<close>

theorem would_block_corrupts:
  assumes h: "the_handle conn st = Some h" and f: "find_file fid h = Some f"
    and full: "io_pos io + 4096 \<le> length (io_content io)"
    and sends: "se_sends env = (- 1, acks) # rest"
  shows "\<exists>io' st' h' f'. firetalk_handle_send conn fid env io st = Some (io', st') \<and>
    the_handle conn st' = Some h' \<and> find_file fid h' = Some f' \<and>
    f_bytes f' = f_bytes f - 1 \<and>
    io_pos io' = (if io_pos io = 0 then 4096 else io_pos io - 1) \<and>
    written_bytes conn (f_sockfd f) st' = written_bytes conn (f_sockfd f) st"
proof -
  let ?g = "\<lambda>f. f\<lparr>f_bytes := f_bytes f - 1\<rparr>"
  let ?data = "take 4096 (drop (io_pos io) (io_content io))"
  let ?st = "put_handle conn (upd_file fid ?g h) (log_event conn (WriteFd (f_sockfd f) []) st)"
  have count: "count_sent conn fid ?data (- 1) st = Some ?st"
    using h f by (simp add: count_sent_def)
  have h1: "the_handle conn ?st = Some (upd_file fid ?g h)" by (simp add: conn_simps)
  have f1: "find_file fid (upd_file fid ?g h) = Some (?g f)" using f by (simp add: conn_simps)
  have len: "length ?data = 4096" using full by simp
  let ?st' = "emit conn FC_FILE_PROGRESS
     [AFile fid, AClient (f_clientfilestruct f), AInt (f_bytes f - 1), AInt (f_size f)] ?st"
  have progress: "send_progress conn fid ?st = Some ?st'"
    using h1 f1 by (simp add: send_progress_def)
  let ?io = "lseek_cur (- 4097) (io\<lparr>io_pos := io_pos io + 4096\<rparr>)"
  have "firetalk_handle_send conn fid env io st = Some (?io, ?st')"
    unfolding firetalk_handle_send_def sends send_blocks.simps [of conn fid "(- 1, acks) # rest"]
    using count progress len by (simp add: read_block_def Let_def)
  moreover have "io_pos ?io = (if io_pos io = 0 then 4096 else io_pos io - 1)"
    by (auto simp: lseek_cur_def)
  ultimately show ?thesis using h1 f by (simp add: conn_simps)
qed

theorem would_block_corrupts_witness:
  "\<exists>io' st'. firetalk_handle_send 7 4 \<lparr>se_sends = [(- 1, [])], se_final = []\<rparr>
      \<lparr>io_content = replicate 5000 CHR ''x'', io_pos = 0\<rparr> (single_state file_handle) = Some (io', st') \<and>
    io_pos io' = 4096"
proof -
  let ?f = "(blank_file 4 ''bob'' ''a.txt'')\<lparr>f_sockfd := 5, f_filefd := 6, f_type := FF_TYPE_RAW,
      f_state := FF_STATE_TRANSFERRING\<rparr>"
  have "find_file 4 file_handle = Some ?f"
    by (simp add: find_file_def file_handle_def blank_file_def)
  then show ?thesis
    using would_block_corrupts [of 7 "single_state file_handle" file_handle 4 ?f
        "\<lparr>io_content = replicate 5000 CHR ''x'', io_pos = 0\<rparr>"
        "\<lparr>se_sends = [(- 1, [])], se_final = []\<rparr>" "[]" "[]"]
    by auto
qed

definition offer_succeeds :: "offer_env \<Rightarrow> bool" where
  "offer_succeeds env \<longleftrightarrow> e_open env \<noteq> - 1 \<and> e_fstat env \<noteq> None \<and> e_socket env \<noteq> - 1 \<and>
     e_bind env = 0 \<and> e_listen env = 0 \<and> e_sockname env \<noteq> None"

text \<open>
  C23. Offering a file on an active session: when all system calls succeed, the new transfer is
  put before the others and waits for the peer, and the request that announces it is queued for
  the recipient. When one fails, the answer is an error and, because the new head is not linked
  to the old list yet, every transfer of the handle is gone from the list.
\<close>

theorem file_offer_cases:
  assumes h: "the_handle conn st = Some h" and active: "h_connected h = FCS_ACTIVE"
  shows "\<exists>e st' h'. firetalk_file_offer ps env conn who name cfs st = Some (e, st') \<and>
    the_handle conn st' = Some h' \<and>
    (if offer_succeeds env
     then e = FE_SUCCESS \<and> (\<exists>f. h_files h' = f # h_files h \<and> f_state f = FF_STATE_WAITREMOTE \<and>
        f_sockfd f = e_socket env \<and> f_who f = who \<and>
        h_subcode_requests h' = firetalk_enqueue (h_subcode_requests h) who
          (p_subcode_encode (proto ps h) (h_handle h) ''DCC''
            (Some (offer_args name (h_localip h) (f_port f) (f_size f)))))
     else e \<noteq> FE_SUCCESS \<and> h_files h' = [])"
proof -
  have fresh: "the_handle conn (st\<lparr>s_fresh := n\<rparr>) = Some h" for n
    using h by (simp add: the_handle_def)
  have fail: "\<exists>st' h'. offer_failed conn h f e (st\<lparr>s_fresh := n\<rparr>) = Some (e, st') \<and>
      the_handle conn st' = Some h' \<and> h_files h' = []" for f e n
    by (simp add: offer_failed_def firetalk_file_cancel_def find_file_def conn_simps)
  have proto: "proto ps (h\<lparr>h_files := fs\<rparr>) = proto ps h" for fs by (simp add: proto_def)
  have id: "f_id (blank_file n a b) = n" "f_who (blank_file n a b) = a" for n a b
    by (simp_all add: blank_file_def)
  show ?thesis
  proof (cases "offer_succeeds env")
    case True
    then show ?thesis
      using fresh active
      by (auto simp: firetalk_file_offer_def offer_succeeds_def Let_def
          firetalk_subcode_send_request_def conn_simps proto id h)
  next
    case False
    have "\<exists>f e. firetalk_file_offer ps env conn who name cfs st =
        offer_failed conn h f e (st\<lparr>s_fresh := Suc (s_fresh st)\<rparr>) \<and> e \<noteq> FE_SUCCESS"
    proof (cases "e_open env = - 1")
      case True
      then show ?thesis using h by (simp add: firetalk_file_offer_def Let_def) blast
    next
      case open_ok: False
      show ?thesis
      proof (cases "e_fstat env")
        case None
        with open_ok show ?thesis using h by (simp add: firetalk_file_offer_def Let_def) blast
      next
        case (Some sz)
        have "e_socket env = - 1 \<or> e_bind env \<noteq> 0 \<or> e_listen env \<noteq> 0 \<or> e_sockname env = None"
          using False open_ok Some by (simp add: offer_succeeds_def)
        with open_ok Some show ?thesis
          using h by (cases "e_sockname env") (simp_all add: firetalk_file_offer_def Let_def, blast+)
      qed
    qed
    then obtain f e where run: "firetalk_file_offer ps env conn who name cfs st =
        offer_failed conn h f e (st\<lparr>s_fresh := Suc (s_fresh st)\<rparr>)" "e \<noteq> FE_SUCCESS"
      by blast
    from fail [of f e "Suc (s_fresh st)"] run False show ?thesis by auto
  qed
qed

theorem file_offer_cases_witness:
  "\<exists>e st' h'. firetalk_file_offer [quiet_protocol] \<lparr>e_open = - 1, e_fstat = None, e_socket = 0,
      e_bind = 0, e_listen = 0, e_sockname = None\<rparr> 7 ''bob'' ''c.txt'' None (single_state file_handle) =
      Some (e, st') \<and>
    the_handle 7 st' = Some h' \<and> h_files file_handle \<noteq> [] \<and> h_files h' = []"
proof -
  have "h_connected file_handle = FCS_ACTIVE" "h_files file_handle \<noteq> []"
    by (simp_all add: file_handle_def)
  then show ?thesis
    using file_offer_cases [of 7 "single_state file_handle" file_handle "[quiet_protocol]"
        "\<lparr>e_open = - 1, e_fstat = None, e_socket = 0, e_bind = 0, e_listen = 0, e_sockname = None\<rparr>"
        "''bob''" "''c.txt''" None]
    by (auto simp: offer_succeeds_def)
qed

section \<open>The descriptors to wait for\<close>

text \<open>
  \<open>firetalk_getsockets\<close> collects the descriptors of the handles of a protocol to read, to write
  and to watch for errors. For a transfer it adds the descriptor of the handle.
\<close>

type_synonym fd_lists = "int list \<times> int list \<times> int list"

definition file_sockets :: "int \<Rightarrow> ft_file \<Rightarrow> fd_lists \<Rightarrow> fd_lists" where
  "file_sockets fd f s =
     (case s of (r, w, e) \<Rightarrow>
        (case f_state f of
           FF_STATE_TRANSFERRING \<Rightarrow>
             (case f_direction f of
                FF_DIRECTION_SENDING \<Rightarrow> (r, w @ [fd], e @ [fd])
              | FF_DIRECTION_RECEIVING \<Rightarrow> (r @ [fd], w, e @ [fd]))
         | FF_STATE_WAITREMOTE \<Rightarrow> (r @ [fd], w, e @ [fd])
         | FF_STATE_WAITSYNACK \<Rightarrow> (r, w @ [fd], e @ [fd])
         | FF_STATE_WAITLOCAL \<Rightarrow> (r, w, e)))"

definition handle_sockets :: "nat \<Rightarrow> ft_handle \<Rightarrow> fd_lists \<Rightarrow> fd_lists" where
  "handle_sockets prot h s =
     (case s of (r, w, e) \<Rightarrow>
        if h_connected h = FCS_NOTCONNECTED \<or> h_protocol h \<noteq> prot then s
        else fold (file_sockets (h_fd h)) (h_files h)
          (if h_connected h = FCS_WAITING_SYNACK then (r, w @ [h_fd h], e @ [h_fd h])
           else (r @ [h_fd h], w, e @ [h_fd h])))"

definition firetalk_getsockets :: "nat \<Rightarrow> ft_state \<Rightarrow> fd_lists" where
  "firetalk_getsockets prot st =
     (case fold (\<lambda>(a, h). handle_sockets prot h) (s_handles st) ([], [], []) of
        (r, w, e) \<Rightarrow> (r @ [0], w @ [0], e @ [0]))"

definition fds_of :: "fd_lists \<Rightarrow> int set" where
  "fds_of s = (case s of (r, w, e) \<Rightarrow> set r \<union> set w \<union> set e)"

lemma file_sockets_fds: "fds_of (file_sockets fd f s) \<subseteq> insert fd (fds_of s)"
  by (auto simp: file_sockets_def fds_of_def split: prod.splits file_state.splits file_direction.splits)

lemma file_sockets_fold_fds: "fds_of (fold (file_sockets fd) fs s) \<subseteq> insert fd (fds_of s)"
proof (induction fs arbitrary: s)
  case (Cons f fs)
  then show ?case using file_sockets_fds [of fd f s] by fastforce
qed auto

lemma handle_sockets_fds: "fds_of (handle_sockets prot h s) \<subseteq> insert (h_fd h) (fds_of s)"
proof -
  obtain r w e where s: "s = (r, w, e)" by (cases s) auto
  let ?s = "if h_connected h = FCS_WAITING_SYNACK then (r, w @ [h_fd h], e @ [h_fd h])
           else (r @ [h_fd h], w, e @ [h_fd h])"
  have "fds_of ?s \<subseteq> insert (h_fd h) (fds_of s)" by (auto simp: fds_of_def s)
  then show ?thesis
    using file_sockets_fold_fds [of "h_fd h" "h_files h" ?s] unfolding handle_sockets_def s by auto
qed

lemma handles_fold_fds:
  "fds_of (fold (\<lambda>(a, h). handle_sockets prot h) hs s) \<subseteq> h_fd ` snd ` set hs \<union> fds_of s"
proof (induction hs arbitrary: s)
  case (Cons p hs)
  obtain a h where p: "p = (a, h)" by (cases p)
  show ?case using Cons [of "handle_sockets prot h s"] handle_sockets_fds [of prot h s] p by auto
qed auto

text \<open>
  The list of descriptors the user interface waits for never contains the socket of a file
  transfer, only those of the handles and 0: a transfer whose socket is no handle's descriptor
  is not waited for.
\<close>

theorem getsockets_misses_transfers:
  assumes "fd \<noteq> 0" "\<forall>(a, h) \<in> set (s_handles st). h_fd h \<noteq> fd"
  shows "fd \<notin> fds_of (firetalk_getsockets prot st)"
proof -
  obtain r w e where s: "fold (\<lambda>(a, h). handle_sockets prot h) (s_handles st) ([], [], []) = (r, w, e)"
    by (metis prod_cases3)
  have "fds_of (r, w, e) \<subseteq> h_fd ` snd ` set (s_handles st)"
    using handles_fold_fds [of prot "s_handles st" "([], [], [])"] s by (simp add: fds_of_def)
  moreover have "fd \<notin> h_fd ` snd ` set (s_handles st)" using assms(2) by force
  ultimately show ?thesis
    using assms(1) s by (auto simp: firetalk_getsockets_def fds_of_def)
qed

theorem getsockets_misses_transfers_witness:
  "\<exists>f \<in> set (h_files file_handle). f_state f = FF_STATE_TRANSFERRING \<and>
     f_sockfd f \<notin> fds_of (firetalk_getsockets 0 (single_state file_handle))"
proof -
  have "5 \<notin> fds_of (firetalk_getsockets 0 (single_state file_handle))"
    by (rule getsockets_misses_transfers) (simp_all add: single_state_def file_handle_def)
  then show ?thesis by (simp add: file_handle_def blank_file_def)
qed

end
