(* ===== verification/FtRequest.thy ===== *)
theory FtRequest
  imports FtFile
begin

text \<open>
  Incoming subcode requests and replies of \<open>firetalk/firetalk.c\<close>, the loop of
  \<open>firetalk_select_custom\<close> that sends what is queued, and the decoder for base64.
\<close>

section \<open>Requests and replies\<close>

text \<open>
  What the session layer needs of the environment: the name and version of the program, the
  text of the current time (\<open>ctime\<close> with its newline), \<open>inet_ntoa\<close> and \<open>inet_aton\<close>.
\<close>

record sub_env =
  v_version :: string
  v_ctime :: string
  v_ntoa :: "32 word \<Rightarrow> string"
  v_aton :: "string \<Rightarrow> 32 word option"

text \<open>
  \<open>sscanf("%lu")\<close> reads an unsigned number; \<open>atol\<close> and \<open>atoi\<close> read signed ones. An address that
  is no number leaves the variable uninitialised; it is then the argument \<open>junk\<close>.
\<close>

fun skip_spaces :: "string \<Rightarrow> string" where
  "skip_spaces [] = []"
| "skip_spaces (c # cs) = (if c_isspace c then skip_spaces cs else c # cs)"

definition scan_lu :: "int \<Rightarrow> string \<Rightarrow> int" where
  "scan_lu junk s =
     (case skip_spaces s of
        [] \<Rightarrow> junk
      | c # cs \<Rightarrow>
          if c_isdigit c \<or> ((c = CHR ''-'' \<or> c = CHR ''+'') \<and> cs \<noteq> [] \<and> c_isdigit (hd cs))
          then atoi (c # cs) else junk)"

text \<open>The offer of a file in a DCC request: \<open>SEND name address port [size]\<close>.\<close>

definition dcc_send ::
  "sub_env \<Rightarrow> int \<Rightarrow> client \<Rightarrow> string \<Rightarrow> string \<Rightarrow> ft_state \<Rightarrow> ft_state option" where
  "dcc_send env junk c from_user args st =
     (case firetalk_parse_subcode_args (drop 5 args) of
        name # ip # port # rest \<Rightarrow>
          firetalk_callback_file_offer (v_aton env) c from_user name
            (case rest of [] \<Rightarrow> - 1 | sz # _ \<Rightarrow> atoi sz)
            (v_ntoa env (word_of_int (scan_lu junk ip))) (word_of_int (atoi port)) FF_TYPE_DCC st
      | _ \<Rightarrow> Some st)"

definition chop_last :: "string \<Rightarrow> string" where
  "chop_last s = (if s = [] then [] else butlast s)"

text \<open>
  The requests that the session layer answers itself. A handler registered as default gets what
  is left. \<open>args\<close> is \<open>None\<close> for a request without arguments.
\<close>

definition builtin_request ::
  "ft_protocol list \<Rightarrow> sub_env \<Rightarrow> int \<Rightarrow> (ft_state \<Rightarrow> ft_state option) \<Rightarrow>
   (nat \<Rightarrow> ft_state \<Rightarrow> ft_state option) \<Rightarrow> nat \<Rightarrow> client \<Rightarrow>
   string \<Rightarrow> string \<Rightarrow> string option \<Rightarrow> ft_state \<Rightarrow> ft_state option" where
  "builtin_request ps env junk on_action handler conn c from_user command args st =
     (if strcmp command ''ACTION'' = 0 then do {
        conn \<leftarrow> firetalk_find_handle c st;
        deliver ps conn FC_IM_GETACTION from_user
          [AStr (Some from_user), AInt 0, AStr args] on_action st
      }
      else if strcmp command ''VERSION'' = 0 then
        map_option snd (firetalk_subcode_send_reply ps conn from_user ''VERSION'' (Some (v_version env)) st)
      else if strcmp command ''CLIENTINFO'' = 0 then
        map_option snd (firetalk_subcode_send_reply ps conn from_user ''CLIENTINFO''
          (Some ''CLIENTINFO PING SOURCE TIME VERSION'') st)
      else if strcmp command ''PING'' = 0 then
        map_option snd (firetalk_subcode_send_reply ps conn from_user ''PING''
          (Some (case args of None \<Rightarrow> [] | Some a \<Rightarrow> a)) st)
      else if strcmp command ''TIME'' = 0 then
        map_option snd (firetalk_subcode_send_reply ps conn from_user ''TIME''
          (Some (chop_last (take 63 (v_ctime env)))) st)
      else if strcmp command ''DCC'' = 0 \<and> args \<noteq> None \<and> strncasecmp (the args) ''SEND '' 5 = 0 then
        dcc_send env junk c from_user (the args) st
      else do {
        h \<leftarrow> the_handle conn st;
        (case h_subcode_request_default h of
           None \<Rightarrow> Some st
         | Some d \<Rightarrow> call_subcode handler conn d [AStr (Some from_user), AStr (Some command), AStr args] st)
      })"

definition set_connected :: "nat \<Rightarrow> connectstate \<Rightarrow> ft_state \<Rightarrow> ft_state option" where
  "set_connected conn s st = map_option (\<lambda>h. put_handle conn (h\<lparr>h_connected := s\<rparr>) st) (the_handle conn st)"

text \<open>
  While a request is handled the handle counts as active, because some servers ask before the
  sign-on is complete; afterwards the state it had is written back. A handler registered for
  the command comes first, and the latest registration wins.
\<close>

definition firetalk_callback_subcode_request ::
  "ft_protocol list \<Rightarrow> sub_env \<Rightarrow> int \<Rightarrow> (ft_state \<Rightarrow> ft_state option) \<Rightarrow>
   (nat \<Rightarrow> ft_state \<Rightarrow> ft_state option) \<Rightarrow> client \<Rightarrow>
   string \<Rightarrow> string \<Rightarrow> string option \<Rightarrow> ft_state \<Rightarrow> ft_state option" where
  "firetalk_callback_subcode_request ps env junk on_action handler c from_user command args st = do {
     conn \<leftarrow> firetalk_find_handle c st;
     h \<leftarrow> the_handle conn st;
     let connectedsave = h_connected h;
     st \<leftarrow> set_connected conn FCS_ACTIVE st;
     st \<leftarrow> (case find_subcode command (h_subcode_request h) of
        Some iter \<Rightarrow>
          (case sc_staticresp iter of
             Some r \<Rightarrow> map_option snd (firetalk_subcode_send_reply ps conn from_user command (Some r) st)
           | None \<Rightarrow> do {
               st \<leftarrow> call_subcode handler conn iter
                 [AStr (Some from_user), AStr (Some command), AStr args]
                 (st\<lparr>s_isonline_hack := Some from_user\<rparr>);
               Some (st\<lparr>s_isonline_hack := None\<rparr>)
             })
      | None \<Rightarrow> builtin_request ps env junk on_action handler conn c from_user command args st);
     set_connected conn connectedsave st
   }"

definition firetalk_callback_subcode_reply ::
  "(nat \<Rightarrow> ft_state \<Rightarrow> ft_state option) \<Rightarrow> client \<Rightarrow> string \<Rightarrow> string \<Rightarrow> string option \<Rightarrow>
   ft_state \<Rightarrow> ft_state option" where
  "firetalk_callback_subcode_reply handler c from_user command args st = do {
     conn \<leftarrow> firetalk_find_handle c st;
     h \<leftarrow> the_handle conn st;
     (case find_subcode command (h_subcode_reply h) of
        Some iter \<Rightarrow> do {
          st \<leftarrow> call_subcode handler conn iter
            [AStr (Some from_user), AStr (Some command), AStr args] (st\<lparr>s_isonline_hack := Some from_user\<rparr>);
          Some (st\<lparr>s_isonline_hack := None\<rparr>)
        }
      | None \<Rightarrow>
          (case h_subcode_reply_default h of
             None \<Rightarrow> Some st
           | Some d \<Rightarrow> call_subcode handler conn d
               [AStr (Some from_user), AStr (Some command), AStr args] st))
   }"

section \<open>Sending what is queued\<close>

text \<open>
  Before it waits, \<open>firetalk_select_custom\<close> sends an empty message to the first recipient in the
  queue until the queue is empty; the protocol takes the queued subcodes along. That every
  message shrinks the queue is asserted, so the loop ends; the measure is the count.
\<close>

definition requests_of :: "nat \<Rightarrow> ft_state \<Rightarrow> string ft_queue option" where
  "requests_of conn st = map_option h_subcode_requests (the_handle conn st)"

definition replies_of :: "nat \<Rightarrow> ft_state \<Rightarrow> string ft_queue option" where
  "replies_of conn st = map_option h_subcode_replies (the_handle conn st)"

definition pending :: "(nat \<Rightarrow> ft_state \<Rightarrow> string ft_queue option) \<Rightarrow> nat \<Rightarrow> ft_state \<Rightarrow> nat" where
  "pending queue conn st = (case queue conn st of None \<Rightarrow> 0 | Some q \<Rightarrow> q_count q)"

function drain ::
  "ft_protocol list \<Rightarrow> (nat \<Rightarrow> ft_state \<Rightarrow> string ft_queue option) \<Rightarrow> int \<Rightarrow> nat \<Rightarrow> ft_state \<Rightarrow>
   ft_state option" where
  "drain ps queue auto_flag conn st =
     (case (the_handle conn st, queue conn st) of
        (Some h, Some q) \<Rightarrow>
          if q_count q = 0 then Some st
          else (case p_im_send_message (proto ps h) (h_handle h) (q_keys q ! 0) [] auto_flag st of
             None \<Rightarrow> None
           | Some (e, st') \<Rightarrow>
               if pending queue conn st' < pending queue conn st \<and> queue conn st' \<noteq> None
               then drain ps queue auto_flag conn st' else None)
      | _ \<Rightarrow> None)"
  by pat_completeness auto
termination
  by (relation "measure (\<lambda>(ps, queue, auto_flag, conn, st). pending queue conn st)") auto

declare drain.simps [simp del]

definition send_queued :: "ft_protocol list \<Rightarrow> nat \<Rightarrow> ft_state \<Rightarrow> ft_state option" where
  "send_queued ps conn st = do {
     st \<leftarrow> drain ps requests_of 0 conn st;
     drain ps replies_of 1 conn st
   }"

section \<open>Properties\<close>

fun join_blank :: "string list \<Rightarrow> string" where
  "join_blank [] = []"
| "join_blank [x] = x"
| "join_blank (x # xs) = x @ CHR '' '' # join_blank xs"

lemma split_args_nonempty [simp]: "split_args n cur cs \<noteq> []"
  by (induction n cur cs rule: split_args.induct) (auto split: list.split)

lemma join_blank_Cons: "xs \<noteq> [] \<Longrightarrow> join_blank (x # xs) = x @ CHR '' '' # join_blank xs"
  by (cases xs) auto

lemma join_split_args: "join_blank (split_args n cur cs) = rev cur @ cs"
  by (induction n cur cs rule: split_args.induct)
    (auto split: list.split simp: join_blank_Cons)

lemma length_split_args: "n \<le> 255 \<Longrightarrow> length (split_args n cur cs) + n \<le> 256"
  by (induction n cur cs rule: split_args.induct) (auto split: list.split)

text \<open>
  The arguments of a subcode never overrun the array of 256 pointers that holds them and the
  final null, and no byte is lost: joined with single blanks they are the argument string again.
\<close>

theorem parse_args_bounded_join:
  "length (firetalk_parse_subcode_args s) \<le> 255 \<and> join_blank (firetalk_parse_subcode_args s) = s"
  using length_split_args [of 1 "[]" s] join_split_args [of 1 "[]" s]
  by (simp add: firetalk_parse_subcode_args_def)

lemma set_connected_the:
  assumes "set_connected conn s st = Some st'"
  obtains h where "the_handle conn st = Some h" "the_handle conn st' = Some (h\<lparr>h_connected := s\<rparr>)"
    "st' = put_handle conn (h\<lparr>h_connected := s\<rparr>) st"
  using assms by (auto simp: set_connected_def conn_simps)

text \<open>
  Whatever happens while a subcode request is handled, the handle has afterwards the
  connection state it had before; in particular a connection that is lost during the handling
  counts as connected again although its descriptor is closed.
\<close>

theorem request_restores_connection:
  assumes c: "firetalk_find_handle c st = Some conn" and h: "the_handle conn st = Some h"
    and run: "firetalk_callback_subcode_request ps env junk act handler c who cmd args st = Some st'"
  shows "\<exists>h'. the_handle conn st' = Some h' \<and> h_connected h' = h_connected h"
proof -
  from run c h obtain st1 where "set_connected conn (h_connected h) st1 = Some st'"
    by (auto simp: firetalk_callback_subcode_request_def Let_def elim!: bindE)
  then show ?thesis by (elim set_connected_the) simp
qed

text \<open>A handler of the client during which the connection breaks.\<close>

definition breaking_handle :: ft_handle where
  "breaking_handle = (new_handle (Some 1) 0 0)\<lparr>h_connected := FCS_ACTIVE, h_fd := 3,
     h_callbacks := (\<lambda>_. True),
     h_subcode_request := [\<lparr>sc_command = Some ''FINGER'', sc_staticresp = None, sc_callback = Some 5\<rparr>]\<rparr>"

definition break_handler :: "nat \<Rightarrow> ft_state \<Rightarrow> ft_state option" where
  "break_handler f = firetalk_callback_disconnect (Some 1) FE_PACKET"

theorem request_restores_connection_witness:
  "\<exists>st' h'. firetalk_callback_subcode_request [quiet_protocol]
      \<lparr>v_version = ''v'', v_ctime = ''t'', v_ntoa = (\<lambda>_. []), v_aton = (\<lambda>_. None)\<rparr> 0 Some break_handler
      (Some 1) ''bob'' ''FINGER'' None (single_state breaking_handle) = Some st' \<and>
    (7, CloseFd 3) \<in> set (s_log st') \<and> the_handle 7 st' = Some h' \<and> h_connected h' = FCS_ACTIVE"
proof -
  let ?env = "\<lparr>v_version = ''v'', v_ctime = ''t'', v_ntoa = (\<lambda>_. []), v_aton = (\<lambda>_. None)\<rparr>"
  let ?run = "firetalk_callback_subcode_request [quiet_protocol] ?env 0 Some break_handler
      (Some 1) ''bob'' ''FINGER'' None (single_state breaking_handle)"
  have "(case ?run of None \<Rightarrow> False | Some st' \<Rightarrow> (7, CloseFd 3) \<in> set (s_log st'))" by code_simp
  then obtain st' where run: "?run = Some st'" and log: "(7, CloseFd 3) \<in> set (s_log st')"
    by (cases ?run) auto
  have c: "firetalk_find_handle (Some 1) (single_state breaking_handle) = Some 7"
    by (simp add: firetalk_find_handle_def single_state_def breaking_handle_def new_handle_def)
  have "\<exists>h'. the_handle 7 st' = Some h' \<and> h_connected h' = h_connected breaking_handle"
    by (rule request_restores_connection [OF c _ run]) simp
  with run log show ?thesis by (auto simp: breaking_handle_def)
qed

text \<open>
  C25. A fixed answer that the client registers for a command is what a later request gets: the
  encoded answer is queued for the sender after everything that waits already, whatever was
  registered for the command before, also while the handle is not signed on.
\<close>

theorem registered_reply_sent:
  assumes c: "firetalk_find_handle c st = Some conn" and h: "the_handle conn st = Some h"
    and wf: "queue_wf (h_subcode_replies h)"
  shows "\<exists>st1 st2 h2. firetalk_subcode_register_request_reply conn (Some cmd) r st = Some (FE_SUCCESS, st1) \<and>
    firetalk_subcode_get_request_reply c cmd st1 = Some (Some r) \<and>
    firetalk_callback_subcode_request ps env junk act handler c who cmd args st1 = Some st2 \<and>
    the_handle conn st2 = Some h2 \<and> h_connected h2 = h_connected h \<and>
    queue_items (h_subcode_replies h2) = queue_items (h_subcode_replies h) @
      [(who, p_subcode_encode (proto ps h) (h_handle h) cmd (Some r))]"
proof -
  let ?cb = "\<lparr>sc_command = Some cmd, sc_staticresp = Some r, sc_callback = None\<rparr>"
  let ?h1 = "h\<lparr>h_subcode_request := ?cb # h_subcode_request h\<rparr>"
  let ?st1 = "put_handle conn ?h1 st"
  let ?q = "firetalk_enqueue (h_subcode_replies h) who
    (p_subcode_encode (proto ps h) (h_handle h) cmd (Some r))"
  have c1: "firetalk_find_handle c ?st1 = Some conn" using c h by (simp add: conn_simps)
  have reg: "firetalk_subcode_register_request_reply conn (Some cmd) r st = Some (FE_SUCCESS, ?st1)"
    using h by (simp add: firetalk_subcode_register_request_reply_def)
  have p: "proto ps (?h1\<lparr>h_connected := x\<rparr>) = proto ps h" for x by (simp add: proto_def)
  have "firetalk_callback_subcode_request ps env junk act handler c who cmd args ?st1 =
      Some (put_handle conn (?h1\<lparr>h_connected := h_connected h, h_subcode_replies := ?q\<rparr>) st)"
    using c1 by (simp add: firetalk_callback_subcode_request_def set_connected_def find_subcode_def
        firetalk_subcode_send_reply_def conn_simps p Let_def)
  then show ?thesis
    using c1 reg queue_items_enqueue [OF wf]
    by (simp add: firetalk_subcode_get_request_reply_def conn_simps)
qed

theorem registered_reply_sent_witness:
  "\<exists>st1 st2. firetalk_subcode_register_request_reply 7 (Some ''SOURCE'') ''here'' (single_state breaking_handle) =
       Some (FE_SUCCESS, st1) \<and>
     firetalk_callback_subcode_request [quiet_protocol]
       \<lparr>v_version = ''v'', v_ctime = ''t'', v_ntoa = (\<lambda>_. []), v_aton = (\<lambda>_. None)\<rparr> 0 Some break_handler
       (Some 1) ''bob'' ''SOURCE'' None st1 = Some st2"
proof -
  have "firetalk_find_handle (Some 1) (single_state breaking_handle) = Some 7"
    by (simp add: firetalk_find_handle_def single_state_def breaking_handle_def new_handle_def)
  moreover have "queue_wf (h_subcode_replies breaking_handle)"
    by (simp add: breaking_handle_def new_handle_def)
  ultimately show ?thesis
    using registered_reply_sent [of "Some 1" "single_state breaking_handle" 7 breaking_handle
        "''SOURCE''" "''here''" "[quiet_protocol]"
        "\<lparr>v_version = ''v'', v_ctime = ''t'', v_ntoa = (\<lambda>_. []), v_aton = (\<lambda>_. None)\<rparr>" 0 Some
        break_handler "''bob''" None]
    by auto
qed

text \<open>
  What the loop that sends the queued subcodes needs of a protocol: a message to a recipient
  with something queued is handled, and takes at least one entry out of the queue.
\<close>

definition takes_queued ::
  "ft_protocol list \<Rightarrow> (nat \<Rightarrow> ft_state \<Rightarrow> string ft_queue option) \<Rightarrow> int \<Rightarrow> nat \<Rightarrow> (ft_state \<Rightarrow> bool) \<Rightarrow> bool" where
  "takes_queued ps queue auto_flag conn I \<longleftrightarrow>
     (\<forall>st h q. I st \<longrightarrow> the_handle conn st = Some h \<longrightarrow> queue conn st = Some q \<longrightarrow> q_count q > 0 \<longrightarrow>
        (\<exists>e st'. p_im_send_message (proto ps h) (h_handle h) (q_keys q ! 0) [] auto_flag st = Some (e, st') \<and>
           I st' \<and> (\<exists>h' q'. the_handle conn st' = Some h' \<and> queue conn st' = Some q' \<and>
             q_count q' < q_count q)))"

lemma drain_empties:
  assumes "takes_queued ps queue n conn I"
  shows "I st \<Longrightarrow> the_handle conn st = Some h \<Longrightarrow> queue conn st = Some q \<Longrightarrow>
    \<exists>st' q'. drain ps queue n conn st = Some st' \<and> I st' \<and> queue conn st' = Some q' \<and> q_count q' = 0"
proof (induction "q_count q" arbitrary: st h q rule: less_induct)
  case less
  show ?case
  proof (cases "q_count q = 0")
    case True
    with less.prems show ?thesis by (simp add: drain.simps [of ps queue n conn st])
  next
    case False
    then obtain e st1 h1 q1 where
      1: "p_im_send_message (proto ps h) (h_handle h) (q_keys q ! 0) [] n st = Some (e, st1)"
        "I st1" "the_handle conn st1 = Some h1" "queue conn st1 = Some q1" "q_count q1 < q_count q"
      using assms less.prems unfolding takes_queued_def by blast
    from less.hyps [OF 1(5,2-4)] 1 less.prems False show ?thesis
      by (simp add: drain.simps [of ps queue n conn st] pending_def)
  qed
qed

text \<open>
  \<open>irc_im_send_message\<close> of \<open>firetalk/irc.c\<close>: the queued subcodes for the recipient are appended
  to the message in a buffer of 513 bytes. \<open>put_line\<close> stands for sending the line.
\<close>

definition irc_im_send_message ::
  "(client \<Rightarrow> string \<Rightarrow> ft_op) \<Rightarrow> client \<Rightarrow> string \<Rightarrow> string \<Rightarrow> int \<Rightarrow> ft_op" where
  "irc_im_send_message put_line c dest message auto_flag st =
     (if strcasecmp dest '':RAW'' = 0 then put_line c message st
      else do {
        conn \<leftarrow> firetalk_find_handle c st;
        h \<leftarrow> the_handle conn st;
        if auto_flag \<noteq> 0 then
          (case firetalk_queue_append (take 512 (''NOTICE '' @ dest @ '' :'' @ message)) 513
             (h_subcode_replies h) dest of
             (buf, q) \<Rightarrow> put_line c buf (put_handle conn (h\<lparr>h_subcode_replies := q\<rparr>) st))
        else
          (case firetalk_queue_append (take 512 (''PRIVMSG '' @ dest @ '' :'' @ message)) 513
             (h_subcode_requests h) dest of
             (buf, q) \<Rightarrow> put_line c buf (put_handle conn (h\<lparr>h_subcode_requests := q\<rparr>) st))
      })"

text \<open>
  Entries that fit into a line with their recipient, none of them queued for the raw target.
\<close>

definition fits :: "string \<times> string option \<Rightarrow> bool" where
  "fits p \<longleftrightarrow> strcasecmp (fst p) '':RAW'' \<noteq> 0 \<and>
     (case snd p of None \<Rightarrow> False | Some d \<Rightarrow> length (fst p) + length d < 502)"

definition queue_fits :: "string ft_queue \<Rightarrow> bool" where
  "queue_fits q \<longleftrightarrow> queue_wf q \<and> (\<forall>p \<in> set (queue_items q). fits p)"

definition line_ok :: "(client \<Rightarrow> string \<Rightarrow> ft_op) \<Rightarrow> bool" where
  "line_ok put_line \<longleftrightarrow>
     (\<forall>c s st. \<exists>e st'. put_line c s st = Some (e, st') \<and> s_handles st' = s_handles st)"

lemma append_takes_first:
  assumes fit: "queue_fits q" and cnt: "0 < q_count q"
    and pre: "length pre \<le> 8" and k: "k = q_keys q ! 0"
  shows "\<exists>buf' q'. firetalk_queue_append (take 512 (pre @ k @ '' :'')) 513 q k = (buf', q') \<and>
    queue_fits q' \<and> q_count q' < q_count q"
proof -
  have wf: "queue_wf q" using fit by (simp add: queue_fits_def)
  obtain d rest where items: "queue_items q = (k, d) # rest"
    using wf cnt k by (cases "q_keys q"; cases "q_data q") (auto simp: queue_items_def queue_wf_def)
  then have "fits (k, d)" using fit by (simp add: queue_fits_def)
  then obtain s where d: "d = Some s" "length k + length s < 502"
    by (auto simp: fits_def split: option.splits)
  have peek: "firetalk_peek q k = Some s" using items d by (simp add: ftq.peek_items [OF wf])
  let ?q = "snd (firetalk_dequeue q k)"
  obtain b where b: "b = take 512 (pre @ k @ '' :'')" by blast
  have "length b + length s < append_limit 513"
    using d(2) pre by (simp add: append_limit_def b)
  then have step: "firetalk_queue_append b 513 q k = firetalk_queue_append (b @ s) 513 ?q k"
    using peek by (simp add: firetalk_queue_append.simps [of b 513 q k])
  obtain buf' q' where run: "firetalk_queue_append (b @ s) 513 ?q k = (buf', q')"
    by (cases "firetalk_queue_append (b @ s) 513 ?q k")
  have wf': "queue_wf ?q" using wf by (rule queue_wf_dequeue)
  have "set (queue_items ?q) \<subseteq> set (queue_items q)"
    using ftq.items_deq [OF wf] set_remove_first_subset by metis
  moreover have "q_count ?q < q_count q" using peek by (intro q_count_dequeue) simp
  moreover note queue_append_spec [OF wf' run]
  ultimately show ?thesis
    using fit step run unfolding b [symmetric] by (auto simp: queue_fits_def)
qed

definition irc_queues_ok :: "ft_protocol list \<Rightarrow> nat \<Rightarrow> client \<Rightarrow> ft_protocol \<Rightarrow> ft_state \<Rightarrow> bool" where
  "irc_queues_ok ps conn c p st \<longleftrightarrow> firetalk_find_handle c st = Some conn \<and>
     (\<exists>h. the_handle conn st = Some h \<and> h_handle h = c \<and> proto ps h = p \<and>
        queue_fits (h_subcode_requests h) \<and> queue_fits (h_subcode_replies h))"

lemma frame_handles:
  "s_handles st' = s_handles st \<Longrightarrow> the_handle a st' = the_handle a st"
  "s_handles st' = s_handles st \<Longrightarrow> firetalk_find_handle c st' = firetalk_find_handle c st"
  by (simp_all add: the_handle_def firetalk_find_handle_def)

lemma first_item:
  "queue_wf q \<Longrightarrow> 0 < q_count q \<Longrightarrow> \<exists>d. (q_keys q ! 0, d) \<in> set (queue_items q)"
  by (cases "q_keys q"; cases "q_data q") (auto simp: queue_items_def queue_wf_def)

lemma irc_takes_requests:
  assumes line: "line_ok put_line" and p: "p_im_send_message p = irc_im_send_message put_line"
  shows "takes_queued ps requests_of 0 conn (irc_queues_ok ps conn c p)"
  unfolding takes_queued_def
proof (intro allI impI)
  fix st h q
  assume I: "irc_queues_ok ps conn c p st" and h: "the_handle conn st = Some h"
    and q: "requests_of conn st = Some q" and cnt: "0 < q_count q"
  have q': "q = h_subcode_requests h" using q h by (simp add: requests_of_def)
  have fit: "queue_fits q" and c: "h_handle h = c" "firetalk_find_handle c st = Some conn"
    and pr: "proto ps h = p" and other: "queue_fits (h_subcode_replies h)"
    using I h q' by (auto simp: irc_queues_ok_def)
  let ?k = "q_keys q ! 0"
  obtain buf q1 where app: "firetalk_queue_append (take 512 (''PRIVMSG '' @ ?k @ '' :'')) 513 q ?k = (buf, q1)"
    "queue_fits q1" "q_count q1 < q_count q"
    using append_takes_first [OF fit cnt, of "''PRIVMSG ''" ?k] by auto
  let ?h = "h\<lparr>h_subcode_requests := q1\<rparr>"
  obtain e st' where st': "put_line c buf (put_handle conn ?h st) = Some (e, st')"
    "s_handles st' = s_handles (put_handle conn ?h st)"
    using line unfolding line_ok_def by blast
  have raw: "strcasecmp ?k '':RAW'' \<noteq> 0"
    using first_item [of q] fit cnt by (auto simp: queue_fits_def fits_def)
  have run: "p_im_send_message (proto ps h) (h_handle h) ?k [] 0 st = Some (e, st')"
    using st' c h raw q' app(1) by (simp add: pr p irc_im_send_message_def)
  have h': "the_handle conn st' = Some ?h" and f': "firetalk_find_handle c st' = Some conn"
    using c h by (simp_all add: frame_handles [OF st'(2)] conn_simps)
  have pr': "proto ps ?h = p" using pr by (simp add: proto_def)
  have I': "irc_queues_ok ps conn c p st'"
    using h' f' pr' app(2) other c by (simp add: irc_queues_ok_def)
  have "requests_of conn st' = Some q1" using h' by (simp add: requests_of_def)
  with run I' h' app(3) show "\<exists>e st'. p_im_send_message (proto ps h) (h_handle h) ?k [] 0 st = Some (e, st') \<and>
      irc_queues_ok ps conn c p st' \<and> (\<exists>h' q'. the_handle conn st' = Some h' \<and>
        requests_of conn st' = Some q' \<and> q_count q' < q_count q)"
    by blast
qed

lemma irc_takes_replies:
  assumes line: "line_ok put_line" and p: "p_im_send_message p = irc_im_send_message put_line"
  shows "takes_queued ps replies_of 1 conn (irc_queues_ok ps conn c p)"
  unfolding takes_queued_def
proof (intro allI impI)
  fix st h q
  assume I: "irc_queues_ok ps conn c p st" and h: "the_handle conn st = Some h"
    and q: "replies_of conn st = Some q" and cnt: "0 < q_count q"
  have q': "q = h_subcode_replies h" using q h by (simp add: replies_of_def)
  have fit: "queue_fits q" and c: "h_handle h = c" "firetalk_find_handle c st = Some conn"
    and pr: "proto ps h = p" and other: "queue_fits (h_subcode_requests h)"
    using I h q' by (auto simp: irc_queues_ok_def)
  let ?k = "q_keys q ! 0"
  obtain buf q1 where app: "firetalk_queue_append (take 512 (''NOTICE '' @ ?k @ '' :'')) 513 q ?k = (buf, q1)"
    "queue_fits q1" "q_count q1 < q_count q"
    using append_takes_first [OF fit cnt, of "''NOTICE ''" ?k] by auto
  let ?h = "h\<lparr>h_subcode_replies := q1\<rparr>"
  obtain e st' where st': "put_line c buf (put_handle conn ?h st) = Some (e, st')"
    "s_handles st' = s_handles (put_handle conn ?h st)"
    using line unfolding line_ok_def by blast
  have raw: "strcasecmp ?k '':RAW'' \<noteq> 0"
    using first_item [of q] fit cnt by (auto simp: queue_fits_def fits_def)
  have run: "p_im_send_message (proto ps h) (h_handle h) ?k [] 1 st = Some (e, st')"
    using st' c h raw q' app(1) by (simp add: pr p irc_im_send_message_def)
  have h': "the_handle conn st' = Some ?h" and f': "firetalk_find_handle c st' = Some conn"
    using c h by (simp_all add: frame_handles [OF st'(2)] conn_simps)
  have pr': "proto ps ?h = p" using pr by (simp add: proto_def)
  have I': "irc_queues_ok ps conn c p st'"
    using h' f' pr' app(2) other c by (simp add: irc_queues_ok_def)
  have "replies_of conn st' = Some q1" using h' by (simp add: replies_of_def)
  with run I' h' app(3) show "\<exists>e st'. p_im_send_message (proto ps h) (h_handle h) ?k [] 1 st = Some (e, st') \<and>
      irc_queues_ok ps conn c p st' \<and> (\<exists>h' q'. the_handle conn st' = Some h' \<and>
        replies_of conn st' = Some q' \<and> q_count q' < q_count q)"
    by blast
qed


definition quiet_line :: "client \<Rightarrow> string \<Rightarrow> ft_op" where
  "quiet_line c s = succeed"

definition irc_protocol :: ft_protocol where
  "irc_protocol = quiet_protocol\<lparr>p_im_send_message := irc_im_send_message quiet_line\<rparr>"

lemma line_ok_quiet [simp]: "line_ok quiet_line"
  by (simp add: line_ok_def quiet_line_def succeed_def)

definition queued_handle :: "string \<Rightarrow> ft_handle" where
  "queued_handle d = (new_handle (Some 1) 0 0)\<lparr>h_connected := FCS_ACTIVE, h_fd := 3,
     h_subcode_replies := firetalk_enqueue empty_queue ''bob'' (Some d)\<rparr>"

lemma queued_handle_facts:
  "proto [irc_protocol] (queued_handle d) = irc_protocol"
  "firetalk_find_handle (h_handle (queued_handle d)) (single_state (queued_handle d)) = Some 7"
  "p_im_send_message irc_protocol = irc_im_send_message quiet_line"
  by (simp_all add: proto_def queued_handle_def new_handle_def firetalk_find_handle_def
      single_state_def irc_protocol_def)


text \<open>
  A reply that does not fit into an IRC line is never taken from the queue, and the loop
  that sends the queued replies then stops the program with a failed assertion.
\<close>

theorem oversized_reply_aborts:
  assumes line: "line_ok put_line" and h: "the_handle conn st = Some h"
    and c: "firetalk_find_handle (h_handle h) st = Some conn"
    and p: "p_im_send_message (proto ps h) = irc_im_send_message put_line"
    and q: "queue_wf (h_subcode_replies h)" "queue_items (h_subcode_replies h) = (k, Some d) # rest"
    and long: "503 \<le> length k + length d" "length k < 500" "strcasecmp k '':RAW'' \<noteq> 0"
  shows "drain ps replies_of 1 conn st = None"
proof -
  let ?q = "h_subcode_replies h"
  have wf: "q_keys ?q ! 0 = k" "q_count ?q \<noteq> 0"
    using q by (cases "q_keys ?q"; cases "q_data ?q"; auto simp: queue_items_def queue_wf_def)+
  obtain b where b: "b = take 512 (''NOTICE '' @ k @ '' :'')" by blast
  have "firetalk_peek ?q k = Some d" using q by (simp add: ftq.peek_items)
  moreover have "append_limit 513 \<le> length b + length d"
    using long by (simp add: b append_limit_def)
  ultimately have app: "firetalk_queue_append b 513 ?q k = (b, ?q)"
    by (simp add: firetalk_queue_append.simps [of b])
  have same: "h\<lparr>h_subcode_replies := ?q\<rparr> = h" by simp
  obtain e st' where st': "put_line (h_handle h) b (put_handle conn h st) = Some (e, st')"
    "s_handles st' = s_handles (put_handle conn h st)"
    using line unfolding line_ok_def by blast
  have "p_im_send_message (proto ps h) (h_handle h) k [] 1 st = Some (e, st')"
    using st'(1) c h long(3) app b same by (simp add: p irc_im_send_message_def)
  moreover have "pending replies_of conn st' = pending replies_of conn st"
    using h by (simp add: pending_def replies_of_def frame_handles [OF st'(2)] conn_simps)
  ultimately show ?thesis
    using h wf by (simp add: drain.simps [of ps replies_of 1 conn st] replies_of_def)
qed

theorem oversized_reply_aborts_witness:
  "drain [irc_protocol] replies_of 1 7 (single_state (queued_handle (replicate 500 CHR ''a''))) = None"
proof (rule oversized_reply_aborts [where h = "queued_handle (replicate 500 CHR ''a'')" and
      put_line = quiet_line and k = "''bob''" and d = "replicate 500 CHR ''a''" and rest = "[]"])
  show "strcasecmp ''bob'' '':RAW'' \<noteq> 0" by code_simp
qed (simp_all add: queued_handle_facts, simp_all add: queued_handle_def queue_wf_enqueue queue_items_enqueue)

end
