(* ===== verification/Bytes.thy ===== *)
theory Bytes
  imports Prelude "HOL-Library.Word"
begin

text \<open>
  Bytes as the protocol drivers see them: control characters, the bytes of an integer, C strings
  inside a buffer, and integers that are cut to the width of \<open>int\<close>.
\<close>

abbreviation CR :: char where "CR \<equiv> CHR 0x0D"
abbreviation LF :: char where "LF \<equiv> CHR 0x0A"
abbreviation NUL :: char where "NUL \<equiv> CHR 0x00"
abbreviation blank :: char where "blank \<equiv> CHR '' ''"

text \<open>A string up to the first occurrence of a character.\<close>

definition until :: "char \<Rightarrow> string \<Rightarrow> string" where
  "until c s = takeWhile (\<lambda>x. x \<noteq> c) s"

lemma until_append: "c \<notin> set u \<Longrightarrow> until c (u @ v) = u @ until c v"
  by (induction u) (auto simp: until_def)

lemma until_self: "c \<notin> set u \<Longrightarrow> until c u = u"
  using until_append [of c u "[]"] by (simp add: until_def)

definition byte :: "nat \<Rightarrow> char" where
  "byte n = char_of (n mod 256)"

lemma of_char_byte: "(of_char (byte n) :: nat) = n mod 256"
  by (simp add: byte_def of_char_of)

text \<open>A value stored into an \<open>int\<close>.\<close>

definition c_int :: "int \<Rightarrow> int" where
  "c_int i = (i + 2 ^ 31) mod 2 ^ 32 - 2 ^ 31"

end
