(* ===== verification/FtIrcLine.thy ===== *)
theory FtIrcLine
  imports FtRequest Bytes
begin

text \<open>
  Lines of the IRC protocol in \<open>firetalk/irc.c\<close>: how a line is written from a format, how the
  bytes that have arrived are cut into lines and a line into its words, and the encoding of a
  CTCP request. The driver that uses them is in \<open>FtIrc\<close>.
\<close>

abbreviation CTCP :: char where "CTCP \<equiv> CHR 0x01"

section \<open>Writing a line\<close>

text \<open>
  The loop of \<open>irc_send_printf\<close> over the format: \<open>%s\<close> takes the next argument, \<open>%%\<close> is a percent
  sign, other letters after \<open>%\<close> are skipped. The buffer has 513 bytes, two of them for the end of
  the line. The inner \<open>None\<close> is the answer \<open>FE_PACKETSIZE\<close>; a format that ends in \<open>%\<close> or that has
  more \<open>%s\<close> than arguments is undefined.
\<close>

fun irc_format :: "string \<Rightarrow> string list \<Rightarrow> string \<Rightarrow> string option option" where
  "irc_format [] args data = Some (Some data)"
| "irc_format (c # f) args data =
     (if c = CHR ''%'' then
        (case f of
           [] \<Rightarrow> None
         | d # f' \<Rightarrow>
             if d = CHR ''s'' then
               (case args of
                  [] \<Rightarrow> None
                | s # args' \<Rightarrow>
                    if length data + length s > 510 then Some None
                    else irc_format f' args' (data @ s))
             else if d = CHR ''%'' then irc_format f' args (data @ ''%'')
             else irc_format f' args data)
      else let data = data @ [c] in if length data > 510 then Some None else irc_format f args data)"

section \<open>Reading a line\<close>

text \<open>
  The words of a line: at most 256 are collected, a word that begins with a colon takes the rest.
  \<open>n\<close> words have been collected before. The pointer array has 256 elements, the last one for the
  terminating null, so more than 255 words write behind it.
\<close>

function irc_words :: "nat \<Rightarrow> string \<Rightarrow> string list" where
  "irc_words n s =
     (case strchr s blank of
        None \<Rightarrow> [s]
      | Some i \<Rightarrow>
          if 256 \<le> n then [s]
          else take i s #
            (case drop (Suc i) s of
               [] \<Rightarrow> irc_words (Suc n) []
             | c # r \<Rightarrow> if c = CHR '':'' then [r] else irc_words (Suc n) (c # r)))"
  by pat_completeness auto
termination
  by (relation "measure (\<lambda>(n, s). length s)")
    (auto dest: strchr_Some_take arg_cong [where f = length])

declare irc_words.simps [simp del]

definition irc_split :: "string \<Rightarrow> string list" where
  "irc_split line =
     (case line of
        [] \<Rightarrow> '':SERVER'' # irc_words 1 []
      | c # r \<Rightarrow> if c = CHR '':'' then irc_words 0 r else '':SERVER'' # irc_words 1 (c # r))"

definition strip_cr :: "string \<Rightarrow> string" where
  "strip_cr line = (if line \<noteq> [] \<and> last line = CR then butlast line else line)"

text \<open>
  \<open>irc_recv_parse\<close>: the buffer is copied to a string of 513 bytes, so a zero byte ends what is
  searched for the end of a line. The answer is the words, or \<open>None\<close> when no line is complete, and
  the bytes that stay in the buffer.
\<close>

definition irc_recv_parse :: "string \<Rightarrow> (string list option \<times> string) option" where
  "irc_recv_parse buffer =
     (if \<not> length buffer < 513 then None
      else (case strchr (until NUL buffer) LF of
         None \<Rightarrow> Some (None, buffer)
       | Some i \<Rightarrow>
           let args = irc_split (strip_cr (take i buffer)) in
           if length args \<le> 255 then Some (Some args, drop (Suc i) buffer) else None))"

text \<open>The nickname in front of the host mask, in a buffer of 512 bytes.\<close>

definition irc_get_nickname :: "string \<Rightarrow> string" where
  "irc_get_nickname hostmask = until (CHR ''!'') (take 511 hostmask)"

definition irc_ctcp_encode :: "string \<Rightarrow> string option \<Rightarrow> string" where
  "irc_ctcp_encode command message =
     (case message of
        None \<Rightarrow> [CTCP] @ command @ [CTCP]
      | Some m \<Rightarrow> [CTCP] @ command @ [blank] @ m @ [CTCP])"

section \<open>Properties of lines\<close>

text \<open>The line that a server writes for words: the last one may hold blanks after a colon.\<close>

fun write_words :: "string list \<Rightarrow> string option \<Rightarrow> string" where
  "write_words [] trailing = (case trailing of None \<Rightarrow> [] | Some t \<Rightarrow> [blank, CHR '':''] @ t)"
| "write_words (w # ws) trailing = blank # w @ write_words ws trailing"

definition write_line :: "string \<Rightarrow> string list \<Rightarrow> string option \<Rightarrow> string" where
  "write_line prefix ws trailing = CHR '':'' # prefix @ write_words ws trailing @ [CR, LF]"

definition word_ok :: "string \<Rightarrow> bool" where
  "word_ok w \<longleftrightarrow> blank \<notin> set w \<and> w \<noteq> [] \<and> hd w \<noteq> CHR '':''"

lemma irc_words_last: "blank \<notin> set s \<Longrightarrow> irc_words n s = [s]"
  by (simp add: irc_words.simps strchr_None [THEN iffD2])

lemma irc_words_step:
  assumes "blank \<notin> set w" "n < 256"
  shows "irc_words n (w @ blank # r) =
    w # (case r of [] \<Rightarrow> irc_words (Suc n) [] | c # r' \<Rightarrow> if c = CHR '':'' then [r'] else irc_words (Suc n) (c # r'))"
  using assms by (subst irc_words.simps) (simp add: strchr_at)

lemma irc_words_written:
  "blank \<notin> set w \<Longrightarrow> list_all word_ok ws \<Longrightarrow> n + length ws + 1 < 256 \<Longrightarrow>
   irc_words n (w @ write_words ws trailing) = w # ws @ (case trailing of None \<Rightarrow> [] | Some t \<Rightarrow> [t])"
proof (induction ws arbitrary: w n)
  case Nil
  then show ?case by (cases trailing) (simp_all add: irc_words_last irc_words_step)
next
  case (Cons x ws)
  obtain c r where x: "x = c # r" "c \<noteq> CHR '':''" using Cons.prems by (cases x) (auto simp: word_ok_def)
  have "irc_words (Suc n) (x @ write_words ws trailing) = x # ws @ (case trailing of None \<Rightarrow> [] | Some t \<Rightarrow> [t])"
    using Cons.prems by (intro Cons.IH) (auto simp: word_ok_def)
  with x Cons.prems show ?case by (simp add: irc_words_step)
qed

lemma irc_split_written:
  assumes "blank \<notin> set prefix" "list_all word_ok ws" "length ws < 255"
  shows "irc_split (CHR '':'' # prefix @ write_words ws trailing) =
    prefix # ws @ (case trailing of None \<Rightarrow> [] | Some t \<Rightarrow> [t])"
  using assms irc_words_written [of prefix ws 0 trailing] by (simp add: irc_split_def)

lemma recv_line:
  assumes "length (line @ [CR, LF] @ rest) < 513" "NUL \<notin> set line" "LF \<notin> set line"
    "length (irc_split line) \<le> 255"
  shows "irc_recv_parse (line @ [CR, LF] @ rest) = Some (Some (irc_split line), rest)"
proof -
  have "until NUL (line @ [CR, LF] @ rest) = (line @ [CR]) @ LF # until NUL rest"
    using until_append [of NUL "line @ [CR, LF]" rest] assms(2) by simp
  moreover have "strchr ((line @ [CR]) @ LF # until NUL rest) LF = Some (Suc (length line))"
    by (subst strchr_at) (use assms(3) in auto)
  ultimately show ?thesis using assms(1,4) by (simp add: irc_recv_parse_def strip_cr_def Let_def)
qed

text \<open>
  C10. A line that a server writes comes out as the words it was written from, with the rest of the
  buffer untouched, whenever it has at most 255 of them.
\<close>

theorem irc_line_roundtrip:
  assumes p: "blank \<notin> set prefix" "list_all word_ok ws"
    and chars: "\<forall>w \<in> set (prefix # ws @ (case trailing of None \<Rightarrow> [] | Some t \<Rightarrow> [t])). NUL \<notin> set w \<and> LF \<notin> set w"
    and len: "length (write_line prefix ws trailing @ rest) < 513"
    and few: "length ws < 254"
  shows "irc_recv_parse (write_line prefix ws trailing @ rest) =
    Some (Some (prefix # ws @ (case trailing of None \<Rightarrow> [] | Some t \<Rightarrow> [t])), rest)"
proof -
  let ?line = "CHR '':'' # prefix @ write_words ws trailing"
  have "NUL \<notin> set (write_words ws trailing) \<and> LF \<notin> set (write_words ws trailing)"
    using chars by (induction ws) (auto split: option.splits)
  then have c: "NUL \<notin> set ?line" "LF \<notin> set ?line" using chars by auto
  have s: "irc_split ?line = prefix # ws @ (case trailing of None \<Rightarrow> [] | Some t \<Rightarrow> [t])"
    using irc_split_written [OF p] few by simp
  then have "length (irc_split ?line) \<le> 255" using few by (simp split: option.split)
  with recv_line [of ?line rest] c s len show ?thesis by (simp add: write_line_def)
qed

theorem irc_line_roundtrip_witness:
  "irc_recv_parse (write_line ''ann!a@host'' [''PRIVMSG'', ''#room''] (Some ''hi all'') @ ''PING'') =
     Some (Some [''ann!a@host'', ''PRIVMSG'', ''#room'', ''hi all''], ''PING'')"
proof -
  have "list_all word_ok [''PRIVMSG'', ''#room'']" by code_simp
  then show ?thesis
    using irc_line_roundtrip [of "''ann!a@host''" "[''PRIVMSG'', ''#room'']" "Some ''hi all''" "''PING''"]
    by (simp add: write_line_def)
qed

lemma irc_words_blanks: "n + k \<le> 256 \<Longrightarrow> irc_words n (replicate k blank) = replicate (Suc k) []"
proof (induction k arbitrary: n)
  case (Suc k)
  then show ?case
    using irc_words_step [of "[]" n "replicate k blank"] by (cases k) (auto simp: irc_words_last)
qed (simp add: irc_words_last)

lemma length_irc_words_blanks:
  "n \<le> 256 \<Longrightarrow> length (irc_words n (replicate k blank)) = Suc (min k (256 - n))"
proof (induction k arbitrary: n)
  case 0
  then show ?case by (simp add: irc_words_last)
next
  case (Suc k)
  show ?case
  proof (cases "n < 256")
    case True
    have "irc_words n (replicate (Suc k) blank) = [] # irc_words (Suc n) (replicate k blank)"
      using irc_words_step [of "[]" n "replicate k blank"] True by (cases k) (auto simp: irc_words_last)
    with Suc.IH [of "Suc n"] True show ?thesis by (simp add: min_def) linarith
  next
    case False
    then show ?thesis using Suc.prems by (subst irc_words.simps) (simp split: option.split)
  qed
qed

text \<open>
  A server that sends a line of 254 blanks or more makes the client write behind the array of
  words (\<open>None\<close> in the model), although the line fits into its buffer; up to 253 blanks are split into
  words.
\<close>

theorem irc_recv_overrun:
  assumes n: "n < 511"
  shows "irc_recv_parse (replicate n blank @ [CR, LF]) =
    (if 254 \<le> n then None else Some (Some ('':SERVER'' # replicate (Suc n) []), []))"
proof -
  have u: "until NUL (replicate n blank @ [CR, LF]) = (replicate n blank @ [CR]) @ LF # []"
    using until_append [of NUL "replicate n blank @ [CR, LF]" "[]"] by (simp add: until_def)
  have l: "strchr ((replicate n blank @ [CR]) @ LF # []) LF = Some (Suc n)"
    by (subst strchr_at) auto
  have s: "irc_split (replicate n blank) = '':SERVER'' # irc_words 1 (replicate n blank)"
    by (cases n) (simp_all add: irc_split_def)
  have "irc_words 1 (replicate n blank) = replicate (Suc n) []" if "n < 254"
    using irc_words_blanks [of 1 n] that by auto
  then show ?thesis using n u l s length_irc_words_blanks [of 1 n]
    by (auto simp: irc_recv_parse_def Let_def strip_cr_def min_def)
qed

theorem irc_recv_overrun_witness:
  "irc_recv_parse (replicate 300 blank @ [CR, LF]) = None \<and>
   irc_recv_parse (replicate 2 blank @ [CR, LF]) = Some (Some ['':SERVER'', [], [], []], [])"
  using irc_recv_overrun [of 300] irc_recv_overrun [of 2] by (simp add: numeral_2_eq_2 numeral_3_eq_3)

end
