(* ===== verification/FtAim.thy ===== *)
theory FtAim
  imports FtRequest
begin

text \<open>
  The definitions for AIM in \<open>firetalk/aim.c\<close>: writing and reading HTML entities, the variables in an
  automatic answer, and the subcodes that are hidden in a message as font tags.
\<close>

section \<open>HTML entities\<close>

text \<open>
  The output buffer has 1024 bytes; the loop stops when fewer than seven are left. The characters
  are the ones of the \<open>switch\<close>; a negative \<open>len\<close> means no limit.
\<close>

definition html_entity :: "char \<Rightarrow> string" where
  "html_entity c =
     (if c = CHR ''<'' then ''&lt;''
      else if c = CHR ''>'' then ''&gt;''
      else if c = CHR ''&'' then ''&amp;''
      else if c = CHR 0x22 then ''&quot;''
      else if c = CHR 0x0A then ''<br>''
      else [c])"

fun nhtml_loop :: "int \<Rightarrow> int \<Rightarrow> string \<Rightarrow> string \<Rightarrow> string" where
  "nhtml_loop len i out [] = out"
| "nhtml_loop len i out (c # cs) =
     (if length out < 1017 \<and> (len < 0 \<or> i < len) then nhtml_loop len (i + 1) (out @ html_entity c) cs
      else out)"

definition firetalk_nhtmlentities :: "string \<Rightarrow> int \<Rightarrow> string" where
  "firetalk_nhtmlentities str len = nhtml_loop len 0 [] str"

definition firetalk_htmlentities :: "string \<Rightarrow> string" where
  "firetalk_htmlentities str = firetalk_nhtmlentities str (- 1)"

text \<open>Reading stops when the buffer of 2048 bytes is full; \<open>n\<close> is the room that is left.\<close>

fun html_clean_loop :: "nat \<Rightarrow> string \<Rightarrow> string" where
  "html_clean_loop 0 s = []"
| "html_clean_loop (Suc n) [] = []"
| "html_clean_loop (Suc n) (c # cs) =
     (if is_prefix ''&gt;'' (c # cs) then CHR ''>'' # html_clean_loop n (drop 4 (c # cs))
      else if is_prefix ''&lt;'' (c # cs) then CHR ''<'' # html_clean_loop n (drop 4 (c # cs))
      else if is_prefix ''&quot;'' (c # cs) then CHR 0x22 # html_clean_loop n (drop 6 (c # cs))
      else if is_prefix ''&nbsp;'' (c # cs) then CHR '' '' # html_clean_loop n (drop 6 (c # cs))
      else if is_prefix ''&amp;'' (c # cs) then CHR ''&'' # html_clean_loop n (drop 5 (c # cs))
      else c # html_clean_loop n cs)"

definition htmlclean :: "string \<Rightarrow> string" where
  "htmlclean str = html_clean_loop 2047 str"

section \<open>Variables in an automatic answer\<close>

text \<open>The local time is an argument: hour, minute, second, day, month from 0, and years since 1900.\<close>

record c_tm =
  tm_sec :: int
  tm_min :: int
  tm_hour :: int
  tm_mday :: int
  tm_mon :: int
  tm_year :: int

definition show_02d :: "int \<Rightarrow> string" where
  "show_02d i = (if 0 \<le> i \<and> i < 10 then CHR ''0'' # show_int i else show_int i)"

definition aim_time :: "c_tm \<Rightarrow> string" where
  "aim_time t =
     (let hour = tm_hour t; am = \<not> 12 \<le> hour;
          hour = (if 12 < hour then hour - 12 else hour);
          hour = (if hour = 0 then 12 else hour) in
      take 14 (show_int hour @ '':'' @ show_02d (tm_min t) @ '':'' @ show_02d (tm_sec t) @ '' '' @
        (if am then ''AM'' else ''PM'')))"

definition aim_date :: "c_tm \<Rightarrow> string" where
  "aim_date t = take 14 (show_int (tm_mon t + 1) @ ''/'' @ show_int (tm_mday t) @ ''/'' @ show_int (tm_year t + 1900))"

fun interpolate_loop :: "string \<Rightarrow> string \<Rightarrow> string \<Rightarrow> bool \<Rightarrow> string \<Rightarrow> string \<Rightarrow> string" where
  "interpolate_loop nick date tim gotpercent out [] = out"
| "interpolate_loop nick date tim gotpercent out (c # cs) =
     (if c = CHR ''%'' then
        if gotpercent then interpolate_loop nick date tim False (out @ ''%%'') cs
        else interpolate_loop nick date tim True out cs
      else if c = CHR ''n'' then
        interpolate_loop nick date tim False (out @ (if gotpercent then nick else ''n'')) cs
      else if c = CHR ''d'' then
        interpolate_loop nick date tim False (out @ (if gotpercent then date else ''d'')) cs
      else if c = CHR ''t'' then
        interpolate_loop nick date tim False (out @ (if gotpercent then tim else ''t'')) cs
      else interpolate_loop nick date tim False (out @ (if gotpercent then ''%'' else []) @ [c]) cs)"

text \<open>\<open>localtime\<close> may fail; text that does not fit into the buffer of 16384 bytes is undefined behaviour.\<close>

definition aim_interpolate_variables :: "c_tm option \<Rightarrow> string \<Rightarrow> string \<Rightarrow> string option option" where
  "aim_interpolate_variables now input nickname =
     (case now of
        None \<Rightarrow> Some None
      | Some t \<Rightarrow>
          let out = interpolate_loop nickname (aim_date t) (aim_time t) False [] input in
          if length out < 16384 then Some (Some out) else None)"

section \<open>Subcodes in a message\<close>

lemma strstr_Some: "strstr s n = Some i \<Longrightarrow> \<exists>v. s = take i s @ n @ v \<and> i + length n \<le> length s"
proof (induction s arbitrary: i)
  case (Cons c s)
  show ?case
  proof (cases "is_prefix n (c # s)")
    case True
    then obtain zs where "c # s = n @ zs" "i = 0" using Cons.prems by (auto simp: is_prefix_append)
    then show ?thesis by (metis append_Nil le_add1 length_append plus_nat.add_0 take0)
  next
    case False
    with Cons.prems obtain k where "strstr s n = Some k" "i = Suc k" by auto
    with Cons.IH show ?thesis by fastforce
  qed
qed (auto split: if_splits)

lemma strstr_bound: "strstr s n = Some i \<Longrightarrow> i + length n \<le> length s"
  using strstr_Some by blast

definition ect_token :: string where "ect_token = ''<font ECT='' @ [CHR 0x22]"

definition ect_ending :: string where "ect_ending = [CHR 0x22] @ ''></font>''"

text \<open>
  The first tag that is closed is run as a subcode and cut out, until none is left. The command
  ends at the first blank.
\<close>

definition ect_parts :: "string \<Rightarrow> string \<times> string option" where
  "ect_parts body =
     (case strchr body (CHR '' '') of
        None \<Rightarrow> (body, None)
      | Some k \<Rightarrow> (take k body, Some (htmlclean (drop (Suc k) body))))"

function aim_handle_ect ::
  "(string \<Rightarrow> string option \<Rightarrow> 's \<Rightarrow> 's option) \<Rightarrow> (string \<Rightarrow> string option \<Rightarrow> 's \<Rightarrow> 's option) \<Rightarrow>
   string \<Rightarrow> int \<Rightarrow> 's \<Rightarrow> (string \<times> 's) option" where
  "aim_handle_ect on_request on_reply message reply s =
     (case strstr message ect_token of
        None \<Rightarrow> Some (message, s)
      | Some i \<Rightarrow>
          let text = drop (i + length ect_token) message in
          (case strstr text ect_ending of
             None \<Rightarrow> Some (message, s)
           | Some j \<Rightarrow>
               (case ect_parts (take j text) of (command, args) \<Rightarrow>
                  (case (if reply = 1 then on_reply command args s else on_request command args s) of
                     None \<Rightarrow> None
                   | Some s \<Rightarrow> aim_handle_ect on_request on_reply
                       (take i message @ drop (j + length ect_ending) text) reply s))))"
  by pat_completeness auto
termination
  by (relation "measure (\<lambda>(_, _, message, _, _). length message)")
    (auto simp: ect_token_def ect_ending_def dest!: strstr_bound)


definition toc_ctcp_encode :: "string \<Rightarrow> string option \<Rightarrow> string" where
  "toc_ctcp_encode command message =
     (case message of
        None \<Rightarrow> ect_token @ command @ ect_ending
      | Some m \<Rightarrow> ect_token @ command @ '' '' @ firetalk_htmlentities m @ ect_ending)"

section \<open>Properties\<close>

lemma nhtml_loop_all:
  "length (out @ concat (map html_entity s)) \<le> 1017 \<Longrightarrow> len < 0 \<Longrightarrow>
   nhtml_loop len i out s = out @ concat (map html_entity s)"
proof (induction s arbitrary: i out)
  case (Cons c s)
  have "html_entity c \<noteq> []" by (simp add: html_entity_def)
  then have "length out < 1017" using Cons.prems by (cases "html_entity c") auto
  with Cons show ?case by simp
qed simp

lemma nhtml_loop_bound: "length out \<le> 1022 \<Longrightarrow> length (nhtml_loop len i out s) \<le> 1022"
proof (induction s arbitrary: i out)
  case (Cons c s)
  have "length (html_entity c) \<le> 6" by (simp add: html_entity_def)
  with Cons show ?case by simp
qed simp

lemma html_clean_entity:
  assumes "CHR 0x0A \<noteq> c"
  shows "html_clean_loop (Suc n) (html_entity c @ s) = c # html_clean_loop n s"
  using assms by (auto simp: html_entity_def)

lemma html_clean_entities:
  "CHR 0x0A \<notin> set s \<Longrightarrow> length s < n \<Longrightarrow> html_clean_loop n (concat (map html_entity s)) = s"
proof (induction s arbitrary: n)
  case Nil
  then show ?case by (cases n) auto
next
  case (Cons c s)
  then obtain m where "n = Suc m" "length s < m" by (cases n) auto
  with Cons html_clean_entity [of c m "concat (map html_entity s)"] show ?case by simp
qed

lemma length_entities: "length s \<le> length (concat (map html_entity s))"
proof (induction s)
  case (Cons c s)
  have "1 \<le> length (html_entity c)" by (simp add: html_entity_def)
  with Cons show ?case by simp
qed simp

lemma htmlentities_text:
  "length (concat (map html_entity s)) \<le> 1017 \<Longrightarrow> firetalk_htmlentities s = concat (map html_entity s)"
  using nhtml_loop_all [of "[]" s "- 1" 0] by (simp add: firetalk_htmlentities_def firetalk_nhtmlentities_def)

lemma htmlclean_entities:
  assumes "CHR 0x0A \<notin> set s" "length (concat (map html_entity s)) \<le> 1017"
  shows "htmlclean (concat (map html_entity s)) = s"
  using assms length_entities [of s] by (simp add: htmlclean_def html_clean_entities)

lemma entities_safe: "CHR 0x22 \<notin> set (concat (map html_entity s))"
  by (induction s) (auto simp: html_entity_def)

lemma strstr_after:
  assumes "a \<notin> set u"
  shows "strstr (u @ (a # n) @ v) (a # n) = Some (length u)"
  using assms by (induction u) (auto simp: is_prefix_append)

lemma strstr_ect_token: "CHR ''<'' \<notin> set u \<Longrightarrow> strstr (u @ ect_token @ v) ect_token = Some (length u)"
  using strstr_after [of "CHR ''<''" u "tl ect_token" v] by (simp add: ect_token_def)

lemma strstr_ect_ending: "CHR 0x22 \<notin> set u \<Longrightarrow> strstr (u @ ect_ending @ v) ect_ending = Some (length u)"
  using strstr_after [of "CHR 0x22" u "tl ect_ending" v] by (simp add: ect_ending_def)

declare aim_handle_ect.simps [simp del]

lemma handle_ect_tag:
  assumes "CHR ''<'' \<notin> set u" "CHR 0x22 \<notin> set body"
  shows "aim_handle_ect on_request on_reply (u @ ect_token @ body @ ect_ending @ v) reply s =
    (case ect_parts body of (command, args) \<Rightarrow>
       Option.bind (if reply = 1 then on_reply command args s else on_request command args s)
         (aim_handle_ect on_request on_reply (u @ v) reply))"
  using strstr_ect_token [OF assms(1), of "body @ ect_ending @ v"] strstr_ect_ending [OF assms(2), of v]
  by (subst aim_handle_ect.simps) (simp add: Let_def split: prod.split option.split)

lemma ect_parts_encoded:
  assumes "CHR '' '' \<notin> set command"
  shows "ect_parts command = (command, None)"
    "CHR 0x0A \<notin> set m \<Longrightarrow> length (concat (map html_entity m)) \<le> 1017 \<Longrightarrow>
      ect_parts (command @ '' '' @ firetalk_htmlentities m) = (command, Some m)"
  using assms strchr_at [of "CHR '' ''" command "firetalk_htmlentities m"]
  by (simp_all add: ect_parts_def strchr_None [THEN iffD2] htmlentities_text htmlclean_entities)

text \<open>
  C11. A subcode that is encoded for AIM and sent in the middle of a message is what the receiver
  runs, with the same command and the same arguments whatever markup they contain, once; the rest
  of the message is left. Escaping never overruns its buffer.
\<close>

theorem ect_roundtrip:
  assumes c: "CHR '' '' \<notin> set command" "CHR 0x22 \<notin> set command"
    and a: "case args of None \<Rightarrow> True
      | Some m \<Rightarrow> CHR 0x0A \<notin> set m \<and> length (concat (map html_entity m)) \<le> 1017"
    and u: "CHR ''<'' \<notin> set u" and uv: "strstr (u @ v) ect_token = None"
  shows "aim_handle_ect on_request on_reply (u @ toc_ctcp_encode command args @ v) reply s =
      map_option (\<lambda>s'. (u @ v, s'))
        (if reply = 1 then on_reply command args s else on_request command args s) \<and>
    length (firetalk_nhtmlentities x n) < 1024"
proof
  obtain body where body: "toc_ctcp_encode command args = ect_token @ body @ ect_ending"
    "ect_parts body = (command, args)" "CHR 0x22 \<notin> set body"
    using c a ect_parts_encoded [OF c(1)] entities_safe
    by (cases args) (auto simp: toc_ctcp_encode_def htmlentities_text)
  show "aim_handle_ect on_request on_reply (u @ toc_ctcp_encode command args @ v) reply s =
      map_option (\<lambda>s'. (u @ v, s'))
        (if reply = 1 then on_reply command args s else on_request command args s)"
    using handle_ect_tag [OF u body(3), of on_request on_reply v reply s] body(1,2) uv
      aim_handle_ect.simps [of on_request on_reply "u @ v" reply]
    by (auto simp: map_conv_bind_option split: if_split bind_split)
  show "length (firetalk_nhtmlentities x n) < 1024"
    using nhtml_loop_bound [of "[]" n 0 x] by (simp add: firetalk_nhtmlentities_def)
qed

theorem ect_roundtrip_witness:
  "aim_handle_ect (\<lambda>c a s. Some ((c, a) # s)) (\<lambda>c a s. None)
     (''hi '' @ toc_ctcp_encode ''PING'' (Some ''1 < 2'') @ ''there'') 0 [] =
   Some (''hi there'', [(''PING'', Some ''1 < 2'')])"
proof -
  have "CHR '' '' \<notin> set ''PING''" "CHR 0x22 \<notin> set ''PING''" "CHR ''<'' \<notin> set ''hi ''" by simp_all
  moreover have "case Some ''1 < 2'' of None \<Rightarrow> True
      | Some m \<Rightarrow> CHR 0x0A \<notin> set m \<and> length (concat (map html_entity m)) \<le> 1017" by code_simp
  moreover have "strstr (''hi '' @ ''there'') ect_token = None" by code_simp
  ultimately show ?thesis
    using conjunct1 [OF ect_roundtrip [of "''PING''" "Some ''1 < 2''" "''hi ''" "''there''"
        "\<lambda>c a s. Some ((c, a) # s)" "\<lambda>c a s. None" 0 "[]"]] by simp
qed

end
