(* ===== verification/FtIrc.thy ===== *)
theory FtIrc
  imports FtIrcLine FtAim
begin

unbundle bit_operations_syntax

text \<open>
  The IRC driver of \<open>firetalk/irc.c\<close>: its connection record, the commands it sends, and what it
  does with every line a server sends. The driver reports to the session layer through the
  callbacks of the theories \<open>FtBuddy\<close>, \<open>FtChat\<close>, \<open>FtConn\<close> and \<open>FtRequest\<close>.

  The state is the record of the connection, the variable \<open>inwhois\<close> (\<open>static\<close>, so shared by all
  connections), the session layer, and the lines that were handed to \<open>firetalk_internal_send_data\<close>.
  \<open>irc_irc_to_html\<close> and \<open>irc_html_to_irc\<close> return their argument. Handlers of the client act on the
  session layer only.
\<close>

section \<open>State\<close>

record irc_whois =
  iw_nickname :: string
  iw_info :: "string option"
  iw_flags :: int
  iw_online :: int
  iw_idle :: int

record irc_conn =
  ic_nickname :: "string option"
  ic_password :: "string option"
  ic_whois :: "irc_whois list"
  ic_passchange :: int
  ic_usesilence :: bool
  ic_identified :: bool

record irc_state =
  i_conn :: irc_conn
  i_inwhois :: bool
  i_ft :: ft_state
  i_sent :: "string list"

text \<open>
  The environment: the table of protocols, what the session layer needs for subcodes, the handlers
  of the client, what \<open>send\<close> returns for a line after the lines before it, the password the client
  writes into a buffer of the given size, and the local address.
\<close>

record irc_env =
  ie_ps :: "ft_protocol list"
  ie_sub :: sub_env
  ie_junk :: int
  ie_on_message :: "ft_state \<Rightarrow> ft_state option"
  ie_handler :: "nat \<Rightarrow> ft_state \<Rightarrow> ft_state option"
  ie_send :: "string list \<Rightarrow> string \<Rightarrow> int"
  ie_password :: "int \<Rightarrow> string"
  ie_localip :: "32 word"

type_synonym irc_op = "irc_state \<Rightarrow> (fte \<times> irc_state) option"

definition ft_do :: "(ft_state \<Rightarrow> ft_state option) \<Rightarrow> irc_state \<Rightarrow> irc_state option" where
  "ft_do f s = map_option (\<lambda>st. s\<lparr>i_ft := st\<rparr>) (f (i_ft s))"

definition put_conn :: "(irc_conn \<Rightarrow> irc_conn) \<Rightarrow> irc_state \<Rightarrow> irc_state" where
  "put_conn f s = s\<lparr>i_conn := f (i_conn s)\<rparr>"

text \<open>Comparing with the own nickname reads through a null pointer when there is none.\<close>

definition is_me :: "string \<Rightarrow> irc_state \<Rightarrow> bool option" where
  "is_me name s = map_option (\<lambda>me. irc_compare_nicks me name = FE_SUCCESS) (ic_nickname (i_conn s))"

text \<open>\<open>strchr(ROOMSTARTS, *name)\<close>: the terminating zero is found in every string.\<close>

definition irc_is_room :: "string \<Rightarrow> bool" where
  "irc_is_room name = (case name of [] \<Rightarrow> True | c # _ \<Rightarrow> strchr ''#+&'' c \<noteq> None)"

definition irc_isprint :: "int \<Rightarrow> fte" where
  "irc_isprint c = (if 32 \<le> c \<and> c \<le> 126 then FE_SUCCESS else FE_INVALIDFORMAT)"

definition irc_isnickfirst :: "char \<Rightarrow> bool" where
  "irc_isnickfirst c \<longleftrightarrow> c_isalpha c \<or> c \<in> set ''[]`^{}'' \<or> c = CHR 0x5C"

definition irc_isnick :: "char \<Rightarrow> bool" where
  "irc_isnick c \<longleftrightarrow> irc_isnickfirst c \<or> c_isdigit c \<or> c = CHR ''-''"

section \<open>Sending\<close>

definition irc_send_printf :: "irc_env \<Rightarrow> client \<Rightarrow> string \<Rightarrow> string list \<Rightarrow> irc_op" where
  "irc_send_printf env c format args s = do {
     r \<leftarrow> irc_format format args [];
     (case r of
        None \<Rightarrow> Some (FE_PACKETSIZE, s)
      | Some data \<Rightarrow> do {
          let data = data @ [CR, LF];
          conn \<leftarrow> firetalk_find_handle c (i_ft s);
          st \<leftarrow> firetalk_internal_send_data conn data (ie_send env (i_sent s) data) (i_ft s);
          Some (FE_SUCCESS, s\<lparr>i_ft := st, i_sent := i_sent s @ [data]\<rparr>)
        })
   }"

definition irc_internal_disconnect :: "client \<Rightarrow> fte \<Rightarrow> irc_op" where
  "irc_internal_disconnect c error s = do {
     let s = put_conn (\<lambda>k. k\<lparr>ic_nickname := None, ic_password := None, ic_whois := [],
       ic_passchange := 0, ic_usesilence := True, ic_identified := False\<rparr>) s;
     s \<leftarrow> ft_do (firetalk_callback_disconnect c error) s;
     Some (FE_SUCCESS, s)
   }"

text \<open>Where a line cannot be sent, the parser ends the session and answers \<open>FE_PACKET\<close>.\<close>

definition send_or_drop :: "irc_env \<Rightarrow> client \<Rightarrow> string \<Rightarrow> string list \<Rightarrow> irc_op" where
  "send_or_drop env c format args s = do {
     (e, s) \<leftarrow> irc_send_printf env c format args s;
     if e \<noteq> FE_SUCCESS then do {
       (_, s) \<leftarrow> irc_internal_disconnect c FE_PACKET s;
       Some (FE_PACKET, s)
     } else Some (FE_SUCCESS, s)
   }"

section \<open>Commands\<close>

definition irc_create_handle :: irc_conn where
  "irc_create_handle = \<lparr>ic_nickname = None, ic_password = None, ic_whois = [], ic_passchange = 0,
     ic_usesilence = True, ic_identified = False\<rparr>"

text \<open>\<open>irc_destroy_handle\<close> frees the record; the rest of the state is left.\<close>

definition irc_destroy_handle :: "irc_env \<Rightarrow> client \<Rightarrow> irc_state \<Rightarrow> irc_state option" where
  "irc_destroy_handle env c s = do {
     (_, s) \<leftarrow> irc_send_printf env c ''QUIT :Handle destroyed'' [] s;
     (_, s) \<leftarrow> irc_internal_disconnect c FE_USERDISCONNECT s;
     Some s
   }"

definition irc_disconnect :: "irc_env \<Rightarrow> client \<Rightarrow> irc_op" where
  "irc_disconnect env c s = do {
     (_, s) \<leftarrow> irc_send_printf env c ''QUIT :User disconnected'' [] s;
     irc_internal_disconnect c FE_USERDISCONNECT s
   }"

text \<open>
  \<open>HAVE_GETPWUID\<close> is defined nowhere, so the user name and the real name are the nickname.
\<close>

definition irc_signon :: "irc_env \<Rightarrow> client \<Rightarrow> string \<Rightarrow> irc_op" where
  "irc_signon env c nickname s = do {
     s \<leftarrow> ft_do (firetalk_callback_needpass c 129) s;
     let pass = ie_password env 129;
     (e, s) \<leftarrow> (if pass \<noteq> [] then irc_send_printf env c ''PASS %s'' [pass] s else Some (FE_SUCCESS, s));
     if e \<noteq> FE_SUCCESS then Some (FE_PACKET, s)
     else do {
       (e, s) \<leftarrow> irc_send_printf env c ''USER %s %s %s :%s'' [nickname, nickname, nickname, nickname] s;
       if e \<noteq> FE_SUCCESS then Some (FE_PACKET, s)
       else do {
         (e, s) \<leftarrow> irc_send_printf env c ''NICK %s'' [nickname] s;
         if e \<noteq> FE_SUCCESS then Some (FE_PACKET, s)
         else Some (FE_SUCCESS, put_conn (\<lambda>k. k\<lparr>ic_nickname := Some nickname\<rparr>) s)
       }
     }
   }"

definition irc_set_nickname :: "irc_env \<Rightarrow> client \<Rightarrow> string \<Rightarrow> irc_op" where
  "irc_set_nickname env c nickname = irc_send_printf env c ''NICK %s'' [nickname]"

definition irc_set_password :: "irc_env \<Rightarrow> client \<Rightarrow> string \<Rightarrow> string \<Rightarrow> irc_op" where
  "irc_set_password env c oldpass newpass s =
     irc_send_printf env c ''PRIVMSG NickServ :SET PASSWORD %s'' [newpass]
       (put_conn (\<lambda>k. k\<lparr>ic_passchange := ic_passchange k + 1\<rparr>) s)"

definition irc_chat_join :: "irc_env \<Rightarrow> client \<Rightarrow> string \<Rightarrow> irc_op" where
  "irc_chat_join env c room = irc_send_printf env c ''JOIN %s'' [room]"

definition irc_chat_part :: "irc_env \<Rightarrow> client \<Rightarrow> string \<Rightarrow> irc_op" where
  "irc_chat_part env c room = irc_send_printf env c ''PART %s'' [room]"

definition irc_chat_send_message :: "irc_env \<Rightarrow> client \<Rightarrow> string \<Rightarrow> string \<Rightarrow> int \<Rightarrow> irc_op" where
  "irc_chat_send_message env c room message auto_flag =
     (if strcasecmp room '':RAW'' = 0 then irc_send_printf env c ''%s'' [message]
      else if auto_flag \<noteq> 0 then irc_send_printf env c ''NOTICE %s :%s'' [room, message]
      else irc_send_printf env c ''PRIVMSG %s :%s'' [room, message])"

definition irc_chat_send_action :: "irc_env \<Rightarrow> client \<Rightarrow> string \<Rightarrow> string \<Rightarrow> int \<Rightarrow> irc_op" where
  "irc_chat_send_action env c room message auto_flag =
     irc_send_printf env c (''PRIVMSG %s :'' @ [CTCP] @ ''ACTION %s'' @ [CTCP]) [room, message]"

definition irc_chat_invite :: "irc_env \<Rightarrow> client \<Rightarrow> string \<Rightarrow> string \<Rightarrow> string \<Rightarrow> irc_op" where
  "irc_chat_invite env c room who message = irc_send_printf env c ''INVITE %s %s'' [who, room]"

definition irc_im_send_action :: "irc_env \<Rightarrow> client \<Rightarrow> string \<Rightarrow> string \<Rightarrow> int \<Rightarrow> irc_op" where
  "irc_im_send_action env c dest message auto_flag =
     irc_send_printf env c (''PRIVMSG %s :'' @ [CTCP] @ ''ACTION %s'' @ [CTCP]) [dest, message]"

definition irc_chat_set_topic :: "irc_env \<Rightarrow> client \<Rightarrow> string \<Rightarrow> string \<Rightarrow> irc_op" where
  "irc_chat_set_topic env c room topic = irc_send_printf env c ''TOPIC %s :%s'' [room, topic]"

definition irc_chat_op :: "irc_env \<Rightarrow> client \<Rightarrow> string \<Rightarrow> string \<Rightarrow> irc_op" where
  "irc_chat_op env c room who = irc_send_printf env c ''MODE %s +o %s'' [room, who]"

definition irc_chat_deop :: "irc_env \<Rightarrow> client \<Rightarrow> string \<Rightarrow> string \<Rightarrow> irc_op" where
  "irc_chat_deop env c room who = irc_send_printf env c ''MODE %s -o %s'' [room, who]"

definition irc_chat_kick :: "irc_env \<Rightarrow> client \<Rightarrow> string \<Rightarrow> string \<Rightarrow> string option \<Rightarrow> irc_op" where
  "irc_chat_kick env c room who reason =
     (case reason of
        Some r \<Rightarrow> irc_send_printf env c ''KICK %s %s :%s'' [room, who, r]
      | None \<Rightarrow> irc_send_printf env c ''KICK %s %s'' [room, who])"

definition irc_chat_requestextended :: "irc_env \<Rightarrow> client \<Rightarrow> string \<Rightarrow> irc_op" where
  "irc_chat_requestextended env c room = irc_send_printf env c ''WHO %s'' [room]"

definition irc_im_add_buddy :: "irc_env \<Rightarrow> client \<Rightarrow> string \<Rightarrow> irc_op" where
  "irc_im_add_buddy env c name s = do {
     conn \<leftarrow> firetalk_find_handle c (i_ft s);
     e \<leftarrow> firetalk_user_visible (ie_ps env) conn name (i_ft s);
     s \<leftarrow> (if e = FE_SUCCESS then ft_do (firetalk_callback_im_buddyonline (ie_ps env) c name 1) s else Some s);
     Some (FE_SUCCESS, s)
   }"

definition irc_im_remove_buddy :: "irc_env \<Rightarrow> client \<Rightarrow> string \<Rightarrow> irc_op" where
  "irc_im_remove_buddy env c name s = do {
     s \<leftarrow> ft_do (firetalk_callback_im_buddyonline (ie_ps env) c name 0) s;
     Some (FE_SUCCESS, s)
   }"

definition irc_im_add_deny :: "irc_env \<Rightarrow> client \<Rightarrow> string \<Rightarrow> irc_op" where
  "irc_im_add_deny env c nickname s =
     (if ic_usesilence (i_conn s) then irc_send_printf env c ''SILENCE +%s!*@*'' [nickname] s
      else Some (FE_SUCCESS, s))"

definition irc_im_remove_deny :: "irc_env \<Rightarrow> client \<Rightarrow> string \<Rightarrow> irc_op" where
  "irc_im_remove_deny env c nickname s =
     (if ic_usesilence (i_conn s) then irc_send_printf env c ''SILENCE -%s!*@*'' [nickname] s
      else Some (FE_SUCCESS, s))"

definition irc_get_info :: "irc_env \<Rightarrow> client \<Rightarrow> string \<Rightarrow> irc_op" where
  "irc_get_info env c nickname s =
     irc_send_printf env c ''WHOIS %s'' [nickname] (put_conn (\<lambda>k. k\<lparr>ic_whois :=
       \<lparr>iw_nickname = nickname, iw_info = None, iw_flags = 0, iw_online = 0, iw_idle = 0\<rparr> # ic_whois k\<rparr>) s)"

definition irc_set_away :: "irc_env \<Rightarrow> client \<Rightarrow> string option \<Rightarrow> int \<Rightarrow> irc_op" where
  "irc_set_away env c message auto_flag =
     (case message of
        Some m \<Rightarrow> irc_send_printf env c ''AWAY :%s'' [m]
      | None \<Rightarrow> irc_send_printf env c ''AWAY'' [])"

end
