(* ===== verification/FtIrcMsg.thy ===== *)
theory FtIrcMsg
  imports FtIrc
begin

text \<open>
  What the IRC driver does with a line of the server (\<open>irc_got_data_parse\<close> in \<open>firetalk/irc.c\<close>), one
  definition for each branch, and the loops that take the lines from the buffer. A missing word is
  \<open>NULL\<close>; reading through it, and reading the array of words behind its terminating null, are \<open>None\<close>.
\<close>

definition arg :: "string list \<Rightarrow> nat \<Rightarrow> string option" where
  "arg args i = (if i < length args then Some (args ! i) else None)"

section \<open>Users who come and go\<close>

definition irc_disc_user_rem :: "irc_env \<Rightarrow> client \<Rightarrow> string \<Rightarrow> string \<Rightarrow> irc_state \<Rightarrow> irc_state option" where
  "irc_disc_user_rem env c disc name s = do {
     conn \<leftarrow> firetalk_find_handle c (i_ft s);
     e \<leftarrow> firetalk_user_visible_but (ie_ps env) conn disc name (i_ft s);
     if e = FE_NOMATCH then ft_do (firetalk_callback_im_buddyonline (ie_ps env) c name 0) s else Some s
   }"

fun rem_members :: "irc_env \<Rightarrow> client \<Rightarrow> string \<Rightarrow> ft_member list \<Rightarrow> irc_state \<Rightarrow> irc_state option" where
  "rem_members env c disc [] s = Some s"
| "rem_members env c disc (mem # ms) s = do {
     s \<leftarrow> irc_disc_user_rem env c disc (m_nickname mem) s;
     rem_members env c disc ms s
   }"

definition irc_disc_rem :: "irc_env \<Rightarrow> client \<Rightarrow> string \<Rightarrow> irc_state \<Rightarrow> irc_state option" where
  "irc_disc_rem env c disc s = do {
     conn \<leftarrow> firetalk_find_handle c (i_ft s);
     (iter, st) \<leftarrow> firetalk_find_room (ie_ps env) conn disc (i_ft s);
     iter \<leftarrow> iter;
     rem_members env c disc (r_members iter) (s\<lparr>i_ft := st\<rparr>)
   }"

definition irc_ping :: "irc_env \<Rightarrow> client \<Rightarrow> string list \<Rightarrow> irc_op" where
  "irc_ping env c args =
     (case arg args 2 of
        Some a \<Rightarrow> send_or_drop env c ''PONG :%s'' [a]
      | None \<Rightarrow> send_or_drop env c ''PONG'' [])"

definition irc_quit :: "irc_env \<Rightarrow> client \<Rightarrow> string list \<Rightarrow> irc_op" where
  "irc_quit env c args s = do {
     let name = irc_get_nickname (args ! 0);
     s \<leftarrow> ft_do (firetalk_callback_im_buddyonline (ie_ps env) c name 0) s;
     me \<leftarrow> is_me name s;
     s \<leftarrow> (if me then map_option snd (irc_internal_disconnect c FE_DISCONNECT s)
       else ft_do (firetalk_callback_chat_user_quit (ie_ps env) c name (arg args 2)) s);
     Some (FE_SUCCESS, s)
   }"

definition irc_join :: "irc_env \<Rightarrow> client \<Rightarrow> string list \<Rightarrow> irc_op" where
  "irc_join env c args s = do {
     let name = irc_get_nickname (args ! 0);
     s \<leftarrow> ft_do (firetalk_callback_im_buddyonline (ie_ps env) c name 1) s;
     me \<leftarrow> is_me name s;
     if me then do {
       s \<leftarrow> ft_do (firetalk_callback_chat_joined (ie_ps env) c (args ! 2)) s;
       if ic_identified (i_conn s) then do {
         n \<leftarrow> ic_nickname (i_conn s);
         send_or_drop env c ''PRIVMSG ChanServ :OP %s %s'' [args ! 2, n] s
       } else Some (FE_SUCCESS, s)
     } else do {
       let extra = map_option (\<lambda>i. drop (Suc i) (args ! 0)) (strchr (args ! 0) (CHR ''!''));
       s \<leftarrow> ft_do (firetalk_callback_chat_user_joined (ie_ps env) c (args ! 2) (Some name) extra) s;
       Some (FE_SUCCESS, s)
     }
   }"

definition irc_part :: "irc_env \<Rightarrow> client \<Rightarrow> string list \<Rightarrow> irc_op" where
  "irc_part env c args s = do {
     let name = irc_get_nickname (args ! 0);
     me \<leftarrow> is_me name s;
     s \<leftarrow> (if me then do {
         s \<leftarrow> irc_disc_rem env c (args ! 2) s;
         ft_do (firetalk_callback_chat_left (ie_ps env) c (args ! 2)) s
       } else do {
         s \<leftarrow> irc_disc_user_rem env c (args ! 2) name s;
         ft_do (firetalk_callback_chat_user_left (ie_ps env) c (args ! 2) name (arg args 3)) s
       });
     Some (FE_SUCCESS, s)
   }"

definition irc_nick :: "irc_env \<Rightarrow> client \<Rightarrow> string list \<Rightarrow> irc_op" where
  "irc_nick env c args s = do {
     let name = irc_get_nickname (args ! 0);
     me \<leftarrow> is_me name s;
     s \<leftarrow> (if me then
         ft_do (firetalk_callback_newnick c (args ! 2)) (put_conn (\<lambda>k. k\<lparr>ic_nickname := Some (args ! 2)\<rparr>) s)
       else Some s);
     s \<leftarrow> ft_do (firetalk_callback_user_nickchanged (ie_ps env) c name (args ! 2)) s;
     Some (FE_SUCCESS, s)
   }"

section \<open>Messages\<close>

text \<open>The command of a CTCP message ends at its first blank.\<close>

definition ctcp_parts :: "string \<Rightarrow> string \<times> string option" where
  "ctcp_parts body =
     (case strchr body blank of
        None \<Rightarrow> (body, None)
      | Some k \<Rightarrow> (take k body, Some (drop (Suc k) body)))"

definition irc_request :: "irc_env \<Rightarrow> client \<Rightarrow> string \<Rightarrow> string \<Rightarrow> string \<Rightarrow> irc_state \<Rightarrow> irc_state option" where
  "irc_request env c name dest body =
     (if irc_is_room dest then
        if strncasecmp body ''ACTION '' 7 = 0
        then ft_do (firetalk_callback_chat_getaction c dest (Some name) 0 (drop 7 body))
        else Some
      else (case ctcp_parts body of (cmd, a) \<Rightarrow>
        ft_do (firetalk_callback_subcode_request (ie_ps env) (ie_sub env) (ie_junk env) (ie_on_message env)
          (ie_handler env) c name cmd a)))"

text \<open>
  Whatever stands between two bytes 1 is taken out of the text, as long as there is such a pair.
\<close>

function ctcp_requests ::
  "(string \<Rightarrow> 's \<Rightarrow> 's option) \<Rightarrow> string \<Rightarrow> 's \<Rightarrow> (string \<times> 's) option" where
  "ctcp_requests run text s =
     (case strchr text CTCP of
        None \<Rightarrow> Some (text, s)
      | Some i \<Rightarrow>
          let tail = drop (Suc i) text in
          (case strchr tail CTCP of
             None \<Rightarrow> Some (text, s)
           | Some j \<Rightarrow>
               (case run (take j tail) s of
                  None \<Rightarrow> None
                | Some s \<Rightarrow> ctcp_requests run (take i text @ drop (Suc j) tail) s)))"
  by pat_completeness auto
termination
  by (relation "measure (\<lambda>(_, text, _). length text)") (auto dest!: strchr_Some_take)

definition deliver_text :: "irc_env \<Rightarrow> client \<Rightarrow> string \<Rightarrow> string \<Rightarrow> int \<Rightarrow> string \<Rightarrow> irc_state \<Rightarrow> irc_state option" where
  "deliver_text env c dest name auto_flag text =
     (if irc_is_room dest then ft_do (firetalk_callback_chat_getmessage c dest (Some name) auto_flag text)
      else ft_do (firetalk_callback_im_getmessage (ie_ps env) c name auto_flag text (ie_on_message env)))"

definition irc_privmsg :: "irc_env \<Rightarrow> client \<Rightarrow> string list \<Rightarrow> irc_op" where
  "irc_privmsg env c args s = do {
     let name = irc_get_nickname (args ! 0);
     (text, s) \<leftarrow> ctcp_requests (irc_request env c name (args ! 2)) (args ! 3) s;
     s \<leftarrow> (if text \<noteq> [] then deliver_text env c (args ! 2) name 0 text s else Some s);
     Some (FE_SUCCESS, s)
   }"

definition irc_reply :: "irc_env \<Rightarrow> client \<Rightarrow> string \<Rightarrow> string \<Rightarrow> string \<Rightarrow> irc_state \<Rightarrow> irc_state option" where
  "irc_reply env c name dest body =
     (if irc_is_room dest then Some
      else (case ctcp_parts body of (cmd, a) \<Rightarrow>
        ft_do (firetalk_callback_subcode_reply (ie_handler env) c name cmd a)))"

text \<open>
  In a notice the last byte 1 may be missing. The arguments are then cut off the text with the blank
  in front of them, and the rest stays. (A room is not asked for arguments, its text stays whole.)
  The text is moved with \<open>memcpy\<close>, which the C standard does not allow for overlapping objects;
  the model has the result of copying forwards.
\<close>

function ctcp_replies ::
  "bool \<Rightarrow> (string \<Rightarrow> 's \<Rightarrow> 's option) \<Rightarrow> string \<Rightarrow> 's \<Rightarrow> (string \<times> 's) option" where
  "ctcp_replies room run text s =
     (case strchr text CTCP of
        None \<Rightarrow> Some (text, s)
      | Some i \<Rightarrow>
          let tail = drop (Suc i) text in
          (case strchr tail CTCP of
             Some j \<Rightarrow>
               (case run (take j tail) s of
                  None \<Rightarrow> None
                | Some s \<Rightarrow> ctcp_replies room run (take i text @ drop (Suc j) tail) s)
           | None \<Rightarrow>
               map_option (\<lambda>s. (if room then text
                  else (case strchr tail blank of None \<Rightarrow> text | Some k \<Rightarrow> take (Suc i + k) text), s))
                 (run tail s)))"
  by pat_completeness auto
termination
  by (relation "measure (\<lambda>(_, _, text, _). length text)") (auto dest!: strchr_Some_take)

text \<open>What NickServ says about the password; other notices of NickServ are delivered.\<close>

definition contains :: "string \<Rightarrow> string \<Rightarrow> bool" where
  "contains text pat \<longleftrightarrow> strstr text pat \<noteq> None"

definition nickserv_identify :: "irc_env \<Rightarrow> client \<Rightarrow> irc_op" where
  "nickserv_identify env c s = do {
     let s = put_conn (\<lambda>k. k\<lparr>ic_identified := False\<rparr>) s;
     s \<leftarrow> (if ic_password (i_conn s) = None then do {
         s \<leftarrow> ft_do (firetalk_callback_needpass c 128) s;
         Some (put_conn (\<lambda>k. k\<lparr>ic_password := Some (ie_password env 128)\<rparr>) s)
       } else Some s);
     (case ic_password (i_conn s) of
        Some p \<Rightarrow> send_or_drop env c ''PRIVMSG NickServ :IDENTIFY %s'' [p] s
      | None \<Rightarrow> Some (FE_SUCCESS, s))
   }"

definition irc_nickserv :: "irc_env \<Rightarrow> client \<Rightarrow> string \<Rightarrow> string \<Rightarrow> string \<Rightarrow> irc_op" where
  "irc_nickserv env c dest name text s =
     (if contains text ''IDENTIFY'' \<and> contains text ''/msg'' \<and> \<not> contains text ''HELP'' then
        nickserv_identify env c s
      else if contains text ''Password changed'' \<and> ic_passchange (i_conn s) \<noteq> 0 then
        map_option (Pair FE_SUCCESS)
          (ft_do (firetalk_callback_passchanged c) (put_conn (\<lambda>k. k\<lparr>ic_passchange := ic_passchange k - 1\<rparr>) s))
      else if contains text ''authentication required'' \<and> ic_passchange (i_conn s) \<noteq> 0 then
        map_option (Pair FE_SUCCESS)
          (ft_do (firetalk_callback_error c FE_NOCHANGEPASS None (Some text))
            (put_conn (\<lambda>k. k\<lparr>ic_identified := False, ic_passchange := ic_passchange k - 1\<rparr>) s))
      else if contains text (''isn'' @ [CHR 0x27] @ ''t registered'') \<and> ic_passchange (i_conn s) \<noteq> 0 then
        map_option (Pair FE_SUCCESS)
          (ft_do (firetalk_callback_error c FE_NOCHANGEPASS None (Some text))
            (put_conn (\<lambda>k. k\<lparr>ic_passchange := ic_passchange k - 1\<rparr>) s))
      else if contains text ''Password accepted'' then
        send_or_drop env c ''PRIVMSG ChanServ :OP ALL'' [] (put_conn (\<lambda>k. k\<lparr>ic_identified := True\<rparr>) s)
      else map_option (Pair FE_SUCCESS) (deliver_text env c dest name 1 text s))"

definition irc_notice :: "irc_env \<Rightarrow> client \<Rightarrow> string list \<Rightarrow> irc_op" where
  "irc_notice env c args s = do {
     let name = irc_get_nickname (args ! 0);
     (text, s) \<leftarrow> ctcp_replies (irc_is_room (args ! 2)) (irc_reply env c name (args ! 2)) (args ! 3) s;
     if strcasecmp name ''NickServ'' = 0 then irc_nickserv env c (args ! 2) name text s
     else if strchr name (CHR ''.'') \<noteq> None then
       map_option (Pair FE_SUCCESS) (ft_do (firetalk_callback_chat_getmessage c '':RAW'' (Some name) 1
         (if strncmp text ''*** Notice -- '' 14 = 0 then drop 14 text else text)) s)
     else if text \<noteq> [] then map_option (Pair FE_SUCCESS) (deliver_text env c (args ! 2) name 1 text s)
     else Some (FE_SUCCESS, s)
   }"

definition irc_topic :: "irc_env \<Rightarrow> client \<Rightarrow> string list \<Rightarrow> irc_op" where
  "irc_topic env c args s =
     map_option (Pair FE_SUCCESS) (ft_do (firetalk_callback_chat_gottopic (ie_ps env) c (args ! 2)
       (Some (args ! 3)) (Some (irc_get_nickname (args ! 0)))) s)"

definition irc_kick :: "irc_env \<Rightarrow> client \<Rightarrow> string list \<Rightarrow> irc_op" where
  "irc_kick env c args s = do {
     let name = irc_get_nickname (args ! 3);
     let by_who = irc_get_nickname (args ! 0);
     me \<leftarrow> is_me name s;
     s \<leftarrow> (if me then do {
         s \<leftarrow> irc_disc_rem env c (args ! 2) s;
         ft_do (firetalk_callback_chat_kicked (ie_ps env) c (args ! 2) (Some by_who) (arg args 4)) s
       } else do {
         s \<leftarrow> irc_disc_user_rem env c (args ! 2) name s;
         ft_do (firetalk_callback_chat_user_kicked (ie_ps env) c (args ! 2) name (Some by_who) (arg args 4)) s
       });
     Some (FE_SUCCESS, s)
   }"

section \<open>Numeric replies\<close>

definition put_whois :: "(irc_whois list \<Rightarrow> irc_whois list) \<Rightarrow> irc_state \<Rightarrow> irc_state" where
  "put_whois f = put_conn (\<lambda>k. k\<lparr>ic_whois := f (ic_whois k)\<rparr>)"

abbreviation same_irc :: "string \<Rightarrow> irc_whois \<Rightarrow> bool" where
  "same_irc name w \<equiv> irc_compare_nicks name (iw_nickname w) = FE_SUCCESS"

text \<open>\<open>irc_addwhois\<close> gets the text that its format and arguments give; the buffer has 1024 bytes.\<close>

definition irc_addwhois :: "string \<Rightarrow> string \<Rightarrow> irc_state \<Rightarrow> irc_state" where
  "irc_addwhois name text =
     put_whois (map_first (same_irc name)
       (\<lambda>w. w\<lparr>iw_info := Some ((case iw_info w of None \<Rightarrow> [] | Some i \<Rightarrow> i) @ take 1023 text)\<rparr>))"

definition rpl_endofwhois :: "client \<Rightarrow> string \<Rightarrow> irc_state \<Rightarrow> irc_state option" where
  "rpl_endofwhois c name s =
     (case List.find (same_irc name) (ic_whois (i_conn s)) of
        None \<Rightarrow> Some s
      | Some w \<Rightarrow> do {
          s \<leftarrow> ft_do (firetalk_callback_gotinfo c (iw_nickname w) (iw_info w) 0 (iw_online w) (iw_idle w) (iw_flags w)) s;
          Some (put_whois (remove_first (same_irc name)) s)
        })"

text \<open>Errors about a user: 401 falls through to the code of 441 and 443.\<close>

definition err_nosuchnick :: "irc_env \<Rightarrow> client \<Rightarrow> int \<Rightarrow> string list \<Rightarrow> irc_state \<Rightarrow> irc_state option" where
  "err_nosuchnick env c numeric args s = do {
     s \<leftarrow> (if numeric = 401 then ft_do (firetalk_callback_im_buddyonline (ie_ps env) c (args ! 3) 0) s else Some s);
     let s = (if strcasecmp (args ! 3) ''NickServ'' = 0 \<and> ic_passchange (i_conn s) \<noteq> 0
       then put_conn (\<lambda>k. k\<lparr>ic_passchange := ic_passchange k - 1\<rparr>) s else s);
     if \<exists>w \<in> set (ic_whois (i_conn s)). same_irc (args ! 3) w then
       ft_do (firetalk_callback_error c FE_BADUSER (Some (args ! 3)) (arg args 4))
         (put_whois (remove_first (same_irc (args ! 3))) s)
     else Some s
   }"

abbreviation FF_ADMIN :: int where "FF_ADMIN \<equiv> 4"

text \<open>
  The first \<open>switch\<close> over the number of a reply, for replies with at least four words. The inner
  \<open>None\<close> means that the reply is not handled there.
\<close>

definition irc_numeric4 :: "irc_env \<Rightarrow> client \<Rightarrow> int \<Rightarrow> string list \<Rightarrow> irc_state \<Rightarrow> irc_state option option" where
  "irc_numeric4 env c numeric args s =
     (if numeric = 366 then
        Some (ft_do (firetalk_callback_chat_user_joined (ie_ps env) c (args ! 3) None None) s)
      else if numeric = 301 then Some (Some s)
      else if numeric = 313 then
        Some (Some (put_whois (map_first (same_irc (args ! 3)) (\<lambda>w. w\<lparr>iw_flags := iw_flags w OR FF_ADMIN\<rparr>)) s))
      else if numeric = 318 then Some (rpl_endofwhois c (args ! 3) s)
      else if numeric \<in> {401, 441, 443} then Some (err_nosuchnick env c numeric args s)
      else if numeric \<in> {403, 442} then
        Some (ft_do (firetalk_callback_error c FE_BADROOM (Some (args ! 3)) (arg args 4)) s)
      else if numeric \<in> {404, 405, 471, 473, 474, 475} then
        Some (ft_do (firetalk_callback_error c FE_ROOMUNAVAILABLE (Some (args ! 3)) (arg args 4)) s)
      else if numeric = 412 then
        Some (ft_do (firetalk_callback_error c FE_BADMESSAGE None (arg args 4)) s)
      else if numeric = 433 then
        Some (ft_do (firetalk_callback_error c FE_BADUSER None (Some ''Nickname in use.'')) s)
      else if numeric = 482 then
        Some (ft_do (firetalk_callback_error c FE_NOPERMS (Some (args ! 3))
          (Some ''You need to be a channel operator.'')) s)
      else None)"

text \<open>
  A change of modes: signs set the direction, \<open>o\<close> and \<open>k\<close> take an argument and are reported, \<open>v\<close>, \<open>b\<close>
  and \<open>l\<close> take one. The loop ends when the letters or the arguments are used up.
\<close>

definition mode_op :: "irc_env \<Rightarrow> client \<Rightarrow> string \<Rightarrow> string \<Rightarrow> string \<Rightarrow> irc_op" where
  "mode_op env c room source who s = do {
     s \<leftarrow> ft_do (firetalk_callback_chat_user_opped (ie_ps env) c room who (Some source)) s;
     me \<leftarrow> is_me who s;
     s \<leftarrow> (if me then ft_do (firetalk_callback_chat_opped (ie_ps env) c room (Some source)) s else Some s);
     Some (FE_SUCCESS, s)
   }"

definition mode_deop :: "irc_env \<Rightarrow> client \<Rightarrow> string \<Rightarrow> string \<Rightarrow> string \<Rightarrow> irc_op" where
  "mode_deop env c room source who s = do {
     s \<leftarrow> ft_do (firetalk_callback_chat_user_deopped (ie_ps env) c room who (Some source)) s;
     me \<leftarrow> is_me who s;
     if me then do {
       s \<leftarrow> ft_do (firetalk_callback_chat_deopped (ie_ps env) c room (Some source)) s;
       if ic_identified (i_conn s) then do {
         n \<leftarrow> ic_nickname (i_conn s);
         send_or_drop env c ''PRIVMSG ChanServ :OP %s %s'' [room, n] s
       } else Some (FE_SUCCESS, s)
     } else Some (FE_SUCCESS, s)
   }"

fun mode_loop :: "irc_env \<Rightarrow> client \<Rightarrow> string \<Rightarrow> string \<Rightarrow> bool \<Rightarrow> string \<Rightarrow> string list \<Rightarrow> irc_op" where
  "mode_loop env c room source add [] as s = Some (FE_SUCCESS, s)"
| "mode_loop env c room source add (m # ms) [] s = Some (FE_SUCCESS, s)"
| "mode_loop env c room source add (m # ms) (a # as) s =
     (if m = CHR ''+'' then mode_loop env c room source True ms (a # as) s
      else if m = CHR ''-'' then mode_loop env c room source False ms (a # as) s
      else if m = CHR ''o'' then do {
        (e, s) \<leftarrow> (if add then mode_op env c room source a s else mode_deop env c room source a s);
        if e \<noteq> FE_SUCCESS then Some (e, s) else mode_loop env c room source add ms as s
      }
      else if m = CHR ''k'' then do {
        s \<leftarrow> ft_do (firetalk_callback_chat_keychanged c room (if add then Some a else None) (Some source)) s;
        mode_loop env c room source add ms as s
      }
      else if m \<in> {CHR ''v'', CHR ''b'', CHR ''l''} then mode_loop env c room source add ms as s
      else mode_loop env c room source add ms (a # as) s)"

definition irc_mode :: "irc_env \<Rightarrow> client \<Rightarrow> string list \<Rightarrow> irc_op" where
  "irc_mode env c args =
     mode_loop env c (args ! 2) (irc_get_nickname (args ! 0)) True (args ! 3) (drop 4 args)"

text \<open>
  The second \<open>switch\<close>, for replies with at least five words. A reply 317 about a user for whom we
  asked, and every reply 312, reads the sixth word, which may be \<open>NULL\<close>.
\<close>

definition c_div :: "int \<Rightarrow> int \<Rightarrow> int" where
  "c_div a b = (if 0 \<le> a then a div b else - ((- a) div b))"

definition rpl_whoisidle :: "string list \<Rightarrow> irc_state \<Rightarrow> irc_state option" where
  "rpl_whoisidle args s =
     (if \<exists>w \<in> set (ic_whois (i_conn s)). same_irc (args ! 3) w then do {
        online \<leftarrow> arg args 5;
        Some (put_whois (map (\<lambda>w. if same_irc (args ! 3) w
          then w\<lparr>iw_online := atoi online, iw_idle := c_div (atoi (args ! 4)) 60\<rparr> else w)) s)
      } else Some s)"

definition irc_numeric5 :: "irc_env \<Rightarrow> client \<Rightarrow> int \<Rightarrow> string list \<Rightarrow> irc_state \<Rightarrow> irc_state option option" where
  "irc_numeric5 env c numeric args s =
     (if numeric = 317 then Some (rpl_whoisidle args s)
      else if numeric = 312 then
        Some (map_option (\<lambda>a. irc_addwhois (args ! 3) (''<br>On server '' @ args ! 4 @ '' ('' @ a @ '')'') s) (arg args 5))
      else if numeric = 319 then Some (Some (irc_addwhois (args ! 3) (''<br>On channels '' @ args ! 4) s))
      else if numeric = 332 then
        Some (ft_do (firetalk_callback_chat_gottopic (ie_ps env) c (args ! 3) (Some (args ! 4)) None) s)
      else None)"

text \<open>
  The names in a room. What stands before the first character that may begin a nickname is taken for
  marks; \<open>@\<close> marks an operator.
\<close>

definition add_name :: "irc_env \<Rightarrow> client \<Rightarrow> string \<Rightarrow> string \<Rightarrow> irc_state \<Rightarrow> irc_state option" where
  "add_name env c room tok s = do {
     let oped = (CHR ''@'' \<in> set (takeWhile (\<lambda>x. \<not> irc_isnickfirst x) tok));
     let nick = dropWhile (\<lambda>x. \<not> irc_isnickfirst x) tok;
     s \<leftarrow> ft_do (firetalk_callback_chat_user_joined (ie_ps env) c room (Some nick) None) s;
     s \<leftarrow> ft_do (firetalk_callback_im_buddyonline (ie_ps env) c nick 1) s;
     if oped then do {
       s \<leftarrow> ft_do (firetalk_callback_chat_user_opped (ie_ps env) c room nick None) s;
       me \<leftarrow> is_me nick s;
       if me then ft_do (firetalk_callback_chat_opped (ie_ps env) c room None) s else Some s
     } else Some s
   }"

function names_loop :: "irc_env \<Rightarrow> client \<Rightarrow> string \<Rightarrow> string \<Rightarrow> irc_state \<Rightarrow> irc_state option" where
  "names_loop env c room str s =
     (if str = [] then Some s
      else (case strchr str blank of
         None \<Rightarrow> add_name env c room str s
       | Some i \<Rightarrow>
           (case add_name env c room (take i str) s of
              None \<Rightarrow> None
            | Some s \<Rightarrow> names_loop env c room (drop (Suc i) str) s)))"
  by pat_completeness auto
termination
  by (relation "measure (\<lambda>(_, _, _, str, _). length str)") auto

text \<open>\<open>RPL_WHOISUSER\<close>: a real name that contains markup is escaped.\<close>

fun has_html_tag :: "string \<Rightarrow> bool" where
  "has_html_tag [] = False"
| "has_html_tag (c # cs) \<longleftrightarrow> strncasecmp (c # cs) ''<HTML>'' 6 = 0 \<or> has_html_tag cs"

definition rpl_whoisuser :: "string list \<Rightarrow> irc_state \<Rightarrow> irc_state" where
  "rpl_whoisuser args =
     irc_addwhois (args ! 3) (args ! 4 @ ''@'' @ args ! 5 @
       (if has_html_tag (args ! 7) then '' ('' @ firetalk_htmlentities (args ! 7) @ '')''
        else '' (<HTML>'' @ args ! 7 @ ''</HTML>)''))"

definition append_cut :: "string \<Rightarrow> string \<Rightarrow> string" where
  "append_cut buf x = take 1023 (buf @ x)"

definition rpl_whoreply :: "client \<Rightarrow> string list \<Rightarrow> irc_state \<Rightarrow> irc_state option" where
  "rpl_whoreply c args =
     ft_do (firetalk_callback_chat_getmessage c '':RAW'' (Some (args ! 3)) 0
       (foldl (\<lambda>buf a. append_cut buf (take 1023 ('', '' @ a)))
         (take 1023 (args ! 7 @ '' '' @ args ! 4 @ '' '' @ args ! 5 @ '' '' @ args ! 6)) (drop 8 args)))"

section \<open>Lines that are not handled\<close>

text \<open>
  The last word and then the others from the fourth (for a numeric reply the fifth) on are added to
  what is known about a user; it needs that the array has a word after the first one looked at.
\<close>

definition unhandled_whois :: "int \<Rightarrow> string list \<Rightarrow> irc_state \<Rightarrow> irc_state option" where
  "unhandled_whois numeric args s =
     (let i = (if numeric \<noteq> 0 then 4 else 3) in
      if length args \<le> 3 \<or> length args < i + 1 then None
      else Some (irc_addwhois (args ! 3)
        (append_cut
          (foldl (\<lambda>buf a. append_cut buf ('' '' @ a)) (append_cut (take 1023 (''<br>'' @ args ! 3)) ('' '' @ last args))
            (butlast (drop i args)))
          ('' ('' @ args ! 1 @ '')'')) s))"

definition unhandled_raw :: "client \<Rightarrow> string list \<Rightarrow> irc_state \<Rightarrow> irc_state option" where
  "unhandled_raw c args =
     ft_do (firetalk_callback_chat_getmessage c '':RAW'' (Some (irc_get_nickname (args ! 0))) 0
       (append_cut (foldl (\<lambda>buf a. append_cut buf (take 1023 (''<B>'' @ a @ ''</B>, ''))) [] (butlast (drop 1 args)))
         (last args)))"

definition irc_unhandled :: "client \<Rightarrow> int \<Rightarrow> string list \<Rightarrow> irc_op" where
  "irc_unhandled c numeric args s =
     map_option (Pair FE_SUCCESS)
       (if i_inwhois s then unhandled_whois numeric args s else unhandled_raw c args s)"

section \<open>Every line\<close>

definition update_inwhois :: "int \<Rightarrow> irc_state \<Rightarrow> irc_state" where
  "update_inwhois numeric s =
     (if numeric = 311 then s\<lparr>i_inwhois := True\<rparr> else if numeric = 318 then s\<lparr>i_inwhois := False\<rparr> else s)"

definition irc_parse7 :: "irc_env \<Rightarrow> client \<Rightarrow> int \<Rightarrow> string list \<Rightarrow> irc_op" where
  "irc_parse7 env c numeric args s =
     (if length args \<le> 7 then irc_unhandled c numeric args s
      else if numeric = 311 then Some (FE_SUCCESS, rpl_whoisuser args s)
      else if numeric = 352 then map_option (Pair FE_SUCCESS) (rpl_whoreply c args s)
      else irc_unhandled c numeric args s)"

definition irc_parse4 :: "irc_env \<Rightarrow> client \<Rightarrow> int \<Rightarrow> string list \<Rightarrow> irc_op" where
  "irc_parse4 env c numeric args s =
     (if length args \<le> 4 then irc_unhandled c numeric args s
      else if args ! 1 = ''MODE'' then irc_mode env c args s
      else (case irc_numeric5 env c numeric args s of
         Some r \<Rightarrow> map_option (Pair FE_SUCCESS) r
       | None \<Rightarrow>
           if length args \<le> 5 then irc_unhandled c numeric args s
           else if numeric = 353 then
             map_option (Pair FE_SUCCESS) (names_loop env c (args ! 4) (args ! 5) s)
           else irc_parse7 env c numeric args s))"

definition irc_parse3 :: "irc_env \<Rightarrow> client \<Rightarrow> int \<Rightarrow> string list \<Rightarrow> irc_op" where
  "irc_parse3 env c numeric args s =
     (if length args \<le> 3 then irc_unhandled c numeric args s
      else if args ! 1 = ''PRIVMSG'' then irc_privmsg env c args s
      else if args ! 1 = ''NOTICE'' then irc_notice env c args s
      else if args ! 1 = ''TOPIC'' then irc_topic env c args s
      else if args ! 1 = ''KICK'' then irc_kick env c args s
      else
        let s = update_inwhois numeric s in
        if \<not> i_inwhois s \<and> numeric \<in> {333, 306, 305, 396} then Some (FE_SUCCESS, s)
        else if numeric = 421 then
          irc_unhandled c numeric args
            (if args ! 3 = ''SILENCE'' then put_conn (\<lambda>k. k\<lparr>ic_usesilence := False\<rparr>) s else s)
        else (case irc_numeric4 env c numeric args s of
           Some r \<Rightarrow> map_option (Pair FE_SUCCESS) r
         | None \<Rightarrow> irc_parse4 env c numeric args s))"

definition irc_got_data_parse :: "irc_env \<Rightarrow> client \<Rightarrow> string list \<Rightarrow> irc_op" where
  "irc_got_data_parse env c args s =
     (if args ! 1 = ''PING'' then irc_ping env c args s
      else if args ! 1 = ''QUIT'' then irc_quit env c args s
      else
        let numeric = atoi (args ! 1) in
        if length args \<le> 2 then irc_unhandled c numeric args s
        else if args ! 1 = ''JOIN'' then irc_join env c args s
        else if args ! 1 = ''PART'' then irc_part env c args s
        else if args ! 1 = ''NICK'' then irc_nick env c args s
        else irc_parse3 env c numeric args s)"

section \<open>The loops over the buffer\<close>

lemma irc_recv_parse_less:
  "irc_recv_parse buffer = Some (Some args, rest) \<Longrightarrow> length rest < length buffer"
  by (cases buffer) (auto simp: irc_recv_parse_def until_def Let_def split: option.splits if_splits)

text \<open>
  The answer is the code, the bytes that stay in the buffer, and the state. A line of a single word
  after its prefix (\<open>args[1]\<close> is \<open>NULL\<close>) ends the loop although more lines may follow.
\<close>

function irc_got_data :: "irc_env \<Rightarrow> client \<Rightarrow> string \<Rightarrow> irc_state \<Rightarrow> (fte \<times> string \<times> irc_state) option" where
  "irc_got_data env c buffer s =
     (case irc_recv_parse buffer of
        None \<Rightarrow> None
      | Some (None, rest) \<Rightarrow> Some (FE_SUCCESS, rest, s)
      | Some (Some args, rest) \<Rightarrow>
          if length args < 2 then Some (FE_SUCCESS, rest, s)
          else (case irc_got_data_parse env c args s of
             None \<Rightarrow> None
           | Some (e, s) \<Rightarrow>
               if e \<noteq> FE_SUCCESS then Some (e, rest, s) else irc_got_data env c rest s))"
  by pat_completeness auto
termination
  by (relation "measure (\<lambda>(_, _, buffer, _). length buffer)") (auto dest: irc_recv_parse_less)

definition refuse :: "irc_env \<Rightarrow> client \<Rightarrow> string \<Rightarrow> fte \<Rightarrow> string \<Rightarrow> irc_op" where
  "refuse env c line e description s = do {
     (_, s) \<leftarrow> irc_send_printf env c line [] s;
     s \<leftarrow> ft_do (firetalk_callback_connectfailed c e description) s;
     Some (e, s)
   }"

definition rpl_welcome :: "irc_env \<Rightarrow> client \<Rightarrow> string list \<Rightarrow> irc_state \<Rightarrow> irc_state option" where
  "rpl_welcome env c args s = do {
     me \<leftarrow> ic_nickname (i_conn s);
     new \<leftarrow> arg args 2;
     if me \<noteq> new then do {
       s \<leftarrow> ft_do (firetalk_callback_user_nickchanged (ie_ps env) c me new) s;
       ft_do (firetalk_callback_newnick c new) (put_conn (\<lambda>k. k\<lparr>ic_nickname := Some new\<rparr>) s)
     } else Some s
   }"

text \<open>A line while the sign-on is not complete. \<open>doinit\<close> passes the nickname on, whatever it is.\<close>

definition irc_connecting_parse :: "irc_env \<Rightarrow> client \<Rightarrow> string list \<Rightarrow> irc_op" where
  "irc_connecting_parse env c args s =
     (if args ! 1 = ''ERROR'' then
        refuse env c ''QUIT :error'' FE_PACKET
          (case arg args 2 of None \<Rightarrow> ''Server returned ERROR'' | Some a \<Rightarrow> a) s
      else
        let numeric = atoi (args ! 1) in
        if numeric = 1 then map_option (Pair FE_SUCCESS) (rpl_welcome env c args s)
        else if numeric \<in> {376, 422} then do {
          s \<leftarrow> ft_do (pass_on c FC_DOINIT [AStr (ic_nickname (i_conn s))]) s;
          s \<leftarrow> ft_do (firetalk_callback_connected c (ie_localip env)) s;
          Some (FE_SUCCESS, s)
        }
        else if numeric \<in> {431, 432, 436, 461} then
          refuse env c ''QUIT :Invalid nickname'' FE_BADUSER ''Invalid nickname'' s
        else if numeric = 433 then
          refuse env c ''QUIT :Invalid nickname'' FE_BADUSER ''Nickname in use'' s
        else if numeric = 465 then refuse env c ''QUIT :banned'' FE_BLOCKED ''You are banned'' s
        else irc_got_data_parse env c args s)"

function irc_got_data_connecting ::
  "irc_env \<Rightarrow> client \<Rightarrow> string \<Rightarrow> irc_state \<Rightarrow> (fte \<times> string \<times> irc_state) option" where
  "irc_got_data_connecting env c buffer s =
     (case irc_recv_parse buffer of
        None \<Rightarrow> None
      | Some (None, rest) \<Rightarrow> Some (FE_SUCCESS, rest, s)
      | Some (Some args, rest) \<Rightarrow>
          if length args < 2 then Some (FE_SUCCESS, rest, s)
          else (case irc_connecting_parse env c args s of
             None \<Rightarrow> None
           | Some (e, s) \<Rightarrow>
               if e \<noteq> FE_SUCCESS then Some (e, rest, s) else irc_got_data_connecting env c rest s))"
  by pat_completeness auto
termination
  by (relation "measure (\<lambda>(_, _, buffer, _). length buffer)") (auto dest: irc_recv_parse_less)

declare irc_got_data.simps [simp del] irc_got_data_connecting.simps [simp del]
  names_loop.simps [simp del] ctcp_requests.simps [simp del] ctcp_replies.simps [simp del]

end
