(* ===== verification/FtIrcKeeps.thy ===== *)
theory FtIrcKeeps
  imports FtIrcMsg
begin

text \<open>
  What every line of an IRC server leaves intact. The locale \<open>irc_keeps\<close> is the contract of an
  invariant of the driver's state: it survives changes of the connection record, sent lines, and the
  calls of the session layer the driver makes (\<open>irc_call\<close>). Then the driver keeps it, whatever the
  server sends.
\<close>

section \<open>The calls of the driver\<close>

inductive irc_call :: "irc_env \<Rightarrow> client \<Rightarrow> (ft_state \<Rightarrow> ft_state option) \<Rightarrow> bool" for env c where
  online: "irc_call env c (firetalk_callback_im_buddyonline (ie_ps env) c n i)"
| down: "irc_call env c (firetalk_callback_disconnect c e)"
| quit: "irc_call env c (firetalk_callback_chat_user_quit (ie_ps env) c n r)"
| joined: "irc_call env c (firetalk_callback_chat_joined (ie_ps env) c room)"
| user_joined: "irc_call env c (firetalk_callback_chat_user_joined (ie_ps env) c room who extra)"
| left: "irc_call env c (firetalk_callback_chat_left (ie_ps env) c room)"
| user_left: "irc_call env c (firetalk_callback_chat_user_left (ie_ps env) c room n r)"
| kicked: "irc_call env c (firetalk_callback_chat_kicked (ie_ps env) c room b r)"
| user_kicked: "irc_call env c (firetalk_callback_chat_user_kicked (ie_ps env) c room n b r)"
| nickchanged: "irc_call env c (firetalk_callback_user_nickchanged (ie_ps env) c n n')"
| gottopic: "irc_call env c (firetalk_callback_chat_gottopic (ie_ps env) c room t a)"
| user_opped: "irc_call env c (firetalk_callback_chat_user_opped (ie_ps env) c room n b)"
| user_deopped: "irc_call env c (firetalk_callback_chat_user_deopped (ie_ps env) c room n b)"
| opped: "irc_call env c (firetalk_callback_chat_opped (ie_ps env) c room b)"
| deopped: "irc_call env c (firetalk_callback_chat_deopped (ie_ps env) c room b)"
| request: "irc_call env c (firetalk_callback_subcode_request (ie_ps env) (ie_sub env) (ie_junk env)
    (ie_on_message env) (ie_handler env) c n cmd a)"
| reply: "irc_call env c (firetalk_callback_subcode_reply (ie_handler env) c n cmd a)"
| message: "irc_call env c (firetalk_callback_im_getmessage (ie_ps env) c n i m (ie_on_message env))"
| passed: "irc_call env c (pass_on c fc args)"

lemma irc_call_passed [intro]:
  "irc_call env c (firetalk_callback_newnick c n)" "irc_call env c (firetalk_callback_chat_getaction c r w i m)"
  "irc_call env c (firetalk_callback_chat_getmessage c r w i m)" "irc_call env c (firetalk_callback_needpass c k)"
  "irc_call env c (firetalk_callback_passchanged c)" "irc_call env c (firetalk_callback_error c e u d)"
  "irc_call env c (firetalk_callback_gotinfo c x1 x2 x3 x4 x5 x6)"
  "irc_call env c (firetalk_callback_chat_keychanged c r k' b)"
  by (simp_all add: irc_call.passed firetalk_callback_newnick_def firetalk_callback_chat_getaction_def
      firetalk_callback_chat_getmessage_def firetalk_callback_needpass_def firetalk_callback_passchanged_def
      firetalk_callback_error_def firetalk_callback_gotinfo_def firetalk_callback_chat_keychanged_def)

declare irc_call.intros [intro]

text \<open>The formats of the driver have no \<open>%%\<close>, for which the loop of \<open>irc_send_printf\<close> checks no bound.\<close>

fun format_ok :: "string \<Rightarrow> bool" where
  "format_ok [] = True"
| "format_ok (c # f) = (\<not> (c = CHR ''%'' \<and> f \<noteq> [] \<and> hd f = CHR ''%'') \<and> format_ok f)"

lemma irc_formats [intro]:
  "format_ok ''PONG :%s''" "format_ok ''PONG''" "format_ok ''PRIVMSG ChanServ :OP %s %s''"
  "format_ok ''PRIVMSG NickServ :IDENTIFY %s''" "format_ok ''PRIVMSG ChanServ :OP ALL''"
  by simp_all

locale irc_keeps =
  fixes env :: irc_env and c :: client and I :: "irc_state \<Rightarrow> bool"
  assumes conn: "I s \<Longrightarrow> I (s\<lparr>i_conn := k\<rparr>)"
    and inwhois: "I s \<Longrightarrow> I (s\<lparr>i_inwhois := b\<rparr>)"
    and send: "I s \<Longrightarrow> format_ok fm \<Longrightarrow> irc_send_printf env c fm as s = Some (e, s') \<Longrightarrow> I s'"
    and call: "irc_call env c f \<Longrightarrow> I s \<Longrightarrow> f (i_ft s) = Some st \<Longrightarrow> I (s\<lparr>i_ft := st\<rparr>)"
begin

lemma keep_ft_do: "ft_do f s = Some s' \<Longrightarrow> irc_call env c f \<Longrightarrow> I s \<Longrightarrow> I s'"
  by (auto simp: ft_do_def intro: call)

lemma keep_send_line: "irc_send_printf env c fm as s = Some (e, s') \<Longrightarrow> format_ok fm \<Longrightarrow> I s \<Longrightarrow> I s'"
  by (rule send)

lemma keep_put_conn [simp, intro]: "I s \<Longrightarrow> I (put_conn f s)" "I s \<Longrightarrow> I (put_whois g s)"
  by (simp_all add: put_conn_def put_whois_def conn)

lemma keep_disc: "irc_internal_disconnect c e s = Some (r, s') \<Longrightarrow> I s \<Longrightarrow> I s'"
  by (auto simp: irc_internal_disconnect_def Let_def elim!: bindE)
    (fast intro: keep_ft_do)+

lemma keep_send_or_drop: "send_or_drop env c fm as s = Some (e, s') \<Longrightarrow> format_ok fm \<Longrightarrow> I s \<Longrightarrow> I s'"
  by (auto simp: send_or_drop_def elim!: bindE split: branch_splits)
    (fast intro: keep_send_line keep_disc)+

lemma keep_user_rem: "irc_disc_user_rem env c d n s = Some s' \<Longrightarrow> I s \<Longrightarrow> I s'"
  by (auto simp: irc_disc_user_rem_def elim!: bindE split: branch_splits)
    (fast intro: keep_ft_do)+

lemma keep_rem_members: "rem_members env c d ms s = Some s' \<Longrightarrow> I s \<Longrightarrow> I s'"
  by (induction ms arbitrary: s) (auto elim!: bindE intro: keep_user_rem)

lemma keep_disc_rem: "irc_disc_rem env c d s = Some s' \<Longrightarrow> I s \<Longrightarrow> I s'"
  by (auto simp: irc_disc_rem_def elim!: bindE split: branch_splits dest!: find_room_Some dest: keep_rem_members)

lemmas keep_calls = keep_ft_do keep_disc keep_send_or_drop keep_user_rem keep_disc_rem

lemma keep_ping: "irc_ping env c args s = Some (e, s') \<Longrightarrow> I s \<Longrightarrow> I s'"
  by (auto simp: irc_ping_def split: branch_splits intro: keep_send_or_drop)

lemma keep_quit: "irc_quit env c args s = Some (e, s') \<Longrightarrow> I s \<Longrightarrow> I s'"
  by (auto simp: irc_quit_def Let_def elim!: bindE split: branch_splits)
    (fast intro: keep_calls)+

lemma keep_join: "irc_join env c args s = Some (e, s') \<Longrightarrow> I s \<Longrightarrow> I s'"
  by (auto simp: irc_join_def Let_def elim!: bindE split: branch_splits)
    (fast intro: keep_calls)+

lemma keep_part: "irc_part env c args s = Some (e, s') \<Longrightarrow> I s \<Longrightarrow> I s'"
  by (auto simp: irc_part_def Let_def elim!: bindE split: branch_splits)
    (fast intro: keep_calls)+

lemma keep_nick: "irc_nick env c args s = Some (e, s') \<Longrightarrow> I s \<Longrightarrow> I s'"
  by (auto simp: irc_nick_def Let_def elim!: bindE split: branch_splits)
    (fast intro: keep_calls)+

lemma keep_kick: "irc_kick env c args s = Some (e, s') \<Longrightarrow> I s \<Longrightarrow> I s'"
  by (auto simp: irc_kick_def Let_def elim!: bindE split: branch_splits)
    (fast intro: keep_calls)+

lemma keep_topic: "irc_topic env c args s = Some (e, s') \<Longrightarrow> I s \<Longrightarrow> I s'"
  by (auto simp: irc_topic_def intro: keep_calls)

lemma keep_requests:
  assumes run: "\<And>b s s'. run b s = Some s' \<Longrightarrow> I s \<Longrightarrow> I s'"
  shows "ctcp_requests run msg s = Some (t, s') \<Longrightarrow> I s \<Longrightarrow> I s'"
proof (induction msg arbitrary: s rule: length_induct)
  case (1 msg)
  show ?case
  proof (cases "strchr msg CTCP")
    case None
    then show ?thesis using 1 by (simp add: ctcp_requests.simps [of run msg])
  next
    case (Some i)
    define tail where "tail = drop (Suc i) msg"
    show ?thesis
    proof (cases "strchr tail CTCP")
      case None
      then show ?thesis using 1 Some by (simp add: ctcp_requests.simps [of run msg] tail_def)
    next
      case Some': (Some j)
      with 1(2) Some obtain s1 where s1: "run (take j tail) s = Some s1"
        "ctcp_requests run (take i msg @ drop (Suc j) tail) s1 = Some (t, s')"
        by (auto simp: ctcp_requests.simps [of run msg] tail_def Let_def split: option.split_asm)
      have "length (take i msg @ drop (Suc j) tail) < length msg"
        using strchr_Some_take [OF Some] by (auto simp: tail_def)
      with 1(1) s1(2) run [OF s1(1) 1(3)] show ?thesis by blast
    qed
  qed
qed

lemma keep_replies:
  assumes run: "\<And>b s s'. run b s = Some s' \<Longrightarrow> I s \<Longrightarrow> I s'"
  shows "ctcp_replies room run msg s = Some (t, s') \<Longrightarrow> I s \<Longrightarrow> I s'"
proof (induction msg arbitrary: s rule: length_induct)
  case (1 msg)
  show ?case
  proof (cases "strchr msg CTCP")
    case None
    then show ?thesis using 1 by (simp add: ctcp_replies.simps [of room run msg])
  next
    case (Some i)
    define tail where "tail = drop (Suc i) msg"
    show ?thesis
    proof (cases "strchr tail CTCP")
      case None
      then have "run tail s = Some s'" using 1(2) Some
        by (auto simp: ctcp_replies.simps [of room run msg] tail_def Let_def)
      then show ?thesis using run 1(3) by blast
    next
      case Some': (Some j)
      with 1(2) Some obtain s1 where s1: "run (take j tail) s = Some s1"
        "ctcp_replies room run (take i msg @ drop (Suc j) tail) s1 = Some (t, s')"
        by (auto simp: ctcp_replies.simps [of room run msg] tail_def Let_def split: option.split_asm)
      have "length (take i msg @ drop (Suc j) tail) < length msg"
        using strchr_Some_take [OF Some] by (auto simp: tail_def)
      with 1(1) s1(2) run [OF s1(1) 1(3)] show ?thesis by blast
    qed
  qed
qed

lemma keep_deliver_text: "deliver_text env c d n i t s = Some s' \<Longrightarrow> I s \<Longrightarrow> I s'"
  by (auto simp: deliver_text_def split: if_split_asm intro: keep_calls)

lemma keep_request: "irc_request env c n d b s = Some s' \<Longrightarrow> I s \<Longrightarrow> I s'"
  by (auto simp: irc_request_def split: branch_splits intro: keep_calls)

lemma keep_reply: "irc_reply env c n d b s = Some s' \<Longrightarrow> I s \<Longrightarrow> I s'"
  by (auto simp: irc_reply_def split: branch_splits intro: keep_calls)

lemma keep_privmsg: "irc_privmsg env c args s = Some (e, s') \<Longrightarrow> I s \<Longrightarrow> I s'"
  by (auto simp: irc_privmsg_def Let_def elim!: bindE split: branch_splits)
    (fast intro: keep_deliver_text keep_requests [OF keep_request])+

lemma keep_identify: "nickserv_identify env c s = Some (e, s') \<Longrightarrow> I s \<Longrightarrow> I s'"
  by (auto simp: nickserv_identify_def Let_def elim!: bindE split: branch_splits)
    (fast intro: keep_calls keep_put_conn)+

lemma keep_nickserv: "irc_nickserv env c d n t s = Some (e, s') \<Longrightarrow> I s \<Longrightarrow> I s'"
  by (auto simp: irc_nickserv_def split: if_split_asm intro: keep_identify keep_deliver_text keep_calls)

lemma keep_notice: "irc_notice env c args s = Some (e, s') \<Longrightarrow> I s \<Longrightarrow> I s'"
  by (auto simp: irc_notice_def Let_def elim!: bindE split: branch_splits)
    (fast intro: keep_calls keep_nickserv keep_deliver_text keep_replies [OF keep_reply])+

lemma keep_addwhois [simp, intro]: "I s \<Longrightarrow> I (irc_addwhois n t s)"
  by (simp add: irc_addwhois_def keep_put_conn)

lemma keep_endofwhois: "rpl_endofwhois c n s = Some s' \<Longrightarrow> I s \<Longrightarrow> I s'"
  by (auto simp: rpl_endofwhois_def elim!: bindE split: branch_splits)
    (fast intro: keep_ft_do keep_put_conn)+

lemma keep_nosuchnick:
  assumes "err_nosuchnick env c k args s = Some s'" "I s"
  shows "I s'"
proof -
  from assms(1) obtain s1 where s1:
    "(if k = 401 then ft_do (firetalk_callback_im_buddyonline (ie_ps env) c (args ! 3) 0) s else Some s) = Some s1"
    and s': "(let s = (if strcasecmp (args ! 3) ''NickServ'' = 0 \<and> ic_passchange (i_conn s1) \<noteq> 0
       then put_conn (\<lambda>k. k\<lparr>ic_passchange := ic_passchange k - 1\<rparr>) s1 else s1) in
     if \<exists>w \<in> set (ic_whois (i_conn s)). same_irc (args ! 3) w then
       ft_do (firetalk_callback_error c FE_BADUSER (Some (args ! 3)) (arg args 4))
         (put_whois (remove_first (same_irc (args ! 3))) s)
     else Some s) = Some s'"
    unfolding err_nosuchnick_def by (erule bindE)
  have "I s1" using s1 assms(2) by (auto split: if_split_asm intro: keep_ft_do)
  with s' show ?thesis
    by (auto simp: Let_def split: if_split_asm intro: keep_put_conn keep_ft_do [OF _ irc_call_passed(6)])
qed

lemma keep_numeric4: "irc_numeric4 env c k args s = Some r \<Longrightarrow> r = Some s' \<Longrightarrow> I s \<Longrightarrow> I s'"
  by (simp add: irc_numeric4_def split: if_split_asm)
    (fast intro: keep_ft_do keep_endofwhois keep_nosuchnick keep_put_conn)+

lemma keep_mode_op: "mode_op env c r b a s = Some (e, s') \<Longrightarrow> I s \<Longrightarrow> I s'"
  by (auto simp: mode_op_def elim!: bindE split: branch_splits)
    (fast intro: keep_ft_do)+

lemma keep_mode_deop: "mode_deop env c r b a s = Some (e, s') \<Longrightarrow> I s \<Longrightarrow> I s'"
  by (auto simp: mode_deop_def elim!: bindE split: branch_splits)
    (fast intro: keep_ft_do keep_send_or_drop)+

lemma keep_mode_loop: "mode_loop env c r b add ms as s = Some (e, s') \<Longrightarrow> I s \<Longrightarrow> I s'"
proof (induction ms arbitrary: add as s)
  case (Cons m ms)
  show ?case
  proof (cases as)
    case (Cons a as')
    consider (o) "m = CHR ''o''" | (k) "m = CHR ''k''" | (other) "m \<noteq> CHR ''o''" "m \<noteq> CHR ''k''" by blast
    then show ?thesis
    proof cases
      case o
      then obtain e1 s1 where 1: "(if add then mode_op env c r b a s else mode_deop env c r b a s) = Some (e1, s1)"
        and 2: "(if e1 \<noteq> FE_SUCCESS then Some (e1, s1) else mode_loop env c r b add ms as' s1) = Some (e, s')"
        using Cons.prems(1) Cons by (auto elim!: bindE)
      have "I s1" using 1 Cons.prems(2) by (auto split: if_split_asm intro: keep_mode_op keep_mode_deop)
      with 2 Cons.IH show ?thesis by (auto split: if_split_asm)
    next
      case k
      then obtain s1 where 1: "ft_do (firetalk_callback_chat_keychanged c r (if add then Some a else None) (Some b)) s = Some s1"
        and 2: "mode_loop env c r b add ms as' s1 = Some (e, s')"
        using Cons.prems(1) Cons by (auto elim!: bindE)
      have "I s1" by (rule keep_ft_do [OF 1 irc_call_passed(8) Cons.prems(2)])
      with 2 Cons.IH show ?thesis by blast
    next
      case other
      then show ?thesis using Cons.prems Cons Cons.IH by (auto split: if_split_asm)
    qed
  qed (use Cons in simp)
qed simp

lemma keep_mode: "irc_mode env c args s = Some (e, s') \<Longrightarrow> I s \<Longrightarrow> I s'"
  by (simp add: irc_mode_def keep_mode_loop)

lemma keep_numeric5: "irc_numeric5 env c k args s = Some r \<Longrightarrow> r = Some s' \<Longrightarrow> I s \<Longrightarrow> I s'"
  by (auto simp: irc_numeric5_def rpl_whoisidle_def elim!: bindE split: if_split_asm intro: keep_put_conn)
    (fast intro: keep_ft_do)+

lemma keep_add_name: "add_name env c r t s = Some s' \<Longrightarrow> I s \<Longrightarrow> I s'"
  by (auto simp: add_name_def Let_def elim!: bindE split: branch_splits)
    (fast intro: keep_ft_do)+

lemma keep_names: "names_loop env c r str s = Some s' \<Longrightarrow> I s \<Longrightarrow> I s'"
proof (induction str arbitrary: s rule: length_induct)
  case (1 str)
  show ?case
  proof (cases "str = [] \<or> strchr str blank = None")
    case True
    then show ?thesis using 1(2,3)
      by (auto simp: names_loop.simps [of env c r str] split: if_split_asm intro: keep_add_name)
  next
    case False
    then obtain i where i: "str \<noteq> []" "strchr str blank = Some i" by blast
    with 1(2) obtain s1 where s1: "add_name env c r (take i str) s = Some s1"
      "names_loop env c r (drop (Suc i) str) s1 = Some s'"
      by (auto simp: names_loop.simps [of env c r str] split: option.split_asm)
    moreover have "length (drop (Suc i) str) < length str" using i(1) by simp
    ultimately show ?thesis using 1(1,3) keep_add_name [OF s1(1)] by blast
  qed
qed

lemma keep_unhandled: "irc_unhandled c k args s = Some (e, s') \<Longrightarrow> I s \<Longrightarrow> I s'"
  by (auto simp: irc_unhandled_def unhandled_whois_def unhandled_raw_def Let_def split: if_split_asm)
    (fast intro: keep_ft_do)+

lemma keep_parse7: "irc_parse7 env c k args s = Some (e, s') \<Longrightarrow> I s \<Longrightarrow> I s'"
  by (auto simp: irc_parse7_def rpl_whoisuser_def rpl_whoreply_def split: if_split_asm)
    (fast intro: keep_ft_do keep_unhandled)+

lemma keep_parse4: "irc_parse4 env c k args s = Some (e, s') \<Longrightarrow> I s \<Longrightarrow> I s'"
  by (auto simp: irc_parse4_def split: if_split_asm option.split_asm)
    (fast intro: keep_unhandled keep_mode keep_numeric5 keep_names keep_parse7)+

lemma keep_inwhois [simp, intro]: "I s \<Longrightarrow> I (update_inwhois k s)"
  by (simp add: update_inwhois_def inwhois)

lemma keep_parse3: "irc_parse3 env c k args s = Some (e, s') \<Longrightarrow> I s \<Longrightarrow> I s'"
  by (auto simp: irc_parse3_def Let_def split: if_split_asm option.split_asm)
    (fast intro: keep_unhandled keep_privmsg keep_notice keep_topic keep_kick keep_numeric4 keep_parse4
      keep_inwhois keep_put_conn)+

lemma keep_parse: "irc_got_data_parse env c args s = Some (e, s') \<Longrightarrow> I s \<Longrightarrow> I s'"
  by (auto simp: irc_got_data_parse_def Let_def split: if_split_asm)
    (fast intro: keep_unhandled keep_ping keep_quit keep_join keep_part keep_nick keep_parse3)+

lemma keep_got_data:
  "irc_got_data env c buffer s = Some (e, rest, s') \<Longrightarrow> I s \<Longrightarrow> I s'"
proof (induction buffer arbitrary: s rule: length_induct)
  case (1 buffer)
  show ?case
  proof (cases "irc_recv_parse buffer")
    case None
    then show ?thesis using 1(2) by (simp add: irc_got_data.simps [of env c buffer])
  next
    case (Some p)
    obtain r left where p: "p = (r, left)" by (cases p)
    show ?thesis
    proof (cases "r = None \<or> length (the r) < 2")
      case True
      then show ?thesis using 1(2,3) Some p
        by (auto simp: irc_got_data.simps [of env c buffer] split: option.split_asm)
    next
      case False
      then obtain args where r: "r = Some args" "\<not> length args < 2" by auto
      with 1(2) Some p obtain e1 s1 where s1: "irc_got_data_parse env c args s = Some (e1, s1)"
        "(if e1 \<noteq> FE_SUCCESS then Some (e1, left, s1) else irc_got_data env c left s1) = Some (e, rest, s')"
        by (auto simp: irc_got_data.simps [of env c buffer] split: option.split_asm prod.split_asm)
      moreover have "length left < length buffer" using irc_recv_parse_less Some p r by blast
      ultimately show ?thesis using 1(1,3) keep_parse [OF s1(1)] by (auto split: if_split_asm)
    qed
  qed
qed

end

end
