(* ===== verification/FtIrcSession.thy ===== *)
theory FtIrcSession
  imports FtIrcKeeps
begin

text \<open>
  Two invariants that the IRC driver keeps for every input: the lines it sends fit into the limit of
  the protocol, and the lists of the session layer stay in order.
\<close>

section \<open>The lines it sends\<close>

definition irc_line_ok :: "string \<Rightarrow> bool" where
  "irc_line_ok l \<longleftrightarrow> length l \<le> 512 \<and> (\<exists>b. l = b @ [CR, LF])"

definition lines_since :: "string list \<Rightarrow> irc_state \<Rightarrow> bool" where
  "lines_since before s \<longleftrightarrow> (\<exists>more. i_sent s = before @ more \<and> list_all irc_line_ok more)"

lemma format_ok_tl: "format_ok (c # f) \<Longrightarrow> format_ok f" "format_ok (c # d # f) \<Longrightarrow> format_ok f"
  by simp_all

lemma irc_format_bound:
  "irc_format fm as data = Some (Some l) \<Longrightarrow> format_ok fm \<Longrightarrow> length data \<le> 510 \<Longrightarrow> length l \<le> 510"
proof (induction fm as data rule: irc_format.induct)
  case (2 c f as data)
  show ?case
  proof (cases "c = CHR ''%''")
    case True
    then obtain d f' where f: "f = d # f'" "d \<noteq> CHR ''%''" "format_ok f'"
      using 2(5,6) by (cases f) auto
    show ?thesis
    proof (cases "d = CHR ''s''")
      case True
      then obtain a as' where "as = a # as'" using 2(5) \<open>c = CHR ''%''\<close> f by (cases as) auto
      with 2(1) [OF \<open>c = CHR ''%''\<close> f(1) True this] 2(5) \<open>c = CHR ''%''\<close> f True show ?thesis
        by (auto split: if_split_asm)
    next
      case False
      with 2(3) [OF \<open>c = CHR ''%''\<close> f(1) False f(2)] 2(5,7) \<open>c = CHR ''%''\<close> f show ?thesis by auto
    qed
  next
    case False
    with 2(4) [OF False refl] 2(5,6) show ?thesis by (auto simp: Let_def split: if_split_asm)
  qed
qed simp

lemma lines_send:
  assumes "lines_since before s" "format_ok fm" "irc_send_printf env c fm as s = Some (e, s')"
  shows "lines_since before s'"
proof -
  from assms(3) obtain r where r: "irc_format fm as [] = Some r"
    and run: "(case r of None \<Rightarrow> Some (FE_PACKETSIZE, s)
      | Some data \<Rightarrow> do {
          let data = data @ [CR, LF];
          conn \<leftarrow> firetalk_find_handle c (i_ft s);
          st \<leftarrow> firetalk_internal_send_data conn data (ie_send env (i_sent s) data) (i_ft s);
          Some (FE_SUCCESS, s\<lparr>i_ft := st, i_sent := i_sent s @ [data]\<rparr>)
        }) = Some (e, s')"
    unfolding irc_send_printf_def by (erule bindE)
  show ?thesis
  proof (cases r)
    case None
    then show ?thesis using run assms(1) by simp
  next
    case (Some l)
    from irc_format_bound [OF r [unfolded Some] assms(2)] have "irc_line_ok (l @ [CR, LF])"
      by (auto simp: irc_line_ok_def)
    moreover have "i_sent s' = i_sent s @ [l @ [CR, LF]]" using run Some by (auto simp: Let_def elim!: bindE)
    ultimately show ?thesis using assms(1) by (auto simp: lines_since_def)
  qed
qed

interpretation lines: irc_keeps env c "lines_since before" for env c before
  by unfold_locales (simp add: lines_since_def, simp add: lines_since_def, rule lines_send, assumption+,
    simp add: lines_since_def)

text \<open>
  C8. Whatever bytes a server sends, the driver answers with whole lines of at most 512 bytes and
  their end; what it had sent before stays.
\<close>

theorem irc_sends_whole_lines:
  assumes "irc_got_data env c buffer s = Some (e, rest, s')"
  shows "\<exists>more. i_sent s' = i_sent s @ more \<and> list_all irc_line_ok more"
proof -
  have "lines_since (i_sent s) s" by (simp add: lines_since_def)
  from lines.keep_got_data [OF assms this] show ?thesis by (simp add: lines_since_def)
qed

text \<open>A quiet server and client, for examples.\<close>

definition quiet_env :: irc_env where
  "quiet_env = \<lparr>ie_ps = [quiet_protocol],
     ie_sub = \<lparr>v_version = ''CenterIM'', v_ctime = [], v_ntoa = (\<lambda>_. []), v_aton = (\<lambda>_. None)\<rparr>, ie_junk = 0,
     ie_on_message = Some, ie_handler = (\<lambda>_. Some), ie_send = (\<lambda>_ l. int (length l)), ie_password = (\<lambda>_. []),
     ie_localip = 0\<rparr>"

definition irc_session :: "ft_handle \<Rightarrow> irc_state" where
  "irc_session h = \<lparr>i_conn = irc_create_handle\<lparr>ic_nickname := Some ''me''\<rparr>, i_inwhois = False,
     i_ft = single_state h, i_sent = []\<rparr>"

theorem irc_sends_whole_lines_witness:
  "\<exists>e rest s'. irc_got_data quiet_env (Some 1) (''PING :x'' @ [CR, LF] @ '':ann JOI'') (irc_session chat_handle) =
     Some (e, rest, s') \<and> list_all irc_line_ok (i_sent s')"
proof -
  let ?run = "irc_got_data quiet_env (Some 1) (''PING :x'' @ [CR, LF] @ '':ann JOI'') (irc_session chat_handle)"
  have "?run \<noteq> None" by code_simp
  then obtain e rest s' where run: "?run = Some (e, rest, s')" by (cases ?run) auto
  from irc_sends_whole_lines [OF run] run show ?thesis by (simp add: irc_session_def)
qed

section \<open>The lists of the session layer\<close>

definition session_ok :: "ft_protocol list \<Rightarrow> ft_handle \<Rightarrow> bool" where
  "session_ok ps h \<longleftrightarrow> protocol_known ps h \<and> buddies_clean h \<and> deny_names_ok ps h \<and> room_names_ok ps h"

abbreviation sessions_ok :: "ft_protocol list \<Rightarrow> ft_state \<Rightarrow> bool" where
  "sessions_ok ps \<equiv> all_handles (session_ok ps)"

definition env_ok :: "irc_env \<Rightarrow> bool" where
  "env_ok env \<longleftrightarrow> protocols_ok (ie_ps env) \<and>
     (\<forall>st st'. sessions_ok (ie_ps env) st \<longrightarrow> ie_on_message env st = Some st' \<longrightarrow> sessions_ok (ie_ps env) st') \<and>
     (\<forall>f st st'. sessions_ok (ie_ps env) st \<longrightarrow> ie_handler env f st = Some st' \<longrightarrow> sessions_ok (ie_ps env) st') \<and>
     (\<forall>p \<in> set (ie_ps env). \<forall>c w. op_keeps (sessions_ok (ie_ps env)) (p_im_evil p c w))"

lemma session_ok_cong:
  "h_protocol h' = h_protocol h \<Longrightarrow> h_buddies h' = h_buddies h \<Longrightarrow> h_denies h' = h_denies h \<Longrightarrow>
   h_rooms h' = h_rooms h \<Longrightarrow> session_ok ps h' = session_ok ps h"
  by (simp add: session_ok_def protocol_known_def buddies_clean_def deny_names_ok_def room_names_ok_def
      same_nick_def proto_def)

lemma session_ok_fields [simp]:
  "session_ok ps (h\<lparr>h_connected := x\<rparr>) = session_ok ps h"
  "session_ok ps (h\<lparr>h_files := fs\<rparr>) = session_ok ps h"
  "session_ok ps (h\<lparr>h_subcode_replies := q\<rparr>) = session_ok ps h"
  by (rule session_ok_cong; simp)+

lemma session_ok_forget [simp]:
  "session_ok ps h \<Longrightarrow> session_ok ps ((forget_session h)\<lparr>h_connected := x\<rparr>)"
  by (simp add: session_ok_def forget_session_def protocol_known_def buddies_clean_def deny_names_ok_def room_names_ok_def)

lemma session_ok_buddies:
  assumes "session_ok ps h" "\<And>b. b \<in> set (h_buddies h) \<Longrightarrow> buddy_clean b \<Longrightarrow> buddy_clean (f b)"
  shows "session_ok ps (upd_buddy ps n f h)"
proof -
  have "buddy_clean b" if "b \<in> set (h_buddies h)" for b using assms(1) that by (simp add: session_ok_def buddies_clean_def)
  then have "buddies_clean (upd_buddy ps n f h)"
    using assms(2) by (auto simp: buddies_clean_def upd_buddy_def dest!: set_map_first_cases find_Some_set)
  then show ?thesis using assms(1)
    by (simp add: session_ok_def protocol_known_def deny_names_ok_def room_names_ok_def conn_simps)
qed

lemma session_ok_rooms:
  assumes "session_ok ps h" "map r_name rs = map r_name (h_rooms h)"
  shows "session_ok ps (h\<lparr>h_rooms := rs\<rparr>)"
  using assms pairwise_unrelated_map_cong [OF assms(2), of "same_nick ps h"]
  by (simp add: session_ok_def protocol_known_def buddies_clean_def deny_names_ok_def room_names_ok_def)

lemma session_ok_upd_room:
  "session_ok ps h \<Longrightarrow> (\<And>r. r_name (f r) = r_name r) \<Longrightarrow> session_ok ps (upd_room ps n f h)"
  unfolding upd_room_def by (rule session_ok_rooms) (simp_all add: map_map_first)

lemma session_ok_remove_room:
  assumes "session_ok ps h"
  shows "session_ok ps (h\<lparr>h_rooms := remove_first p (h_rooms h)\<rparr>)"
  using assms by (auto simp: session_ok_def protocol_known_def buddies_clean_def deny_names_ok_def room_names_ok_def)

lemma session_ok_add_room:
  assumes "protocols_ok ps" "session_ok ps h"
    "\<not> (\<exists>r \<in> set (h_rooms h). same_nick ps h (r_name r) n)"
  shows "session_ok ps (h\<lparr>h_rooms := new_room n # h_rooms h\<rparr>)"
  using assms same_nick_equiv(2) [OF assms(1), of h]
  by (auto simp: session_ok_def protocol_known_def buddies_clean_def deny_names_ok_def room_names_ok_def new_room_def)

lemma sessionsD: "sessions_ok ps st \<Longrightarrow> the_handle conn st = Some h \<Longrightarrow> session_ok ps h"
  by (rule all_handlesD)

lemma sessions_upd_room:
  "sessions_ok ps st \<Longrightarrow> the_handle conn st = Some h \<Longrightarrow> (\<And>r. r_name (f r) = r_name r) \<Longrightarrow>
   sessions_ok ps (put_handle conn (upd_room ps n f h) st)"
  by (rule all_handles_put, assumption, rule session_ok_upd_room, erule (1) sessionsD) simp

lemma sessions_upd_buddy:
  "sessions_ok ps st \<Longrightarrow> the_handle conn st = Some h \<Longrightarrow>
   (\<And>b. b \<in> set (h_buddies h) \<Longrightarrow> buddy_clean b \<Longrightarrow> buddy_clean (f b)) \<Longrightarrow>
   sessions_ok ps (put_handle conn (upd_buddy ps n f h) st)"
  by (rule all_handles_put, assumption, rule session_ok_buddies, erule (1) sessionsD) simp

lemma sessions_frame [simp]: "sessions_ok ps (st\<lparr>s_fresh := k\<rparr>) \<longleftrightarrow> sessions_ok ps st"
  by (simp add: all_handles_def the_handle_def)


lemma sessions_buddyonline:
  assumes "firetalk_callback_im_buddyonline ps c n i st = Some st'" "sessions_ok ps st"
  shows "sessions_ok ps st'"
  using assms
  by (auto simp: firetalk_callback_im_buddyonline_def Let_def elim!: bindE split: branch_splits)
    (auto intro!: sessions_upd_buddy simp: buddy_clean_def)

lemma sessions_add_room:
  assumes "protocols_ok ps" "sessions_ok ps st" "firetalk_chat_internal_add_room ps conn n st = Some (e, st')"
  shows "sessions_ok ps st'"
  using assms(2,3)
  by (auto simp: firetalk_chat_internal_add_room_def elim!: bindE split: branch_splits
      intro!: all_handles_put session_ok_add_room [OF assms(1)] dest: sessionsD)

lemma sessions_remove_room:
  assumes "sessions_ok ps st" "firetalk_chat_internal_remove_room ps conn n st = Some (e, st')"
  shows "sessions_ok ps st'"
  using assms
  by (auto simp: firetalk_chat_internal_remove_room_def elim!: bindE split: branch_splits
      intro!: all_handles_put session_ok_remove_room dest: sessionsD)

lemma sessions_members:
  assumes "sessions_ok ps st"
  shows "firetalk_chat_internal_add_member ps conn n w st = Some (e, st') \<Longrightarrow> sessions_ok ps st'"
    "firetalk_chat_internal_remove_member ps conn n w st = Some (e, st') \<Longrightarrow> sessions_ok ps st'"
  using assms
  by (auto simp: firetalk_chat_internal_add_member_def firetalk_chat_internal_remove_member_def
      elim!: bindE split: branch_splits intro!: sessions_upd_room)

lemma sessions_user_left:
  "firetalk_callback_chat_user_left ps c room n r st = Some st' \<Longrightarrow> sessions_ok ps st \<Longrightarrow> sessions_ok ps st'"
  by (auto simp: firetalk_callback_chat_user_left_def elim!: bindE split: branch_splits)
    (fast dest: sessions_members)+

lemma sessions_quit_members:
  "quit_members ps c room p w r ms st = Some st' \<Longrightarrow> sessions_ok ps st \<Longrightarrow> sessions_ok ps st'"
  by (induction ms arbitrary: st) (auto elim!: bindE split: if_split_asm dest: sessions_user_left)

lemma sessions_quit_rooms:
  "quit_rooms ps c p w r rs st = Some st' \<Longrightarrow> sessions_ok ps st \<Longrightarrow> sessions_ok ps st'"
  by (induction rs arbitrary: st) (auto elim!: bindE dest: sessions_quit_members)

lemma sessions_op_member:
  assumes "op_member ps c room w b fl fc st = Some st'" "sessions_ok ps st"
  shows "sessions_ok ps st'"
  using assms
  by (auto simp: op_member_def elim!: bindE split: branch_splits dest!: find_room_Some find_member_Some)
    (auto dest: find_room_keep find_member_keep intro!: sessions_upd_room)

lemma sessions_op_room:
  assumes "op_room ps c room b fl fc st = Some st'" "sessions_ok ps st"
  shows "sessions_ok ps st'"
  using assms
  by (auto simp: op_room_def elim!: bindE split: branch_splits dest!: find_room_Some)
    (auto dest: find_room_keep intro!: sessions_upd_room)

lemma sessions_user_joined:
  assumes "firetalk_callback_chat_user_joined ps c room w x st = Some st'" "sessions_ok ps st"
  shows "sessions_ok ps st'"
  using assms
  by (auto simp: firetalk_callback_chat_user_joined_def elim!: bindE split: branch_splits dest!: find_room_Some)
    (auto dest: find_room_keep sessions_members intro!: sessions_upd_room)

lemma sessions_kicked:
  assumes "sessions_ok ps st"
  shows "firetalk_callback_chat_left ps c room st = Some st' \<Longrightarrow> sessions_ok ps st'"
    "firetalk_callback_chat_kicked ps c room b r st = Some st' \<Longrightarrow> sessions_ok ps st'"
    "firetalk_callback_chat_user_kicked ps c room n b r st = Some st' \<Longrightarrow> sessions_ok ps st'"
  using sessions_remove_room [OF assms] sessions_members(2) [OF assms]
  by (auto simp: firetalk_callback_chat_left_def firetalk_callback_chat_kicked_def
      firetalk_callback_chat_user_kicked_def elim!: bindE split: branch_splits)

lemma all_handles_emit_all [simp]: "all_handles P (emit_all conn es st) \<longleftrightarrow> all_handles P st"
  by (induction es arbitrary: st) (simp_all add: emit_all_def case_prod_beta)

lemma sessions_nickchanged:
  assumes run: "firetalk_callback_user_nickchanged ps c n n' st = Some st'" and ok: "sessions_ok ps st"
  shows "sessions_ok ps st'"
proof -
  have upd: "sessions_ok ps (put_handle conn (upd_buddy ps n (\<lambda>b. b\<lparr>b_nickname := n'\<rparr>) h) st)"
    if "the_handle conn st = Some h" for conn h
    by (rule sessions_upd_buddy [OF ok that]) (simp add: buddy_clean_def)
  have rooms: "sessions_ok ps (put_handle conn (h\<lparr>h_rooms := map (rename_member ps g a b) (h_rooms h)\<rparr>) st1)"
    if "sessions_ok ps st1" "the_handle conn st1 = Some h" for conn h st1 g a b
    by (rule all_handles_put [OF that(1)], rule session_ok_rooms [OF sessionsD [OF that]]) (simp add: rename_member_def)
  from run ok show ?thesis
    by (auto simp: firetalk_callback_user_nickchanged_def Let_def elim!: bindE split: option.split_asm if_split_asm)
      (auto intro!: rooms upd)
qed

lemma sessions_deliver:
  assumes "\<And>st st'. sessions_ok ps st \<Longrightarrow> handler st = Some st' \<Longrightarrow> sessions_ok ps st'"
    and "sessions_ok ps st" "deliver ps conn fc w as handler st = Some st'"
  shows "sessions_ok ps st'"
  using assms(2,3)
  by (auto simp: deliver_def elim!: bindE split: branch_splits) (drule assms(1) [rotated], simp_all)+

lemma sessions_call_subcode:
  assumes "\<And>f st st'. sessions_ok ps st \<Longrightarrow> handler f st = Some st' \<Longrightarrow> sessions_ok ps st'"
    and "sessions_ok ps st" "call_subcode handler conn iter as st = Some st'"
  shows "sessions_ok ps st'"
  using assms(2,3) assms(1) [of "log_event conn x st" for x]
  by (auto simp: call_subcode_def split: option.split_asm)

lemma sessions_send_reply:
  "firetalk_subcode_send_reply ps conn w cmd a st = Some (e, st') \<Longrightarrow> sessions_ok ps st \<Longrightarrow> sessions_ok ps st'"
  by (auto simp: firetalk_subcode_send_reply_def elim!: bindE split: if_split_asm intro!: all_handles_put)
    (erule (1) sessionsD)+

lemma sessions_file_offer:
  "firetalk_callback_file_offer aton c w f sz ip port t st = Some st' \<Longrightarrow> sessions_ok ps st \<Longrightarrow> sessions_ok ps st'"
  by (auto simp: firetalk_callback_file_offer_def Let_def elim!: bindE split: option.split_asm
      intro!: all_handles_put) (erule (1) sessionsD)


lemma sessions_dcc_send:
  "dcc_send e j c w a st = Some st' \<Longrightarrow> sessions_ok ps st \<Longrightarrow> sessions_ok ps st'"
  by (auto simp: dcc_send_def split: list.split_asm dest: sessions_file_offer)

lemma sessions_set_connected:
  "set_connected conn x st = Some st' \<Longrightarrow> sessions_ok ps st \<Longrightarrow> sessions_ok ps st'"
  by (auto simp: set_connected_def intro!: all_handles_put) (erule (1) sessionsD)


lemma if_SomeE:
  "(if b then x else y) = Some z \<Longrightarrow> (x = Some z \<Longrightarrow> P) \<Longrightarrow> (y = Some z \<Longrightarrow> P) \<Longrightarrow> P"
  by (cases b) simp_all

lemma sessions_builtin:
  assumes h: "\<And>f st st'. sessions_ok ps st \<Longrightarrow> handler f st = Some st' \<Longrightarrow> sessions_ok ps st'"
    and m: "\<And>st st'. sessions_ok ps st \<Longrightarrow> msg st = Some st' \<Longrightarrow> sessions_ok ps st'"
    and run: "builtin_request ps e j msg handler conn c w cmd a st = Some st'" and ok: "sessions_ok ps st"
  shows "sessions_ok ps st'"
proof -
  have act: "sessions_ok ps st'" if "Option.bind (firetalk_find_handle c st) (\<lambda>conn.
      deliver ps conn FC_IM_GETACTION w as msg st) = Some st'" for as
    using that sessions_deliver [OF m ok] by (auto elim!: bindE)
  have other: "sessions_ok ps st'" if "Option.bind (the_handle conn st) (\<lambda>h. case h_subcode_request_default h of
           None \<Rightarrow> Some st
         | Some d \<Rightarrow> call_subcode handler conn d as st) = Some st'" for as
    using that sessions_call_subcode [OF h ok] ok by (auto elim!: bindE split: option.split_asm)
  have reply: "sessions_ok ps st'" if "map_option snd (firetalk_subcode_send_reply ps conn w x y st) = Some st'" for x y
    using that ok by (auto dest: sessions_send_reply)
  from run show ?thesis unfolding builtin_request_def
    by (elim if_SomeE) (erule act reply other sessions_dcc_send [OF _ ok])+
qed

lemma sessions_request:
  assumes h: "\<And>f st st'. sessions_ok ps st \<Longrightarrow> handler f st = Some st' \<Longrightarrow> sessions_ok ps st'"
    and m: "\<And>st st'. sessions_ok ps st \<Longrightarrow> msg st = Some st' \<Longrightarrow> sessions_ok ps st'"
    and run: "firetalk_callback_subcode_request ps e j msg handler c w cmd a st = Some st'" and ok: "sessions_ok ps st"
  shows "sessions_ok ps st'"
proof -
  from run obtain conn st1 st2 and h1 :: ft_handle where 1: "set_connected conn FCS_ACTIVE st = Some st1"
    and 2: "(case find_subcode cmd (h_subcode_request h1) of
        Some iter \<Rightarrow>
          (case sc_staticresp iter of
             Some r \<Rightarrow> map_option snd (firetalk_subcode_send_reply ps conn w cmd (Some r) st1)
           | None \<Rightarrow> do {
               st \<leftarrow> call_subcode handler conn iter
                 [AStr (Some w), AStr (Some cmd), AStr a]
                 (st1\<lparr>s_isonline_hack := Some w\<rparr>);
               Some (st\<lparr>s_isonline_hack := None\<rparr>)
             })
      | None \<Rightarrow> builtin_request ps e j msg handler conn c w cmd a st1) = Some st2"
    and 3: "set_connected conn (h_connected h1) st2 = Some st'"
    unfolding firetalk_callback_subcode_request_def Let_def by (elim bindE) (rule that)
  have ok1: "sessions_ok ps st1" by (rule sessions_set_connected [OF 1 ok])
  have call: "sessions_ok ps s2" if "call_subcode handler conn iter as (st1\<lparr>s_isonline_hack := x\<rparr>) = Some s2" for iter as x s2
    by (rule sessions_call_subcode [OF h _ that]) (use ok1 in simp_all)
  have "sessions_ok ps st2"
  proof (cases "find_subcode cmd (h_subcode_request h1)")
    case None
    with 2 have "builtin_request ps e j msg handler conn c w cmd a st1 = Some st2" by simp
    from h m this ok1 show ?thesis by (rule sessions_builtin)
  next
    case (Some iter)
    with 2 show ?thesis
      by (auto elim!: bindE split: option.split_asm) (erule call sessions_send_reply [OF _ ok1])+
  qed
  with 3 show ?thesis by (rule sessions_set_connected)
qed

lemma sessions_reply:
  assumes h: "\<And>f st st'. sessions_ok ps st \<Longrightarrow> handler f st = Some st' \<Longrightarrow> sessions_ok ps st'"
    and run: "firetalk_callback_subcode_reply handler c w cmd a st = Some st'" and ok: "sessions_ok ps st"
  shows "sessions_ok ps st'"
proof -
  have call: "sessions_ok ps s2" if "call_subcode handler conn iter as (st\<lparr>s_isonline_hack := x\<rparr>) = Some s2" for conn iter as x s2
    by (rule sessions_call_subcode [OF h _ that]) (use ok in simp_all)
  have call': "sessions_ok ps s2" if "call_subcode handler conn iter as st = Some s2" for conn iter as s2
    by (rule sessions_call_subcode [OF h ok that])
  show ?thesis using run ok
    by (auto simp: firetalk_callback_subcode_reply_def elim!: bindE split: option.split_asm) (erule call' call)+
qed

lemma sessions_message:
  assumes ps: "\<forall>p \<in> set ps. \<forall>c w. op_keeps (sessions_ok ps) (p_im_evil p c w)"
    and m: "\<And>st st'. sessions_ok ps st \<Longrightarrow> msg st = Some st' \<Longrightarrow> sessions_ok ps st'"
    and run: "firetalk_callback_im_getmessage ps c w i t msg st = Some st'" and ok: "sessions_ok ps st"
  shows "sessions_ok ps st'"
proof -
  have "sessions_ok ps s2" if "firetalk_im_evil ps conn w st = Some (e, s2)" for conn e s2
  proof -
    from that obtain h where h: "the_handle conn st = Some h"
      "(if h_connected h \<noteq> FCS_ACTIVE then Some (FE_NOTCONNECTED, st) else p_im_evil (proto ps h) (h_handle h) w st) = Some (e, s2)"
      unfolding firetalk_im_evil_def by (erule bindE)
    have "proto ps h \<in> set ps" using sessionsD [OF ok h(1)]
      by (simp add: session_ok_def protocol_known_def proto_def)
    with ps have "op_keeps (sessions_ok ps) (p_im_evil (proto ps h) (h_handle h) w)" by blast
    from op_keepsD [OF this ok] h(2) ok show ?thesis by (auto split: if_split_asm)
  qed
  then show ?thesis using run sessions_deliver [OF m ok]
    by (auto simp: firetalk_callback_im_getmessage_def elim!: bindE split: if_split_asm)
qed

lemma sessions_disconnect:
  "firetalk_callback_disconnect c e st = Some st' \<Longrightarrow> sessions_ok ps st \<Longrightarrow> sessions_ok ps st'"
  by (auto simp: firetalk_callback_disconnect_def Let_def elim!: bindE split: if_split_asm
      intro!: all_handles_put session_ok_forget) (erule (1) sessionsD)+

lemma sessions_send_data:
  "firetalk_internal_send_data conn d n st = Some st' \<Longrightarrow> sessions_ok ps st \<Longrightarrow> sessions_ok ps st'"
  by (auto simp: firetalk_internal_send_data_def elim!: bindE split: if_split_asm dest: sessions_disconnect)

lemma sessions_quit:
  "firetalk_callback_chat_user_quit ps c w r st = Some st' \<Longrightarrow> sessions_ok ps st \<Longrightarrow> sessions_ok ps st'"
  by (auto simp: firetalk_callback_chat_user_quit_def elim!: bindE dest: sessions_quit_rooms)

lemma sessions_call:
  assumes env: "env_ok env" and f: "irc_call env c f" and ok: "sessions_ok (ie_ps env) st" and run: "f st = Some st'"
  shows "sessions_ok (ie_ps env) st'"
proof -
  have h: "\<And>f st st'. sessions_ok (ie_ps env) st \<Longrightarrow> ie_handler env f st = Some st' \<Longrightarrow> sessions_ok (ie_ps env) st'"
    and m: "\<And>st st'. sessions_ok (ie_ps env) st \<Longrightarrow> ie_on_message env st = Some st' \<Longrightarrow> sessions_ok (ie_ps env) st'"
    and ps: "protocols_ok (ie_ps env)" "\<forall>p \<in> set (ie_ps env). \<forall>c w. op_keeps (sessions_ok (ie_ps env)) (p_im_evil p c w)"
    using env unfolding env_ok_def by blast+
  note parts = sessions_buddyonline sessions_disconnect sessions_quit sessions_user_joined sessions_kicked
      sessions_user_left sessions_nickchanged sessions_op_member sessions_op_room
  from f run ok show ?thesis
  proof cases
    case joined
    then show ?thesis using run ok sessions_add_room [OF ps(1)]
      by (auto simp: firetalk_callback_chat_joined_def elim!: bindE)
  next
    case gottopic
    then show ?thesis using run ok
      by (auto simp: firetalk_callback_chat_gottopic_def elim!: bindE split: option.split_asm
          dest!: find_room_Some dest: find_room_keep)
  next
    case passed
    with run ok show ?thesis by (auto dest: keep_pass_on)
  next
    case request
    show ?thesis by (rule sessions_request [OF h m run [unfolded request] ok])
  next
    case reply
    show ?thesis by (rule sessions_reply [OF h run [unfolded reply] ok])
  next
    case message
    show ?thesis by (rule sessions_message [OF ps(2) m run [unfolded message] ok])
  qed (use run ok in \<open>simp add: firetalk_callback_chat_user_opped_def firetalk_callback_chat_user_deopped_def
      firetalk_callback_chat_opped_def firetalk_callback_chat_deopped_def; blast intro: parts\<close>)+
qed

lemma irc_keeps_sessions: "env_ok env \<Longrightarrow> irc_keeps env c (\<lambda>s. sessions_ok (ie_ps env) (i_ft s))"
proof
  fix s fm as e s' assume "sessions_ok (ie_ps env) (i_ft s)" "irc_send_printf env c fm as s = Some (e, s')"
  then show "sessions_ok (ie_ps env) (i_ft s')"
    by (auto simp: irc_send_printf_def Let_def elim!: bindE split: option.split_asm) (erule (1) sessions_send_data)
qed (auto intro: sessions_call)

text \<open>
  C7. Whatever bytes an IRC server sends, the lists of every session stay in order: no room and no
  denied user is twice in its list, and a buddy who is offline has no status, which is what the
  assertions of the session layer rely on. The handlers of the client are assumed to keep that.
\<close>

theorem irc_keeps_lists:
  assumes "env_ok env" "sessions_ok (ie_ps env) (i_ft s)"
    and "irc_got_data env c buffer s = Some (e, rest, s')"
  shows "sessions_ok (ie_ps env) (i_ft s')"
  using irc_keeps.keep_got_data [OF irc_keeps_sessions [OF assms(1)] assms(3,2)] .

theorem irc_keeps_lists_witness:
  "\<exists>e rest s'. irc_got_data quiet_env (Some 1) ('':bob!b@h QUIT :bye'' @ [CR, LF] @ '':me!m@h JOIN #new'' @ [CR, LF])
       (irc_session chat_handle) = Some (e, rest, s') \<and>
     sessions_ok [quiet_protocol] (i_ft s')"
proof -
  let ?run = "irc_got_data quiet_env (Some 1) ('':bob!b@h QUIT :bye'' @ [CR, LF] @ '':me!m@h JOIN #new'' @ [CR, LF])
       (irc_session chat_handle)"
  have "?run \<noteq> None" by code_simp
  then obtain e rest s' where run: "?run = Some (e, rest, s')" by (cases ?run) auto
  have env: "env_ok quiet_env" by (simp add: env_ok_def quiet_env_def, simp add: quiet_protocol_def)
  have "session_ok [quiet_protocol] chat_handle" by code_simp
  then have "sessions_ok (ie_ps quiet_env) (i_ft (irc_session chat_handle))" by (simp add: irc_session_def quiet_env_def)
  from irc_keeps_lists [OF env this run] run show ?thesis by (simp add: quiet_env_def)
qed

end
