(* ===== verification/FtIrcCtcp.thy ===== *)
theory FtIrcCtcp
  imports FtIrcSession
begin

text \<open>
  The IRC driver as a whole, from the bytes to the session layer: a written line runs its branch,
  a CTCP request arrives as it was encoded, and what happens after the own quit.
\<close>

section \<open>A line and the rest\<close>

lemma got_data_line:
  assumes "blank \<notin> set prefix" "list_all word_ok (w # ws)"
    and "\<forall>w \<in> set (prefix # (w # ws) @ (case trailing of None \<Rightarrow> [] | Some t \<Rightarrow> [t])). NUL \<notin> set w \<and> LF \<notin> set w"
    and "length (write_line prefix (w # ws) trailing @ rest) < 513" "length ws < 253"
  shows "irc_got_data env c (write_line prefix (w # ws) trailing @ rest) s =
    (case irc_got_data_parse env c (prefix # w # ws @ (case trailing of None \<Rightarrow> [] | Some t \<Rightarrow> [t])) s of
       None \<Rightarrow> None
     | Some (e, s) \<Rightarrow> if e \<noteq> FE_SUCCESS then Some (e, rest, s) else irc_got_data env c rest s)"
  by (subst irc_got_data.simps, subst irc_line_roundtrip [OF assms(1-4)]) (use assms(5) in simp_all)

section \<open>CTCP\<close>

lemma ctcp_parts_encoded:
  assumes "blank \<notin> set cmd"
  shows "ctcp_parts (cmd @ (case m of None \<Rightarrow> [] | Some m \<Rightarrow> blank # m)) = (cmd, m)"
  using assms by (cases m) (simp_all add: ctcp_parts_def strchr_None [THEN iffD2] strchr_at)

lemma ctcp_encode_body:
  "irc_ctcp_encode cmd m = CTCP # (cmd @ (case m of None \<Rightarrow> [] | Some m \<Rightarrow> blank # m)) @ [CTCP]"
  by (simp add: irc_ctcp_encode_def split: option.split)

lemma ctcp_requests_pair:
  assumes "CTCP \<notin> set pre" "CTCP \<notin> set body"
  shows "ctcp_requests run (pre @ CTCP # body @ CTCP # post) s =
    Option.bind (run body s) (ctcp_requests run (pre @ post))"
  using assms by (subst ctcp_requests.simps) (simp add: strchr_at Let_def split: option.split)

lemma ctcp_requests_text: "CTCP \<notin> set text \<Longrightarrow> ctcp_requests run text s = Some (text, s)"
  by (subst ctcp_requests.simps) (simp add: strchr_None [THEN iffD2])


text \<open>
  C9. A CTCP request that another client encodes and sends in a private message runs the request with
  that command and these arguments, from that nickname, and shows no text; then the next line is read.
\<close>

theorem irc_ctcp_delivered:
  assumes prefix: "blank \<notin> set prefix" "NUL \<notin> set prefix \<and> LF \<notin> set prefix"
    and dest: "word_ok dest" "\<not> irc_is_room dest" "NUL \<notin> set dest \<and> LF \<notin> set dest"
    and cmd: "blank \<notin> set cmd" "CTCP \<notin> set cmd \<and> NUL \<notin> set cmd \<and> LF \<notin> set cmd"
    and msg: "\<forall>x. m = Some x \<longrightarrow> CTCP \<notin> set x \<and> NUL \<notin> set x \<and> LF \<notin> set x"
    and len: "length (write_line prefix [''PRIVMSG'', dest] (Some (irc_ctcp_encode cmd m)) @ rest) < 513"
  shows "irc_got_data env c (write_line prefix [''PRIVMSG'', dest] (Some (irc_ctcp_encode cmd m)) @ rest) s =
    (case firetalk_callback_subcode_request (ie_ps env) (ie_sub env) (ie_junk env) (ie_on_message env)
       (ie_handler env) c (irc_get_nickname prefix) cmd m (i_ft s) of
       None \<Rightarrow> None
     | Some st \<Rightarrow> irc_got_data env c rest (s\<lparr>i_ft := st\<rparr>))"
proof -
  let ?body = "cmd @ (case m of None \<Rightarrow> [] | Some m \<Rightarrow> blank # m)"
  have body: "CTCP \<notin> set ?body" "NUL \<notin> set ?body" "LF \<notin> set ?body"
    using cmd msg by (auto split: option.split)
  have words: "list_all word_ok [''PRIVMSG'', dest]" using dest(1) by (simp add: word_ok_def)
  have req: "ctcp_requests run (irc_ctcp_encode cmd m) s = map_option (Pair []) (run ?body s)" for run :: "string \<Rightarrow> irc_state \<Rightarrow> irc_state option"
    using ctcp_requests_pair [of "[]" ?body run "[]" s] body(1)
    by (cases "run ?body s") (simp_all add: ctcp_encode_body ctcp_requests_text)
  have "irc_got_data_parse env c [prefix, ''PRIVMSG'', dest, irc_ctcp_encode cmd m] s =
    map_option (Pair FE_SUCCESS) (irc_request env c (irc_get_nickname prefix) dest ?body s)"
    by (cases "irc_request env c (irc_get_nickname prefix) dest ?body s")
      (simp_all add: irc_got_data_parse_def irc_parse3_def irc_privmsg_def req Let_def)
  moreover have "irc_request env c (irc_get_nickname prefix) dest ?body s =
    ft_do (firetalk_callback_subcode_request (ie_ps env) (ie_sub env) (ie_junk env) (ie_on_message env)
       (ie_handler env) c (irc_get_nickname prefix) cmd m) s"
    using dest(2) by (simp add: irc_request_def ctcp_parts_encoded [OF cmd(1)])
  moreover have "\<forall>w \<in> set (prefix # [''PRIVMSG'', dest] @ [irc_ctcp_encode cmd m]). NUL \<notin> set w \<and> LF \<notin> set w"
    using prefix(2) dest(3) body by (simp add: ctcp_encode_body)
  ultimately show ?thesis
    using got_data_line [of prefix "''PRIVMSG''" "[dest]" "Some (irc_ctcp_encode cmd m)" rest env c s] prefix(1) words len
    by (simp add: ft_do_def option.map_comp split: option.split)
qed

theorem irc_ctcp_delivered_witness:
  "irc_got_data quiet_env (Some 1)
     (write_line ''ann!a@h'' [''PRIVMSG'', ''me''] (Some (irc_ctcp_encode ''PING'' (Some ''42''))) @ ''x'') (irc_session chat_handle) =
    (case firetalk_callback_subcode_request (ie_ps quiet_env) (ie_sub quiet_env) (ie_junk quiet_env) (ie_on_message quiet_env)
       (ie_handler quiet_env) (Some 1) ''ann'' ''PING'' (Some ''42'') (i_ft (irc_session chat_handle)) of
       None \<Rightarrow> None
     | Some st \<Rightarrow> irc_got_data quiet_env (Some 1) ''x'' ((irc_session chat_handle)\<lparr>i_ft := st\<rparr>))"
proof -
  have n: "irc_get_nickname ''ann!a@h'' = ''ann''" by code_simp
  show ?thesis
    by (rule irc_ctcp_delivered [of "''ann!a@h''" "''me''" "''PING''" "Some ''42''" "''x''", unfolded n])
      (simp_all add: word_ok_def irc_is_room_def strchr_None [THEN iffD2] write_line_def irc_ctcp_encode_def)
qed

section \<open>After the own quit\<close>

lemma is_me_None: "ic_nickname (i_conn s) = None \<Longrightarrow> is_me name s = None"
  by (simp add: is_me_def)

lemma ft_do_conn: "ft_do f s = Some s' \<Longrightarrow> i_conn s' = i_conn s"
  by (auto simp: ft_do_def)

lemma own_quit_forgets:
  assumes "ic_nickname (i_conn s) = Some me" "irc_compare_nicks me (irc_get_nickname (args ! 0)) = FE_SUCCESS"
    and "irc_quit env c args s = Some (e, s')"
  shows "e = FE_SUCCESS \<and> ic_nickname (i_conn s') = None"
  using assms
  by (auto simp: irc_quit_def irc_internal_disconnect_def is_me_def put_conn_def Let_def elim!: bindE dest!: ft_do_conn)

text \<open>
  C12. The server reports that we have quit, and one more line about somebody in a room is in the buffer
  already: the driver goes on reading and compares that user with the nickname it has just freed, a
  null pointer (\<open>None\<close> in the model).
\<close>

theorem irc_line_after_own_quit:
  assumes quit: "blank \<notin> set prefix" "NUL \<notin> set prefix \<and> LF \<notin> set prefix"
    and me: "ic_nickname (i_conn s) = Some me" "irc_compare_nicks me (irc_get_nickname prefix) = FE_SUCCESS"
    and part: "blank \<notin> set prefix'" "NUL \<notin> set prefix' \<and> LF \<notin> set prefix'"
    and room: "word_ok room" "NUL \<notin> set room \<and> LF \<notin> set room"
    and len: "length (write_line prefix [''QUIT''] None @ write_line prefix' [''PART'', room] None @ rest) < 513"
  shows "irc_got_data env c
    (write_line prefix [''QUIT''] None @ write_line prefix' [''PART'', room] None @ rest) s = None"
proof -
  have gone: "irc_got_data env c (write_line prefix' [''PART'', room] None @ rest) s' = None"
    if "ic_nickname (i_conn s') = None" for s'
    using got_data_line [of prefix' "''PART''" "[room]" None rest env c s'] part room len is_me_None [OF that]
    by (simp add: word_ok_def irc_got_data_parse_def irc_part_def Let_def)
  have "irc_got_data_parse env c [prefix, ''QUIT''] s = irc_quit env c [prefix, ''QUIT''] s"
    by (simp add: irc_got_data_parse_def)
  with own_quit_forgets [OF me(1), of "[prefix, ''QUIT'']" env c] me(2) gone show ?thesis
    using got_data_line [of prefix "''QUIT''" "[]" None "write_line prefix' [''PART'', room] None @ rest" env c s] quit len
    by (auto simp: word_ok_def split: option.splits)
qed

theorem irc_line_after_own_quit_witness:
  "irc_got_data quiet_env (Some 1)
     (write_line ''me!m@h'' [''QUIT''] None @ write_line ''ann!a@h'' [''PART'', ''#one''] None @ []) (irc_session chat_handle) = None"
proof -
  have n: "irc_compare_nicks ''me'' (irc_get_nickname ''me!m@h'') = FE_SUCCESS" by code_simp
  show ?thesis
    by (rule irc_line_after_own_quit [OF _ _ _ n])
      (simp_all add: word_ok_def write_line_def irc_session_def)
qed

end
