(* ===== verification/FtTocFrame.thy ===== *)
theory FtTocFrame
  imports FtIrcCtcp "HOL-Library.Word"
begin

unbundle bit_operations_syntax

text \<open>
  The wire format of the TOC driver (\<open>firetalk/toc.c\<close>): frames with a type, a 16-bit sequence
  number and a length, quoted words, the disguised password, and how a message is written from a
  format. The driver is in \<open>FtToc\<close>.
\<close>

section \<open>Frames\<close>

abbreviation SFLAP_FRAME_SIGNON :: nat where "SFLAP_FRAME_SIGNON \<equiv> 1"
abbreviation SFLAP_FRAME_DATA :: nat where "SFLAP_FRAME_DATA \<equiv> 2"
abbreviation TOC_HEADER_LENGTH :: nat where "TOC_HEADER_LENGTH \<equiv> 6"

definition toc_fill_header :: "nat \<Rightarrow> 16 word \<Rightarrow> 16 word \<Rightarrow> string" where
  "toc_fill_header frame_type sequence len =
     [CHR ''*'', byte frame_type, byte (unat sequence div 256), byte (unat sequence),
      byte (unat len div 256), byte (unat len)]"

definition toc_fill_signon :: "string \<Rightarrow> string" where
  "toc_fill_signon username =
     map byte [0, 0, 0, 1, 0, 1, length username div 256, length username] @ username"

text \<open>\<open>ntohs\<close> of two bytes.\<close>

definition ntohs :: "char \<Rightarrow> char \<Rightarrow> 16 word" where
  "ntohs hi lo = word_of_nat (256 * of_char hi + of_char lo)"

definition toc_get_frame_type_from_header :: "string \<Rightarrow> nat" where
  "toc_get_frame_type_from_header header = of_char (header ! 1)"

definition toc_get_sequence_from_header :: "string \<Rightarrow> 16 word" where
  "toc_get_sequence_from_header header = ntohs (header ! 2) (header ! 3)"

definition toc_get_length_from_header :: "string \<Rightarrow> 16 word" where
  "toc_get_length_from_header header = ntohs (header ! 4) (header ! 5)"

lemma ntohs_bytes: "ntohs (byte (unat w div 256)) (byte (unat w)) = w"
proof -
  have "unat w < 65536" using unsigned_less [of w] by simp
  then have "unat w div 256 mod 256 = unat w div 256" by (simp add: div_less_iff_less_mult)
  then show ?thesis by (simp add: ntohs_def of_char_byte)
qed

lemma toc_header_roundtrip:
  "toc_get_sequence_from_header (toc_fill_header t q n @ d) = q"
  "toc_get_length_from_header (toc_fill_header t q n @ d) = n"
  "toc_get_frame_type_from_header (toc_fill_header t q n @ d) = t mod 256"
  by (simp_all add: toc_get_sequence_from_header_def toc_get_length_from_header_def
      toc_get_frame_type_from_header_def toc_fill_header_def ntohs_bytes of_char_byte)

lemma length_toc_fill_header [simp]: "length (toc_fill_header t q n) = 6"
  by (simp add: toc_fill_header_def)

text \<open>The frame of the driver: the message with its terminating zero.\<close>

definition toc_frame :: "16 word \<Rightarrow> string \<Rightarrow> string" where
  "toc_frame sequence text =
     toc_fill_header SFLAP_FRAME_DATA sequence (word_of_nat (length text + 1)) @ text @ [NUL]"

section \<open>Quoted words\<close>

definition toc_special :: "char \<Rightarrow> bool" where
  "toc_special c \<longleftrightarrow> c \<in> set ''${}[]()`'' \<or> c \<in> {CHR 0x27, CHR 0x22, CHR 0x5C}"

text \<open>The buffer has 2048 bytes; \<open>None\<close> is the answer \<open>NULL\<close>.\<close>

fun quote_loop :: "string \<Rightarrow> string \<Rightarrow> string option" where
  "quote_loop out [] = Some out"
| "quote_loop out (c # cs) =
     (if toc_special c then
        if length out > 2044 then None else quote_loop (out @ [CHR 0x5C, c]) cs
      else
        if length out > 2045 then None else quote_loop (out @ [c]) cs)"

definition trim_blanks :: "string \<Rightarrow> string" where
  "trim_blanks s = rev (skip_blanks (rev (skip_blanks s)))"

definition toc_quote :: "string \<Rightarrow> bool \<Rightarrow> string option" where
  "toc_quote string outside_flag =
     (if outside_flag then map_option (\<lambda>out. out @ [CHR 0x22]) (quote_loop [CHR 0x22] (trim_blanks string))
      else quote_loop [] (trim_blanks string))"

section \<open>The password\<close>

definition hex_digit :: "nat \<Rightarrow> char" where
  "hex_digit n = (if n mod 16 < 10 then char_of (48 + n mod 16) else char_of (55 + n mod 16))"

definition hex2 :: "nat \<Rightarrow> string" where
  "hex2 n = [hex_digit (n div 16), hex_digit n]"

text \<open>
  \<open>password[i]\<close> is a signed \<open>char\<close>: a byte from 128 on is printed with eight digits, of which
  only the first two, \<open>FF\<close>, are not overwritten. Near the end of the buffer of 2048 bytes the
  eight digits do not fit (outer \<open>None\<close>); the inner \<open>None\<close> is the answer \<open>NULL\<close>.
\<close>

definition roast_key :: "nat \<Rightarrow> nat" where
  "roast_key i = of_char (''Tic/Toc'' ! (i mod 7))"

fun hash_loop :: "nat \<Rightarrow> string \<Rightarrow> string \<Rightarrow> string option option" where
  "hash_loop i out [] = Some (Some out)"
| "hash_loop i out (c # cs) =
     (if length out \<ge> 2045 then Some None
      else if (of_char c :: nat) < 128
      then hash_loop (Suc i) (out @ hex2 (of_char c XOR roast_key i)) cs
      else if length out + 9 > 2048 then None
      else hash_loop (Suc i) (out @ ''FF'') cs)"

definition toc_hash_password :: "string \<Rightarrow> string option option" where
  "toc_hash_password password = hash_loop 0 ''0x'' password"

section \<open>Writing a message\<close>

datatype toc_arg = TStr string | TInt int

fun show_hex :: "nat \<Rightarrow> string" where
  "show_hex n = (if n < 16 then [hex_digit n] else show_hex (n div 16) @ [hex_digit n])"

declare show_hex.simps [simp del]

definition c_lower_hex :: "int \<Rightarrow> string" where
  "c_lower_hex i = map c_tolower (show_hex (unat (word_of_int i :: 32 word)))"

text \<open>
  The loop of \<open>toc_send_printf\<close>. \<open>data\<close> is the text behind the header; the buffer has 2048 bytes.
  The inner \<open>None\<close> is \<open>FE_PACKETSIZE\<close>. A number is cut by \<open>snprintf\<close>, but its whole length is
  added to the index; what would then be written behind the buffer is undefined, as are a missing
  argument and a word that \<open>toc_quote\<close> refuses.
\<close>

fun toc_format :: "string \<Rightarrow> toc_arg list \<Rightarrow> string \<Rightarrow> string option option" where
  "toc_format [] args data = (if length data + 6 > 2047 then None else Some (Some data))"
| "toc_format (c # f) args data =
     (if c = CHR ''%'' then
        (case f of
           [] \<Rightarrow> None
         | d # f' \<Rightarrow>
             if d = CHR ''d'' \<or> d = CHR ''i'' then
               (case args of
                  TInt i # args' \<Rightarrow>
                    if length data + 6 > 2048 then None else toc_format f' args' (data @ show_int i)
                | _ \<Rightarrow> None)
             else if d = CHR ''x'' then
               (case args of
                  TInt i # args' \<Rightarrow>
                    if length data + 6 > 2048 then None else toc_format f' args' (data @ c_lower_hex i)
                | _ \<Rightarrow> None)
             else if d = CHR ''s'' then
               (case args of
                  TStr a # args' \<Rightarrow>
                    (case toc_quote a True of
                       None \<Rightarrow> None
                     | Some s \<Rightarrow>
                         if length data + 6 + length s > 2047 then Some None
                         else toc_format f' args' (data @ s))
                | _ \<Rightarrow> None)
             else if d = CHR ''S'' then
               (case args of
                  TStr s # args' \<Rightarrow>
                    if length data + 6 + length s > 2047 then Some None
                    else toc_format f' args' (data @ s)
                | _ \<Rightarrow> None)
             else if d = CHR ''%'' then
               if length data + 6 \<ge> 2048 then None else toc_format f' args (data @ ''%'')
             else toc_format f' args data)
      else if length data + 6 \<ge> 2048 then None
      else let data = data @ [c] in
        if length data + 6 > 2047 then Some None else toc_format f args data)"

section \<open>Properties of words\<close>

definition quote_char :: "char \<Rightarrow> string" where
  "quote_char c = (if toc_special c then [CHR 0x5C, c] else [c])"

lemma quote_loop_result: "quote_loop out s = Some q \<Longrightarrow> q = out @ concat (map quote_char s)"
  by (induction out s rule: quote_loop.induct) (auto simp: quote_char_def split: if_split_asm)

lemma quote_loop_fits: "length out + 2 * length s \<le> 2046 \<Longrightarrow> quote_loop out s \<noteq> None"
  by (induction out s rule: quote_loop.induct) auto

lemma length_trim_blanks: "length (trim_blanks s) \<le> length s"
  unfolding trim_blanks_def by (metis length_dropWhile_le length_rev order_trans)

text \<open>How a peer reads a quoted word, behind the opening quote: the word and what follows it.\<close>

fun toc_unquote :: "string \<Rightarrow> (string \<times> string) option" where
  "toc_unquote [] = None"
| "toc_unquote (c # cs) =
     (if c = CHR 0x22 then Some ([], cs)
      else if c = CHR 0x5C then
        (case cs of [] \<Rightarrow> None | d # ds \<Rightarrow> map_option (\<lambda>(w, r). (d # w, r)) (toc_unquote ds))
      else map_option (\<lambda>(w, r). (c # w, r)) (toc_unquote cs))"

lemma toc_unquote_quoted:
  "toc_unquote (concat (map quote_char s) @ CHR 0x22 # rest) = Some (s, rest)"
proof (induction s)
  case (Cons c s)
  have "c \<noteq> CHR 0x22 \<and> c \<noteq> CHR 0x5C" if "\<not> toc_special c" using that by (auto simp: toc_special_def)
  with Cons show ?case by (auto simp: quote_char_def)
qed simp

text \<open>
  C16. A word that the driver quotes is read back by the peer as the word without the blanks around
  it, whatever characters it has and whatever follows: quotes, brackets and backslashes of a user
  cannot end the word. Words of up to 1022 bytes can be quoted.
\<close>

theorem toc_quote_roundtrip:
  assumes "length s \<le> 1022"
  shows "\<exists>q. toc_quote s True = Some (CHR 0x22 # q) \<and> toc_unquote (q @ rest) = Some (trim_blanks s, rest)"
proof -
  have "quote_loop [CHR 0x22] (trim_blanks s) \<noteq> None"
    by (rule quote_loop_fits) (use assms length_trim_blanks [of s] in simp)
  then obtain q where q: "quote_loop [CHR 0x22] (trim_blanks s) = Some q" by blast
  then have "q = CHR 0x22 # concat (map quote_char (trim_blanks s))" by (drule_tac quote_loop_result) simp
  with q show ?thesis by (simp add: toc_quote_def toc_unquote_quoted)
qed

theorem toc_quote_roundtrip_witness:
  "\<exists>q. toc_quote (''  say '' @ [CHR 0x22] @ ''$HOME'' @ [CHR 0x22] @ '' '') True = Some (CHR 0x22 # q) \<and>
     toc_unquote (q @ '' auto'') = Some (''say '' @ [CHR 0x22] @ ''$HOME'' @ [CHR 0x22], '' auto'')"
proof -
  have t: "trim_blanks (''  say '' @ [CHR 0x22] @ ''$HOME'' @ [CHR 0x22] @ '' '') = ''say '' @ [CHR 0x22] @ ''$HOME'' @ [CHR 0x22]"
    by code_simp
  show ?thesis
    using toc_quote_roundtrip [of "''  say '' @ [CHR 0x22] @ ''$HOME'' @ [CHR 0x22] @ '' ''" "'' auto''"]
    unfolding t by simp
qed

text \<open>What the server does with the disguised password.\<close>

definition hex_val :: "char \<Rightarrow> nat" where
  "hex_val c = (if c_isdigit c then of_char c - 48 else of_char c - 55)"

fun toc_unroast :: "nat \<Rightarrow> string \<Rightarrow> string" where
  "toc_unroast i (a # b # r) = char_of ((16 * hex_val a + hex_val b) XOR roast_key i) # toc_unroast (Suc i) r"
| "toc_unroast i _ = []"

lemma hex_val_digit [simp]: "hex_val (hex_digit n) = n mod 16"
proof -
  have "n mod 16 < 16" by simp
  then show ?thesis by (auto simp: hex_val_def hex_digit_def c_isdigit_def of_char_of)
qed

lemma roast_key_less: "roast_key i < 128"
proof -
  have "i mod 7 < 7" by simp
  then have "i mod 7 \<in> {0, 1, 2, 3, 4, 5, 6}" by auto
  then show ?thesis unfolding roast_key_def by auto
qed

lemma xor_less_128: "a < 128 \<Longrightarrow> b < 128 \<Longrightarrow> a XOR b < (128 :: nat)"
proof -
  assume "a < 128" "b < 128"
  then have "take_bit 7 a = a" "take_bit 7 b = b" by (simp_all add: take_bit_nat_eq_self)
  then have "take_bit 7 (a XOR b) = a XOR b" by (simp add: take_bit_xor)
  then show ?thesis using take_bit_nat_less_exp [of 7 "a XOR b"] by simp
qed

lemma hash_loop_ascii:
  "\<forall>c \<in> set p. (of_char c :: nat) < 128 \<Longrightarrow> length out + 2 * length p \<le> 2046 \<Longrightarrow>
   \<exists>h. hash_loop i out p = Some (Some (out @ h)) \<and> toc_unroast i h = p"
proof (induction p arbitrary: i out)
  case (Cons c p)
  let ?n = "of_char c XOR roast_key i"
  have n: "?n < 128" using Cons.prems roast_key_less by (intro xor_less_128) auto
  then have two: "16 * (?n div 16 mod 16) + ?n mod 16 = ?n" by simp
  obtain h where "hash_loop (Suc i) (out @ hex2 ?n) p = Some (Some ((out @ hex2 ?n) @ h))" "toc_unroast (Suc i) h = p"
    using Cons.IH [of "out @ hex2 ?n" "Suc i"] Cons.prems by (auto simp: hex2_def)
  moreover have "toc_unroast i (hex2 ?n @ h) = c # toc_unroast (Suc i) h"
    using two by (simp add: hex2_def xor.assoc)
  ultimately show ?case using Cons.prems by auto
qed simp

text \<open>
  The server reads the password back from its disguise when all its bytes are below 128.
\<close>

theorem toc_password_roundtrip:
  assumes "\<forall>c \<in> set p. (of_char c :: nat) < 128" "length p \<le> 1022"
  shows "\<exists>h. toc_hash_password p = Some (Some (''0x'' @ h)) \<and> toc_unroast 0 h = p"
  using hash_loop_ascii [OF assms(1), of "''0x''" 0] assms(2) by (simp add: toc_hash_password_def)

theorem toc_password_roundtrip_witness:
  "\<exists>h. toc_hash_password ''secret'' = Some (Some (''0x'' @ h)) \<and> toc_unroast 0 h = ''secret''"
  using toc_password_roundtrip [of "''secret''"] by simp

lemma hash_loop_high:
  "list_all2 (\<lambda>a b. a = b \<or> 128 \<le> (of_char a :: nat) \<and> 128 \<le> (of_char b :: nat)) p p' \<Longrightarrow>
   hash_loop i out p = hash_loop i out p'"
  by (induction i out p arbitrary: p' rule: hash_loop.induct) (auto simp: list_all2_Cons1)

text \<open>
  Bytes from 128 on all look the same in the disguised password: a password with other letters in
  their place is sent as the same text, so the account of such a password cannot sign on.
\<close>

theorem toc_password_collides:
  "list_all2 (\<lambda>a b. a = b \<or> 128 \<le> (of_char a :: nat) \<and> 128 \<le> (of_char b :: nat)) p p' \<Longrightarrow>
   toc_hash_password p = toc_hash_password p'"
  unfolding toc_hash_password_def by (rule hash_loop_high)

theorem toc_password_collides_witness:
  "toc_hash_password [CHR ''a'', CHR 0xE4] = toc_hash_password [CHR ''a'', CHR 0xFC]"
  by (rule toc_password_collides) simp

end
