(* ===== verification/FtToc.thy ===== *)
theory FtToc
  imports FtTocFrame
begin

text \<open>
  The TOC driver of \<open>firetalk/toc.c\<close>: its connection record with the table of rooms, the messages it
  sends, and reading a frame from the buffer. What it does with a message of the server is in
  \<open>FtTocMsg\<close>.

  The state is the record of the connection, the static buffers of \<open>firetalk_debase64\<close> and of
  \<open>toc_get_info\<close>, the session layer, and the frames that were handed to
  \<open>firetalk_internal_send_data\<close>. Handlers of the client act on the session layer only.
  \<open>ENABLE_NEWGROUPS\<close>, \<open>ENABLE_GETREALNAME\<close> and \<open>ENABLE_FILE_OFFER\<close> are defined nowhere.
\<close>

section \<open>State\<close>

record toc_room =
  tr_exchange :: int
  tr_name :: string
  tr_id :: int
  tr_invited :: bool
  tr_joined :: bool

record toc_conn =
  tc_local_sequence :: "16 word"
  tc_remote_sequence :: "16 word"
  tc_nickname :: "string option"
  tc_awaymsg :: "string option"
  tc_awaysince :: int
  tc_rooms :: "toc_room list"
  tc_lastself :: int
  tc_lasttalk :: int
  tc_lastidle :: int
  tc_passchange :: bool
  tc_gotconfig :: bool
  tc_connectstate :: int
  tc_permit_mode :: int
  tc_buddybuf :: string
  tc_buddybuflen :: nat
  tc_buddybuflastgroup :: string

record toc_state =
  t_conn :: toc_conn
  t_debase :: string
  t_lastinfo :: string
  t_ft :: ft_state
  t_sent :: "string list"

text \<open>
  The environment: as for IRC, and the time, the local time, what the client makes of the idle time,
  and the name and version of the package.
\<close>

record toc_env =
  te_ps :: "ft_protocol list"
  te_sub :: sub_env
  te_junk :: int
  te_on_message :: "ft_state \<Rightarrow> ft_state option"
  te_handler :: "nat \<Rightarrow> ft_state \<Rightarrow> ft_state option"
  te_send :: "string list \<Rightarrow> string \<Rightarrow> int"
  te_password :: "int \<Rightarrow> string"
  te_localip :: "32 word"
  te_now :: int
  te_tm :: "c_tm option"
  te_setidle :: "int \<Rightarrow> int"
  te_package :: string
  te_version :: string
  te_bugreport :: string

type_synonym toc_op = "toc_state \<Rightarrow> (fte \<times> toc_state) option"

definition toc_ft :: "(ft_state \<Rightarrow> ft_state option) \<Rightarrow> toc_state \<Rightarrow> toc_state option" where
  "toc_ft f s = map_option (\<lambda>st. s\<lparr>t_ft := st\<rparr>) (f (t_ft s))"

definition put_toc :: "(toc_conn \<Rightarrow> toc_conn) \<Rightarrow> toc_state \<Rightarrow> toc_state" where
  "put_toc f s = s\<lparr>t_conn := f (t_conn s)\<rparr>"

definition toc_error :: "fte \<Rightarrow> toc_state \<Rightarrow> toc_state" where
  "toc_error e s = s\<lparr>t_ft := (t_ft s)\<lparr>s_error := e\<rparr>\<rparr>"

section \<open>Sending\<close>

definition toc_send_frame :: "toc_env \<Rightarrow> client \<Rightarrow> string \<Rightarrow> toc_state \<Rightarrow> toc_state option" where
  "toc_send_frame env c text s = do {
     conn \<leftarrow> firetalk_find_handle c (t_ft s);
     let s = put_toc (\<lambda>k. k\<lparr>tc_local_sequence := tc_local_sequence k + 1\<rparr>) s;
     let data = toc_frame (tc_local_sequence (t_conn s)) text;
     st \<leftarrow> firetalk_internal_send_data conn data (te_send env (t_sent s) data) (t_ft s);
     Some (s\<lparr>t_ft := st, t_sent := t_sent s @ [data]\<rparr>)
   }"

definition toc_send_printf :: "toc_env \<Rightarrow> client \<Rightarrow> string \<Rightarrow> toc_arg list \<Rightarrow> toc_op" where
  "toc_send_printf env c format args s = do {
     r \<leftarrow> toc_format format args [];
     (case r of
        None \<Rightarrow> Some (FE_PACKETSIZE, s)
      | Some text \<Rightarrow> map_option (Pair FE_SUCCESS) (toc_send_frame env c text s))
   }"

text \<open>
  The end of a session. The two messages that the driver sends first go out before the session layer
  closes the connection.
\<close>

definition toc_internal_disconnect :: "toc_env \<Rightarrow> client \<Rightarrow> fte \<Rightarrow> toc_op" where
  "toc_internal_disconnect env c error s =
     (if tc_awaymsg (t_conn s) \<noteq> None \<and> \<not> 0 < tc_awaysince (t_conn s) then None
      else do {
        let s = put_toc (\<lambda>k. k\<lparr>tc_nickname := None,
          tc_awaysince := (if tc_awaymsg k = None then tc_awaysince k else 0),
          tc_awaymsg := None, tc_rooms := [], tc_buddybuflastgroup := [], tc_buddybuflen := 0\<rparr>) s;
        (_, s) \<leftarrow> toc_send_printf env c ''toc_set_dir %s'' [TStr []] s;
        (_, s) \<leftarrow> toc_send_printf env c ''toc_noop'' [] s;
        s \<leftarrow> toc_ft (firetalk_callback_disconnect c error) s;
        Some (FE_SUCCESS, s)
      })"

section \<open>The table of rooms\<close>

abbreviation same_aim :: "string \<Rightarrow> string \<Rightarrow> bool" where
  "same_aim a b \<equiv> toc_compare_nicks (Some a) (Some b) = FE_SUCCESS"

definition put_rooms :: "(toc_room list \<Rightarrow> toc_room list) \<Rightarrow> toc_state \<Rightarrow> toc_state" where
  "put_rooms f = put_toc (\<lambda>k. k\<lparr>tc_rooms := f (tc_rooms k)\<rparr>)"

definition toc_internal_add_room :: "string \<Rightarrow> int \<Rightarrow> toc_state \<Rightarrow> toc_state" where
  "toc_internal_add_room name exchange =
     put_rooms (\<lambda>rs. \<lparr>tr_exchange = exchange, tr_name = name, tr_id = 0, tr_invited = False,
       tr_joined = False\<rparr> # rs)"

text \<open>The first room that satisfies a condition is changed; without one the answer is \<open>FE_NOTFOUND\<close>.\<close>

definition set_room :: "(toc_room \<Rightarrow> bool) \<Rightarrow> (toc_room \<Rightarrow> toc_room) \<Rightarrow> toc_state \<Rightarrow> fte \<times> toc_state" where
  "set_room p f s =
     (if \<exists>r \<in> set (tc_rooms (t_conn s)). p r then (FE_SUCCESS, put_rooms (map_first p f) s)
      else (FE_NOTFOUND, s))"

definition toc_internal_set_joined :: "int \<Rightarrow> toc_state \<Rightarrow> fte \<times> toc_state" where
  "toc_internal_set_joined i =
     set_room (\<lambda>r. \<not> tr_joined r \<and> tr_id r = i) (\<lambda>r. r\<lparr>tr_joined := True\<rparr>)"

definition toc_internal_set_id :: "string \<Rightarrow> int \<Rightarrow> int \<Rightarrow> toc_state \<Rightarrow> fte \<times> toc_state" where
  "toc_internal_set_id name exchange i =
     set_room (\<lambda>r. \<not> tr_joined r \<and> tr_exchange r = exchange \<and> same_aim (tr_name r) name) (\<lambda>r. r\<lparr>tr_id := i\<rparr>)"

definition toc_internal_set_room_invited :: "string \<Rightarrow> bool \<Rightarrow> toc_state \<Rightarrow> fte \<times> toc_state" where
  "toc_internal_set_room_invited name invited =
     set_room (\<lambda>r. same_aim (tr_name r) name) (\<lambda>r. r\<lparr>tr_invited := invited\<rparr>)"

definition toc_internal_find_exchange :: "string \<Rightarrow> toc_state \<Rightarrow> int \<times> toc_state" where
  "toc_internal_find_exchange name s =
     (case List.find (\<lambda>r. \<not> tr_joined r \<and> same_aim (tr_name r) name) (tc_rooms (t_conn s)) of
        Some r \<Rightarrow> (tr_exchange r, s)
      | None \<Rightarrow> (0, toc_error FE_NOTFOUND s))"

definition toc_internal_split_exchange :: "string \<Rightarrow> int" where
  "toc_internal_split_exchange str = atoi str"

definition toc_internal_split_name :: "string \<Rightarrow> string option" where
  "toc_internal_split_name str = map_option (\<lambda>i. drop (Suc i) str) (strchr str (CHR '':''))"

definition toc_internal_find_room_id :: "string \<Rightarrow> toc_state \<Rightarrow> (int \<times> toc_state) option" where
  "toc_internal_find_room_id name s = do {
     namepart \<leftarrow> toc_internal_split_name name;
     let exchange = toc_internal_split_exchange name;
     Some (case List.find (\<lambda>r. tr_exchange r = exchange \<and> same_aim (tr_name r) namepart) (tc_rooms (t_conn s)) of
        Some r \<Rightarrow> (c_int (tr_id r), s)
      | None \<Rightarrow> (0, toc_error FE_NOTFOUND s))
   }"

definition toc_internal_find_room_name :: "int \<Rightarrow> toc_state \<Rightarrow> string option \<times> toc_state" where
  "toc_internal_find_room_name i s =
     (case List.find (\<lambda>r. tr_id r = i) (tc_rooms (t_conn s)) of
        Some r \<Rightarrow> (Some (take 2047 (show_int (tr_exchange r) @ '':'' @ tr_name r)), s)
      | None \<Rightarrow> (None, toc_error FE_NOTFOUND s))"

text \<open>Whether we were invited; \<open>None\<close> is the answer -1.\<close>

definition toc_internal_get_room_invited :: "string \<Rightarrow> toc_state \<Rightarrow> bool option" where
  "toc_internal_get_room_invited name s =
     map_option tr_invited (List.find (\<lambda>r.
       toc_compare_nicks (aim_normalize_room_name (Some (tr_name r))) (Some name) = FE_SUCCESS) (tc_rooms (t_conn s)))"

section \<open>Commands\<close>

definition toc_isprint :: "int \<Rightarrow> fte" where
  "toc_isprint c =
     (if 0 \<le> c \<and> c \<le> 255 \<and> ((32 \<le> c \<and> c \<le> 126) \<or> 160 \<le> c) then FE_SUCCESS else FE_INVALIDFORMAT)"

definition toc_create_handle :: "toc_env \<Rightarrow> toc_conn" where
  "toc_create_handle env = \<lparr>tc_local_sequence = 0, tc_remote_sequence = 0, tc_nickname = None,
     tc_awaymsg = None, tc_awaysince = 0, tc_rooms = [], tc_lastself = 0, tc_lasttalk = te_now env,
     tc_lastidle = 0, tc_passchange = False, tc_gotconfig = False, tc_connectstate = 0,
     tc_permit_mode = 0, tc_buddybuf = [], tc_buddybuflen = 0, tc_buddybuflastgroup = []\<rparr>"

text \<open>\<open>toc_destroy_handle\<close> frees the record; the rest of the state is left.\<close>

definition toc_destroy_handle :: "toc_env \<Rightarrow> client \<Rightarrow> toc_state \<Rightarrow> toc_state option" where
  "toc_destroy_handle env c s = do {
     (_, s) \<leftarrow> toc_internal_disconnect env c FE_USERDISCONNECT s;
     if tc_nickname (t_conn s) = None \<and> tc_awaymsg (t_conn s) = None \<and> tc_awaysince (t_conn s) = 0 \<and>
       tc_rooms (t_conn s) = [] then Some s else None
   }"

definition toc_disconnect :: "toc_env \<Rightarrow> client \<Rightarrow> toc_op" where
  "toc_disconnect env c = toc_internal_disconnect env c FE_USERDISCONNECT"

definition SIGNON_STRING :: string where
  "SIGNON_STRING = ''FLAPON'' @ [CR, LF, CR, LF]"

text \<open>The first bytes of a connection are no frame; they are handed over before any frame.\<close>

definition toc_signon :: "toc_env \<Rightarrow> client \<Rightarrow> string \<Rightarrow> toc_op" where
  "toc_signon env c username s = do {
     conn \<leftarrow> firetalk_find_handle c (t_ft s);
     let s = put_toc (\<lambda>k. k\<lparr>tc_lasttalk := te_now env, tc_connectstate := 0, tc_permit_mode := 0,
       tc_gotconfig := False, tc_nickname := Some username\<rparr>) s;
     st \<leftarrow> firetalk_internal_send_data conn SIGNON_STRING (te_send env (t_sent s) SIGNON_STRING) (t_ft s);
     Some (FE_SUCCESS, s\<lparr>t_ft := st, t_sent := t_sent s @ [SIGNON_STRING]\<rparr>)
   }"

definition toc_im_remove_buddy :: "toc_env \<Rightarrow> client \<Rightarrow> string \<Rightarrow> string \<Rightarrow> toc_op" where
  "toc_im_remove_buddy env c name grp =
     toc_send_printf env c ''toc2_remove_buddy %s %s'' [TStr name, TStr grp]"

text \<open>
  New buddies are collected in a buffer of 1024 bytes; sending it empties the buffer, but leaves its
  bytes, which are the text of the message.
\<close>

definition toc_im_add_buddy_flush :: "toc_env \<Rightarrow> client \<Rightarrow> toc_op" where
  "toc_im_add_buddy_flush env c s =
     (if 0 < tc_buddybuflen (t_conn s) then
        let text = tc_buddybuf (t_conn s) in
        toc_send_printf env c ''toc2_new_buddies {%S}'' [TStr text]
          (put_toc (\<lambda>k. k\<lparr>tc_buddybuflastgroup := [], tc_buddybuflen := 0\<rparr>) s)
      else Some (FE_SUCCESS, s))"

definition buddy_entry :: "string \<Rightarrow> string \<Rightarrow> string \<Rightarrow> string option \<Rightarrow> string" where
  "buddy_entry lastgroup name grp friendly =
     take 1023 ((if strcmp lastgroup grp = 0 then [] else ''g:'' @ grp @ [LF]) @ ''b:'' @ name @
       (case friendly of None \<Rightarrow> [] | Some f \<Rightarrow> CHR '':'' # f) @ [LF])"

definition toc_im_add_buddy :: "toc_env \<Rightarrow> client \<Rightarrow> string \<Rightarrow> string \<Rightarrow> string option \<Rightarrow> toc_op" where
  "toc_im_add_buddy env c name grp friendly s =
     (if \<not> tc_gotconfig (t_conn s) then Some (FE_SUCCESS, s)
      else do {
        let buf = buddy_entry (tc_buddybuflastgroup (t_conn s)) name grp friendly;
        let s = put_toc (\<lambda>k. k\<lparr>tc_buddybuflastgroup := grp\<rparr>) s;
        (_, s) \<leftarrow> (if tc_buddybuflen (t_conn s) + length buf + 1 \<ge> 1024
          then toc_im_add_buddy_flush env c s else Some (FE_SUCCESS, s));
        if tc_buddybuflen (t_conn s) + length buf + 1 \<ge> 1024 then Some (FE_PACKET, s)
        else Some (FE_SUCCESS, put_toc (\<lambda>k. k\<lparr>tc_buddybuf := take (tc_buddybuflen k) (tc_buddybuf k) @ buf,
          tc_buddybuflen := tc_buddybuflen k + length buf\<rparr>) s)
      })"

definition toc_im_add_deny :: "toc_env \<Rightarrow> client \<Rightarrow> string \<Rightarrow> toc_op" where
  "toc_im_add_deny env c name = toc_send_printf env c ''toc2_add_deny %s'' [TStr name]"

definition toc_im_remove_deny :: "toc_env \<Rightarrow> client \<Rightarrow> string \<Rightarrow> toc_op" where
  "toc_im_remove_deny env c name = toc_send_printf env c ''toc2_remove_deny %s'' [TStr name]"

fun upload_buddies :: "toc_env \<Rightarrow> client \<Rightarrow> ft_buddy list \<Rightarrow> toc_state \<Rightarrow> toc_state option" where
  "upload_buddies env c [] s = Some s"
| "upload_buddies env c (b # bs) s = do {
     (_, s) \<leftarrow> toc_im_add_buddy env c (b_nickname b) (b_group b) (b_friendly b) s;
     upload_buddies env c bs s
   }"

definition toc_im_upload_buddies :: "toc_env \<Rightarrow> client \<Rightarrow> toc_op" where
  "toc_im_upload_buddies env c s = do {
     conn \<leftarrow> firetalk_find_handle c (t_ft s);
     h \<leftarrow> the_handle conn (t_ft s);
     s \<leftarrow> upload_buddies env c (h_buddies h) s;
     Some (FE_SUCCESS, s)
   }"

text \<open>
  The names of denied users are collected and sent when they have more than 2000 bytes; a name that
  does not fit into the buffer of 2048 bytes is written behind it, and \<open>toc_quote\<close> may refuse it.
\<close>

fun upload_denies :: "toc_env \<Rightarrow> client \<Rightarrow> string \<Rightarrow> ft_deny list \<Rightarrow> toc_state \<Rightarrow> (string \<times> toc_state) option" where
  "upload_denies env c data [] s = Some (data, s)"
| "upload_denies env c data (d # ds) s = do {
     q \<leftarrow> toc_quote (d_nickname d) False;
     let data = data @ '' '' @ q;
     if length data + 7 > 2048 then None
     else if length data > 2000 then do {
       s \<leftarrow> toc_send_frame env c data s;
       upload_denies env c ''toc_add_deny'' ds s
     } else upload_denies env c data ds s
   }"

definition toc_im_upload_denies :: "toc_env \<Rightarrow> client \<Rightarrow> toc_op" where
  "toc_im_upload_denies env c s = do {
     conn \<leftarrow> firetalk_find_handle c (t_ft s);
     h \<leftarrow> the_handle conn (t_ft s);
     if h_denies h = [] then Some (FE_SUCCESS, s)
     else do {
       (data, s) \<leftarrow> upload_denies env c ''toc_add_deny'' (h_denies h) s;
       s \<leftarrow> toc_send_frame env c data s;
       Some (FE_SUCCESS, s)
     }
   }"

section \<open>Messages\<close>

text \<open>
  Bytes that cannot be printed become numeric entities. The buffer has 2048 bytes: \<open>None\<close> is
  \<open>FE_PACKETSIZE\<close>, and the loop ends when the buffer is full.
\<close>

fun toc_entities :: "string \<Rightarrow> string \<Rightarrow> string option" where
  "toc_entities buf [] = Some buf"
| "toc_entities buf (c # cs) =
     (if \<not> length buf < 2047 then Some buf
      else if toc_isprint (of_char c) = FE_SUCCESS then toc_entities (buf @ [c]) cs
      else
        let num = ''&#'' @ show_int (of_char c) @ '';'' in
        if length buf + length num \<ge> 2047 then None else toc_entities (buf @ num) cs)"

text \<open>The queue is the one of the replies for an automatic message and the one of the requests otherwise.\<close>

definition toc_internal_send_message ::
  "toc_env \<Rightarrow> client \<Rightarrow> string \<Rightarrow> string \<Rightarrow> bool \<Rightarrow> toc_op" where
  "toc_internal_send_message env c dest message isauto s =
     (if dest = [] then None
      else
        let s = (if isauto then s else put_toc (\<lambda>k. k\<lparr>tc_lasttalk := te_now env\<rparr>) s) in
        if length message \<ge> 2047 then Some (FE_PACKETSIZE, s)
        else (case toc_entities [] message of
           None \<Rightarrow> Some (FE_PACKETSIZE, s)
         | Some buf \<Rightarrow> do {
             conn \<leftarrow> firetalk_find_handle c (t_ft s);
             h \<leftarrow> the_handle conn (t_ft s);
             let (buf, h) = (if isauto
               then (case firetalk_queue_append buf 2048 (h_subcode_replies h) dest of
                 (buf, q) \<Rightarrow> (buf, h\<lparr>h_subcode_replies := q\<rparr>))
               else (case firetalk_queue_append buf 2048 (h_subcode_requests h) dest of
                 (buf, q) \<Rightarrow> (buf, h\<lparr>h_subcode_requests := q\<rparr>)));
             toc_send_printf env c ''toc2_send_im %s %s%S''
               [TStr dest, TStr buf, TStr (if isauto then '' auto'' else [])]
               (s\<lparr>t_ft := put_handle conn h (t_ft s)\<rparr>)
           }))"

definition interpolate :: "toc_env \<Rightarrow> string \<Rightarrow> string option \<Rightarrow> string option" where
  "interpolate env input nickname = do {
     n \<leftarrow> nickname;
     r \<leftarrow> aim_interpolate_variables (te_tm env) input n;
     r
   }"

definition toc_im_send_reply :: "toc_env \<Rightarrow> client \<Rightarrow> string \<Rightarrow> string \<Rightarrow> toc_op" where
  "toc_im_send_reply env c dest message s =
     (if strcasecmp dest '':RAW'' = 0 then toc_send_printf env c ''%S'' [TStr message] s
      else do {
        message \<leftarrow> interpolate env message (Some dest);
        toc_internal_send_message env c dest message True s
      })"

definition toc_im_send_message :: "toc_env \<Rightarrow> client \<Rightarrow> string \<Rightarrow> string \<Rightarrow> int \<Rightarrow> toc_op" where
  "toc_im_send_message env c dest message auto_flag s =
     (if strcasecmp dest '':RAW'' = 0 then toc_send_printf env c ''%S'' [TStr message] s
      else if auto_flag \<noteq> 0 then toc_im_send_reply env c dest message s
      else toc_internal_send_message env c dest message False s)"

definition toc_im_send_action :: "toc_env \<Rightarrow> client \<Rightarrow> string \<Rightarrow> string \<Rightarrow> int \<Rightarrow> toc_op" where
  "toc_im_send_action env c dest message auto_flag s =
     (if strcasecmp dest '':RAW'' = 0 then toc_send_printf env c ''%S'' [TStr message] s
      else if length message > 2042 then Some (FE_PACKETSIZE, s)
      else toc_internal_send_message env c dest (take 2047 (''/me '' @ message)) False s)"

definition toc_preselect :: "toc_env \<Rightarrow> client \<Rightarrow> toc_op" where
  "toc_preselect env c s = do {
     (_, s) \<leftarrow> toc_im_add_buddy_flush env c s;
     Some (FE_SUCCESS, s)
   }"

section \<open>Information and settings\<close>

definition toc_get_info :: "toc_env \<Rightarrow> client \<Rightarrow> string \<Rightarrow> toc_op" where
  "toc_get_info env c nickname s =
     toc_send_printf env c ''toc_locate_user %s'' [TStr nickname] (s\<lparr>t_lastinfo := take 16 nickname\<rparr>)"

text \<open>
  The profile and the answer to a request for the version share a buffer of 1024 bytes. When the
  answer alone fills it, the length left for the profile is negative, and \<open>printf\<close> takes no notice
  of a negative precision.
\<close>

definition toc_set_info :: "toc_env \<Rightarrow> client \<Rightarrow> string \<Rightarrow> toc_op" where
  "toc_set_info env c info s =
     (if length info \<ge> 1024 then do {
        s \<leftarrow> toc_ft (firetalk_callback_error c FE_MESSAGETRUNCATED None (Some ''Profile too long'')) s;
        Some (FE_MESSAGETRUNCATED, s)
      }
      else do {
        reply \<leftarrow> firetalk_subcode_get_request_reply c ''VERSION'' (t_ft s);
        let versionctcp = toc_ctcp_encode ''VERSION'' (Some (case reply of
          None \<Rightarrow> te_package env @ '':'' @ te_version env @ '':unknown'' | Some r \<Rightarrow> r));
        let extralen = length versionctcp;
        (info, s) \<leftarrow> (if length info + extralen \<ge> 1024 then do {
            s \<leftarrow> toc_ft (firetalk_callback_error c FE_MESSAGETRUNCATED None
              (Some ''Profile+away message too long, truncating'')) s;
            Some (if extralen \<le> 1023 then take (1023 - extralen) info else info, s)
          } else Some (info, s));
        toc_send_printf env c ''toc_set_info %s'' [TStr (take 1023 (info @ versionctcp))] s
      })"

definition toc_set_away :: "toc_env \<Rightarrow> client \<Rightarrow> string option \<Rightarrow> int \<Rightarrow> toc_op" where
  "toc_set_away env c message auto_flag s =
     (case message of
        Some m \<Rightarrow>
          if length m \<ge> 1024 then do {
            s \<leftarrow> toc_ft (firetalk_callback_error c FE_MESSAGETRUNCATED None (Some ''Message too long'')) s;
            Some (FE_MESSAGETRUNCATED, s)
          }
          else toc_send_printf env c ''toc_set_away %s'' [TStr m]
            (put_toc (\<lambda>k. k\<lparr>tc_awaymsg := Some m, tc_awaysince := te_now env\<rparr>) s)
      | None \<Rightarrow> toc_send_printf env c ''toc_set_away'' []
          (put_toc (\<lambda>k. k\<lparr>tc_awaymsg := None, tc_awaysince := 0\<rparr>) s))"

definition toc_set_nickname :: "toc_env \<Rightarrow> client \<Rightarrow> string \<Rightarrow> toc_op" where
  "toc_set_nickname env c nickname = toc_send_printf env c ''toc_format_nickname %s'' [TStr nickname]"

text \<open>\<open>passchange\<close> is a field of one bit: counting up and down changes it.\<close>

definition toc_set_password :: "toc_env \<Rightarrow> client \<Rightarrow> string \<Rightarrow> string \<Rightarrow> toc_op" where
  "toc_set_password env c oldpass newpass s =
     toc_send_printf env c ''toc_change_passwd %s %s'' [TStr oldpass, TStr newpass]
       (put_toc (\<lambda>k. k\<lparr>tc_passchange := \<not> tc_passchange k\<rparr>) s)"

definition privacy_mode :: "string \<Rightarrow> int option" where
  "privacy_mode mode =
     (if strcasecmp mode ''ALLOW ALL'' = 0 then Some 1
      else if strcasecmp mode ''BLOCK ALL'' = 0 then Some 2
      else if strcasecmp mode ''ALLOW PERMIT'' = 0 then Some 3
      else if strcasecmp mode ''BLOCK DENY'' = 0 then Some 4
      else if strcasecmp mode ''ALLOW BUDDY'' = 0 then Some 5
      else None)"

definition toc_set_privacy :: "toc_env \<Rightarrow> client \<Rightarrow> string \<Rightarrow> toc_op" where
  "toc_set_privacy env c mode s =
     (case privacy_mode mode of
        Some m \<Rightarrow> toc_send_printf env c ''toc2_set_pdmode %i'' [TInt m] (put_toc (\<lambda>k. k\<lparr>tc_permit_mode := m\<rparr>) s)
      | None \<Rightarrow> do {
          s \<leftarrow> toc_ft (firetalk_callback_error c FE_BADMESSAGE None
            (Some ''Supported modes: ALLOW ALL, BLOCK ALL, ALLOW PERMIT, BLOCK DENY, ALLOW BUDDY'')) s;
          Some (FE_BADMESSAGE, s)
        })"

definition toc_im_evil :: "toc_env \<Rightarrow> client \<Rightarrow> string \<Rightarrow> toc_op" where
  "toc_im_evil env c who = toc_send_printf env c ''toc_evil %s norm'' [TStr who]"

section \<open>Idle time\<close>

text \<open>The server is told when the idle time passes ten minutes and when it is over.\<close>

definition toc_periodic :: "toc_env \<Rightarrow> client \<Rightarrow> toc_op" where
  "toc_periodic env c s = do {
     fcs \<leftarrow> firetalk_internal_get_connectstate c (t_ft s);
     if fcs \<noteq> FCS_ACTIVE then Some (FE_NOTCONNECTED, s)
     else do {
       (r, s) \<leftarrow> (if tc_lastself (t_conn s) + 60 \<le> te_now env then do {
           n \<leftarrow> tc_nickname (t_conn s);
           toc_send_printf env c ''toc_get_status %s'' [TStr n] (put_toc (\<lambda>k. k\<lparr>tc_lastself := te_now env\<rparr>) s)
         } else Some (FE_SUCCESS, s));
       if r \<noteq> FE_SUCCESS then Some (r, s)
       else do {
         let idle = te_now env - tc_lasttalk (t_conn s);
         s \<leftarrow> toc_ft (firetalk_callback_setidle c idle) s;
         let idle = te_setidle env idle;
         let idle = (if idle < 600 then 0 else idle);
         let last = tc_lastidle (t_conn s);
         if c_div idle 60 = c_div last 60 then Some (FE_IDLEFAST, s)
         else if c_div last 60 = 0 \<and> c_div idle 60 = 0 then Some (FE_IDLEFAST, s)
         else if c_div last 60 \<noteq> 0 \<and> c_div idle 60 \<noteq> 0 then Some (FE_IDLEFAST, s)
         else toc_send_printf env c ''toc_set_idle %s'' [TStr (show_int idle)]
           (put_toc (\<lambda>k. k\<lparr>tc_lastidle := idle\<rparr>) s)
       }
     }
   }"

section \<open>Rooms\<close>

definition toc_chat_join :: "toc_env \<Rightarrow> client \<Rightarrow> string \<Rightarrow> toc_op" where
  "toc_chat_join env c room s =
     (if toc_internal_get_room_invited room s = Some True then do {
        let (_, s) = toc_internal_set_room_invited room False s;
        (i, s) \<leftarrow> toc_internal_find_room_id room s;
        toc_send_printf env c ''toc_chat_accept %i'' [TInt i] s
      }
      else do {
        n \<leftarrow> toc_internal_split_name room;
        let m = toc_internal_split_exchange room;
        toc_send_printf env c ''toc_chat_join %d %s'' [TInt m, TStr n] (toc_internal_add_room n m s)
      })"

definition toc_chat_part :: "toc_env \<Rightarrow> client \<Rightarrow> string \<Rightarrow> toc_op" where
  "toc_chat_part env c room s = do {
     (i, s) \<leftarrow> toc_internal_find_room_id room s;
     if i = 0 then Some (FE_ROOMUNAVAILABLE, s)
     else toc_send_printf env c ''toc_chat_leave %i'' [TInt i] s
   }"

definition toc_chat_send_message :: "toc_env \<Rightarrow> client \<Rightarrow> string \<Rightarrow> string \<Rightarrow> int \<Rightarrow> toc_op" where
  "toc_chat_send_message env c room message auto_flag s =
     (if length message > 232 then Some (FE_PACKETSIZE, s)
      else if strcasecmp room '':RAW'' = 0 then toc_send_printf env c ''%S'' [TStr message] s
      else do {
        (i, s) \<leftarrow> toc_internal_find_room_id room s;
        if i = 0 then Some (FE_ROOMUNAVAILABLE, s)
        else toc_send_printf env c ''toc_chat_send %i %s'' [TInt i, TStr message] s
      })"

definition toc_chat_send_action :: "toc_env \<Rightarrow> client \<Rightarrow> string \<Rightarrow> string \<Rightarrow> int \<Rightarrow> toc_op" where
  "toc_chat_send_action env c room message auto_flag s =
     (if length message > 228 then Some (FE_PACKETSIZE, s)
      else do {
        (i, s) \<leftarrow> toc_internal_find_room_id room s;
        toc_send_printf env c ''toc_chat_send %i %s'' [TInt i, TStr (''/me '' @ message)] s
      })"

definition toc_chat_invite :: "toc_env \<Rightarrow> client \<Rightarrow> string \<Rightarrow> string \<Rightarrow> string \<Rightarrow> toc_op" where
  "toc_chat_invite env c room who message s = do {
     (i, s) \<leftarrow> toc_internal_find_room_id room s;
     if i \<noteq> 0 then toc_send_printf env c ''toc_chat_invite %i %s %s'' [TInt i, TStr message, TStr who] s
     else Some (FE_NOTFOUND, s)
   }"

end
