(* ===== verification/FtTocCaps.thy ===== *)
theory FtTocCaps
  imports FtToc
begin

text \<open>
  Capabilities in the TOC driver (\<open>firetalk/toc.c\<close>, \<open>firetalk/toc2_uuids.h\<close>): the table of known
  capabilities, reading one from the text the server sends, and the names shown to the client; and the
  base64 reader of \<open>firetalk/firetalk.c\<close> with its static buffer.
\<close>

section \<open>Hexadecimal numbers\<close>

definition c_isxdigit :: "char \<Rightarrow> bool" where
  "c_isxdigit c \<longleftrightarrow> c_isdigit c \<or> c_tolower c \<in> set ''abcdef''"

definition xdigit_val :: "char \<Rightarrow> int" where
  "xdigit_val c = (if c_isdigit c then digit_val c else int (of_char (c_tolower c)) - 87)"

text \<open>\<open>strtol(s, NULL, 16)\<close> of numbers that are not out of range.\<close>

fun strtol_digits :: "int \<Rightarrow> string \<Rightarrow> int" where
  "strtol_digits acc [] = acc"
| "strtol_digits acc (c # cs) = (if c_isxdigit c then strtol_digits (16 * acc + xdigit_val c) cs else acc)"

definition strtol_prefix :: "string \<Rightarrow> int" where
  "strtol_prefix s =
     (case s of
        c # d # e # r \<Rightarrow> if c = CHR ''0'' \<and> c_tolower d = CHR ''x'' \<and> c_isxdigit e then strtol_digits 0 (e # r)
          else strtol_digits 0 s
      | _ \<Rightarrow> strtol_digits 0 s)"

fun strtol16 :: "string \<Rightarrow> int" where
  "strtol16 [] = 0"
| "strtol16 (c # cs) =
     (if c_isspace c then strtol16 cs
      else if c = CHR ''-'' then - strtol_prefix cs
      else if c = CHR ''+'' then strtol_prefix cs
      else strtol_prefix (c # cs))"

section \<open>The table\<close>

text \<open>A field -1 in the table stands for any value.\<close>

definition toc_uuids :: "(string \<times> int list) list" where
  "toc_uuids = [
     (''ICHAT'', [0x0946, 0x0000, 0x4C7F, 0x11D1, 0x8222, 0x4445, 0x5354, 0x0000]),
     (''SECURE_IM'', [0x0946, 0x0001, 0x4C7F, 0x11D1, 0x8222, 0x4445, 0x5354, 0x0000]),
     (''VIDEO'', [0x0946, 0x0100, 0x4C7F, 0x11D1, 0x8222, 0x4445, 0x5354, 0x0000]),
     (''LIVE_VIDEO'', [0x0946, 0x0101, 0x4C7F, 0x11D1, 0x8222, 0x4445, 0x5354, 0x0000]),
     (''CAMERA'', [0x0946, 0x0102, 0x4C7F, 0x11D1, 0x8222, 0x4445, 0x5354, 0x0000]),
     (''ICHATAV'', [0x0946, 0x0105, 0x4C7F, 0x11D1, 0x8222, 0x4445, 0x5354, 0x0000]),
     (''SMS'', [0x0946, 0x01FF, 0x4C7F, 0x11D1, 0x8222, 0x4445, 0x5354, 0x0000]),
     (''HIPTOP'', [0x0946, 0x1323, 0x4C7F, 0x11D1, 0x8222, 0x4445, 0x5354, 0x0000]),
     (''AOL_TALK'', [0x0946, 0x1341, 0x4C7F, 0x11D1, 0x8222, 0x4445, 0x5354, 0x0000]),
     (''DIRECT_PLAY'', [0x0946, 0x1342, 0x4C7F, 0x11D1, 0x8222, 0x4445, 0x5354, 0x0000]),
     (''FILE_TRANSFER'', [0x0946, 0x1343, 0x4C7F, 0x11D1, 0x8222, 0x4445, 0x5354, 0x0000]),
     (''ICQ_DIRECT_CONNECT'', [0x0946, 0x1344, 0x4C7F, 0x11D1, 0x8222, 0x4445, 0x5354, 0x0000]),
     (''DIRECT_ICBM'', [0x0946, 0x1345, 0x4C7F, 0x11D1, 0x8222, 0x4445, 0x5354, 0x0000]),
     (''AVATAR'', [0x0946, 0x1346, 0x4C7F, 0x11D1, 0x8222, 0x4445, 0x5354, 0x0000]),
     (''COMMAND_LINE_GAMES'', [0x0946, 0x1347, 0x4C7F, 0x11D1, 0x8222, 0x4445, 0x5354, 0x0000]),
     (''FILE_SHARING'', [0x0946, 0x1348, 0x4C7F, 0x11D1, 0x8222, 0x4445, 0x5354, 0x0000]),
     (''ICQ_SERVER_RELAY'', [0x0946, 0x1349, 0x4C7F, 0x11D1, 0x8222, 0x4445, 0x5354, 0x0000]),
     (''CHAT_ALLOW_ONLINE_HOST'', [0x0946, 0x134A, 0x4C7F, 0x11D1, 0x8222, 0x4445, 0x5354, 0x0000]),
     (''SHARE_BUDDIES'', [0x0946, 0x134B, 0x4C7F, 0x11D1, 0x8222, 0x4445, 0x5354, 0x0000]),
     (''PREAKNESS'', [0x0946, 0x134D, 0x4C7F, 0x11D1, 0x8222, 0x4445, 0x5354, 0x0000]),
     (''ICQUTF8'', [0x0946, 0x134E, 0x4C7F, 0x11D1, 0x8222, 0x4445, 0x5354, 0x0000]),
     (''CHAT'', [0x748F, 0x2420, 0x6287, 0x11D1, 0x8222, 0x4445, 0x5354, 0x0000]),
     (''ICQ_WEBBIE'', [0x0946, 0xE000, 0x4C7F, 0x11D1, 0x8222, 0x4445, 0x5354, 0x0000]),
     (''MAIL'', [0x5D5E, 0x1708, 0x55AA, 0x11D3, 0xB143, 0x0060, 0xB0FB, 0x1ECB]),
     (''NEWS'', [0x5D5E, 0x1709, 0x55AA, 0x11D3, 0xB143, 0x0060, 0xB0FB, 0x1ECB]),
     (''STOCK'', [0x5D5E, 0x170A, 0x55AA, 0x11D3, 0xB143, 0x0060, 0xB0FB, 0x1ECB]),
     (''WEATHER'', [0x5D5E, 0x170E, 0x55AA, 0x11D3, 0xB143, 0x0060, 0xB0FB, 0x1ECB]),
     (''DRACULA'', [0x7838, 0x2132, 0x8E20, 0x11D3, 0x9830, 0x8F6E, 0xD783, 0xEDD8]),
     (''PICTURES'', [0x58CF, 0x279A, 0x9911, 0x11D3, 0xA159, 0xD57F, 0xA28A, 0x7112]),
     (''THIRD_PARTY'', [0x9269, 0xD81C, 0xA6A2, 0x11D3, 0xAEE2, 0xE248, 0x9E91, 0xD6E7]),
     (''NET2PHONE'', [0x33DD, 0x2CBA, 0x0FDC, 0x11D4, 0xB073, 0xBC18, 0x38CE, 0xF8C8]),
     (''RENDERED'', [0xB380, 0x9AD8, 0x0DBA, 0x11D5, 0x9F8A, 0x0060, 0xB0EE, 0x0631]),
     (''ICQ_CLIENT_EVENTS'', [0x563F, 0xC809, 0x0B6F, 0x41BD, 0x9F79, 0x4226, 0x09DF, 0xA2F3]),
     (''FF_SPORTS'', [0x6740, 0x0B76, 0x3516, 0x11D5, 0x8B6C, 0x0060, 0xB0EE, 0x0631]),
     (''MAIL2'', [0x8435, 0x0CC8, 0xE401, 0x11D5, 0x9754, 0x0060, 0xB0EE, 0x0631]),
     (''ICQ_WINRTF'', [0x97B1, 0x2751, 0x243C, 0x4334, 0xAD22, 0xD6AB, 0xF73F, 0x1492]),
     (''ICQ_MAC'', [0xDD16, 0xF202, 0x84E6, 0x11D4, 0x90DB, 0x0010, 0x4B9B, 0x4B7D]),
     (''ICQ_UTF8'', [0x2E7A, 0x6475, 0xFADF, 0x4DC8, 0x886F, 0xEA35, 0x95FD, 0xB6DF]),
     (''OCW'', [0x373B, 0x649A, 0x780C, 0x11D6, 0x8459, 0x0060, 0xB0EE, 0x0631]),
     (''REMINDERS'', [0x3B40, 0x56D2, 0x7457, 0x11D4, 0xA1D5, 0xDC24, 0x3835, 0xAD24]),
     (''FF_NEWS'', [0x3DFA, 0x0724, 0x2AD7, 0x11D5, 0x9773, 0x0060, 0xB0EE, 0x0631]),
     (''TRILLIAN_CRYPT'', [0xF2E7, 0xC7F4, 0xFEAD, 0x4DFB, 0xB235, 0x3679, 0x8BDF, 0x0000]),
     (''THIRD_PARTY_RANGE'', [0xFFFF, 0xFFFF, - 1, - 1, - 1, - 1, - 1, - 1])]"

definition toc_firstcaps :: "(string \<times> int) list" where
  "toc_firstcaps = [(''WinAIM'', 0), (''AIM_Express'', 2), (''ICQ2Go'', 0x0210)]"

definition uuid_matches :: "int list \<Rightarrow> int list \<Rightarrow> bool" where
  "uuid_matches pattern u = list_all2 (\<lambda>p x. p = x \<or> p = - 1) pattern u"

definition toc_cap :: "int list \<Rightarrow> string option" where
  "toc_cap u = map_option fst (List.find (\<lambda>(name, pattern). uuid_matches pattern u) toc_uuids)"

text \<open>
  The eight numbers of a capability: a short one is the second number of a fixed pattern. A long one
  has eight fields of four characters; where it is too short, an assertion fails or the text behind
  it is read (\<open>None\<close>).
\<close>

definition toc_uuid :: "string \<Rightarrow> int list option" where
  "toc_uuid uuid =
     (if length uuid \<le> 4 then
        Some [0x0946, strtol16 uuid, 0x4C7F, 0x11D1, 0x8222, 0x4445, 0x5354, 0x0000]
      else if length uuid < 36 then None
      else Some (map (\<lambda>i. strtol16 (take 4 (drop i uuid))) [0, 4, 9, 14, 19, 24, 28, 32]))"

section \<open>What the client is shown\<close>

definition c_upper_hex :: "int \<Rightarrow> string" where
  "c_upper_hex i = show_hex (unat (word_of_int i :: 32 word))"

definition c_hex4 :: "int \<Rightarrow> string" where
  "c_hex4 i = (let h = c_upper_hex i in replicate (4 - length h) (CHR ''0'') @ h)"

text \<open>The characters of a third party; a zero byte ends the text.\<close>

definition uuid_char :: "int \<Rightarrow> char" where
  "uuid_char x =
     (let c = char_of (nat (x mod 256)) in if x = 0 then NUL else if c_isspace c \<and> 0 \<le> x then CHR ''_'' else c)"

definition uuid_text :: "int list \<Rightarrow> string" where
  "uuid_text u = until NUL (concat (map (\<lambda>x. [uuid_char (x div 256), uuid_char (x mod 256)]) (drop 2 u)))"

definition cap_text :: "string \<Rightarrow> string \<Rightarrow> int list \<Rightarrow> string" where
  "cap_text buf cap u =
     (case toc_cap u of
        Some name \<Rightarrow>
          if name \<noteq> ''THIRD_PARTY_RANGE'' then append_cut buf ('' '' @ name)
          else append_cut (append_cut buf ('' ['' @ uuid_text u)) '']''
      | None \<Rightarrow>
          if length cap > 4 then append_cut buf ('' ['' @ c_hex4 (u ! 0) @ c_hex4 (u ! 1) @ ''-'' @ c_hex4 (u ! 2) @
            ''-'' @ c_hex4 (u ! 3) @ ''-'' @ c_hex4 (u ! 4) @ ''-'' @ c_hex4 (u ! 5) @ c_hex4 (u ! 6) @ c_hex4 (u ! 7) @ '']'')
          else append_cut buf ('' UNKNOWN_CAP_'' @ c_hex4 (u ! 1)))"

fun caps_loop :: "string \<Rightarrow> string list \<Rightarrow> string option" where
  "caps_loop buf [] = Some buf"
| "caps_loop buf (cap # caps) =
     (if cap = [] then Some buf
      else (case toc_uuid cap of None \<Rightarrow> None | Some u \<Rightarrow> caps_loop (cap_text buf cap u) caps))"

definition first_cap :: "string \<Rightarrow> string" where
  "first_cap cap =
     (case List.find (\<lambda>(name, val). val = strtol16 cap) toc_firstcaps of
        Some (name, _) \<Rightarrow> name
      | None \<Rightarrow> ''UNKNOWN_TYPE_'' @ c_upper_hex (strtol16 cap))"

definition toc_capstring :: "string list \<Rightarrow> string option" where
  "toc_capstring caps = caps_loop (first_cap (hd caps)) (tl caps)"

text \<open>The capability under which the driver hides the name of the package.\<close>

definition toc_make_fake_cap :: "string \<Rightarrow> string" where
  "toc_make_fake_cap str =
     fold (\<lambda>(i, c) buf. buf[i := hex_digit (of_char c div 16), Suc i := hex_digit (of_char c)])
       (zip [9, 11, 14, 16, 19, 21, 24, 26, 28, 30, 32, 34] str) ''FFFFFFFF-0000-0000-0000-000000000000''"

section \<open>Base64\<close>

definition firetalk_debase64_char :: "char \<Rightarrow> nat" where
  "firetalk_debase64_char c =
     (if (of_char c :: nat) \<in> {65..90} then of_char c - 65
      else if (of_char c :: nat) \<in> {97..122} then 26 + (of_char c - 97)
      else if (of_char c :: nat) \<in> {48..57} then 52 + (of_char c - 48)
      else if c = CHR ''+'' then 62
      else if c = CHR ''/'' then 63
      else 0)"

text \<open>
  Four characters give three bytes. The last group may lack one character: the terminating zero is
  read in its place. The answer has at most 255 bytes.
\<close>

fun debase64_loop :: "nat \<Rightarrow> string \<Rightarrow> string" where
  "debase64_loop n (a # b # c # r) =
     (if n = 0 then []
      else
        (let d = (case r of [] \<Rightarrow> NUL | d # _ \<Rightarrow> d);
             va = firetalk_debase64_char a; vb = firetalk_debase64_char b;
             vc = firetalk_debase64_char c; vd = firetalk_debase64_char d in
         [byte (4 * va OR vb div 16), byte (16 * vb OR vc div 4), byte (64 * vc OR vd)] @
           debase64_loop (n - 1) (drop 1 r)))"
| "debase64_loop n _ = []"

text \<open>The static buffer of 256 bytes after the call: what is behind the terminating zero stays.\<close>

definition firetalk_debase64 :: "string \<Rightarrow> string \<Rightarrow> string" where
  "firetalk_debase64 out str =
     (let r = debase64_loop 85 str in r @ [NUL] @ drop (length r + 1) out)"

end
