(* ===== verification/FtTocMsg.thy ===== *)
theory FtTocMsg
  imports FtTocCaps
begin

text \<open>
  What the TOC driver does with a frame of the server (\<open>toc_got_data\<close> in \<open>firetalk/toc.c\<close>), one
  definition for each message. A message is answered by \<open>None\<close> (go on with the next frame) or by the
  code that ends the loop. A missing word is \<open>NULL\<close>.
\<close>

section \<open>Taking a frame from the buffer\<close>

text \<open>The answer is the code, the bytes of the frame, the rest of the buffer, and the state.\<close>

definition toc_find_packet ::
  "toc_env \<Rightarrow> client \<Rightarrow> string \<Rightarrow> nat \<Rightarrow> toc_state \<Rightarrow> (fte \<times> string \<times> string \<times> toc_state) option" where
  "toc_find_packet env c buffer frametype s =
     (if length buffer < TOC_HEADER_LENGTH then Some (FE_NOTFOUND, [], buffer, s)
      else
        let len = unat (toc_get_length_from_header buffer) in
        if len > 8192 - TOC_HEADER_LENGTH then do {
          (_, s) \<leftarrow> toc_internal_disconnect env c FE_PACKETSIZE s;
          Some (FE_DISCONNECT, [], buffer, s)
        }
        else if length buffer < len + TOC_HEADER_LENGTH then Some (FE_NOTFOUND, [], buffer, s)
        else
          let ft = toc_get_frame_type_from_header buffer;
              sequence = toc_get_sequence_from_header buffer;
              data = take len (drop TOC_HEADER_LENGTH buffer);
              rest = drop (len + TOC_HEADER_LENGTH) buffer;
              result = (if ft = frametype then FE_SUCCESS else FE_WEIRDPACKET) in
          if frametype = SFLAP_FRAME_SIGNON then
            Some (result, data, rest, put_toc (\<lambda>k. k\<lparr>tc_remote_sequence := sequence\<rparr>) s)
          else
            let s = put_toc (\<lambda>k. k\<lparr>tc_remote_sequence := tc_remote_sequence k + 1\<rparr>) s in
            if sequence \<noteq> tc_remote_sequence (t_conn s) then do {
              (_, s) \<leftarrow> toc_internal_disconnect env c FE_SEQUENCE s;
              Some (FE_DISCONNECT, data, rest, s)
            } else Some (result, data, rest, s))"

text \<open>At most \<open>maxargs\<close> words; the last one has the rest of the text.\<close>

fun parse_loop :: "nat \<Rightarrow> char \<Rightarrow> string \<Rightarrow> string list" where
  "parse_loop 0 sep str = [str]"
| "parse_loop (Suc n) sep str =
     (case strchr str sep of None \<Rightarrow> [str] | Some i \<Rightarrow> take i str # parse_loop n sep (drop (Suc i) str))"

lemma parse_loop_numeral [simp]:
  "parse_loop (numeral k) sep str = (case strchr str sep of None \<Rightarrow> [str]
     | Some i \<Rightarrow> take i str # parse_loop (pred_numeral k) sep (drop (Suc i) str))"
  by (simp add: numeral_eq_Suc)

definition toc_parse_args :: "string \<Rightarrow> nat \<Rightarrow> char \<Rightarrow> string list" where
  "toc_parse_args str maxargs sep = parse_loop (min (maxargs - 1) 256) sep str"

abbreviation colon :: char where "colon \<equiv> CHR '':''"

definition toc_get_arg0 :: "string \<Rightarrow> string" where
  "toc_get_arg0 instring = until colon (take 8191 instring)"

definition begins :: "char \<Rightarrow> string \<Rightarrow> bool" where
  "begins c s \<longleftrightarrow> s \<noteq> [] \<and> hd s = c"

type_synonym toc_step = "toc_state \<Rightarrow> (fte option \<times> toc_state) option"

definition toc_go :: "(ft_state \<Rightarrow> ft_state option) \<Rightarrow> toc_step" where
  "toc_go f s = map_option (Pair None) (toc_ft f s)"

definition toc_invalid :: "toc_env \<Rightarrow> client \<Rightarrow> toc_step" where
  "toc_invalid env c s = do {
     (_, s) \<leftarrow> toc_internal_disconnect env c FE_INVALIDFORMAT s;
     Some (Some FE_INVALIDFORMAT, s)
   }"

definition toc_complain :: "client \<Rightarrow> string \<Rightarrow> toc_step" where
  "toc_complain c what s = do {
     s \<leftarrow> toc_ft (firetalk_callback_error c FE_INVALIDFORMAT None (Some what)) s;
     Some (Some FE_SUCCESS, s)
   }"

section \<open>Errors\<close>

text \<open>The entries of \<open>toc2_errors\<close> that are not \<open>{ FE_UNKNOWN, 0, NULL }\<close>.\<close>

definition toc2_error_table :: "(int \<times> fte \<times> bool \<times> string option) list" where
  "toc2_error_table = [
     (1, FE_USERUNAVAILABLE, True, None),
     (2, FE_USERUNAVAILABLE, True, Some (''You have either tried to warn someone you haven'' @ [CHR 0x27] @ ''t sent a message to yet, or you have already warned them too many times today.'')),
     (3, FE_TOOFAST, False, Some ''You are sending commands too fast.''),
     (11, FE_BADUSER, False, None),
     (30, FE_UNKNOWN, False, Some ''The Buddy List server is unavailable at this time. Wait a few minutes, and try to sign on again.''),
     (31, FE_UNKNOWN, False, Some (''Unable to add buddy or group. You may have the max allowed buddies or groups or are trying to add a buddy to a group that doesn'' @ [CHR 0x27] @ ''t exist and cannot be created.'')),
     (50, FE_ROOMUNAVAILABLE, True, None),
     (60, FE_TOOFAST, True, Some ''You are sending messages too fast.''),
     (61, FE_INCOMINGERROR, True, Some ''You missed a message because it was too big.''),
     (62, FE_INCOMINGERROR, True, Some ''You missed a message because it was sent too fast.''),
     (70, FE_SUCCESS, False, None),
     (71, FE_USERINFOUNAVAILABLE, False, Some ''Too many matches.''),
     (72, FE_USERINFOUNAVAILABLE, False, Some ''Need more qualifiers.''),
     (73, FE_USERINFOUNAVAILABLE, False, Some ''Directory service unavailable.''),
     (74, FE_USERINFOUNAVAILABLE, False, Some ''Email lookup restricted.''),
     (75, FE_USERINFOUNAVAILABLE, False, Some ''Keyword ignored.''),
     (76, FE_USERINFOUNAVAILABLE, False, Some ''No keywords.''),
     (77, FE_SUCCESS, False, None),
     (78, FE_USERINFOUNAVAILABLE, False, Some ''Country not supported.''),
     (79, FE_USERINFOUNAVAILABLE, False, Some ''Failure unknown.''),
     (80, FE_BADUSERPASS, False, Some (''The Screen Name or Password was incorrect. Passwords are case sensitive, so make sure your caps lock key isn'' @ [CHR 0x27] @ ''t on.'')),
     (81, FE_SERVER, False, Some ''The service is unavailable currently. Please try again in a few minutes.''),
     (82, FE_BLOCKED, False, Some ''Your warning level is too high to sign on.''),
     (83, FE_BLOCKED, False, Some ''You have been connected and disconnecting too frequently. Wait 10 minutes and try again. If you continue to try, you will need to wait even longer.''),
     (89, FE_UNKNOWN, False, Some ''An unknown signon error has occured. Please wait 10 minutes and try again.''),
     (98, FE_UNKNOWN, False, Some (''The service believes you are using an outdated client; this is possibly an attempt to block third-party programs such as the one you are using. Check your software'' @ [CHR 0x27] @ ''s web site for an updated version.''))]"

definition toc2_errors :: "int \<Rightarrow> fte \<times> bool \<times> string option" where
  "toc2_errors err =
     (case map_of toc2_error_table err of Some e \<Rightarrow> e | None \<Rightarrow> (FE_UNKNOWN, False, None))"

definition toc_msg_error :: "toc_env \<Rightarrow> client \<Rightarrow> string list \<Rightarrow> toc_step" where
  "toc_msg_error env c args s =
     (case arg args 1 of
        None \<Rightarrow> toc_invalid env c s
      | Some a \<Rightarrow>
          let err = atoi a in
          if err < 900 \<or> 999 < err then toc_invalid env c s
          else if err = 911 \<and> tc_passchange (t_conn s) then
            toc_go (firetalk_callback_error c FE_NOCHANGEPASS None None)
              (put_toc (\<lambda>k. k\<lparr>tc_passchange := \<not> tc_passchange k\<rparr>) s)
          else (case toc2_errors (err - 900) of
            (fe, hastarget, str) \<Rightarrow>
              if fe \<noteq> FE_SUCCESS then
                toc_go (firetalk_callback_error c fe (if hastarget then arg args 2 else None)
                  (case str of Some x \<Rightarrow> Some x | None \<Rightarrow> if fe = FE_UNKNOWN then Some a else None)) s
              else Some (None, s)))"

section \<open>Messages of other users\<close>

definition toc_ect :: "toc_env \<Rightarrow> client \<Rightarrow> string \<Rightarrow> string \<Rightarrow> int \<Rightarrow> toc_state \<Rightarrow> (string \<times> toc_state) option" where
  "toc_ect env c name message reply =
     aim_handle_ect
       (\<lambda>cmd a. toc_ft (firetalk_callback_subcode_request (te_ps env) (te_sub env) (te_junk env)
         (te_on_message env) (te_handler env) c name cmd a))
       (\<lambda>cmd a. toc_ft (firetalk_callback_subcode_reply (te_handler env) c name cmd a))
       message reply"

definition toc_show_message :: "toc_env \<Rightarrow> client \<Rightarrow> string \<Rightarrow> int \<Rightarrow> string \<Rightarrow> toc_state \<Rightarrow> toc_state option" where
  "toc_show_message env c name isauto message s =
     (if strncasecmp message ''/me '' 4 = 0 then
        toc_ft (firetalk_callback_im_getaction (te_ps env) c name isauto (drop 4 message) (te_on_message env)) s
      else (case strstr message ''>/me '' of
         Some i \<Rightarrow>
           toc_ft (firetalk_callback_im_getaction (te_ps env) c name isauto (drop (i + 5) message) (te_on_message env)) s
       | None \<Rightarrow> do {
           message \<leftarrow> (if isauto \<noteq> 0 then interpolate env message (tc_nickname (t_conn s)) else Some message);
           toc_ft (firetalk_callback_im_getmessage (te_ps env) c name isauto message (te_on_message env)) s
         }))"

definition toc_msg_im_in :: "toc_env \<Rightarrow> client \<Rightarrow> string list \<Rightarrow> toc_step" where
  "toc_msg_im_in env c args s =
     (if length args \<le> 9 then toc_invalid env c s
      else do {
        let name = args ! 1;
        let isauto = (if begins (CHR ''T'') (args ! 2) then 1 else 0);
        (message, s) \<leftarrow> toc_ect env c name (args ! 9) isauto s;
        s \<leftarrow> (if message \<noteq> [] then toc_show_message env c name isauto message s else Some s);
        s \<leftarrow> toc_ft (firetalk_callback_im_buddyonline (te_ps env) c name 1) s;
        toc_go (firetalk_callback_typing (te_ps env) c name 0) s
      })"

text \<open>
  The two texts of \<open>USER_INFO\<close> end at a byte 254. A text that begins with a zero byte has two bytes
  for each character; the others are cut at the zero byte. \<open>None\<close> is a failed assertion.
\<close>

abbreviation info_mark :: char where "info_mark \<equiv> CHR 0xFE"

fun decodeUTF16 :: "string \<Rightarrow> string \<times> nat" where
  "decodeUTF16 (a # b # r) =
     (if a = info_mark then ([], 0)
      else (case decodeUTF16 r of (t, n) \<Rightarrow> ((if a = NUL then b else CHR ''.'') # t, n + 2)))"
| "decodeUTF16 _ = ([], 0)"

definition take_info :: "string \<Rightarrow> (string \<times> string) option" where
  "take_info bs =
     (case bs of
        [] \<Rightarrow> None
      | a # _ \<Rightarrow>
          if a = NUL then
            (case decodeUTF16 bs of (t, n) \<Rightarrow>
               if n < length bs \<and> bs ! n = info_mark then Some (until NUL t, drop (Suc n) bs) else None)
          else map_option (\<lambda>i. (take i bs, drop (Suc i) bs)) (strchr (until NUL bs) info_mark))"

definition info_begins :: "string \<Rightarrow> bool" where
  "info_begins bs \<longleftrightarrow> begins info_mark bs \<or> begins (CHR ''<'') bs \<or> (begins NUL bs \<and> begins (CHR ''<'') (tl bs))"

definition online_since :: "string list \<Rightarrow> int" where
  "online_since args =
     (if begins (CHR ''T'') (args ! 2) then if atoi (args ! 4) = 0 then 1 else atoi (args ! 4) else 0)"

definition toc_msg_user_info :: "toc_env \<Rightarrow> client \<Rightarrow> string list \<Rightarrow> string \<Rightarrow> toc_step" where
  "toc_msg_user_info env c args data s =
     (if length args \<le> 8 then toc_invalid env c s
      else do {
        let name = args ! 1;
        let tail = drop (length (concat (take 8 args)) + 8) data;
        (away, rest) \<leftarrow> take_info tail;
        away \<leftarrow> (if away \<noteq> [] then map_option Some (interpolate env away (tc_nickname (t_conn s))) else Some None);
        (info, _) \<leftarrow> (if info_begins rest then take_info rest else None);
        (info, s) \<leftarrow> toc_ect env c name info 1 s;
        info \<leftarrow> interpolate env info (tc_nickname (t_conn s));
        s \<leftarrow> (case away of
            None \<Rightarrow> Some s
          | Some a \<Rightarrow> toc_ft (firetalk_callback_subcode_reply (te_handler env) c name ''AWAY'' (Some a)) s);
        toc_go (firetalk_callback_gotinfo c name (Some info) (c_int (atoi (args ! 3))) (online_since args)
          (atoi (args ! 5)) 0) s
      })"

definition toc_msg_client_event :: "toc_env \<Rightarrow> client \<Rightarrow> string list \<Rightarrow> toc_step" where
  "toc_msg_client_event env c args s =
     (if length args \<le> 2 then toc_invalid env c s
      else toc_go (firetalk_callback_typing (te_ps env) c (args ! 1) (c_int (atoi (args ! 2)))) s)"

section \<open>Buddies\<close>

text \<open>
  Whether a buddy is away is the third character of the seventh word, whatever stands there: behind a
  shorter word it is in the next one, or in what follows the text in the frame.
\<close>

definition away_flag :: "string list \<Rightarrow> string \<Rightarrow> string \<Rightarrow> bool option" where
  "away_flag args text data =
     (let mem = args ! 6 @ [NUL] @ args ! 7 @ drop (length text) (data @ [NUL]) in
      if length mem \<le> 2 then None else Some (mem ! 2 = CHR ''U''))"

definition toc_msg_update_buddy :: "toc_env \<Rightarrow> client \<Rightarrow> string list \<Rightarrow> string \<Rightarrow> string \<Rightarrow> toc_step" where
  "toc_msg_update_buddy env c args text data s =
     (if length args \<le> 7 then toc_invalid env c s
      else do {
        let name = args ! 1;
        let onl = online_since args;
        isaway \<leftarrow> away_flag args text data;
        let idle = atoi (args ! 5);
        s \<leftarrow> toc_ft (firetalk_callback_im_buddyonline (te_ps env) c name (c_int onl)) s;
        if onl \<noteq> 0 then do {
          s \<leftarrow> toc_ft (firetalk_callback_im_buddyaway (te_ps env) c name (if isaway then 1 else 0)) s;
          s \<leftarrow> toc_ft (firetalk_callback_idleinfo (te_ps env) c name idle) s;
          toc_go (firetalk_callback_warninfo (te_ps env) c name (atoi (args ! 3))) s
        }
        else if isaway \<or> idle \<noteq> 0 then None
        else Some (None, s)
      })"

definition toc_msg_buddy_caps :: "toc_env \<Rightarrow> client \<Rightarrow> string list \<Rightarrow> toc_step" where
  "toc_msg_buddy_caps env c args s =
     (if length args \<le> 2 then toc_invalid env c s
      else do {
        caps \<leftarrow> toc_capstring (toc_parse_args (args ! 2) 255 (CHR '',''));
        toc_go (firetalk_callback_capabilities (te_ps env) c (args ! 1) caps) s
      })"

text \<open>
  Status texts. The words of the second argument take the place of the arguments, so what is
  decoded for a type 2 is the type, not the text behind it; the assertions read the static buffer.
\<close>

fun barts_loop :: "client \<Rightarrow> string \<Rightarrow> string list \<Rightarrow> toc_state \<Rightarrow> toc_state option" where
  "barts_loop c name (flag # type # text # r) s =
     (if atoi type = 2 then do {
        let out = firetalk_debase64 (t_debase s) type;
        let len = (if (of_char (out ! 1) :: int) < 128 then of_char (out ! 1) else of_char (out ! 1) - 256);
        if out ! 0 \<noteq> NUL \<or> \<not> (0 \<le> len + 2 \<and> len + 3 < 256) then None
        else if out ! nat (len + 2) \<noteq> NUL \<or> out ! nat (len + 3) \<noteq> NUL then None
        else do {
          s \<leftarrow> toc_ft (firetalk_callback_statusinfo c name (Some (until NUL (drop 2 out)))) (s\<lparr>t_debase := out\<rparr>);
          barts_loop c name r s
        }
      } else barts_loop c name r s)"
| "barts_loop c name _ s = Some s"

definition toc_msg_bart :: "client \<Rightarrow> string list \<Rightarrow> toc_step" where
  "toc_msg_bart c args s = do {
     name \<leftarrow> arg args 1;
     barts \<leftarrow> arg args 2;
     s \<leftarrow> barts_loop c name (toc_parse_args barts 255 blank) s;
     Some (None, s)
   }"

text \<open>Without a nickname of our own no user has the old name.\<close>

definition toc_msg_nick :: "toc_env \<Rightarrow> client \<Rightarrow> string list \<Rightarrow> toc_step" where
  "toc_msg_nick env c args s =
     (case arg args 1 of
        None \<Rightarrow> toc_complain c ''NICK'' s
      | Some nick \<Rightarrow> do {
          s \<leftarrow> (case tc_nickname (t_conn s) of
              Some me \<Rightarrow> toc_ft (firetalk_callback_user_nickchanged (te_ps env) c me nick) s
            | None \<Rightarrow> map_option (\<lambda>_. s) (firetalk_find_handle c (t_ft s)));
          toc_go (firetalk_callback_newnick c nick) (put_toc (\<lambda>k. k\<lparr>tc_nickname := Some nick\<rparr>) s)
        })"

definition toc_msg_eviled :: "client \<Rightarrow> string list \<Rightarrow> toc_step" where
  "toc_msg_eviled c args s =
     (case arg args 1 of
        None \<Rightarrow> toc_complain c ''EVILED'' s
      | Some a \<Rightarrow> toc_go (firetalk_callback_eviled c (atoi a) (arg args 2)) s)"

section \<open>Rooms\<close>

text \<open>
  A report about a room whose number is unknown has the name \<open>NULL\<close>: the session layer finds no such
  room. Only a message is passed on, without a room.
\<close>

definition in_room ::
  "client \<Rightarrow> string option \<Rightarrow> (string \<Rightarrow> ft_state \<Rightarrow> ft_state option) \<Rightarrow> toc_state \<Rightarrow> toc_state option" where
  "in_room c room f s =
     (case room of
        Some r \<Rightarrow> toc_ft (f r) s
      | None \<Rightarrow> map_option (\<lambda>_. s) (firetalk_find_handle c (t_ft s)))"

definition toc_msg_chat_join :: "toc_env \<Rightarrow> client \<Rightarrow> string list \<Rightarrow> toc_step" where
  "toc_msg_chat_join env c args s =
     (if length args \<le> 2 then toc_complain c ''CHAT_JOIN'' s
      else
        let i = atoi (args ! 1); name = args ! 2 in
        (case toc_internal_find_exchange name s of
           (exchange, s) \<Rightarrow>
             if exchange = 0 then None
             else (case toc_internal_set_id name exchange i s of
               (ret, s) \<Rightarrow>
                 if ret \<noteq> FE_SUCCESS then None
                 else (case toc_internal_set_joined i s of
                   (ret, s) \<Rightarrow>
                     if ret \<noteq> FE_SUCCESS then None
                     else (case toc_internal_find_room_name i s of
                       (room, s) \<Rightarrow> map_option (Pair None)
                         (in_room c room (firetalk_callback_chat_joined (te_ps env) c) s))))))"

text \<open>In a room the text of some clients is cut at its first tag.\<close>

definition chat_text :: "string \<Rightarrow> string" where
  "chat_text message =
     (if strncasecmp message ''<HTML><PRE>'' 11 = 0 then until (CHR ''<'') (drop 11 message) else message)"

definition toc_msg_chat_in :: "client \<Rightarrow> string list \<Rightarrow> toc_step" where
  "toc_msg_chat_in c args s =
     (if length args \<le> 6 then toc_complain c ''CHAT_IN_ENC'' s
      else
        let message = chat_text (args ! 6) in
        (case toc_internal_find_room_name (atoi (args ! 1)) s of
           (room, s) \<Rightarrow>
             if strncasecmp message ''/me '' 4 = 0 then
               toc_go (pass_on c FC_CHAT_GETACTION [AStr room, AStr (Some (args ! 2)), AInt 0, AStr (Some (drop 4 message))]) s
             else (case strstr message ''>/me '' of
                Some k \<Rightarrow>
                  toc_go (pass_on c FC_CHAT_GETACTION [AStr room, AStr (Some (args ! 2)), AInt 0, AStr (Some (drop (k + 5) message))]) s
              | None \<Rightarrow>
                  toc_go (pass_on c FC_CHAT_GETMESSAGE [AStr room, AStr (Some (args ! 2)), AInt 0, AStr (Some message)]) s)))"

fun update_members :: "toc_env \<Rightarrow> client \<Rightarrow> bool \<Rightarrow> string option \<Rightarrow> string list \<Rightarrow> toc_state \<Rightarrow> toc_state option" where
  "update_members env c joined room [] s = Some s"
| "update_members env c joined room (source # sources) s = do {
     s \<leftarrow> in_room c room (\<lambda>r. if joined then firetalk_callback_chat_user_joined (te_ps env) c r (Some source) None
       else firetalk_callback_chat_user_left (te_ps env) c r source None) s;
     update_members env c joined room sources s
   }"

text \<open>The users of a room; after those who are there the client learns that it has joined.\<close>

function split_colons :: "string \<Rightarrow> string list" where
  "split_colons s =
     (case strchr s colon of None \<Rightarrow> [s] | Some i \<Rightarrow> take i s # split_colons (drop (Suc i) s))"
  by pat_completeness auto
termination by (relation "measure length") (auto dest!: strchr_Some_take)

declare split_colons.simps [simp del]

definition toc_msg_chat_update :: "toc_env \<Rightarrow> client \<Rightarrow> string list \<Rightarrow> toc_step" where
  "toc_msg_chat_update env c args s =
     (if length args \<le> 3 then toc_complain c ''CHAT_UPDATE_BUDDY'' s
      else do {
        let joined = begins (CHR ''T'') (args ! 2);
        let (room, s) = toc_internal_find_room_name (atoi (args ! 1)) s;
        s \<leftarrow> update_members env c joined room (split_colons (args ! 3)) s;
        s \<leftarrow> (if joined then in_room c room (\<lambda>r. firetalk_callback_chat_user_joined (te_ps env) c r None None) s
          else Some s);
        Some (None, s)
      })"

definition toc_msg_chat_invite :: "client \<Rightarrow> string list \<Rightarrow> toc_step" where
  "toc_msg_chat_invite c args s =
     (if length args \<le> 4 then toc_complain c ''CHAT_INVITE'' s
      else
        (case toc_internal_set_room_invited (args ! 1) True (toc_internal_add_room (args ! 1) 4 s) of
           (ret, s) \<Rightarrow>
             if ret \<noteq> FE_SUCCESS then Some (None, s)
             else (case toc_internal_set_id (args ! 1) 4 (atoi (args ! 2)) s of
               (ret, s) \<Rightarrow>
                 if ret \<noteq> FE_SUCCESS then Some (None, s)
                 else toc_go (firetalk_callback_chat_invited c (args ! 1) (Some (args ! 3)) (Some (args ! 4))) s)))"

definition toc_msg_chat_left :: "toc_env \<Rightarrow> client \<Rightarrow> string list \<Rightarrow> toc_step" where
  "toc_msg_chat_left env c args s =
     (case arg args 1 of
        None \<Rightarrow> toc_complain c ''CHAT_LEFT'' s
      | Some a \<Rightarrow>
          (case toc_internal_find_room_name (atoi a) s of
             (room, s) \<Rightarrow> map_option (Pair None) (in_room c room (firetalk_callback_chat_left (te_ps env) c) s)))"

section \<open>Changes of the list on the server\<close>

definition nonempty :: "string option \<Rightarrow> string option" where
  "nonempty x = (case x of None \<Rightarrow> None | Some s \<Rightarrow> if s = [] then None else Some s)"

definition toc_msg_updated :: "toc_env \<Rightarrow> client \<Rightarrow> string list \<Rightarrow> toc_step" where
  "toc_msg_updated env c args s =
     (if length args > 3 \<and> args ! 1 = ''b'' then
        toc_go (firetalk_callback_buddyadded (te_ps env) c (args ! 2) (args ! 3) (nonempty (arg args 4))) s
      else Some (None, s))"

definition toc_msg_inserted :: "toc_env \<Rightarrow> client \<Rightarrow> string list \<Rightarrow> toc_step" where
  "toc_msg_inserted env c args s =
     (if length args > 4 \<and> args ! 1 = ''b'' then
        toc_go (firetalk_callback_buddyadded (te_ps env) c (args ! 3) (args ! 4) (nonempty (arg args 5))) s
      else Some (None, s))"

definition toc_msg_deleted :: "toc_env \<Rightarrow> client \<Rightarrow> string list \<Rightarrow> toc_step" where
  "toc_msg_deleted env c args s =
     (if length args > 3 \<and> args ! 1 = ''b'' then
        toc_go (firetalk_callback_buddyremoved (te_ps env) c (args ! 2) (nonempty (arg args 4))) s
      else Some (None, s))"

definition toc_msg_dir_status :: "client \<Rightarrow> string list \<Rightarrow> toc_step" where
  "toc_msg_dir_status c args s =
     (case arg args 1 of
        None \<Rightarrow> toc_complain c ''DIR_STATUS with no status code'' s
      | Some a \<Rightarrow>
          if atoi a \<in> {0, 1} then Some (None, s)
          else toc_go (firetalk_callback_error c FE_INVALIDFORMAT None
            (Some (if atoi a = 2 then ''DIR_STATUS failed, invalid format'' else ''DIR_STATUS with unknown code''))) s)"

definition toc_msg_passwd :: "client \<Rightarrow> string list \<Rightarrow> toc_step" where
  "toc_msg_passwd c args s =
     (let s = put_toc (\<lambda>k. k\<lparr>tc_passchange := \<not> tc_passchange k\<rparr>) s in
      case arg args 1 of
        None \<Rightarrow> toc_complain c ''ADMIN_PASSWD_STATUS'' s
      | Some a \<Rightarrow>
          if atoi a \<noteq> 0 then toc_go (firetalk_callback_error c FE_NOCHANGEPASS None None) s
          else toc_go (firetalk_callback_passchanged c) s)"

section \<open>Files\<close>

text \<open>The decoded value stays in the static buffer, which the next call overwrites.\<close>

fun tlv_value :: "string list \<Rightarrow> int \<Rightarrow> string option" where
  "tlv_value (t # v # r) type = (if atoi t = type then Some v else tlv_value r type)"
| "tlv_value _ type = None"

definition toc_get_tlv_value :: "string list \<Rightarrow> nat \<Rightarrow> int \<Rightarrow> toc_state \<Rightarrow> (string option \<times> toc_state)" where
  "toc_get_tlv_value args a type s =
     (case tlv_value (drop a args) type of
        None \<Rightarrow> (None, s)
      | Some v \<Rightarrow> let out = firetalk_debase64 (t_debase s) v in (Some out, s\<lparr>t_debase := out\<rparr>))"

definition ntohl_at :: "string \<Rightarrow> nat \<Rightarrow> int" where
  "ntohl_at s i = of_char (s ! i) * 16777216 + of_char (s ! (i + 1)) * 65536 + of_char (s ! (i + 2)) * 256 + of_char (s ! (i + 3))"

definition toc_msg_rvous :: "toc_env \<Rightarrow> client \<Rightarrow> string list \<Rightarrow> toc_step" where
  "toc_msg_rvous env c args s =
     (if length args \<le> 8 then toc_complain c ''RVOUS_PROPOSE'' s
      else do {
        u \<leftarrow> toc_uuid (args ! 2);
        (case toc_cap u of
           None \<Rightarrow> toc_go (firetalk_callback_error c FE_WEIRDPACKET None (Some ''Unknown rendezvous UUID'')) s
         | Some cap \<Rightarrow>
             if cap = ''FILE_TRANSFER'' then do {
               let (message, s) = toc_get_tlv_value args 9 12 s;
               s \<leftarrow> (case message of
                   None \<Rightarrow> Some s
                 | Some m \<Rightarrow> toc_ft (firetalk_callback_im_getmessage (te_ps env) c (args ! 1) 0 (until NUL m) (te_on_message env)) s);
               let (file, s) = toc_get_tlv_value args 9 10001 s;
               (case file of
                  None \<Rightarrow> Some (None, s)
                | Some f \<Rightarrow> toc_go (firetalk_callback_file_offer (v_aton (te_sub env)) c (args ! 1) (until NUL (drop 8 f))
                    (ntohl_at f 4) (args ! 7) (word_of_int (atoi (args ! 8))) FF_TYPE_RAW) s)
             }
             else toc_go (firetalk_callback_error c FE_WEIRDPACKET None
               (Some ''Unhandled rendezvous UUID, do we have a capability set we do not actually support?'')) s)
      })"

section \<open>Every frame\<close>

definition toc_msg_pause :: "client \<Rightarrow> toc_step" where
  "toc_msg_pause c s =
     toc_go (firetalk_internal_set_connectstate c FCS_WAITING_SIGNON) (put_toc (\<lambda>k. k\<lparr>tc_connectstate := 1\<rparr>) s)"

text \<open>The frame is a C string up to its first zero byte, except for the texts of \<open>USER_INFO\<close>.\<close>

definition toc_got_frame :: "toc_env \<Rightarrow> client \<Rightarrow> string \<Rightarrow> toc_step" where
  "toc_got_frame env c data s =
     (let text = until NUL data; arg0 = toc_get_arg0 text;
          args = (\<lambda>n. toc_parse_args text n colon) in
      if arg0 = ''ERROR'' then toc_msg_error env c (args 3) s
      else if arg0 = ''IM_IN_ENC2'' then toc_msg_im_in env c (args 10) s
      else if arg0 = ''USER_INFO'' then toc_msg_user_info env c (args 9) data s
      else if arg0 = ''CLIENT_EVENT2'' then toc_msg_client_event env c (args 3) s
      else if arg0 = ''UPDATE_BUDDY2'' then toc_msg_update_buddy env c (args 8) text data s
      else if arg0 = ''BUDDY_CAPS2'' then toc_msg_buddy_caps env c (args 3) s
      else if arg0 = ''BART2'' then toc_msg_bart c (args 3) s
      else if arg0 = ''NICK'' then toc_msg_nick env c (args 2) s
      else if arg0 = ''EVILED'' then toc_msg_eviled c (args 3) s
      else if arg0 = ''CHAT_JOIN'' then toc_msg_chat_join env c (args 3) s
      else if arg0 = ''CHAT_IN_ENC'' then toc_msg_chat_in c (args 7) s
      else if arg0 = ''CHAT_UPDATE_BUDDY'' then toc_msg_chat_update env c (args 4) s
      else if arg0 = ''CHAT_INVITE'' then toc_msg_chat_invite c (args 5) s
      else if arg0 = ''CHAT_LEFT'' then toc_msg_chat_left env c (args 2) s
      else if arg0 = ''NEW_BUDDY_REPLY2'' then Some (None, s)
      else if arg0 = ''UPDATED2'' then toc_msg_updated env c (args 255) s
      else if arg0 = ''INSERTED2'' then toc_msg_inserted env c (args 255) s
      else if arg0 = ''DELETED2'' then toc_msg_deleted env c (args 255) s
      else if arg0 = ''DIR_STATUS'' then toc_msg_dir_status c (args 2) s
      else if arg0 = ''ADMIN_NICK_STATUS'' then Some (None, s)
      else if arg0 = ''ADMIN_PASSWD_STATUS'' then toc_msg_passwd c (args 3) s
      else if arg0 = ''PAUSE'' then toc_msg_pause c s
      else if arg0 = ''RVOUS_PROPOSE'' then toc_msg_rvous env c (args 255) s
      else toc_go (firetalk_callback_error c FE_WEIRDPACKET None (Some text)) s)"

lemma toc_find_packet_less:
  "toc_find_packet env c buffer t s = Some (e, data, rest, s') \<Longrightarrow> e \<noteq> FE_NOTFOUND \<Longrightarrow> e \<noteq> FE_DISCONNECT \<Longrightarrow>
   length rest < length buffer"
  by (auto simp: toc_find_packet_def Let_def elim!: bindE split: if_split_asm)

text \<open>The answer is the code, the bytes that stay in the buffer, and the state.\<close>

function toc_got_data :: "toc_env \<Rightarrow> client \<Rightarrow> string \<Rightarrow> toc_state \<Rightarrow> (fte \<times> string \<times> toc_state) option" where
  "toc_got_data env c buffer s =
     (case toc_find_packet env c buffer SFLAP_FRAME_DATA s of
        None \<Rightarrow> None
      | Some (r, data, rest, s) \<Rightarrow>
          if r = FE_NOTFOUND then Some (FE_SUCCESS, rest, s)
          else if r \<noteq> FE_SUCCESS then Some (r, rest, s)
          else (case toc_got_frame env c data s of
             None \<Rightarrow> None
           | Some (Some e, s) \<Rightarrow> Some (e, rest, s)
           | Some (None, s) \<Rightarrow> toc_got_data env c rest s))"
  by pat_completeness auto
termination
  by (relation "measure (\<lambda>(_, _, buffer, _). length buffer)") (auto dest: toc_find_packet_less)

declare toc_got_data.simps [simp del]

end
