(* ===== verification/FtTocSignon.thy ===== *)
theory FtTocSignon
  imports FtTocMsg
begin

text \<open>
  Signing on to a TOC server (\<open>toc_got_data_connecting\<close> in \<open>firetalk/toc.c\<close>): the version of the
  frames, the disguised password, and the configuration the server keeps for the user.
\<close>

section \<open>Failure\<close>

text \<open>\<open>firetalk_callback_connectfailed\<close> without a description.\<close>

definition connectfailed_null :: "client \<Rightarrow> fte \<Rightarrow> ft_state \<Rightarrow> ft_state option" where
  "connectfailed_null c error st = do {
     conn \<leftarrow> firetalk_find_handle c st;
     h \<leftarrow> the_handle conn st;
     if h_connected h = FCS_NOTCONNECTED then Some st
     else Some (emit conn FC_CONNECTFAILED [AErr error, AStr None]
       (put_handle conn (h\<lparr>h_connected := FCS_NOTCONNECTED\<rparr>)
         (log_event conn (CloseFd (h_fd h)) st)))
   }"

definition toc_connectfailed :: "client \<Rightarrow> fte \<Rightarrow> string option \<Rightarrow> toc_step" where
  "toc_connectfailed c error description s = do {
     s \<leftarrow> toc_ft (case description of
         Some d \<Rightarrow> firetalk_callback_connectfailed c error d
       | None \<Rightarrow> connectfailed_null c error) s;
     Some (Some error, s)
   }"

section \<open>The login\<close>

definition char_int :: "char \<Rightarrow> int" where
  "char_int c = (if (of_char c :: int) < 128 then of_char c else of_char c - 256)"

definition first_char :: "string \<Rightarrow> char" where
  "first_char s = (case s of [] \<Rightarrow> NUL | c # _ \<Rightarrow> c)"

definition login_magic :: "string \<Rightarrow> string \<Rightarrow> int" where
  "login_magic nickname password =
     (let sn = char_int (c_tolower (first_char nickname)) - 97 + 1;
          pw = char_int (c_tolower (first_char password)) - 97 + 1;
          a = sn * 7696 + 738816; b = sn * 746512; c = pw * a in
      c - a + b + 71665152)"

definition toc_login :: "toc_env \<Rightarrow> client \<Rightarrow> string \<Rightarrow> string \<Rightarrow> toc_op" where
  "toc_login env c nickname password s = do {
     r \<leftarrow> toc_hash_password password;
     roasted \<leftarrow> r;
     let magic = login_magic nickname password;
     if \<not> c_isdigit (first_char nickname) then
       toc_send_printf env c
         ''toc2_login login.oscar.aol.com 29999 %s %S English %s 160 %S %s %s 3 0 30303 -kentucky -utf8 -preakness %i''
         [TStr nickname, TStr roasted, TStr ''::contact '', TStr ''US'', TStr [], TStr [], TInt magic] s
     else
       toc_send_printf env c
         ''toc2_login login.icq.com 5190 %S %S en %s 135 %s %s %s 30 2 321 -utf8 -preakness %i''
         [TStr nickname, TStr roasted, TStr (te_package env @ '':'' @ te_version env @ '':contact '' @ te_bugreport env),
          TStr ''US'', TStr [], TStr [], TInt magic] s
   }"

text \<open>The first frame: the version of the frames. The answer is a frame of the same type, and the login.\<close>

definition toc_version_frame :: "toc_env \<Rightarrow> client \<Rightarrow> string \<Rightarrow> toc_step" where
  "toc_version_frame env c data s =
     (if length data \<noteq> 4 then toc_connectfailed c FE_PACKETSIZE (Some ''Host signon length incorrect'') s
      else if data \<noteq> map byte [0, 0, 0, 1] then toc_connectfailed c FE_VERSION None s
      else do {
        nickname \<leftarrow> tc_nickname (t_conn s);
        let s = put_toc (\<lambda>k. k\<lparr>tc_local_sequence := 31338\<rparr>) s;
        let signon = toc_fill_signon nickname;
        let data = toc_fill_header SFLAP_FRAME_SIGNON 31338 (word_of_nat (length signon)) @ signon;
        conn \<leftarrow> firetalk_find_handle c (t_ft s);
        st \<leftarrow> (if length data \<le> 8187 then firetalk_internal_send_data conn data (te_send env (t_sent s) data) (t_ft s)
          else None);
        s \<leftarrow> toc_ft (firetalk_callback_needpass c 128) (s\<lparr>t_ft := st, t_sent := t_sent s @ [data]\<rparr>);
        (r, s) \<leftarrow> toc_login env c nickname (te_password env 128) (put_toc (\<lambda>k. k\<lparr>tc_connectstate := 1\<rparr>) s);
        if r \<noteq> FE_SUCCESS then toc_connectfailed c r None s else Some (None, s)
      })"

definition toc_signon_frame :: "client \<Rightarrow> string \<Rightarrow> toc_step" where
  "toc_signon_frame c text s =
     (if toc_get_arg0 text = ''SIGN_ON'' then Some (None, put_toc (\<lambda>k. k\<lparr>tc_connectstate := 2\<rparr>) s)
      else if toc_get_arg0 text = ''ERROR'' then
        (case arg (toc_parse_args text 3 colon) 1 of
           None \<Rightarrow> toc_connectfailed c FE_UNKNOWN None s
         | Some a \<Rightarrow>
             if 900 \<le> atoi a \<and> atoi a \<le> 999 then
               (case toc2_errors (atoi a - 900) of (fe, _, str) \<Rightarrow> toc_connectfailed c fe str s)
             else toc_connectfailed c FE_UNKNOWN None s)
      else toc_connectfailed c FE_UNKNOWN None s)"

section \<open>The configuration\<close>

text \<open>
  \<open>firetalk_im_add_buddy\<close> as it runs for this driver: the calls through the table of the protocol are
  \<open>toc_im_remove_buddy\<close>, when a known buddy moves to another group, and \<open>toc_im_add_buddy\<close>.
\<close>

definition config_move :: "toc_env \<Rightarrow> client \<Rightarrow> nat \<Rightarrow> ft_buddy \<Rightarrow> string \<Rightarrow> string \<Rightarrow> string option \<Rightarrow> toc_op" where
  "config_move env c conn iter name grp friendly s = do {
     h \<leftarrow> the_handle conn (t_ft s);
     (ret, s) \<leftarrow> (if h_connected h \<noteq> FCS_NOTCONNECTED
       then toc_im_remove_buddy env c (b_nickname iter) (b_group iter) s else Some (FE_SUCCESS, s));
     if ret \<noteq> FE_SUCCESS then Some (ret, s)
     else do {
       h \<leftarrow> the_handle conn (t_ft s);
       Some (FE_SUCCESS, s\<lparr>t_ft := put_handle conn (upd_buddy (te_ps env) name
         (\<lambda>b. b\<lparr>b_group := grp, b_friendly := friendly\<rparr>) h) (t_ft s)\<rparr>)
     }
   }"

definition config_add_buddy :: "toc_env \<Rightarrow> client \<Rightarrow> nat \<Rightarrow> string \<Rightarrow> string \<Rightarrow> string option \<Rightarrow> toc_op" where
  "config_add_buddy env c conn name grp friendly s = do {
     h \<leftarrow> the_handle conn (t_ft s);
     (ret, s) \<leftarrow>
       (case firetalk_im_find_buddy (te_ps env) h name of
          Some iter \<Rightarrow>
            if \<not> same_place iter grp friendly then config_move env c conn iter name grp friendly s
            else Some (FE_SUCCESS, s)
        | None \<Rightarrow> map_option (Pair FE_SUCCESS) (toc_ft (firetalk_im_insert_buddy conn name grp friendly) s));
     if ret \<noteq> FE_SUCCESS then Some (ret, s)
     else do {
       h \<leftarrow> the_handle conn (t_ft s);
       (ret, s) \<leftarrow> (if h_connected h \<noteq> FCS_NOTCONNECTED
         then toc_im_add_buddy env c name grp friendly s else Some (FE_SUCCESS, s));
       if ret \<noteq> FE_SUCCESS then Some (ret, s)
       else do {
         h \<leftarrow> the_handle conn (t_ft s);
         (case s_isonline_hack (t_ft s) of
            None \<Rightarrow> Some (FE_SUCCESS, s)
          | Some who \<Rightarrow>
              if same_nick (te_ps env) h name who
              then map_option (Pair FE_SUCCESS) (toc_ft (firetalk_callback_im_buddyonline (te_ps env) (h_handle h) who 1) s)
              else Some (FE_SUCCESS, s))
       }
     }
   }"

text \<open>
  A line of the configuration: a group, a buddy of it, a permitted or denied user, or the mode. The
  group of the lines that follow is part of the answer.
\<close>

definition config_line :: "toc_env \<Rightarrow> client \<Rightarrow> nat \<Rightarrow> string \<Rightarrow> string \<Rightarrow> toc_state \<Rightarrow> (string \<times> toc_state) option" where
  "config_line env c conn curgroup line s =
     (if length line < 2 \<or> line ! 1 \<noteq> colon then Some (curgroup, s)
      else
        let args = toc_parse_args line 4 colon; a = args ! 1; k = first_char (args ! 0) in
        if k = CHR ''g'' then Some (a, s)
        else if k = CHR ''b'' \<or> k = CHR ''a'' then
          if curgroup \<noteq> ''Mobile Device'' then do {
            (_, s) \<leftarrow> config_add_buddy env c conn a curgroup (nonempty (arg args 2)) s;
            Some (curgroup, s)
          } else Some (curgroup, s)
        else if k = CHR ''p'' then do {
          (_, s) \<leftarrow> toc_send_printf env c ''toc_add_permit %s'' [TStr a] s;
          Some (curgroup, s)
        }
        else if k = CHR ''d'' then do {
          (_, st) \<leftarrow> firetalk_im_internal_add_deny (te_ps env) conn a (t_ft s);
          Some (curgroup, s\<lparr>t_ft := st\<rparr>)
        }
        else if k = CHR ''m'' then Some (curgroup, put_toc (\<lambda>k. k\<lparr>tc_permit_mode := atoi a\<rparr>) s)
        else Some (curgroup, s))"

text \<open>A last line without its end is not read.\<close>

function config_loop :: "toc_env \<Rightarrow> client \<Rightarrow> nat \<Rightarrow> string \<Rightarrow> string \<Rightarrow> toc_state \<Rightarrow> toc_state option" where
  "config_loop env c conn curgroup text s =
     (case strchr text LF of
        None \<Rightarrow> Some s
      | Some i \<Rightarrow>
          (case config_line env c conn curgroup (take i text) s of
             None \<Rightarrow> None
           | Some (g, s) \<Rightarrow> config_loop env c conn g (drop (Suc i) text) s))"
  by pat_completeness auto
termination by (relation "measure (\<lambda>(_, _, _, _, text, _). length text)") (auto dest!: strchr_Some_take)

declare config_loop.simps [simp del]

definition toc_config :: "toc_env \<Rightarrow> client \<Rightarrow> string list \<Rightarrow> toc_step" where
  "toc_config env c args s = do {
     conn \<leftarrow> firetalk_find_handle c (t_ft s);
     (case arg args 1 of
        None \<Rightarrow> toc_connectfailed c FE_INVALIDFORMAT (Some ''CONFIG2'') s
      | Some text \<Rightarrow> do {
          s \<leftarrow> config_loop env c conn ''Saved buddy'' text (put_toc (\<lambda>k. k\<lparr>tc_permit_mode := 0\<rparr>) s);
          let s = put_toc (\<lambda>k. k\<lparr>tc_permit_mode :=
            (if tc_permit_mode k < 1 \<or> 5 < tc_permit_mode k then 4 else tc_permit_mode k)\<rparr>) s;
          (_, s) \<leftarrow> toc_send_printf env c ''toc2_set_pdmode %i'' [TInt (tc_permit_mode (t_conn s))] s;
          Some (None, put_toc (\<lambda>k. k\<lparr>tc_gotconfig := True\<rparr>) s)
        })
   }"

section \<open>The end of the sign-on\<close>

definition toc_finish :: "toc_env \<Rightarrow> client \<Rightarrow> toc_step" where
  "toc_finish env c s = do {
     s \<leftarrow> toc_ft (pass_on c FC_DOINIT [AStr (tc_nickname (t_conn s))]) s;
     (r, s) \<leftarrow> toc_im_upload_buddies env c s;
     if r \<noteq> FE_SUCCESS then toc_connectfailed c FE_PACKET (Some ''Error uploading buddies'') s
     else do {
       (r, s) \<leftarrow> toc_im_upload_denies env c s;
       if r \<noteq> FE_SUCCESS then toc_connectfailed c FE_PACKET (Some ''Error uploading denies'') s
       else do {
         (r, s) \<leftarrow> toc_send_printf env c ''toc_init_done'' [] s;
         if r \<noteq> FE_SUCCESS then toc_connectfailed c r (Some ''Finalizing initialization'') s
         else do {
           (r, s) \<leftarrow> toc_send_printf env c ''toc_set_caps %S %S %S''
             [TStr ''094613494C7F11D18222444553540000'', TStr (toc_make_fake_cap (te_package env)),
              TStr (toc_make_fake_cap (te_version env))] s;
           if r \<noteq> FE_SUCCESS then toc_connectfailed c r (Some ''Setting capabilities'') s
           else do {
             s \<leftarrow> toc_ft (firetalk_callback_connected c (te_localip env)) s;
             Some (Some FE_SUCCESS, s)
           }
         }
       }
     }
   }"

text \<open>The nickname and the configuration may come in any order; with both the sign-on is complete.\<close>

definition toc_setup_frame :: "toc_env \<Rightarrow> client \<Rightarrow> string \<Rightarrow> toc_step" where
  "toc_setup_frame env c text s = do {
     (r, s) \<leftarrow>
       (if toc_get_arg0 text = ''NICK'' then
          Some (None, put_toc (\<lambda>k. k\<lparr>tc_connectstate := 3,
            tc_nickname := (case arg (toc_parse_args text 2 colon) 1 of Some n \<Rightarrow> Some n | None \<Rightarrow> tc_nickname k)\<rparr>) s)
        else if toc_get_arg0 text = ''CONFIG2'' then toc_config env c (toc_parse_args text 2 colon) s
        else toc_connectfailed c FE_WEIRDPACKET (Some text) s);
     if r \<noteq> None then Some (r, s)
     else if tc_gotconfig (t_conn s) \<and> tc_connectstate (t_conn s) = 3 then toc_finish env c s
     else Some (None, s)
   }"

definition toc_connecting_frame :: "toc_env \<Rightarrow> client \<Rightarrow> string \<Rightarrow> toc_step" where
  "toc_connecting_frame env c data s =
     (let state = tc_connectstate (t_conn s); text = until NUL data in
      if state = 0 then toc_version_frame env c data s
      else if state = 1 then toc_signon_frame c text s
      else if state = 2 \<or> state = 3 then toc_setup_frame env c text s
      else Some (None, s))"

function toc_got_data_connecting ::
  "toc_env \<Rightarrow> client \<Rightarrow> string \<Rightarrow> toc_state \<Rightarrow> (fte \<times> string \<times> toc_state) option" where
  "toc_got_data_connecting env c buffer s =
     (case toc_find_packet env c buffer
        (if tc_connectstate (t_conn s) = 0 then SFLAP_FRAME_SIGNON else SFLAP_FRAME_DATA) s of
        None \<Rightarrow> None
      | Some (r, data, rest, s) \<Rightarrow>
          if r = FE_NOTFOUND then Some (FE_SUCCESS, rest, s)
          else if r \<noteq> FE_SUCCESS then Some (r, rest, s)
          else (case toc_connecting_frame env c data s of
             None \<Rightarrow> None
           | Some (Some e, s) \<Rightarrow> Some (e, rest, s)
           | Some (None, s) \<Rightarrow> toc_got_data_connecting env c rest s))"
  by pat_completeness auto
termination
  by (relation "measure (\<lambda>(_, _, buffer, _). length buffer)") (auto dest: toc_find_packet_less)

declare toc_got_data_connecting.simps [simp del]

end
