(* ===== verification/FtTocKeeps.thy ===== *)
theory FtTocKeeps
  imports FtTocSignon
begin

text \<open>
  What every frame of a TOC server leaves intact. The locale \<open>toc_keeps\<close> is the contract of an
  invariant of the driver's state, as \<open>irc_keeps\<close> is for IRC.
\<close>

section \<open>The calls of the driver\<close>

inductive toc_call :: "toc_env \<Rightarrow> client \<Rightarrow> (ft_state \<Rightarrow> ft_state option) \<Rightarrow> bool" for env c where
  online: "toc_call env c (firetalk_callback_im_buddyonline (te_ps env) c n i)"
| away: "toc_call env c (firetalk_callback_im_buddyaway (te_ps env) c n i)"
| typing: "toc_call env c (firetalk_callback_typing (te_ps env) c n i)"
| idle: "toc_call env c (firetalk_callback_idleinfo (te_ps env) c n i)"
| warn: "toc_call env c (firetalk_callback_warninfo (te_ps env) c n i)"
| caps: "toc_call env c (firetalk_callback_capabilities (te_ps env) c n t)"
| added: "toc_call env c (firetalk_callback_buddyadded (te_ps env) c n g f)"
| removed: "toc_call env c (firetalk_callback_buddyremoved (te_ps env) c n gr)"
| down: "toc_call env c (firetalk_callback_disconnect c e)"
| joined: "toc_call env c (firetalk_callback_chat_joined (te_ps env) c room)"
| user_joined: "toc_call env c (firetalk_callback_chat_user_joined (te_ps env) c room who extra)"
| left: "toc_call env c (firetalk_callback_chat_left (te_ps env) c room)"
| user_left: "toc_call env c (firetalk_callback_chat_user_left (te_ps env) c room n r)"
| nickchanged: "toc_call env c (firetalk_callback_user_nickchanged (te_ps env) c n n')"
| request: "toc_call env c (firetalk_callback_subcode_request (te_ps env) (te_sub env) (te_junk env)
    (te_on_message env) (te_handler env) c n cmd a)"
| reply: "toc_call env c (firetalk_callback_subcode_reply (te_handler env) c n cmd a)"
| message: "toc_call env c (firetalk_callback_im_getmessage (te_ps env) c n i m (te_on_message env))"
| action: "toc_call env c (firetalk_callback_im_getaction (te_ps env) c n i m (te_on_message env))"
| offer: "toc_call env c (firetalk_callback_file_offer (v_aton (te_sub env)) c n fn sz ip port ty)"
| set_state: "toc_call env c (firetalk_internal_set_connectstate c fcs)"
| set_error: "toc_call env c (\<lambda>st. Some (st\<lparr>s_error := e\<rparr>))"
| passed: "toc_call env c (pass_on c fc args)"

lemma toc_call_passed [intro]:
  "toc_call env c (firetalk_callback_newnick c n)"
  "toc_call env c (firetalk_callback_passchanged c)" "toc_call env c (firetalk_callback_error c e u d)"
  "toc_call env c (firetalk_callback_gotinfo c x1 x2 x3 x4 x5 x6)"
  "toc_call env c (firetalk_callback_statusinfo c n t)" "toc_call env c (firetalk_callback_eviled c i t)"
  "toc_call env c (firetalk_callback_chat_invited c r w t)"
  by (simp_all add: toc_call.passed firetalk_callback_newnick_def firetalk_callback_passchanged_def
      firetalk_callback_error_def firetalk_callback_gotinfo_def firetalk_callback_statusinfo_def
      firetalk_callback_eviled_def firetalk_callback_chat_invited_def)

declare toc_call.intros [intro]

locale toc_keeps =
  fixes env :: toc_env and c :: client and I :: "toc_state \<Rightarrow> bool"
  assumes conn: "I s \<Longrightarrow> tc_local_sequence k = tc_local_sequence (t_conn s) \<Longrightarrow> I (s\<lparr>t_conn := k\<rparr>)"
    and debase: "I s \<Longrightarrow> I (s\<lparr>t_debase := out\<rparr>)"
    and send: "I s \<Longrightarrow> toc_send_printf env c fm as s = Some (e, s') \<Longrightarrow> I s'"
    and call: "toc_call env c f \<Longrightarrow> I s \<Longrightarrow> f (t_ft s) = Some st \<Longrightarrow> I (s\<lparr>t_ft := st\<rparr>)"
begin

lemma stays_ft: "toc_ft f s = Some s' \<Longrightarrow> toc_call env c f \<Longrightarrow> I s \<Longrightarrow> I s'"
  by (auto simp: toc_ft_def intro: call)

lemma stays_go: "toc_go f s = Some (r, s') \<Longrightarrow> toc_call env c f \<Longrightarrow> I s \<Longrightarrow> I s'"
  by (auto simp: toc_go_def intro: stays_ft)

lemma stays_send: "toc_send_printf env c fm as s = Some (e, s') \<Longrightarrow> I s \<Longrightarrow> I s'"
  by (rule send)

lemma stays_put [simp]: "I s \<Longrightarrow> (\<And>k. tc_local_sequence (f k) = tc_local_sequence k) \<Longrightarrow> I (put_toc f s)"
  by (simp add: put_toc_def conn)

lemma stays_rooms [simp, intro]: "I s \<Longrightarrow> I (put_rooms f s)"
  by (simp add: put_rooms_def stays_put)

lemma stays_error [simp, intro]: "I s \<Longrightarrow> I (toc_error e s)"
  unfolding toc_error_def by (rule call [OF toc_call.set_error]) auto

lemma stays_debase [simp]: "I s \<Longrightarrow> I (s\<lparr>t_debase := out\<rparr>)"
  by (rule debase)

lemmas stays_steps = stays_ft stays_go stays_send

lemma stays_disconnect: "toc_internal_disconnect env c e s = Some (r, s') \<Longrightarrow> I s \<Longrightarrow> I s'"
  by (auto simp: toc_internal_disconnect_def Let_def elim!: bindE split: if_split_asm dest!: stays_send intro: stays_ft)

lemma stays_invalid: "toc_invalid env c s = Some (r, s') \<Longrightarrow> I s \<Longrightarrow> I s'"
  by (auto simp: toc_invalid_def elim!: bindE dest: stays_disconnect)

lemma stays_complain: "toc_complain c w s = Some (r, s') \<Longrightarrow> I s \<Longrightarrow> I s'"
  by (auto simp: toc_complain_def elim!: bindE intro: stays_ft)

lemma stays_find_packet: "toc_find_packet env c buffer t s = Some (e, d, rest, s') \<Longrightarrow> I s \<Longrightarrow> I s'"
  by (auto simp: toc_find_packet_def Let_def elim!: bindE split: if_split_asm dest!: stays_disconnect)

lemma stays_msg_error: "toc_msg_error env c args s = Some (r, s') \<Longrightarrow> I s \<Longrightarrow> I s'"
  by (auto simp: toc_msg_error_def Let_def split: branch_splits dest: stays_invalid)
    (erule stays_go; auto)+

lemma stays_handle_ect:
  assumes run: "\<And>cmd a s s'. req cmd a s = Some s' \<Longrightarrow> I s \<Longrightarrow> I s'" "\<And>cmd a s s'. rep cmd a s = Some s' \<Longrightarrow> I s \<Longrightarrow> I s'"
  shows "aim_handle_ect req rep msg k s = Some (t, s') \<Longrightarrow> I s \<Longrightarrow> I s'"
proof (induction msg arbitrary: s rule: length_induct)
  case (1 msg)
  show ?case
  proof (cases "strstr msg ect_token")
    case None
    then show ?thesis using 1 by (simp add: aim_handle_ect.simps [of req rep msg])
  next
    case (Some i)
    define tail where "tail = drop (i + length ect_token) msg"
    show ?thesis
    proof (cases "strstr tail ect_ending")
      case None
      then show ?thesis using 1 Some by (simp add: aim_handle_ect.simps [of req rep msg] tail_def Let_def)
    next
      case Some': (Some j)
      obtain cmd a where p: "ect_parts (take j tail) = (cmd, a)" by (cases "ect_parts (take j tail)")
      with 1(2) Some Some' obtain s1 where s1: "(if k = 1 then rep cmd a s else req cmd a s) = Some s1"
        "aim_handle_ect req rep (take i msg @ drop (j + length ect_ending) tail) k s1 = Some (t, s')"
        by (auto simp: aim_handle_ect.simps [of req rep msg] tail_def [symmetric] Let_def split: option.split_asm)
      have "length (take i msg @ drop (j + length ect_ending) tail) < length msg"
        using strstr_bound [OF Some] by (simp add: tail_def ect_token_def ect_ending_def)
      moreover have "I s1" using s1(1) run 1(3) by (auto split: if_split_asm)
      ultimately show ?thesis using 1(1) s1(2) by blast
    qed
  qed
qed

lemma stays_ect: "toc_ect env c n m k s = Some (t, s') \<Longrightarrow> I s \<Longrightarrow> I s'"
  unfolding toc_ect_def by (erule stays_handle_ect [rotated 2]) (auto intro: stays_ft)

lemma stays_show_message: "toc_show_message env c n k m s = Some s' \<Longrightarrow> I s \<Longrightarrow> I s'"
  by (auto simp: toc_show_message_def elim!: bindE split: branch_splits intro: stays_ft)

lemma stays_msg_im_in: "toc_msg_im_in env c args s = Some (r, s') \<Longrightarrow> I s \<Longrightarrow> I s'"
  by (auto simp: toc_msg_im_in_def Let_def elim!: bindE split: branch_splits dest: stays_invalid)
    (fast intro: stays_ft stays_go dest: stays_ect stays_show_message)+

lemma stays_msg_user_info: "toc_msg_user_info env c args d s = Some (r, s') \<Longrightarrow> I s \<Longrightarrow> I s'"
  by (auto simp: toc_msg_user_info_def Let_def elim!: bindE split: branch_splits dest: stays_invalid)
    (fast intro: stays_ft stays_go dest: stays_ect)+

lemma stays_msg_client_event: "toc_msg_client_event env c args s = Some (r, s') \<Longrightarrow> I s \<Longrightarrow> I s'"
  by (auto simp: toc_msg_client_event_def split: if_split_asm dest: stays_invalid intro: stays_go)

lemma stays_msg_update_buddy: "toc_msg_update_buddy env c args t d s = Some (r, s') \<Longrightarrow> I s \<Longrightarrow> I s'"
  by (auto simp: toc_msg_update_buddy_def Let_def elim!: bindE split: branch_splits dest: stays_invalid)
    (fast intro: stays_ft stays_go)+

lemma stays_msg_buddy_caps: "toc_msg_buddy_caps env c args s = Some (r, s') \<Longrightarrow> I s \<Longrightarrow> I s'"
  by (auto simp: toc_msg_buddy_caps_def elim!: bindE split: branch_splits dest: stays_invalid intro: stays_go)

lemma stays_statusinfo:
  "toc_ft (firetalk_callback_statusinfo c n t) (s\<lparr>t_debase := out\<rparr>) = Some s' \<Longrightarrow> I s \<Longrightarrow> I s'"
  by (erule stays_ft) auto

lemma stays_barts: "barts_loop c n bs s = Some s' \<Longrightarrow> I s \<Longrightarrow> I s'"
proof (induction bs arbitrary: s rule: length_induct)
  case (1 bs)
  show ?case
  proof (cases "\<exists>flag type w r. bs = flag # type # w # r")
    case True
    then obtain flag type w r where bs: "bs = flag # type # w # r" by blast
    show ?thesis
    proof (cases "atoi type = 2")
      case True
      with 1(2) bs obtain x where x: "toc_ft (firetalk_callback_statusinfo c n
          (Some (until NUL (drop 2 (firetalk_debase64 (t_debase s) type))))) (s\<lparr>t_debase := firetalk_debase64 (t_debase s) type\<rparr>) = Some x"
        "barts_loop c n r x = Some s'"
        by (auto simp: Let_def elim!: bindE split: if_split_asm)
      have "I x" using x(1) 1(3) by (rule stays_statusinfo)
      with 1(1) [rule_format, of r x] x(2) bs show ?thesis by simp
    qed (use 1(1) [rule_format, of r s] 1(2,3) bs in simp)
  next
    case False
    then show ?thesis using 1(2,3) by (cases "(c, n, bs, s)" rule: barts_loop.cases) auto
  qed
qed

lemma stays_msg_bart: "toc_msg_bart c args s = Some (r, s') \<Longrightarrow> I s \<Longrightarrow> I s'"
  by (auto simp: toc_msg_bart_def elim!: bindE dest: stays_barts)

lemma stays_msg_nick: "toc_msg_nick env c args s = Some (r, s') \<Longrightarrow> I s \<Longrightarrow> I s'"
  by (auto simp: toc_msg_nick_def elim!: bindE split: branch_splits dest: stays_complain
      dest!: stays_ft [OF _ toc_call.nickchanged] intro: stays_go)

lemma stays_msg_eviled: "toc_msg_eviled c args s = Some (r, s') \<Longrightarrow> I s \<Longrightarrow> I s'"
  by (auto simp: toc_msg_eviled_def split: branch_splits dest: stays_complain intro: stays_go)

lemma stays_set_room: "set_room p f s = (r, s') \<Longrightarrow> I s \<Longrightarrow> I s'"
  by (auto simp: set_room_def split: if_split_asm)

lemma stays_room_steps [intro]:
  "toc_internal_set_joined i s = (r, s') \<Longrightarrow> I s \<Longrightarrow> I s'"
  "toc_internal_set_id n x i s = (r, s') \<Longrightarrow> I s \<Longrightarrow> I s'"
  "toc_internal_set_room_invited n b s = (r, s') \<Longrightarrow> I s \<Longrightarrow> I s'"
  "toc_internal_find_exchange n s = (x, s') \<Longrightarrow> I s \<Longrightarrow> I s'"
  "toc_internal_find_room_name i s = (room, s') \<Longrightarrow> I s \<Longrightarrow> I s'"
  by (auto simp: toc_internal_set_joined_def toc_internal_set_id_def toc_internal_set_room_invited_def
      toc_internal_find_exchange_def toc_internal_find_room_name_def split: option.split_asm dest: stays_set_room)

lemma stays_in_room: "in_room c room f s = Some s' \<Longrightarrow> (\<And>x. toc_call env c (f x)) \<Longrightarrow> I s \<Longrightarrow> I s'"
  by (auto simp: in_room_def split: option.split_asm intro: stays_ft)

lemma stays_msg_chat_join: "toc_msg_chat_join env c args s = Some (r, s') \<Longrightarrow> I s \<Longrightarrow> I s'"
  by (auto simp: toc_msg_chat_join_def Let_def split: branch_splits dest: stays_complain)
    (erule stays_in_room; blast intro: stays_room_steps)+

lemma stays_msg_chat_in: "toc_msg_chat_in c args s = Some (r, s') \<Longrightarrow> I s \<Longrightarrow> I s'"
  by (auto simp: toc_msg_chat_in_def Let_def split: branch_splits dest: stays_complain)
    (erule stays_go; blast intro: stays_room_steps)+

lemma stays_members: "update_members env c j room ns s = Some s' \<Longrightarrow> I s \<Longrightarrow> I s'"
  by (induction ns arbitrary: s) (auto elim!: bindE dest!: stays_in_room)

lemma stays_msg_chat_update: "toc_msg_chat_update env c args s = Some (r, s') \<Longrightarrow> I s \<Longrightarrow> I s'"
  by (auto simp: toc_msg_chat_update_def Let_def elim!: bindE split: branch_splits dest: stays_complain)
    (fast intro: stays_room_steps stays_in_room dest: stays_members)+

lemma stays_add_room [simp]: "I s \<Longrightarrow> I (toc_internal_add_room n x s)"
  by (simp add: toc_internal_add_room_def)

lemma stays_msg_chat_invite: "toc_msg_chat_invite c args s = Some (r, s') \<Longrightarrow> I s \<Longrightarrow> I s'"
  by (auto simp: toc_msg_chat_invite_def Let_def split: branch_splits dest: stays_complain)
    (blast intro: stays_room_steps stays_add_room stays_go)+

lemma stays_msg_chat_left: "toc_msg_chat_left env c args s = Some (r, s') \<Longrightarrow> I s \<Longrightarrow> I s'"
  by (auto simp: toc_msg_chat_left_def split: branch_splits dest: stays_complain)
    (erule stays_in_room; blast intro: stays_room_steps)+

lemma stays_msg_lists:
  "toc_msg_updated env c args s = Some (r, s') \<Longrightarrow> I s \<Longrightarrow> I s'"
  "toc_msg_inserted env c args s = Some (r, s') \<Longrightarrow> I s \<Longrightarrow> I s'"
  "toc_msg_deleted env c args s = Some (r, s') \<Longrightarrow> I s \<Longrightarrow> I s'"
  "toc_msg_dir_status c args s = Some (r, s') \<Longrightarrow> I s \<Longrightarrow> I s'"
  by (auto simp: toc_msg_updated_def toc_msg_inserted_def toc_msg_deleted_def toc_msg_dir_status_def
      split: branch_splits dest: stays_complain intro: stays_go)

lemma stays_msg_passwd: "toc_msg_passwd c args s = Some (r, s') \<Longrightarrow> I s \<Longrightarrow> I s'"
  by (auto simp: toc_msg_passwd_def Let_def split: branch_splits dest!: stays_complain)
    (erule stays_go; auto)+

lemma stays_tlv: "toc_get_tlv_value args a t s = (r, s') \<Longrightarrow> I s \<Longrightarrow> I s'"
  by (auto simp: toc_get_tlv_value_def Let_def split: option.split_asm)

lemma stays_msg_rvous: "toc_msg_rvous env c args s = Some (r, s') \<Longrightarrow> I s \<Longrightarrow> I s'"
  by (auto simp: toc_msg_rvous_def Let_def elim!: bindE split: branch_splits dest: stays_complain)
    (fast intro: stays_ft stays_go dest: stays_tlv)+

lemma stays_msg_pause: "toc_msg_pause c s = Some (r, s') \<Longrightarrow> I s \<Longrightarrow> I s'"
  unfolding toc_msg_pause_def by (erule stays_go) auto

lemmas stays_messages = stays_msg_error stays_msg_im_in stays_msg_user_info stays_msg_client_event
  stays_msg_update_buddy stays_msg_buddy_caps stays_msg_bart stays_msg_nick stays_msg_eviled stays_msg_chat_join
  stays_msg_chat_in stays_msg_chat_update stays_msg_chat_invite stays_msg_chat_left stays_msg_lists stays_msg_passwd
  stays_msg_pause stays_msg_rvous

lemma stays_got_frame: "toc_got_frame env c data s = Some (r, s') \<Longrightarrow> I s \<Longrightarrow> I s'"
  by (simp add: toc_got_frame_def Let_def split: if_split_asm)
    (fast intro: stays_messages stays_go)+

lemma stays_got_data: "toc_got_data env c buffer s = Some (e, rest, s') \<Longrightarrow> I s \<Longrightarrow> I s'"
proof (induction buffer arbitrary: s rule: length_induct)
  case (1 buffer)
  from 1(2) obtain r data left s1 where p: "toc_find_packet env c buffer SFLAP_FRAME_DATA s = Some (r, data, left, s1)"
    by (subst (asm) toc_got_data.simps) (auto split: option.split_asm)
  have s1: "I s1" by (rule stays_find_packet [OF p 1(3)])
  show ?case
  proof (cases "r = FE_SUCCESS")
    case False
    then show ?thesis using 1(2) p s1 by (subst (asm) toc_got_data.simps) (auto split: if_split_asm)
  next
    case True
    with 1(2) p obtain q s2 where s2: "toc_got_frame env c data s1 = Some (q, s2)"
      "(case q of Some e' \<Rightarrow> Some (e', left, s2) | None \<Rightarrow> toc_got_data env c left s2) = Some (e, rest, s')"
      by (subst (asm) toc_got_data.simps) (auto split: option.split_asm)
    moreover have "length left < length buffer" using toc_find_packet_less [OF p] True by simp
    ultimately show ?thesis using 1(1) stays_got_frame [OF s2(1) s1] by (auto split: option.split_asm)
  qed
qed

end

end
