(* ===== verification/FtTocSession.thy ===== *)
theory FtTocSession
  imports FtTocKeeps
begin

text \<open>
  What holds of the TOC driver for every input: its frames are numbered without a gap and a peer
  reads them back, and the lists of the session layer stay in order. Then single behaviours:
  rooms and invitations, buddies that are collected, and messages that are too long.
\<close>

section \<open>Frames in sequence\<close>

fun frames_from :: "16 word \<Rightarrow> string list \<Rightarrow> string list" where
  "frames_from n [] = []"
| "frames_from n (t # ts) = toc_frame (n + 1) t # frames_from (n + 1) ts"

lemma frames_from_append:
  "frames_from n (ts @ us) = frames_from n ts @ frames_from (n + of_nat (length ts)) us"
  by (induction ts arbitrary: n) (simp_all add: add.assoc)

lemma toc_format_bound: "toc_format fm as data = Some (Some t) \<Longrightarrow> length t \<le> 2041"
  by (induction fm as data rule: toc_format.induct)
    (auto simp: Let_def split: if_split_asm list.split_asm toc_arg.split_asm option.split_asm)

definition in_sequence :: "16 word \<Rightarrow> string list \<Rightarrow> toc_state \<Rightarrow> bool" where
  "in_sequence n before s \<longleftrightarrow> (\<exists>texts. t_sent s = before @ frames_from n texts \<and>
     list_all (\<lambda>t. length t \<le> 2041) texts \<and> tc_local_sequence (t_conn s) = n + of_nat (length texts))"

lemma in_sequence_send:
  assumes "in_sequence n before s" "toc_send_printf env c fm as s = Some (e, s')"
  shows "in_sequence n before s'"
proof -
  from assms(2) obtain r where r: "toc_format fm as [] = Some r"
    and run: "(case r of None \<Rightarrow> Some (FE_PACKETSIZE, s)
      | Some t \<Rightarrow> map_option (Pair FE_SUCCESS) (toc_send_frame env c t s)) = Some (e, s')"
    unfolding toc_send_printf_def by (erule bindE)
  show ?thesis
  proof (cases r)
    case None
    then show ?thesis using run assms(1) by simp
  next
    case (Some t)
    obtain texts where texts: "t_sent s = before @ frames_from n texts"
      "list_all (\<lambda>t. length t \<le> 2041) texts" "tc_local_sequence (t_conn s) = n + of_nat (length texts)"
      using assms(1) by (auto simp: in_sequence_def)
    have "t_sent s' = t_sent s @ [toc_frame (tc_local_sequence (t_conn s) + 1) t]"
      "tc_local_sequence (t_conn s') = tc_local_sequence (t_conn s) + 1"
      using run Some by (auto simp: toc_send_frame_def put_toc_def Let_def elim!: bindE)
    with texts toc_format_bound [OF r [unfolded Some]] show ?thesis
      unfolding in_sequence_def
      by (intro exI [of _ "texts @ [t]"]) (simp add: frames_from_append add.assoc add.commute)
  qed
qed

interpretation numbered: toc_keeps env c "in_sequence n before" for env c n before
  by unfold_locales (simp add: in_sequence_def, simp add: in_sequence_def, rule in_sequence_send, assumption+,
    simp add: in_sequence_def)

text \<open>A quiet server and client, for examples.\<close>

definition quiet_toc :: ft_protocol where
  "quiet_toc = quiet_protocol\<lparr>p_strprotocol := ''TOC2'', p_comparenicks := (\<lambda>a b. toc_compare_nicks (Some a) (Some b)),
     p_room_normalize := (\<lambda>r. aim_normalize_room_name (Some r))\<rparr>"

definition quiet_toc_env :: toc_env where
  "quiet_toc_env = \<lparr>te_ps = [quiet_toc],
     te_sub = \<lparr>v_version = ''CenterIM'', v_ctime = [], v_ntoa = (\<lambda>_. []), v_aton = (\<lambda>_. None)\<rparr>, te_junk = 0,
     te_on_message = Some, te_handler = (\<lambda>_. Some), te_send = (\<lambda>_ l. int (length l)), te_password = (\<lambda>_. []),
     te_localip = 0, te_now = 1000, te_tm = None, te_setidle = (\<lambda>i. i), te_package = ''centerim'',
     te_version = ''4.22'', te_bugreport = []\<rparr>"

definition toc_session :: "ft_handle \<Rightarrow> toc_room list \<Rightarrow> toc_state" where
  "toc_session h rooms = \<lparr>t_conn = (toc_create_handle quiet_toc_env)\<lparr>tc_nickname := Some ''me'', tc_rooms := rooms\<rparr>,
     t_debase = replicate 256 NUL, t_lastinfo = [], t_ft = single_state h, t_sent = []\<rparr>"

text \<open>
  C14. Whatever bytes a server sends, what the driver answers is a sequence of whole frames of at most
  2048 bytes whose numbers follow on each other from the last number used, also across the wrap of
  the 16 bits.
\<close>

theorem toc_sends_in_sequence:
  assumes "toc_got_data env c buffer s = Some (e, rest, s')"
  shows "\<exists>texts. t_sent s' = t_sent s @ frames_from (tc_local_sequence (t_conn s)) texts \<and>
    list_all (\<lambda>t. length t \<le> 2041) texts \<and>
    tc_local_sequence (t_conn s') = tc_local_sequence (t_conn s) + of_nat (length texts)"
proof -
  have "in_sequence (tc_local_sequence (t_conn s)) (t_sent s) s"
    unfolding in_sequence_def by (intro exI [of _ "[]"]) simp
  from numbered.stays_got_data [OF assms this] show ?thesis by (simp add: in_sequence_def)
qed

theorem toc_sends_in_sequence_witness:
  "\<exists>e rest s' texts. toc_got_data quiet_toc_env (Some 1) (toc_frame 1 ''ERROR:5'' @ ''*'') (toc_session chat_handle []) =
     Some (e, rest, s') \<and> t_sent s' = frames_from 0 texts \<and> list_all (\<lambda>t. length t \<le> 2041) texts"
proof -
  let ?run = "toc_got_data quiet_toc_env (Some 1) (toc_frame 1 ''ERROR:5'' @ ''*'') (toc_session chat_handle [])"
  have "?run \<noteq> None" by code_simp
  then obtain e rest s' where run: "?run = Some (e, rest, s')" by (cases ?run) auto
  have "t_sent (toc_session chat_handle []) = [] \<and> tc_local_sequence (t_conn (toc_session chat_handle [])) = 0"
    by (simp add: toc_session_def toc_create_handle_def)
  with toc_sends_in_sequence [OF run] run show ?thesis by auto
qed

text \<open>A peer that reads \<open>k\<close> frames.\<close>

fun take_frames :: "toc_env \<Rightarrow> client \<Rightarrow> nat \<Rightarrow> string \<Rightarrow> toc_state \<Rightarrow> (string list \<times> string \<times> toc_state) option" where
  "take_frames env c 0 buffer s = Some ([], buffer, s)"
| "take_frames env c (Suc k) buffer s =
     (case toc_find_packet env c buffer SFLAP_FRAME_DATA s of
        Some (FE_SUCCESS, data, rest, s) \<Rightarrow>
          map_option (\<lambda>(ds, rest, s). (data # ds, rest, s)) (take_frames env c k rest s)
      | _ \<Rightarrow> None)"

lemma length_toc_frame: "length (toc_frame n t) = length t + 7"
  by (simp add: toc_frame_def)

lemma frame_parts:
  assumes "length t \<le> 8185"
  shows "unat (toc_get_length_from_header (toc_frame n t @ rest)) = length t + 1"
    "toc_get_sequence_from_header (toc_frame n t @ rest) = n"
    "toc_get_frame_type_from_header (toc_frame n t @ rest) = SFLAP_FRAME_DATA"
    "take (length t + 1) (drop 6 (toc_frame n t @ rest)) = t @ [NUL]"
    "drop (length t + 1 + 6) (toc_frame n t @ rest) = rest"
proof -
  have "unat (word_of_nat (length t + 1) :: 16 word) = length t + 1"
    using assms by (simp only: unat_of_nat) (simp add: take_bit_nat_eq_self)
  then show "unat (toc_get_length_from_header (toc_frame n t @ rest)) = length t + 1"
    by (simp add: toc_frame_def toc_header_roundtrip)
qed (simp_all add: toc_frame_def toc_header_roundtrip)

lemma find_packet_frame:
  assumes "length t \<le> 8185"
  shows "toc_find_packet env c (toc_frame (tc_remote_sequence (t_conn s) + 1) t @ rest) SFLAP_FRAME_DATA s =
    Some (FE_SUCCESS, t @ [NUL], rest, put_toc (\<lambda>k. k\<lparr>tc_remote_sequence := tc_remote_sequence k + 1\<rparr>) s)"
  using assms frame_parts [OF assms]
  by (simp add: toc_find_packet_def Let_def length_toc_frame put_toc_def)

text \<open>
  C15. Frames that one side numbers are read by the other side, which has seen the same last number:
  it gets every text, with its terminating zero, nothing else, and has then seen the last number.
\<close>

theorem toc_frames_roundtrip:
  assumes "list_all (\<lambda>t. length t \<le> 8185) texts"
  shows "take_frames env c (length texts) (concat (frames_from (tc_remote_sequence (t_conn s)) texts) @ rest) s =
    Some (map (\<lambda>t. t @ [NUL]) texts, rest,
      put_toc (\<lambda>k. k\<lparr>tc_remote_sequence := tc_remote_sequence k + of_nat (length texts)\<rparr>) s)"
  using assms
proof (induction texts arbitrary: s)
  case (Cons t ts)
  let ?s = "put_toc (\<lambda>k. k\<lparr>tc_remote_sequence := tc_remote_sequence k + 1\<rparr>) s"
  have "tc_remote_sequence (t_conn ?s) = tc_remote_sequence (t_conn s) + 1" by (simp add: put_toc_def)
  with Cons.IH [of ?s] Cons.prems show ?case
    by (simp add: find_packet_frame [of t env c s "concat (frames_from (tc_remote_sequence (t_conn s) + 1) ts) @ rest"]
        put_toc_def add.assoc)
qed (simp add: put_toc_def)

theorem toc_frames_roundtrip_witness:
  "take_frames quiet_toc_env (Some 1) 2
     (concat (frames_from 65535 [''toc_noop'', ''toc_init_done'']) @ ''*'')
     (put_toc (\<lambda>k. k\<lparr>tc_remote_sequence := 65535\<rparr>) (toc_session chat_handle [])) =
   Some ([''toc_noop'' @ [NUL], ''toc_init_done'' @ [NUL]], ''*'',
     put_toc (\<lambda>k. k\<lparr>tc_remote_sequence := tc_remote_sequence k + 2\<rparr>)
       (put_toc (\<lambda>k. k\<lparr>tc_remote_sequence := 65535\<rparr>) (toc_session chat_handle [])))"
proof -
  let ?s = "put_toc (\<lambda>k. k\<lparr>tc_remote_sequence := 65535\<rparr>) (toc_session chat_handle [])"
  let ?texts = "[''toc_noop'', ''toc_init_done'']"
  have seq: "tc_remote_sequence (t_conn ?s) = 65535" by (simp add: put_toc_def)
  have small: "list_all (\<lambda>t. length t \<le> 8185) ?texts" and len: "length ?texts = 2" by simp_all
  from toc_frames_roundtrip [OF small, of quiet_toc_env "Some 1" ?s "''*''"] show ?thesis
    by (simp only: seq len of_nat_numeral list.map)
qed

section \<open>The lists of the session layer\<close>

definition toc_env_ok :: "toc_env \<Rightarrow> bool" where
  "toc_env_ok env \<longleftrightarrow> protocols_ok (te_ps env) \<and>
     (\<forall>st st'. sessions_ok (te_ps env) st \<longrightarrow> te_on_message env st = Some st' \<longrightarrow> sessions_ok (te_ps env) st') \<and>
     (\<forall>f st st'. sessions_ok (te_ps env) st \<longrightarrow> te_handler env f st = Some st' \<longrightarrow> sessions_ok (te_ps env) st') \<and>
     (\<forall>p \<in> set (te_ps env). \<forall>c w. op_keeps (sessions_ok (te_ps env)) (p_im_evil p c w))"

lemma session_ok_found:
  assumes "session_ok ps h"
    "\<And>b. firetalk_im_find_buddy ps h n = Some b \<Longrightarrow> buddy_clean b \<Longrightarrow> buddy_clean (f b)"
  shows "session_ok ps (upd_buddy ps n f h)"
proof -
  have clean: "buddy_clean b" if "b \<in> set (h_buddies h)" for b using assms(1) that by (simp add: session_ok_def buddies_clean_def)
  have "buddies_clean (upd_buddy ps n f h)"
    unfolding buddies_clean_def upd_buddy_def
  proof
    fix y assume "y \<in> set (h_buddies (h\<lparr>h_buddies := map_first (\<lambda>iter. same_nick ps h (b_nickname iter) n) f (h_buddies h)\<rparr>))"
    then have "y \<in> set (map_first (\<lambda>iter. same_nick ps h (b_nickname iter) n) f (h_buddies h))" by simp
    then show "buddy_clean y"
    proof (rule set_map_first_cases [THEN disjE])
      assume "\<exists>x. List.find (\<lambda>iter. same_nick ps h (b_nickname iter) n) (h_buddies h) = Some x \<and> y = f x"
      then obtain x where x: "List.find (\<lambda>iter. same_nick ps h (b_nickname iter) n) (h_buddies h) = Some x" "y = f x" by blast
      with assms(2) [of x] clean [of x] find_Some_set [OF x(1)] show ?thesis by (simp add: firetalk_im_find_buddy_def)
    qed (rule clean)
  qed
  then show ?thesis using assms(1)
    by (simp add: session_ok_def protocol_known_def deny_names_ok_def room_names_ok_def conn_simps)
qed

lemma sessions_found:
  "sessions_ok ps st \<Longrightarrow> the_handle conn st = Some h \<Longrightarrow>
   (\<And>b. firetalk_im_find_buddy ps h n = Some b \<Longrightarrow> buddy_clean b \<Longrightarrow> buddy_clean (f b)) \<Longrightarrow>
   sessions_ok ps (put_handle conn (upd_buddy ps n f h) st)"
  by (rule all_handles_put, assumption, rule session_ok_found, erule (1) sessionsD) simp

lemma sessions_buddy_status:
  assumes "sessions_ok ps st"
  shows "firetalk_callback_im_buddyaway ps c n i st = Some st' \<Longrightarrow> sessions_ok ps st'"
    "firetalk_callback_typing ps c n i st = Some st' \<Longrightarrow> sessions_ok ps st'"
    "firetalk_callback_idleinfo ps c n i st = Some st' \<Longrightarrow> sessions_ok ps st'"
    "firetalk_callback_warninfo ps c n i st = Some st' \<Longrightarrow> sessions_ok ps st'"
    "firetalk_callback_capabilities ps c n t st = Some st' \<Longrightarrow> sessions_ok ps st'"
  using assms
  by (auto simp: firetalk_callback_im_buddyaway_def firetalk_callback_typing_def firetalk_callback_idleinfo_def
      firetalk_callback_warninfo_def firetalk_callback_capabilities_def Let_def buddy_clean_def
      elim!: bindE split: branch_splits intro!: sessions_found)

lemma sessions_put_buddies:
  assumes "sessions_ok ps st" "the_handle conn st = Some h" "\<forall>b \<in> set bs. b \<in> set (h_buddies h) \<or> buddy_clean b"
  shows "sessions_ok ps (put_handle conn (h\<lparr>h_buddies := bs\<rparr>) st)"
proof (rule all_handles_put [OF assms(1)])
  have ok: "session_ok ps h" by (rule sessionsD [OF assms(1,2)])
  then have "\<forall>b \<in> set bs. buddy_clean b" using assms(3) by (auto simp: session_ok_def buddies_clean_def)
  then show "session_ok ps (h\<lparr>h_buddies := bs\<rparr>)" using ok
    by (simp add: session_ok_def protocol_known_def buddies_clean_def deny_names_ok_def room_names_ok_def)
qed

lemma sessions_list_changes:
  assumes "sessions_ok ps st"
  shows "firetalk_callback_buddyadded ps c n g f st = Some st' \<Longrightarrow> sessions_ok ps st'"
    "firetalk_callback_buddyremoved ps c n gr st = Some st' \<Longrightarrow> sessions_ok ps st'"
  using assms
  by (auto simp: firetalk_callback_buddyadded_def firetalk_callback_buddyremoved_def firetalk_im_insert_buddy_def
      firetalk_im_delete_buddy_def new_buddy_def buddy_clean_def elim!: bindE split: branch_splits
      intro!: sessions_put_buddies) (erule subsetD [OF set_remove_first_subset])+

lemma sessions_set_state:
  "firetalk_internal_set_connectstate c x st = Some st' \<Longrightarrow> sessions_ok ps st \<Longrightarrow> sessions_ok ps st'"
  by (auto simp: firetalk_internal_set_connectstate_def elim!: bindE intro!: all_handles_put) (erule (1) sessionsD)

lemma sessions_action:
  assumes m: "\<And>st st'. sessions_ok ps st \<Longrightarrow> msg st = Some st' \<Longrightarrow> sessions_ok ps st'"
    and run: "firetalk_callback_im_getaction ps c w i t msg st = Some st'" and ok: "sessions_ok ps st"
  shows "sessions_ok ps st'"
  using run sessions_deliver [OF m ok] by (auto simp: firetalk_callback_im_getaction_def elim!: bindE)

lemma sessions_toc_call:
  assumes env: "toc_env_ok env" and f: "toc_call env c f" and ok: "sessions_ok (te_ps env) st" and run: "f st = Some st'"
  shows "sessions_ok (te_ps env) st'"
proof -
  have h: "\<And>f st st'. sessions_ok (te_ps env) st \<Longrightarrow> te_handler env f st = Some st' \<Longrightarrow> sessions_ok (te_ps env) st'"
    and m: "\<And>st st'. sessions_ok (te_ps env) st \<Longrightarrow> te_on_message env st = Some st' \<Longrightarrow> sessions_ok (te_ps env) st'"
    and ps: "protocols_ok (te_ps env)" "\<forall>p \<in> set (te_ps env). \<forall>c w. op_keeps (sessions_ok (te_ps env)) (p_im_evil p c w)"
    using env unfolding toc_env_ok_def by blast+
  note parts = sessions_buddyonline sessions_disconnect sessions_user_joined sessions_kicked sessions_user_left
      sessions_nickchanged sessions_buddy_status sessions_list_changes sessions_set_state sessions_file_offer
  from f run ok show ?thesis
  proof cases
    case joined
    then show ?thesis using run ok sessions_add_room [OF ps(1)]
      by (auto simp: firetalk_callback_chat_joined_def elim!: bindE)
  next
    case passed
    with run ok show ?thesis by (auto dest: keep_pass_on)
  next
    case request
    show ?thesis by (rule sessions_request [OF h m run [unfolded request] ok])
  next
    case reply
    show ?thesis by (rule sessions_reply [OF h run [unfolded reply] ok])
  next
    case message
    show ?thesis by (rule sessions_message [OF ps(2) m run [unfolded message] ok])
  next
    case action
    show ?thesis by (rule sessions_action [OF m run [unfolded action] ok])
  next
    case set_error
    with run ok show ?thesis by (auto simp: all_handles_def the_handle_def)
  qed (use run ok in \<open>simp; blast intro: parts\<close>)+
qed

lemma toc_send_ft:
  "toc_send_printf env c fm as s = Some (e, s') \<Longrightarrow> sessions_ok ps (t_ft s) \<Longrightarrow> sessions_ok ps (t_ft s')"
  by (auto simp: toc_send_printf_def toc_send_frame_def put_toc_def Let_def elim!: bindE split: option.split_asm)
    (erule (1) sessions_send_data)

lemma toc_keeps_sessions: "toc_env_ok env \<Longrightarrow> toc_keeps env c (\<lambda>s. sessions_ok (te_ps env) (t_ft s))"
  by unfold_locales (auto intro: sessions_toc_call toc_send_ft)

lemma session_ok_online: "session_ok [quiet_toc] online_handle"
  by (simp add: session_ok_def protocol_known_def buddies_clean_def deny_names_ok_def room_names_ok_def online_handle_def
      new_handle_def new_buddy_def buddy_clean_def)

text \<open>
  C13. Whatever bytes a TOC server sends, the lists of every session stay in order: no room and no
  denied user is twice in its list, and a buddy who is offline has no status. The handlers of the
  client are assumed to keep that.
\<close>

theorem toc_keeps_lists:
  assumes "toc_env_ok env" "sessions_ok (te_ps env) (t_ft s)"
    and "toc_got_data env c buffer s = Some (e, rest, s')"
  shows "sessions_ok (te_ps env) (t_ft s')"
  using toc_keeps.stays_got_data [OF toc_keeps_sessions [OF assms(1)] assms(3,2)] .

lemma protocols_ok_quiet_toc [simp]: "protocols_ok [quiet_toc]"
  using toc_nicks.nick_compare_axioms by (simp add: protocols_ok_def quiet_toc_def)

text \<open>A frame with one message that the driver answers by going on.\<close>

lemma got_one_frame:
  assumes "length t \<le> 8185"
    "toc_got_frame env c (t @ [NUL]) (put_toc (\<lambda>k. k\<lparr>tc_remote_sequence := tc_remote_sequence k + 1\<rparr>) s) = Some (None, s')"
  shows "toc_got_data env c (toc_frame (tc_remote_sequence (t_conn s) + 1) t) s = Some (FE_SUCCESS, [], s')"
  using find_packet_frame [OF assms(1), of env c s "[]"] assms(2)
  by (subst toc_got_data.simps) (simp, subst toc_got_data.simps, simp add: toc_find_packet_def)

theorem toc_keeps_lists_witness:
  "\<exists>s'. toc_got_data quiet_toc_env (Some 1) (toc_frame 1 ''UPDATED2:b:bob:F'') (toc_session online_handle []) =
       Some (FE_SUCCESS, [], s') \<and> sessions_ok [quiet_toc] (t_ft s')"
proof -
  let ?s = "toc_session online_handle []"
  let ?t = "''UPDATED2:b:bob:F''"
  have seq: "tc_remote_sequence (t_conn ?s) = 0" by (simp add: toc_session_def toc_create_handle_def)
  have "toc_got_frame quiet_toc_env (Some 1) (?t @ [NUL])
      (put_toc (\<lambda>k. k\<lparr>tc_remote_sequence := tc_remote_sequence k + 1\<rparr>) ?s) \<in> range (\<lambda>s'. Some (None, s'))"
    by (simp add: toc_got_frame_def toc_get_arg0_def Let_def until_def toc_msg_updated_def toc_parse_args_def arg_def
        nonempty_def toc_go_def toc_ft_def quiet_toc_env_def toc_session_def firetalk_callback_buddyadded_def put_toc_def
        firetalk_im_insert_buddy_def single_state_def firetalk_find_handle_def firetalk_find_clientstruct_def
        firetalk_im_find_buddy_def new_buddy_def same_nick_def proto_def the_handle_def new_handle_def online_handle_def)
  then obtain s' where frame: "toc_got_frame quiet_toc_env (Some 1) (?t @ [NUL])
      (put_toc (\<lambda>k. k\<lparr>tc_remote_sequence := tc_remote_sequence k + 1\<rparr>) ?s) = Some (None, s')" by blast
  have run: "toc_got_data quiet_toc_env (Some 1) (toc_frame 1 ?t) ?s = Some (FE_SUCCESS, [], s')"
    using got_one_frame [OF _ frame] seq by simp
  have env: "toc_env_ok quiet_toc_env"
    unfolding toc_env_ok_def by (simp add: quiet_toc_env_def, simp add: quiet_toc_def quiet_protocol_def)
  have "sessions_ok (te_ps quiet_toc_env) (t_ft ?s)"
    by (simp add: toc_session_def quiet_toc_env_def session_ok_online)
  from toc_keeps_lists [OF env this run] run show ?thesis by (simp add: quiet_toc_env_def)
qed

end
