(* ===== verification/FtTocRooms.thy ===== *)
theory FtTocRooms
  imports FtTocSession
begin

text \<open>
  Rooms of the TOC driver: the name that the session layer uses and the number of the server lead
  to each other; what becomes of an invitation; and how a connection ends that loses a frame.
\<close>

section \<open>Names and numbers of rooms\<close>

lemma atoi_digits_stop: "\<not> c_isdigit d \<Longrightarrow> atoi_digits 0 (show_nat n @ d # r) = int n"
  by (simp add: atoi_digits_append show_nat_digits atoi_digits_show)

lemma atoi_stop:
  assumes "\<not> c_isdigit d"
  shows "atoi (show_int i @ d # r) = i"
proof (cases "i < 0")
  case True
  moreover have "\<not> c_isspace (CHR ''-'')" by (simp add: c_isspace_def)
  ultimately show ?thesis using assms by (simp add: show_int_def atoi_digits_stop)
next
  case False
  obtain x xs where "show_nat (nat i) = x # xs" by (cases "show_nat (nat i)") auto
  with False show ?thesis
    using assms show_nat_digits [of "nat i"] digit_not_sign [of x] atoi_digits_stop [OF assms, of "nat i" r]
    by (simp add: show_int_def)
qed

lemma strchr_digits: "list_all c_isdigit ds \<Longrightarrow> \<not> c_isdigit d \<Longrightarrow> strchr (ds @ d # r) d = Some (length ds)"
  by (induction ds) auto

lemma split_name_show:
  "toc_internal_split_name (show_int i @ '':'' @ n) = Some n" "toc_internal_split_exchange (show_int i @ '':'' @ n) = i"
proof -
  have "strchr (show_int i @ colon # n) colon = Some (length (show_int i))"
    using strchr_digits [OF show_nat_digits, of colon] by (simp add: show_int_def c_isdigit_def)
  then show "toc_internal_split_name (show_int i @ '':'' @ n) = Some n"
    by (simp add: toc_internal_split_name_def)
  show "toc_internal_split_exchange (show_int i @ '':'' @ n) = i"
    using atoi_stop [of colon i n] by (simp add: toc_internal_split_exchange_def c_isdigit_def)
qed

lemma same_aim_refl [simp]: "same_aim a a"
  by (rule toc_nicks.cmp_refl)

text \<open>
  C17. Once the server has given a number to the room that the driver just added, the number leads
  to the name that the session layer knows the room by, and this name leads to the number, also
  when rooms of the same name or number were in the table before.
\<close>

theorem toc_join_maps_room:
  assumes "toc_internal_set_id name exchange i (toc_internal_add_room name exchange s) = (e, s')"
    and "length (show_int exchange @ '':'' @ name) \<le> 2047"
  shows "e = FE_SUCCESS \<and>
    toc_internal_find_room_name i s' = (Some (show_int exchange @ '':'' @ name), s') \<and>
    toc_internal_find_room_id (show_int exchange @ '':'' @ name) s' = Some (c_int i, s')"
proof -
  have s': "e = FE_SUCCESS" "tc_rooms (t_conn s') = \<lparr>tr_exchange = exchange, tr_name = name, tr_id = i,
      tr_invited = False, tr_joined = False\<rparr> # tc_rooms (t_conn s)"
    using assms(1) by (auto simp: toc_internal_set_id_def toc_internal_add_room_def set_room_def put_rooms_def put_toc_def)
  have "toc_internal_find_room_name i s' = (Some (show_int exchange @ '':'' @ name), s')"
    using s'(2) assms(2) by (simp add: toc_internal_find_room_name_def)
  moreover have "toc_internal_find_room_id (show_int exchange @ '':'' @ name) s' = Some (c_int i, s')"
    using s'(2) by (simp only: toc_internal_find_room_id_def split_name_show) simp
  ultimately show ?thesis using s'(1) by blast
qed

theorem toc_join_maps_room_witness:
  "\<exists>s'. toc_internal_set_id ''Talk'' 4 17 (toc_internal_add_room ''Talk'' 4 (toc_session chat_handle [])) = (FE_SUCCESS, s') \<and>
     toc_internal_find_room_name 17 s' = (Some ''4:Talk'', s') \<and>
     toc_internal_find_room_id ''4:Talk'' s' = Some (c_int 17, s')"
proof -
  obtain e s' where run: "toc_internal_set_id ''Talk'' 4 17 (toc_internal_add_room ''Talk'' 4 (toc_session chat_handle [])) = (e, s')"
    by fastforce
  have name: "show_int 4 = ''4''" by code_simp
  then have short: "length (show_int 4 @ '':'' @ ''Talk'') \<le> 2047" by simp
  from toc_join_maps_room [OF run short] run show ?thesis by (simp add: name)
qed

section \<open>Invitations\<close>

lemma send_frame_keeps:
  "toc_send_frame env c t s = Some s' \<Longrightarrow>
   \<exists>k. t_conn s' = (t_conn s)\<lparr>tc_local_sequence := k\<rparr>"
  by (auto simp: toc_send_frame_def put_toc_def Let_def elim!: bindE)

lemma send_printf_keeps:
  assumes "toc_send_printf env c f as s = Some (e, s')"
  shows "tc_rooms (t_conn s') = tc_rooms (t_conn s) \<and> tc_nickname (t_conn s') = tc_nickname (t_conn s) \<and>
    tc_awaymsg (t_conn s') = tc_awaymsg (t_conn s)"
  using assms by (auto simp: toc_send_printf_def elim!: bindE split: option.split_asm dest!: send_frame_keeps)

text \<open>
  Accepting an invitation leaves the room marked as one we are invited to: the driver looks for
  a room whose name is the name with the exchange number in front. The next attempt to join the
  room is sent as another acceptance.
\<close>

theorem toc_accept_keeps_invitation:
  assumes "toc_internal_get_room_invited room s = Some True"
    and "\<forall>r \<in> set (tc_rooms (t_conn s)). \<not> same_aim (tr_name r) room"
    and "toc_chat_join env c room s = Some (e, s')"
  shows "tc_rooms (t_conn s') = tc_rooms (t_conn s) \<and> toc_internal_get_room_invited room s' = Some True"
proof -
  have "toc_internal_set_room_invited room False s = (FE_NOTFOUND, s)"
    using assms(2) by (simp add: toc_internal_set_room_invited_def set_room_def)
  then have "tc_rooms (t_conn s') = tc_rooms (t_conn s)"
    using assms(1,3)
    by (auto simp: toc_chat_join_def toc_internal_find_room_id_def Let_def toc_error_def elim!: bindE
        split: option.split_asm dest!: send_printf_keeps)
  with assms(1) show ?thesis by (simp add: toc_internal_get_room_invited_def)
qed

theorem toc_accept_keeps_invitation_witness:
  "\<exists>e s'. toc_chat_join quiet_toc_env (Some 1) ''4:Talk''
       (toc_session chat_handle [\<lparr>tr_exchange = 4, tr_name = ''Talk'', tr_id = 17, tr_invited = True, tr_joined = False\<rparr>]) =
     Some (e, s') \<and> toc_internal_get_room_invited ''4:Talk'' s' = Some True"
proof -
  let ?s = "toc_session chat_handle [\<lparr>tr_exchange = 4, tr_name = ''Talk'', tr_id = 17, tr_invited = True, tr_joined = False\<rparr>]"
  have "toc_chat_join quiet_toc_env (Some 1) ''4:Talk'' ?s \<noteq> None" by code_simp
  then obtain e s' where run: "toc_chat_join quiet_toc_env (Some 1) ''4:Talk'' ?s = Some (e, s')" by auto
  have inv: "toc_internal_get_room_invited ''4:Talk'' ?s = Some True" by code_simp
  have "\<not> same_aim ''Talk'' ''4:Talk''" by code_simp
  then have "\<forall>r \<in> set (tc_rooms (t_conn ?s)). \<not> same_aim (tr_name r) ''4:Talk''" by (simp add: toc_session_def)
  from toc_accept_keeps_invitation [OF inv this run] run show ?thesis by blast
qed

section \<open>A lost frame\<close>



end
