(* ===== verification/JStr.thy ===== *)
theory JStr
  imports Prelude "HOL-Library.Word"
begin

text \<open>
  The strings of \<open>libjabber/str.c\<close>: comparisons that accept \<open>NULL\<close>, the spool that collects
  the parts of a text, escaping and unescaping of XML, decoding of base64. \<open>NULL\<close> is
  \<open>None\<close>.
\<close>

section \<open>Comparisons\<close>

definition j_strcmp :: "string option \<Rightarrow> string option \<Rightarrow> int" where
  "j_strcmp a b = (case (a, b) of (Some x, Some y) \<Rightarrow> strcmp x y | _ \<Rightarrow> - 1)"

definition j_strcasecmp :: "string option \<Rightarrow> string option \<Rightarrow> int" where
  "j_strcasecmp a b = (case (a, b) of (Some x, Some y) \<Rightarrow> strcasecmp x y | _ \<Rightarrow> - 1)"

definition j_strncmp :: "string option \<Rightarrow> string option \<Rightarrow> nat \<Rightarrow> int" where
  "j_strncmp a b i = (case (a, b) of (Some x, Some y) \<Rightarrow> strncmp x y i | _ \<Rightarrow> - 1)"

definition j_strncasecmp :: "string option \<Rightarrow> string option \<Rightarrow> nat \<Rightarrow> int" where
  "j_strncasecmp a b i = (case (a, b) of (Some x, Some y) \<Rightarrow> strncasecmp x y i | _ \<Rightarrow> - 1)"

definition j_strlen :: "string option \<Rightarrow> nat" where
  "j_strlen a = (case a of None \<Rightarrow> 0 | Some s \<Rightarrow> length s)"

definition j_atoi :: "string option \<Rightarrow> int \<Rightarrow> int" where
  "j_atoi a def = (case a of None \<Rightarrow> def | Some s \<Rightarrow> atoi s)"

lemma j_strcmp_eq_0 [simp]: "j_strcmp a b = 0 \<longleftrightarrow> a = b \<and> a \<noteq> None"
  by (auto simp: j_strcmp_def split: option.splits)

section \<open>The spool\<close>

text \<open>
  \<open>struct spool_struct\<close>: the list of nodes from \<open>first\<close> to \<open>last\<close> and their total length.
  \<open>spooler\<close> adds the arguments up to its end mark.
\<close>

record spool =
  sp_len :: nat
  sp_nodes :: "string list"

definition spool_new :: spool where
  "spool_new = \<lparr>sp_len = 0, sp_nodes = []\<rparr>"

definition spool_add :: "spool \<Rightarrow> string option \<Rightarrow> spool" where
  "spool_add s str =
     (case str of
        None \<Rightarrow> s
      | Some c \<Rightarrow> if length c = 0 then s
          else s\<lparr>sp_len := sp_len s + length c, sp_nodes := sp_nodes s @ [c]\<rparr>)"

definition spooler :: "spool \<Rightarrow> string option list \<Rightarrow> spool" where
  "spooler s args = fold (\<lambda>arg s. spool_add s arg) args s"

definition spool_print :: "spool option \<Rightarrow> string option" where
  "spool_print s =
     (case s of
        None \<Rightarrow> None
      | Some s \<Rightarrow> if sp_len s = 0 \<or> sp_nodes s = [] then None else Some (concat (sp_nodes s)))"

definition spools :: "'p option \<Rightarrow> string option list \<Rightarrow> string option" where
  "spools p args = (if p = None then None else spool_print (Some (spooler spool_new args)))"

text \<open>The text of a spool, and what adding does to it.\<close>

definition spool_text :: "spool \<Rightarrow> string" where
  "spool_text s = concat (sp_nodes s)"

definition spool_ok :: "spool \<Rightarrow> bool" where
  "spool_ok s \<longleftrightarrow> sp_len s = length (spool_text s) \<and> [] \<notin> set (sp_nodes s)"

definition opt_text :: "string option \<Rightarrow> string" where
  "opt_text s = (case s of None \<Rightarrow> [] | Some c \<Rightarrow> c)"

lemma opt_text_simps [simp]: "opt_text None = []" "opt_text (Some c) = c"
  by (simp_all add: opt_text_def)

lemma spool_new_ok [simp]: "spool_ok spool_new" "spool_text spool_new = []"
  by (simp_all add: spool_ok_def spool_new_def spool_text_def)

lemma spool_add_ok [simp]:
  "spool_ok s \<Longrightarrow> spool_ok (spool_add s c)"
  "spool_text (spool_add s c) = spool_text s @ opt_text c"
  by (auto simp: spool_ok_def spool_add_def spool_text_def opt_text_def split: option.splits)

lemma spooler_ok [simp]:
  "spool_ok s \<Longrightarrow> spool_ok (spooler s args)"
  "spool_text (spooler s args) = spool_text s @ concat (map opt_text args)"
proof -
  show "spool_ok s \<Longrightarrow> spool_ok (spooler s args)"
    by (induction args arbitrary: s) (auto simp: spooler_def)
  show "spool_text (spooler s args) = spool_text s @ concat (map opt_text args)"
    by (induction args arbitrary: s) (auto simp: spooler_def)
qed

lemma spool_print_text:
  "spool_ok s \<Longrightarrow> spool_print (Some s) = (if spool_text s = [] then None else Some (spool_text s))"
  by (auto simp: spool_ok_def spool_print_def spool_text_def)

lemma spools_text:
  "spools (Some p) args = (if concat (map opt_text args) = [] then None else Some (concat (map opt_text args)))"
  by (simp add: spools_def spool_print_text del: concat_eq_Nil_conv)

section \<open>Escaping\<close>

abbreviation amp :: char where "amp \<equiv> CHR ''&''"
abbreviation apos :: char where "apos \<equiv> CHR 0x27"
abbreviation quot :: char where "quot \<equiv> CHR 0x22"

text \<open>The first loop of \<open>strescape\<close> adds up the size of the new buffer.\<close>

fun escaped_size :: "string \<Rightarrow> nat" where
  "escaped_size [] = 0"
| "escaped_size (c # cs) =
     (if c = amp then 5 else if c = apos then 6 else if c = quot then 6
      else if c = CHR ''<'' then 4 else if c = CHR ''>'' then 4 else 0) + escaped_size cs"

definition entity :: "char \<Rightarrow> string" where
  "entity c =
     (if c = amp then ''&amp;'' else if c = apos then ''&apos;'' else if c = quot then ''&quot;''
      else if c = CHR ''<'' then ''&lt;'' else if c = CHR ''>'' then ''&gt;'' else [c])"

fun escape_loop :: "string \<Rightarrow> string" where
  "escape_loop [] = []"
| "escape_loop (c # cs) = entity c @ escape_loop cs"

definition strescape :: "'p option \<Rightarrow> string option \<Rightarrow> string option" where
  "strescape p buf =
     (case buf of
        None \<Rightarrow> None
      | Some s \<Rightarrow> if p = None then None else
          let oldlen = length s; newlen = oldlen + escaped_size s in
          if oldlen = newlen then Some s else Some (escape_loop s))"

text \<open>
  \<open>strunescape\<close> writes into fresh memory; an ampersand that begins no known entity advances
  the index without writing, so that byte keeps what the memory held, \<open>junk j\<close>. The result
  ends at the first zero byte. Both refuse a \<open>NULL\<close> pool \<open>p\<close>; memory never runs out.
\<close>

function unescape_loop :: "(nat \<Rightarrow> char) \<Rightarrow> nat \<Rightarrow> string \<Rightarrow> string" where
  "unescape_loop junk j [] = []"
| "unescape_loop junk j (c # cs) =
     (if c = amp then
        if strncmp (c # cs) ''&amp;'' 5 = 0 then amp # unescape_loop junk (Suc j) (drop 4 cs)
        else if strncmp (c # cs) ''&quot;'' 6 = 0 then quot # unescape_loop junk (Suc j) (drop 5 cs)
        else if strncmp (c # cs) ''&apos;'' 6 = 0 then apos # unescape_loop junk (Suc j) (drop 5 cs)
        else if strncmp (c # cs) ''&lt;'' 4 = 0 then CHR ''<'' # unescape_loop junk (Suc j) (drop 3 cs)
        else if strncmp (c # cs) ''&gt;'' 4 = 0 then CHR ''>'' # unescape_loop junk (Suc j) (drop 3 cs)
        else junk j # unescape_loop junk (Suc j) cs
      else c # unescape_loop junk (Suc j) cs)"
  by pat_completeness auto
termination
  by (relation "measure (\<lambda>(junk, j, cs). length cs)") auto

declare unescape_loop.simps(2) [simp del]

definition strunescape :: "(nat \<Rightarrow> char) \<Rightarrow> 'p option \<Rightarrow> string option \<Rightarrow> string option" where
  "strunescape junk p buf =
     (case buf of
        None \<Rightarrow> None
      | Some s \<Rightarrow> if p = None then None else
          if strchr s amp = None then Some s
          else Some (takeWhile (\<lambda>c. c \<noteq> CHR 0x00) (unescape_loop junk 0 s)))"

lemma escaped_size_0: "escaped_size s = 0 \<Longrightarrow> escape_loop s = s"
  by (induction s) (auto simp: entity_def split: if_splits)

lemma strescape_loop: "strescape (Some p) (Some s) = Some (escape_loop s)"
  using escaped_size_0 by (simp add: strescape_def Let_def)

lemma length_escape_loop: "length (escape_loop s) \<le> length s + escaped_size s"
  by (induction s) (auto simp: entity_def)

lemma unescape_entity:
  "unescape_loop junk j (entity c @ cs) = c # unescape_loop junk (Suc j) cs"
  by (auto simp: entity_def unescape_loop.simps(2))

lemma unescape_escape: "unescape_loop junk j (escape_loop s) = s"
  by (induction s arbitrary: j) (simp_all add: unescape_entity)

lemma strchr_escape: "strchr (escape_loop s) amp = None \<Longrightarrow> escape_loop s = s"
  by (induction s) (auto simp: entity_def strchr_None split: if_splits)

lemma escape_no_markup: "c \<in> {CHR ''<'', CHR ''>'', apos, quot} \<Longrightarrow> c \<notin> set (escape_loop s)"
  by (induction s) (auto simp: entity_def)

text \<open>
  C36. Escaping is undone by unescaping, whatever the fresh memory holds; the escaped text has no
  character that could close a tag or an attribute value, and it fits into the buffer that was
  allocated for it.
\<close>

theorem escape_roundtrip:
  assumes "CHR 0x00 \<notin> set s"
  shows "\<exists>t. strescape (Some p) (Some s) = Some t \<and> strunescape junk (Some p) (Some t) = Some s \<and>
    set t \<inter> {CHR ''<'', CHR ''>'', apos, quot} = {} \<and>
    length t \<le> length s + escaped_size s"
proof -
  have "strunescape junk (Some p) (Some (escape_loop s)) = Some s"
    using strchr_escape [of s] assms
    by (auto simp: strunescape_def unescape_escape takeWhile_eq_all_conv)
  then show ?thesis
    using escape_no_markup [of _ s] length_escape_loop [of s]
    by (auto simp: strescape_loop)
qed

theorem escape_roundtrip_witness:
  "\<exists>t. strescape (Some ()) (Some ''a<b&c'') = Some t \<and> strunescape (\<lambda>_. CHR ''?'') (Some ()) (Some t) = Some ''a<b&c''"
proof -
  have "CHR 0x00 \<notin> set ''a<b&c''" by simp
  from escape_roundtrip [OF this, of "()" "\<lambda>_. CHR ''?''"] obtain t
    where "strescape (Some ()) (Some ''a<b&c'') = Some t"
      "strunescape (\<lambda>_. CHR ''?'') (Some ()) (Some t) = Some ''a<b&c''"
    by (elim exE conjE)
  then show ?thesis by (intro exI conjI)
qed

text \<open>
  Text that was not escaped by \<open>strescape\<close>: after an unknown entity the result depends on the
  contents of uninitialised memory.
\<close>

theorem unescape_unknown_entity:
  "strunescape junk (Some p) (Some (amp # ''nbsp;x'')) = Some (takeWhile (\<lambda>c. c \<noteq> CHR 0x00) (junk 0 # ''nbsp;x''))"
  by (simp add: strunescape_def unescape_loop.simps(2))

end
