(* ===== verification/Base64.thy ===== *)
theory Base64
  imports Prelude "HOL-Library.Word"
begin

text \<open>
  The base64 coders of the program, which has six: \<open>gg_base64_encode\<close> and \<open>gg_base64_decode\<close>
  (\<open>libgadu/common.c\<close>), \<open>str_b64decode\<close> (\<open>libjabber/str.c\<close>), \<open>firetalk_debase64\<close>
  (\<open>firetalk/firetalk.c\<close>), \<open>to_y64\<close> (\<open>libyahoo2/libyahoo2.c\<close>) and \<open>cw_base64_encode\<close>
  (\<open>connwrap/connwrap.c\<close>). Each is compared with one specification on bytes, the list of
  sextets.
\<close>

unbundle bit_operations_syntax

section \<open>Bits of a byte\<close>

lemma push_or: "y < 2 ^ n \<Longrightarrow> push_bit n x OR y = x * 2 ^ n + (y::nat)"
proof -
  assume y: "y < 2 ^ n"
  then have "take_bit n y = y" by (simp add: take_bit_nat_eq_self_iff)
  then have "\<not> bit (push_bit n x) m \<or> \<not> bit y m" for m
    by (metis bit_push_bit_iff_nat bit_take_bit_iff not_le)
  then have "push_bit n x + y = push_bit n x OR y" by (rule disjunctive_add)
  then show ?thesis by (simp add: push_bit_eq_mult)
qed

lemma and_low: "x AND (2 ^ n - 1) = x mod (2 ^ n :: nat)"
proof -
  have "x AND mask n = x mod 2 ^ n" by (simp only: take_bit_eq_mod flip: take_bit_eq_mask)
  then show ?thesis by (simp only: mask_eq_exp_minus_1)
qed

lemma and_low_nums [simp]:
  "x AND 3 = x mod (4::nat)" "x AND 15 = x mod (16::nat)" "x AND 63 = x mod (64::nat)"
  using and_low [of x 2] and_low [of x 4] and_low [of x 6] by simp_all

lemma high_bits:
  fixes b :: nat
  assumes "b < 256"
  shows "drop_bit 2 (b AND 252) = b div 4" "drop_bit 4 (b AND 240) = b div 16"
    "drop_bit 6 (b AND 192) = b div 64"
proof -
  have "drop_bit 2 (252::nat) = 63" "drop_bit 4 (240::nat) = 15" "drop_bit 6 (192::nat) = 3"
    by (simp_all add: drop_bit_eq_div)
  then show "drop_bit 2 (b AND 252) = b div 4" "drop_bit 4 (b AND 240) = b div 16"
    "drop_bit 6 (b AND 192) = b div 64"
    using assms by (simp_all add: drop_bit_and) (simp_all add: drop_bit_eq_div)
qed

text \<open>\<open>join_bits n x y\<close> is the expression \<open>x << n | y\<close>.\<close>

lemma join_bits:
  "y < 4 \<Longrightarrow> push_bit 2 x OR y = x * 4 + (y::nat)"
  "y < 16 \<Longrightarrow> push_bit 4 x OR y = x * 16 + (y::nat)"
  "y < 64 \<Longrightarrow> push_bit 6 x OR y = x * 64 + (y::nat)"
  using push_or [of y 2 x] push_or [of y 4 x] push_or [of y 6 x] by simp_all

section \<open>The specification\<close>

text \<open>Three bytes are four sextets; one or two bytes at the end are two or three.\<close>

fun sextets :: "nat list \<Rightarrow> nat list" where
  "sextets [] = []"
| "sextets [a] = [a div 4, a mod 4 * 16]"
| "sextets [a, b] = [a div 4, a mod 4 * 16 + b div 16, b mod 16 * 4]"
| "sextets (a # b # c # bs) =
     a div 4 # (a mod 4 * 16 + b div 16) # (b mod 16 * 4 + c div 64) # (c mod 64) # sextets bs"

definition base64_charset :: string where
  "base64_charset = ''ABCDEFGHIJKLMNOPQRSTUVWXYZabcdefghijklmnopqrstuvwxyz0123456789+/''"

definition y64_charset :: string where
  "y64_charset = ''ABCDEFGHIJKLMNOPQRSTUVWXYZabcdefghijklmnopqrstuvwxyz0123456789._''"

definition pad_count :: "nat \<Rightarrow> nat" where
  "pad_count n = (3 - n mod 3) mod 3"

text \<open>Base64 with an alphabet and a padding character.\<close>

definition encode64 :: "string \<Rightarrow> char \<Rightarrow> nat list \<Rightarrow> string" where
  "encode64 alphabet pad bs =
     map (\<lambda>k. alphabet ! k) (sextets bs) @ replicate (pad_count (length bs)) pad"

definition bytes_of :: "string \<Rightarrow> nat list" where
  "bytes_of s = map of_char s"

lemma of_char_less [simp]: "(of_char c :: nat) < 256"
  using range_nat_of_char by (metis atLeastLessThan_iff rangeI)

lemma bytes_of_less: "b \<in> set (bytes_of s) \<Longrightarrow> b < 256"
  by (auto simp: bytes_of_def)

lemma sextets_less: "\<forall>b \<in> set bs. b < 256 \<Longrightarrow> k \<in> set (sextets bs) \<Longrightarrow> k < 64"
proof (induction bs rule: sextets.induct)
  case (4 a b c bs)
  then have "a div 4 < 64" "a mod 4 < 4" "b div 16 < 16" "b mod 16 < 16" "c div 64 < 4" "c mod 64 < 64"
    by auto
  with 4 show ?case by auto
next
  case (2 a)
  then have "a div 4 < 64" "a mod 4 < 4" by auto
  with 2 show ?case by auto
next
  case (3 a b)
  then have "a div 4 < 64" "a mod 4 < 4" "b div 16 < 16" "b mod 16 < 16" by auto
  with 3 show ?case by auto
qed auto

lemma length_sextets: "length (sextets bs) + pad_count (length bs) = 4 * ((length bs + 2) div 3)"
proof (induction bs rule: sextets.induct)
  case (4 a b c bs)
  have "(length bs + 3 + 2) div 3 = Suc ((length bs + 2) div 3)" by presburger
  moreover have "pad_count (length bs + 3) = pad_count (length bs)" by (simp add: pad_count_def)
  moreover have "length (a # b # c # bs) = length bs + 3" by simp
  moreover have "length (sextets (a # b # c # bs)) = 4 + length (sextets bs)" by simp
  ultimately show ?case using 4 by presburger
qed (auto simp: pad_count_def)

section \<open>The encoders\<close>

text \<open>
  \<open>gg_base64_encode\<close>: \<open>buf[j]\<close> for \<open>j\<close> up to and including the terminating zero. The loop
  counts output characters in \<open>i\<close> and bytes in \<open>j\<close>, and runs while \<open>j <= len\<close>.
\<close>

definition gg_byte :: "string \<Rightarrow> nat \<Rightarrow> nat" where
  "gg_byte buf j = (if j < length buf then of_char (buf ! j) else 0)"

definition gg_sextet :: "string \<Rightarrow> nat \<Rightarrow> nat \<Rightarrow> nat \<times> nat" where
  "gg_sextet buf i j =
     (if i mod 4 = 0 then (drop_bit 2 (gg_byte buf j AND 252), j)
      else if i mod 4 = 1 then
        (if j < length buf
         then push_bit 4 (gg_byte buf j AND 3) OR drop_bit 4 (gg_byte buf (j + 1) AND 240)
         else push_bit 4 (gg_byte buf j AND 3), j + 1)
      else if i mod 4 = 2 then
        (if j < length buf
         then push_bit 2 (gg_byte buf j AND 15) OR drop_bit 6 (gg_byte buf (j + 1) AND 192)
         else push_bit 2 (gg_byte buf j AND 15), j + 1)
      else (gg_byte buf j AND 63, j + 1))"

function gg_encode_loop :: "string \<Rightarrow> nat \<Rightarrow> nat \<Rightarrow> string" where
  "gg_encode_loop buf i j =
     (if j \<le> length buf then
        base64_charset ! fst (gg_sextet buf i j) # gg_encode_loop buf (i + 1) (snd (gg_sextet buf i j))
      else if i mod 4 \<noteq> 0 then replicate (4 - i mod 4) CHR ''='' else [])"
  by pat_completeness auto
termination
  by (relation "measure (\<lambda>(buf, i, j). 2 * (length buf + 1 - j) + (if i mod 4 = 0 then 1 else 0))")
    (auto simp: gg_sextet_def mod_Suc)

declare gg_encode_loop.simps [simp del]

definition gg_base64_encode :: "string \<Rightarrow> string" where
  "gg_base64_encode buf = gg_encode_loop buf 0 0"

text \<open>
  \<open>to_y64\<close> and \<open>cw_base64_encode\<close> take three bytes at a time. \<open>cw_base64_encode\<close> reads them
  as \<open>char\<close>, which is signed: a byte from 128 on is a negative index into the alphabet and has
  no result here.
\<close>

fun to_y64 :: "nat list \<Rightarrow> string" where
  "to_y64 [] = []"
| "to_y64 [a] =
     [y64_charset ! drop_bit 2 a, y64_charset ! (push_bit 4 a AND 48), CHR ''-'', CHR ''-'']"
| "to_y64 [a, b] =
     [y64_charset ! drop_bit 2 a, y64_charset ! ((push_bit 4 a AND 48) OR drop_bit 4 b),
      y64_charset ! (push_bit 2 b AND 60), CHR ''-'']"
| "to_y64 (a # b # c # bs) =
     y64_charset ! drop_bit 2 a # y64_charset ! ((push_bit 4 a AND 48) OR drop_bit 4 b)
     # y64_charset ! ((push_bit 2 b AND 60) OR drop_bit 6 c) # y64_charset ! (c AND 63) # to_y64 bs"

definition cw_base64_encode :: "string \<Rightarrow> string option" where
  "cw_base64_encode inp =
     (if \<exists>b \<in> set (bytes_of inp). 128 \<le> b then None else Some (to_y64 (bytes_of inp)))"

section \<open>The decoders\<close>

text \<open>
  \<open>gg_base64_decode\<close>: an unknown character counts as the first of the alphabet; \<open>cur\<close> is the
  output byte that is being filled, and a partial one at the end is cut off by the terminator.
\<close>

definition gg_value :: "char \<Rightarrow> nat" where
  "gg_value c = (case strchr base64_charset c of None \<Rightarrow> 0 | Some k \<Rightarrow> k)"

fun gg_decode_loop :: "nat \<Rightarrow> nat \<Rightarrow> string \<Rightarrow> nat list" where
  "gg_decode_loop index cur [] = []"
| "gg_decode_loop index cur (c # cs) =
     (if c = CHR 0x0D \<or> c = CHR 0x0A then gg_decode_loop index cur cs
      else let val = gg_value c in
        if index = 0 then gg_decode_loop 1 (cur OR push_bit 2 val) cs
        else if index = 1 then (cur OR drop_bit 4 val) # gg_decode_loop 2 (push_bit 4 val mod 256) cs
        else if index = 2 then (cur OR drop_bit 2 val) # gg_decode_loop 3 (push_bit 6 val mod 256) cs
        else (cur OR val) # gg_decode_loop 0 0 cs)"

text \<open>The result is read as a C string: up to the first zero byte.\<close>

definition c_string :: "nat list \<Rightarrow> string" where
  "c_string bs = map char_of (takeWhile (\<lambda>b. b \<noteq> 0) bs)"

definition gg_base64_decode :: "string option \<Rightarrow> string option" where
  "gg_base64_decode buf = map_option (\<lambda>s. c_string (gg_decode_loop 0 0 s)) buf"

text \<open>
  \<open>str_b64decode\<close>: characters outside the alphabet are skipped; \<open>table\<close> has 256 entries and is
  indexed with a signed \<open>char\<close>, so a byte from 128 on reads outside of it.
\<close>

fun b64_loop :: "nat \<Rightarrow> nat \<Rightarrow> string \<Rightarrow> nat list option" where
  "b64_loop phase dlast [] = Some []"
| "b64_loop phase dlast (c # cs) =
     (if 128 \<le> (of_char c :: nat) then None
      else (case strchr base64_charset c of
         None \<Rightarrow> b64_loop phase dlast cs
       | Some d \<Rightarrow>
           if phase = 0 then b64_loop 1 d cs
           else if phase = 1 then
             map_option ((#) ((push_bit 2 dlast OR drop_bit 4 (d AND 48)) mod 256)) (b64_loop 2 d cs)
           else if phase = 2 then
             map_option ((#) ((push_bit 4 (dlast AND 15) OR drop_bit 2 (d AND 60)) mod 256)) (b64_loop 3 d cs)
           else
             map_option ((#) ((push_bit 6 (dlast AND 3) OR d) mod 256)) (b64_loop 0 d cs)))"

definition str_b64decode :: "string \<Rightarrow> nat list option" where
  "str_b64decode s = b64_loop 0 0 s"

text \<open>
  \<open>firetalk_debase64\<close> decodes groups of four into a buffer of 256 bytes, the last of them for
  the terminator. A group of three at the end takes the terminator as its fourth.
\<close>

definition firetalk_debase64_char :: "char \<Rightarrow> nat" where
  "firetalk_debase64_char c =
     (let v = of_char c in
      if 65 \<le> v \<and> v \<le> 90 then v - 65
      else if 97 \<le> v \<and> v \<le> 122 then 26 + (v - 97)
      else if 48 \<le> v \<and> v \<le> 57 then 52 + (v - 48)
      else if c = CHR ''+'' then 62 else if c = CHR ''/'' then 63 else 0)"

fun debase64_loop :: "nat \<Rightarrow> string \<Rightarrow> nat list" where
  "debase64_loop n (a # b # c # cs) =
     (if n < 255 then
        let va = firetalk_debase64_char a; vb = firetalk_debase64_char b;
            vc = firetalk_debase64_char c;
            vd = (case cs of [] \<Rightarrow> firetalk_debase64_char (CHR 0x00) | d # _ \<Rightarrow> firetalk_debase64_char d) in
        (push_bit 2 va OR drop_bit 4 vb) mod 256 # (push_bit 4 vb OR drop_bit 2 vc) mod 256 #
        (push_bit 6 vc OR vd) mod 256 # debase64_loop (n + 3) (tl cs)
      else [])"
| "debase64_loop n cs = []"

definition firetalk_debase64 :: "string \<Rightarrow> nat list" where
  "firetalk_debase64 s = debase64_loop 0 s"

section \<open>Encoders against the specification\<close>

lemma encode64_step:
  "encode64 al p (a # b # c # bs) =
     al ! (a div 4) # al ! (a mod 4 * 16 + b div 16) # al ! (b mod 16 * 4 + c div 64) # al ! (c mod 64)
     # encode64 al p bs"
  by (simp add: encode64_def pad_count_def)

lemma gg_byte_less [simp]: "gg_byte buf j < 256"
  by (simp add: gg_byte_def)

lemma gg_sextet_simps:
  "i mod 4 = 0 \<Longrightarrow> gg_sextet buf i j = (gg_byte buf j div 4, j)"
  "i mod 4 = 1 \<Longrightarrow> gg_sextet buf i j =
     (gg_byte buf j mod 4 * 16 + (if j < length buf then gg_byte buf (j + 1) div 16 else 0), j + 1)"
  "i mod 4 = 2 \<Longrightarrow> gg_sextet buf i j =
     (gg_byte buf j mod 16 * 4 + (if j < length buf then gg_byte buf (j + 1) div 64 else 0), j + 1)"
  "i mod 4 = 3 \<Longrightarrow> gg_sextet buf i j = (gg_byte buf j mod 64, j + 1)"
proof -
  have l: "gg_byte buf k div 16 < 16" "gg_byte buf k div 64 < 4" for k
    by (auto intro!: less_mult_imp_div_less)
  show "i mod 4 = 0 \<Longrightarrow> gg_sextet buf i j = (gg_byte buf j div 4, j)"
    unfolding gg_sextet_def high_bits(1) [OF gg_byte_less] by simp
  show "i mod 4 = 3 \<Longrightarrow> gg_sextet buf i j = (gg_byte buf j mod 64, j + 1)"
    by (simp add: gg_sextet_def)
  show "i mod 4 = 1 \<Longrightarrow> gg_sextet buf i j =
     (gg_byte buf j mod 4 * 16 + (if j < length buf then gg_byte buf (j + 1) div 16 else 0), j + 1)"
    using l unfolding gg_sextet_def high_bits [OF gg_byte_less]
    by (simp add: join_bits) (simp add: push_bit_eq_mult)
  show "i mod 4 = 2 \<Longrightarrow> gg_sextet buf i j =
     (gg_byte buf j mod 16 * 4 + (if j < length buf then gg_byte buf (j + 1) div 64 else 0), j + 1)"
    using l unfolding gg_sextet_def high_bits [OF gg_byte_less]
    by (simp add: join_bits) (simp add: push_bit_eq_mult)
qed

lemma gg_step:
  "j \<le> length buf \<Longrightarrow> gg_sextet buf i j = (k, j') \<Longrightarrow>
   gg_encode_loop buf i j = base64_charset ! k # gg_encode_loop buf (Suc i) j'"
  by (simp add: gg_encode_loop.simps [of buf i j])

lemma gg_stop:
  "length buf < j \<Longrightarrow> gg_encode_loop buf i j =
     (if i mod 4 \<noteq> 0 then replicate (4 - i mod 4) CHR ''='' else [])"
  by (simp add: gg_encode_loop.simps [of buf i j])

lemma drop_bytes: "j < length buf \<Longrightarrow> drop j (bytes_of buf) = gg_byte buf j # drop (Suc j) (bytes_of buf)"
  by (simp add: bytes_of_def gg_byte_def flip: Cons_nth_drop_Suc)

lemma Suc_mod4: "i mod 4 = 0 \<Longrightarrow> Suc i mod 4 = 1 \<and> Suc (Suc i) mod 4 = 2 \<and> Suc (Suc (Suc i)) mod 4 = 3 \<and>
  Suc (Suc (Suc (Suc i))) mod 4 = 0" for i :: nat
  by (simp add: mod_Suc)

lemma gg_encode_loop_spec:
  "i mod 4 = 0 \<Longrightarrow> j \<le> length buf \<Longrightarrow>
   gg_encode_loop buf i j = encode64 base64_charset CHR ''='' (drop j (bytes_of buf) @ [0])"
proof (induction "length buf - j" arbitrary: i j rule: less_induct)
  case less
  note m = Suc_mod4 [OF less.prems(1)]
  note s0 = gg_sextet_simps(1) [OF less.prems(1), of buf j]
  consider "length buf = j" | "length buf = Suc j" | "length buf = Suc (Suc j)" | "Suc (Suc (Suc j)) \<le> length buf"
    using less.prems by linarith
  then show ?case
  proof cases
    case 1
    moreover have "gg_byte buf j = 0" using 1 by (simp add: gg_byte_def)
    ultimately show ?thesis
      using s0 m by (simp add: gg_step gg_stop gg_sextet_simps encode64_def pad_count_def bytes_of_def)
  next
    case 2
    moreover have "gg_byte buf (Suc j) = 0" using 2 by (simp add: gg_byte_def)
    moreover have "drop j (bytes_of buf) = [gg_byte buf j]"
      using 2 drop_bytes [of j buf] by (simp add: bytes_of_def)
    ultimately show ?thesis
      using s0 m by (simp add: gg_step gg_stop gg_sextet_simps encode64_def pad_count_def)
  next
    case 3
    moreover have "gg_byte buf (Suc (Suc j)) = 0" using 3 by (simp add: gg_byte_def)
    moreover have "drop j (bytes_of buf) = [gg_byte buf j, gg_byte buf (Suc j)]"
      using 3 drop_bytes [of j buf] drop_bytes [of "Suc j" buf] by (simp add: bytes_of_def)
    ultimately show ?thesis
      using s0 m by (simp add: gg_step gg_stop gg_sextet_simps encode64_def pad_count_def)
  next
    case 4
    then have d: "drop j (bytes_of buf) = gg_byte buf j # gg_byte buf (Suc j) # gg_byte buf (Suc (Suc j)) #
        drop (Suc (Suc (Suc j))) (bytes_of buf)"
      using drop_bytes [of j buf] drop_bytes [of "Suc j" buf] drop_bytes [of "Suc (Suc j)" buf] by simp
    have "gg_encode_loop buf (Suc (Suc (Suc (Suc i)))) (Suc (Suc (Suc j))) =
        encode64 base64_charset CHR ''='' (drop (Suc (Suc (Suc j))) (bytes_of buf) @ [0])"
      using less.prems m 4 by (intro less.hyps) auto
    with 4 s0 m show ?thesis unfolding d
      by (simp add: gg_step gg_sextet_simps encode64_step)
  qed
qed

lemma y64_bits:
  fixes a b c :: nat
  assumes "a < 256" "b < 256" "c < 256"
  shows "drop_bit 2 a = a div 4" "push_bit 4 a AND 48 = a mod 4 * 16"
    "(push_bit 4 a AND 48) OR drop_bit 4 b = a mod 4 * 16 + b div 16"
    "push_bit 2 b AND 60 = b mod 16 * 4"
    "(push_bit 2 b AND 60) OR drop_bit 6 c = b mod 16 * 4 + c div 64"
    "a mod 4 * 16 OR drop_bit 4 b = a mod 4 * 16 + b div 16"
    "b mod 16 * 4 OR drop_bit 6 c = b mod 16 * 4 + c div 64"
proof -
  have e: "push_bit 4 (3::nat) = 48" "push_bit 2 (15::nat) = 60" by (simp_all add: push_bit_eq_mult)
  have "push_bit 4 (a AND 3) = push_bit 4 a AND 48" "push_bit 2 (b AND 15) = push_bit 2 b AND 60"
    unfolding push_bit_and e by (rule refl)+
  then have 1: "push_bit 4 a AND 48 = push_bit 4 (a mod 4)" "push_bit 2 b AND 60 = push_bit 2 (b mod 16)"
    unfolding and_low_nums by simp_all
  then show "push_bit 4 a AND 48 = a mod 4 * 16" "push_bit 2 b AND 60 = b mod 16 * 4"
    by (simp_all add: push_bit_eq_mult)
  show "drop_bit 2 a = a div 4" by (simp add: drop_bit_eq_div)
  have "b div 16 < 16" "c div 64 < 4" using assms by auto
  then have 2: "push_bit 4 (a mod 4) OR drop_bit 4 b = a mod 4 * 16 + b div 16"
    "push_bit 2 (b mod 16) OR drop_bit 6 c = b mod 16 * 4 + c div 64"
    by (simp_all add: drop_bit_eq_div join_bits)
  then show "(push_bit 4 a AND 48) OR drop_bit 4 b = a mod 4 * 16 + b div 16"
    "(push_bit 2 b AND 60) OR drop_bit 6 c = b mod 16 * 4 + c div 64"
    unfolding 1 by simp_all
  show "a mod 4 * 16 OR drop_bit 4 b = a mod 4 * 16 + b div 16"
    "b mod 16 * 4 OR drop_bit 6 c = b mod 16 * 4 + c div 64"
    using 2 by (simp_all add: push_bit_eq_mult)
qed

lemma to_y64_spec: "\<forall>b \<in> set bs. b < 256 \<Longrightarrow> to_y64 bs = encode64 y64_charset CHR ''-'' bs"
proof (induction bs rule: to_y64.induct)
  case (4 a b c bs)
  then show ?case by (simp add: y64_bits [of a b c] encode64_step)
next
  case (2 a)
  have "replicate 2 CHR ''-'' = ''--''" by (simp add: numeral_2_eq_2)
  with 2 show ?case by (simp add: y64_bits [of a 0 0] encode64_def pad_count_def)
next
  case (3 a b)
  then show ?case by (simp add: y64_bits [of a b 0] encode64_def pad_count_def)
qed (simp add: encode64_def pad_count_def)

section \<open>Decoders against the specification\<close>

lemma charset_all: "\<forall>k \<in> set [0..<64]. strchr base64_charset (base64_charset ! k) = Some k \<and>
    firetalk_debase64_char (base64_charset ! k) = k \<and>
    (of_char (base64_charset ! k) :: nat) < 128 \<and> base64_charset ! k \<noteq> CHR 0x0D \<and>
    base64_charset ! k \<noteq> CHR 0x0A"
  by code_simp

lemma charset_facts [simp]:
  assumes "k < 64"
  shows "strchr base64_charset (base64_charset ! k) = Some k" "gg_value (base64_charset ! k) = k"
    "firetalk_debase64_char (base64_charset ! k) = k" "(of_char (base64_charset ! k) :: nat) < 128"
    "base64_charset ! k \<noteq> CHR 0x0D" "base64_charset ! k \<noteq> CHR 0x0A"
  using charset_all assms by (auto simp: gg_value_def)

lemma pad_facts [simp]: "strchr base64_charset CHR ''='' = None" "gg_value CHR ''='' = 0"
proof -
  show "strchr base64_charset CHR ''='' = None" by code_simp
  then show "gg_value CHR ''='' = 0" by (simp add: gg_value_def)
qed

lemma push_mod:
  fixes k :: nat
  shows "push_bit 4 k mod 256 = k mod 16 * 16" "push_bit 6 k mod 256 = k mod 4 * 64"
proof -
  have e: "(2::nat) ^ 4 = 16" "(2::nat) ^ 6 = 64" "(256::nat) = 16 * 16" "(16 * 16 ::nat) = 4 * 64" by simp_all
  show "push_bit 4 k mod 256 = k mod 16 * 16"
    unfolding push_bit_eq_mult e(1,3) by (rule mod_mult_mult2)
  show "push_bit 6 k mod 256 = k mod 4 * 64"
    unfolding push_bit_eq_mult e(2,3,4) by (rule mod_mult_mult2)
qed

lemma mod_pack: "r < m \<Longrightarrow> (x * m + r) mod (m * n) = x mod n * m + (r::nat)"
  by (simp add: mod_mult2_eq)

lemma mod_pack_256:
  "r < 16 \<Longrightarrow> (x * 16 + r) mod 256 = x mod 16 * 16 + (r::nat)"
  "r < 64 \<Longrightarrow> (x * 64 + r) mod 256 = x mod 4 * 64 + (r::nat)"
  using mod_pack [of r 16 x 16] mod_pack [of r 64 x 4] by simp_all

text \<open>Putting three bytes together from four sextets, in the ways the decoders write it.\<close>

lemma decode_bits:
  fixes k0 k1 k2 k3 :: nat
  assumes "k0 < 64" "k1 < 64" "k2 < 64" "k3 < 64"
  shows "push_bit 2 k0 OR drop_bit 4 k1 = k0 * 4 + k1 div 16"
    "push_bit 4 k1 mod 256 OR drop_bit 2 k2 = k1 mod 16 * 16 + k2 div 4"
    "push_bit 6 k2 mod 256 OR k3 = k2 mod 4 * 64 + k3"
    "(push_bit 2 k0 OR drop_bit 4 k1) mod 256 = k0 * 4 + k1 div 16"
    "(push_bit 4 k1 OR drop_bit 2 k2) mod 256 = k1 mod 16 * 16 + k2 div 4"
    "(push_bit 6 k2 OR k3) mod 256 = k2 mod 4 * 64 + k3"
    "(push_bit 2 k0 OR drop_bit 4 (k1 AND 48)) mod 256 = k0 * 4 + k1 div 16"
    "(push_bit 4 (k1 AND 15) OR drop_bit 2 (k2 AND 60)) mod 256 = k1 mod 16 * 16 + k2 div 4"
    "(push_bit 6 (k2 AND 3) OR k3) mod 256 = k2 mod 4 * 64 + k3"
proof -
  have l: "k1 div 16 < 4" "k2 div 4 < 16" using assms by auto
  have m: "push_bit 4 k1 mod 256 = push_bit 4 (k1 mod 16)" "push_bit 6 k2 mod 256 = push_bit 6 (k2 mod 4)"
    unfolding push_mod by (simp_all add: push_bit_eq_mult)
  show 1: "push_bit 2 k0 OR drop_bit 4 k1 = k0 * 4 + k1 div 16"
    using l by (simp add: drop_bit_eq_div join_bits)
  show "push_bit 4 k1 mod 256 OR drop_bit 2 k2 = k1 mod 16 * 16 + k2 div 4"
    "push_bit 6 k2 mod 256 OR k3 = k2 mod 4 * 64 + k3"
    using l assms unfolding m by (simp_all add: drop_bit_eq_div join_bits)
  have b: "k0 * 4 + k1 div 16 < 256" using assms l by linarith
  then show "(push_bit 2 k0 OR drop_bit 4 k1) mod 256 = k0 * 4 + k1 div 16"
    unfolding 1 by simp
  have 2: "push_bit 4 k1 OR drop_bit 2 k2 = k1 * 16 + k2 div 4" "push_bit 6 k2 OR k3 = k2 * 64 + k3"
    using l(2) assms(4) join_bits(2) [of "k2 div 4" k1] join_bits(3) [of k3 k2] by (simp_all add: drop_bit_eq_div)
  show "(push_bit 4 k1 OR drop_bit 2 k2) mod 256 = k1 mod 16 * 16 + k2 div 4"
    "(push_bit 6 k2 OR k3) mod 256 = k2 mod 4 * 64 + k3"
    unfolding 2 by (rule mod_pack_256, fact l(2), rule mod_pack_256, fact assms(4))
  have 3: "push_bit 4 (k1 AND 15) OR k2 div 4 = (k1 mod 16) * 16 + k2 div 4"
    "push_bit 6 (k2 AND 3) OR k3 = (k2 mod 4) * 64 + k3"
    unfolding and_low_nums using l(2) assms(4) by (simp_all only: join_bits)
  have "drop_bit 4 (48::nat) = 3" "drop_bit 2 (60::nat) = 15"
    by (simp_all add: drop_bit_eq_div)
  then have d: "drop_bit 4 (k1 AND 48) = k1 div 16" "drop_bit 2 (k2 AND 60) = k2 div 4"
    using l by (simp_all add: drop_bit_and) (simp_all add: drop_bit_eq_div)
  show "(push_bit 2 k0 OR drop_bit 4 (k1 AND 48)) mod 256 = k0 * 4 + k1 div 16"
    "(push_bit 4 (k1 AND 15) OR drop_bit 2 (k2 AND 60)) mod 256 = k1 mod 16 * 16 + k2 div 4"
    "(push_bit 6 (k2 AND 3) OR k3) mod 256 = k2 mod 4 * 64 + k3"
    unfolding d 3 using 1 b l(2) assms(4)
    by (simp_all only: drop_bit_eq_div mod_pack_256) simp_all
qed

text \<open>The sextets of three bytes, and the bytes back from them.\<close>

lemma sextet_range [simp]:
  fixes a b c :: nat
  shows "a < 256 \<Longrightarrow> a div 4 < 64" "b < 256 \<Longrightarrow> a mod 4 * 16 + b div 16 < 64"
    "c < 256 \<Longrightarrow> b mod 16 * 4 + c div 64 < 64" "a mod 4 * 16 < 64" "b mod 16 * 4 < 64"
proof -
  have 1: "a mod 4 < 4" "b mod 16 < 16" by simp_all
  show "a < 256 \<Longrightarrow> a div 4 < 64" by auto
  show "b < 256 \<Longrightarrow> a mod 4 * 16 + b div 16 < 64"
  proof -
    assume "b < 256"
    then have "b div 16 < 16" by auto
    with 1 show ?thesis by linarith
  qed
  show "c < 256 \<Longrightarrow> b mod 16 * 4 + c div 64 < 64"
  proof -
    assume "c < 256"
    then have "c div 64 < 4" by auto
    with 1 show ?thesis by linarith
  qed
  show "a mod 4 * 16 < 64" "b mod 16 * 4 < 64" using 1 by linarith+
qed

lemma bytes_back [simp]:
  fixes a b c :: nat
  shows "b < 256 \<Longrightarrow> a div 4 * 4 + (a mod 4 * 16 + b div 16) div 16 = a"
    "b < 256 \<Longrightarrow> c < 256 \<Longrightarrow>
      (a mod 4 * 16 + b div 16) mod 16 * 16 + (b mod 16 * 4 + c div 64) div 4 = b"
    "c < 256 \<Longrightarrow> (b mod 16 * 4 + c div 64) mod 4 * 64 + c mod 64 = c"
    "a div 4 * 4 + (a mod 4 * 16) div 16 = a"
    "b < 256 \<Longrightarrow> (a mod 4 * 16 + b div 16) mod 16 * 16 + (b mod 16 * 4) div 4 = b"
proof -
  show "b < 256 \<Longrightarrow> a div 4 * 4 + (a mod 4 * 16 + b div 16) div 16 = a"
    "b < 256 \<Longrightarrow> c < 256 \<Longrightarrow>
      (a mod 4 * 16 + b div 16) mod 16 * 16 + (b mod 16 * 4 + c div 64) div 4 = b"
    "c < 256 \<Longrightarrow> (b mod 16 * 4 + c div 64) mod 4 * 64 + c mod 64 = c"
    "a div 4 * 4 + (a mod 4 * 16) div 16 = a"
    "b < 256 \<Longrightarrow> (a mod 4 * 16 + b div 16) mod 16 * 16 + (b mod 16 * 4) div 4 = b"
    by simp_all
qed

lemma bytes_back_nf [simp]:
  fixes b c :: nat
  shows "b < 256 \<Longrightarrow> b div 16 div 16 = 0"
    "b < 256 \<Longrightarrow> c < 256 \<Longrightarrow> b div 16 mod 16 * 16 + (b mod 16 + c div 64 div 4) = b"
    "c < 256 \<Longrightarrow> c div 64 mod 4 * 64 + c mod 64 = c"
    "b < 256 \<Longrightarrow> b div 16 mod 16 * 16 + b mod 16 = b"
  by (simp_all flip: div_mult2_eq)

lemma gg_decode_step:
  assumes "k0 < 64" "k1 < 64" "k2 < 64" "k3 < 64"
  shows "gg_decode_loop 0 0 (base64_charset ! k0 # base64_charset ! k1 # base64_charset ! k2 # base64_charset ! k3 # cs) =
     (k0 * 4 + k1 div 16) # (k1 mod 16 * 16 + k2 div 4) # (k2 mod 4 * 64 + k3) # gg_decode_loop 0 0 cs"
  using assms decode_bits(1-3) [OF assms, unfolded push_mod] by (simp add: push_mod)

lemma gg_decode_tail:
  "k0 < 64 \<Longrightarrow> k1 < 64 \<Longrightarrow> k2 < 64 \<Longrightarrow>
   gg_decode_loop 0 0 [base64_charset ! k0, base64_charset ! k1, base64_charset ! k2, CHR ''=''] =
     [k0 * 4 + k1 div 16, k1 mod 16 * 16 + k2 div 4, k2 mod 4 * 64]"
  "k0 < 64 \<Longrightarrow> k1 < 64 \<Longrightarrow>
   gg_decode_loop 0 0 [base64_charset ! k0, base64_charset ! k1, CHR ''='', CHR ''=''] =
     [k0 * 4 + k1 div 16, k1 mod 16 * 16, 0]"
  using decode_bits(1-3) [of k0 k1 k2 0, unfolded push_mod] by (simp_all add: push_mod decode_bits(1) [where ?k2.0 = 0 and ?k3.0 = 0])

lemma encode64_tail:
  "encode64 al p [] = []"
  "encode64 al p [a] = [al ! (a div 4), al ! (a mod 4 * 16), p, p]"
  "encode64 al p [a, b] = [al ! (a div 4), al ! (a mod 4 * 16 + b div 16), al ! (b mod 16 * 4), p]"
  by (simp_all add: encode64_def pad_count_def numeral_2_eq_2)

lemma gg_decode_encode64:
  "\<forall>b \<in> set bs. b < 256 \<Longrightarrow>
   \<exists>zs. gg_decode_loop 0 0 (encode64 base64_charset CHR ''='' bs) = bs @ zs \<and> set zs \<subseteq> {0}"
proof (induction bs rule: sextets.induct)
  case (4 a b c bs)
  then have "a < 256" "b < 256" "c < 256" by simp_all
  with 4 show ?case by (simp add: encode64_step gg_decode_step del: gg_decode_loop.simps)
qed (simp_all add: encode64_tail gg_decode_tail del: gg_decode_loop.simps(2))

lemma b64_step:
  assumes "k0 < 64" "k1 < 64" "k2 < 64" "k3 < 64"
  shows "b64_loop 0 d (base64_charset ! k0 # base64_charset ! k1 # base64_charset ! k2 # base64_charset ! k3 # cs) =
     map_option (\<lambda>bs. (k0 * 4 + k1 div 16) # (k1 mod 16 * 16 + k2 div 4) # (k2 mod 4 * 64 + k3) # bs)
       (b64_loop 0 k3 cs)"
  using assms decode_bits(7-9) [OF assms]
  by (simp add: not_le [THEN iffD2, OF charset_facts(4)] option.map_comp comp_def)

lemma b64_tail:
  "k0 < 64 \<Longrightarrow> k1 < 64 \<Longrightarrow> k2 < 64 \<Longrightarrow>
   b64_loop 0 d [base64_charset ! k0, base64_charset ! k1, base64_charset ! k2, CHR ''=''] =
     Some [k0 * 4 + k1 div 16, k1 mod 16 * 16 + k2 div 4]"
  "k0 < 64 \<Longrightarrow> k1 < 64 \<Longrightarrow>
   b64_loop 0 d [base64_charset ! k0, base64_charset ! k1, CHR ''='', CHR ''=''] = Some [k0 * 4 + k1 div 16]"
  using decode_bits(7-9) [of k0 k1 k2 0] decode_bits(7-9) [of k0 k1 0 0]
  by (simp_all add: not_le [THEN iffD2, OF charset_facts(4)])

lemma b64_encode64:
  "\<forall>b \<in> set bs. b < 256 \<Longrightarrow> b64_loop 0 d (encode64 base64_charset CHR ''='' bs) = Some bs"
proof (induction bs arbitrary: d rule: sextets.induct)
  case (4 a b c bs)
  then have "a < 256" "b < 256" "c < 256" by simp_all
  with 4 show ?case by (simp add: encode64_step b64_step del: b64_loop.simps)
qed (simp_all add: encode64_tail b64_tail del: b64_loop.simps(2))

lemma debase64_step:
  assumes "k0 < 64" "k1 < 64" "k2 < 64" "k3 < 64" "n < 255"
  shows "debase64_loop n (base64_charset ! k0 # base64_charset ! k1 # base64_charset ! k2 # base64_charset ! k3 # cs) =
     (k0 * 4 + k1 div 16) # (k1 mod 16 * 16 + k2 div 4) # (k2 mod 4 * 64 + k3) # debase64_loop (n + 3) cs"
  using assms decode_bits(4-6) [OF assms(1-4)] by simp

lemma debase64_encode64:
  "\<forall>b \<in> set bs. b < 256 \<Longrightarrow> length bs mod 3 = 0 \<Longrightarrow> n + length bs \<le> 255 \<Longrightarrow>
   debase64_loop n (encode64 base64_charset CHR ''='' bs) = bs"
proof (induction bs arbitrary: n rule: sextets.induct)
  case (4 a b c bs)
  have "Suc (Suc (Suc (length bs))) mod 3 = length bs mod 3" by presburger
  moreover from 4 have "a < 256" "b < 256" "c < 256" by simp_all
  ultimately show ?case using 4 by (simp add: encode64_step debase64_step del: debase64_loop.simps)
qed (auto simp: encode64_tail)

lemma debase64_bound: "n \<le> 255 \<Longrightarrow> n mod 3 = 0 \<Longrightarrow> n + length (debase64_loop n s) \<le> 255"
proof (induction n s rule: debase64_loop.induct)
  case (1 n a b c cs)
  show ?case
  proof (cases "n < 255")
    case True
    then have "n + 3 \<le> 255" "(n + 3) mod 3 = 0" using 1(3) by presburger+
    with 1 True show ?thesis by (simp add: Let_def)
  next
    case False
    then show ?thesis using 1 by simp
  qed
qed auto

section \<open>What the coders do\<close>

text \<open>
  \<open>gg_base64_encode\<close> is standard base64 of the string with its terminating zero byte: the
  loop runs up to \<open>j = len\<close>.
\<close>

theorem gg_base64_encode_spec:
  "gg_base64_encode s = encode64 base64_charset CHR ''='' (bytes_of s @ [0])"
  by (simp add: gg_base64_encode_def gg_encode_loop_spec)

lemma bytes_of_inverse [simp]: "map char_of (bytes_of s) = s"
  by (simp add: bytes_of_def comp_def)

lemma bytes_of_nonzero: "CHR 0x00 \<notin> set s \<Longrightarrow> 0 \<notin> set (bytes_of s)"
proof
  assume s: "CHR 0x00 \<notin> set s" and "0 \<in> set (bytes_of s)"
  then obtain c where "c \<in> set s" "of_char c = (0::nat)" by (auto simp: bytes_of_def)
  then have "c = char_of (0::nat)" by (metis char_of_char)
  also have "char_of (0::nat) = CHR 0x00" by (simp add: char_of_def)
  finally show False using s \<open>c \<in> set s\<close> by simp
qed

lemma c_string_bytes: "0 \<notin> set bs \<Longrightarrow> c_string (bs @ 0 # zs) = map char_of bs"
proof -
  assume "0 \<notin> set bs"
  then have "\<And>b. b \<in> set bs \<Longrightarrow> b \<noteq> 0" by (metis (full_types))
  then have "takeWhile (\<lambda>b. b \<noteq> 0) (bs @ 0 # zs) = bs @ takeWhile (\<lambda>b. b \<noteq> 0) (0 # zs)"
    by (rule takeWhile_append2)
  then show ?thesis by (simp add: c_string_def)
qed

lemma gg_decode_encode:
  "\<exists>zs. gg_decode_loop 0 0 (gg_base64_encode s) = bytes_of s @ 0 # zs"
proof -
  have "\<forall>b \<in> set (bytes_of s @ [0]). b < 256" using bytes_of_less by auto
  from gg_decode_encode64 [OF this] show ?thesis
    by (auto simp: gg_base64_encode_def gg_encode_loop_spec)
qed

text \<open>C37. Decoding what \<open>gg_base64_encode\<close> wrote gives the string back.\<close>

theorem gg_base64_roundtrip:
  "CHR 0x00 \<notin> set s \<Longrightarrow> gg_base64_decode (Some (gg_base64_encode s)) = Some s"
  using gg_decode_encode [of s] bytes_of_nonzero [of s]
  by (auto simp: gg_base64_decode_def c_string_bytes)

theorem gg_base64_roundtrip_witness:
  "gg_base64_decode (Some (gg_base64_encode ''user:pw'')) = Some ''user:pw''"
  by (rule gg_base64_roundtrip) simp

text \<open>
  \<open>str_b64decode\<close> inverts standard base64 on every sequence of bytes, the padded ends
  included.
\<close>

theorem str_b64decode_inverse:
  "\<forall>b \<in> set bs. b < 256 \<Longrightarrow> str_b64decode (encode64 base64_charset CHR ''='' bs) = Some bs"
  by (simp add: str_b64decode_def b64_encode64)

theorem str_b64decode_inverse_witness:
  "str_b64decode (encode64 base64_charset CHR ''='' [0, 255, 7, 128]) = Some [0, 255, 7, 128]"
  by (rule str_b64decode_inverse) simp

text \<open>
  \<open>to_y64\<close> is base64 over Yahoo's alphabet, whose last two characters and padding are
  \<open>.\<close>, \<open>_\<close> and \<open>-\<close>.
\<close>

theorem to_y64_encodes:
  "\<forall>b \<in> set bs. b < 256 \<Longrightarrow> to_y64 bs = encode64 y64_charset CHR ''-'' bs"
  by (rule to_y64_spec)

theorem to_y64_encodes_witness: "to_y64 [255, 254] = encode64 y64_charset CHR ''-'' [255, 254]"
  by (rule to_y64_encodes) simp

text \<open>
  The credentials for an HTTP proxy are encoded with the same alphabet: what
  \<open>cw_base64_encode\<close> sends is not the base64 a proxy decodes.
\<close>

lemma cw_base64_encode_y64:
  "\<forall>b \<in> set (bytes_of s). b < 128 \<Longrightarrow> cw_base64_encode s = Some (encode64 y64_charset CHR ''-'' (bytes_of s))"
  using to_y64_spec [of "bytes_of s"] by (auto simp: cw_base64_encode_def dest: bytes_of_less)

theorem cw_base64_not_standard:
  "cw_base64_encode ''user:pw'' = Some ''dXNlcjpwdw--''"
  "encode64 base64_charset CHR ''='' (bytes_of ''user:pw'') = ''dXNlcjpwdw==''"
  "cw_base64_encode [CHR 0xE9] = None"
proof -
  have "\<forall>b \<in> set (bytes_of ''user:pw''). b < 128" by code_simp
  moreover have "encode64 y64_charset CHR ''-'' (bytes_of ''user:pw'') = ''dXNlcjpwdw--''" by code_simp
  ultimately show "cw_base64_encode ''user:pw'' = Some ''dXNlcjpwdw--''"
    using cw_base64_encode_y64 [of "''user:pw''"] by simp
  show "encode64 base64_charset CHR ''='' (bytes_of ''user:pw'') = ''dXNlcjpwdw==''" by code_simp
  have "bytes_of [CHR 0xE9] = [233]" by code_simp
  then show "cw_base64_encode [CHR 0xE9] = None" by (simp add: cw_base64_encode_def)
qed

text \<open>
  \<open>firetalk_debase64\<close> never writes more than the 255 bytes its buffer has before the
  terminator, whatever it is given.
\<close>

theorem firetalk_debase64_bounded: "length (firetalk_debase64 s) \<le> 255"
  using debase64_bound [of 0 s] by (simp add: firetalk_debase64_def)

text \<open>And it inverts base64 on whole groups of three bytes.\<close>

theorem firetalk_debase64_inverse:
  "\<forall>b \<in> set bs. b < 256 \<Longrightarrow> length bs mod 3 = 0 \<Longrightarrow> length bs \<le> 255 \<Longrightarrow>
   firetalk_debase64 (encode64 base64_charset CHR ''='' bs) = bs"
  by (simp add: firetalk_debase64_def debase64_encode64)

end
