(* ===== verification/Cells.thy ===== *)
theory Cells
  imports Prelude
begin

text \<open>
  Linked structures in memory. A memory maps addresses to nodes, and a pointer is an address or
  \<open>NULL\<close> (\<open>None\<close>). A data structure is described by the list of the cells it consists of, address
  and contents; \<open>holds f cs\<close> says that the memory \<open>f\<close> has these cells.
\<close>

type_synonym ptr = "nat option"

definition holds :: "(nat \<Rightarrow> 'n option) \<Rightarrow> (nat \<times> 'n) list \<Rightarrow> bool" where
  "holds f cs \<longleftrightarrow> (\<forall>(a, n) \<in> set cs. f a = Some n)"

lemma holds_simps [simp]:
  "holds f []" "holds f ((a, n) # cs) \<longleftrightarrow> f a = Some n \<and> holds f cs"
  "holds f (cs @ ds) \<longleftrightarrow> holds f cs \<and> holds f ds"
  by (auto simp: holds_def)

lemma holds_upd [simp]: "a \<notin> fst ` set cs \<Longrightarrow> holds (f(a \<mapsto> n)) cs = holds f cs"
  by (induction cs) auto

lemma holds_del [simp]: "a \<notin> fst ` set cs \<Longrightarrow> holds (f(a := None)) cs = holds f cs"
  by (induction cs) auto

lemma holds_cong:
  "holds f cs \<Longrightarrow> (\<And>a. a \<in> fst ` set cs \<Longrightarrow> g a = f a) \<Longrightarrow> holds g cs"
  by (force simp: holds_def)

lemma holds_in: "holds f cs \<Longrightarrow> a \<in> fst ` set cs \<Longrightarrow> f a \<noteq> None"
  by (force simp: holds_def)

end
