(* ===== verification/XmlNode.thy ===== *)
theory XmlNode
  imports JStr Cells
begin

text \<open>
  The document tree of \<open>libjabber/xmlnode.c\<close>: tags, attributes and character data are nodes of
  one type, linked by seven pointers and allocated from memory pools. The memory is a map from
  addresses to nodes; a pointer is an address or \<open>NULL\<close> (\<open>None\<close>). Reading or writing through
  \<open>NULL\<close> or to memory that was freed has no result.
\<close>

section \<open>Nodes and memory\<close>

abbreviation NTYPE_TAG :: nat where "NTYPE_TAG \<equiv> 0"
abbreviation NTYPE_ATTRIB :: nat where "NTYPE_ATTRIB \<equiv> 1"
abbreviation NTYPE_CDATA :: nat where "NTYPE_CDATA \<equiv> 2"
abbreviation NTYPE_LAST :: nat where "NTYPE_LAST \<equiv> 2"

record xnode =
  xn_name :: "string option"
  xn_type :: nat
  xn_data :: "string option"
  xn_data_sz :: int
  xn_complete :: int
  xn_pool :: nat
  xn_parent :: ptr
  xn_firstchild :: ptr
  xn_lastchild :: ptr
  xn_prev :: ptr
  xn_next :: ptr
  xn_firstattrib :: ptr
  xn_lastattrib :: ptr

text \<open>\<open>xm_brk\<close> is the next free address, \<open>xm_pools\<close> the next pool.\<close>

record xmem =
  xm_nodes :: "nat \<Rightarrow> xnode option"
  xm_brk :: nat
  xm_pools :: nat

definition load :: "xmem \<Rightarrow> ptr \<Rightarrow> xnode option" where
  "load m p = (case p of None \<Rightarrow> None | Some a \<Rightarrow> xm_nodes m a)"

definition store :: "xmem \<Rightarrow> ptr \<Rightarrow> (xnode \<Rightarrow> xnode) \<Rightarrow> xmem option" where
  "store m p f = (case p of None \<Rightarrow> None | Some a \<Rightarrow>
     (case xm_nodes m a of None \<Rightarrow> None | Some n \<Rightarrow> Some (m\<lparr>xm_nodes := (xm_nodes m)(a \<mapsto> f n)\<rparr>)))"

definition blank_node :: "string option \<Rightarrow> nat \<Rightarrow> nat \<Rightarrow> xnode" where
  "blank_node name type p =
     \<lparr>xn_name = name, xn_type = type, xn_data = None, xn_data_sz = 0, xn_complete = 0, xn_pool = p,
      xn_parent = None, xn_firstchild = None, xn_lastchild = None, xn_prev = None, xn_next = None,
      xn_firstattrib = None, xn_lastattrib = None\<rparr>"

section \<open>Reading nodes\<close>

text \<open>The accessors answer zero for a \<open>NULL\<close> node.\<close>

definition xmlnode_field :: "(xnode \<Rightarrow> 'a) \<Rightarrow> 'a \<Rightarrow> xmem \<Rightarrow> ptr \<Rightarrow> 'a option" where
  "xmlnode_field f zero m node = (case node of None \<Rightarrow> Some zero | Some a \<Rightarrow> map_option f (xm_nodes m a))"

definition xmlnode_get_firstattrib :: "xmem \<Rightarrow> ptr \<Rightarrow> ptr option" where
  "xmlnode_get_firstattrib = xmlnode_field xn_firstattrib None"

definition xmlnode_get_firstchild :: "xmem \<Rightarrow> ptr \<Rightarrow> ptr option" where
  "xmlnode_get_firstchild = xmlnode_field xn_firstchild None"

definition xmlnode_get_lastchild :: "xmem \<Rightarrow> ptr \<Rightarrow> ptr option" where
  "xmlnode_get_lastchild = xmlnode_field xn_lastchild None"

definition xmlnode_get_nextsibling :: "xmem \<Rightarrow> ptr \<Rightarrow> ptr option" where
  "xmlnode_get_nextsibling = xmlnode_field xn_next None"

definition xmlnode_get_prevsibling :: "xmem \<Rightarrow> ptr \<Rightarrow> ptr option" where
  "xmlnode_get_prevsibling = xmlnode_field xn_prev None"

definition xmlnode_get_parent :: "xmem \<Rightarrow> ptr \<Rightarrow> ptr option" where
  "xmlnode_get_parent = xmlnode_field xn_parent None"

definition xmlnode_get_name :: "xmem \<Rightarrow> ptr \<Rightarrow> string option option" where
  "xmlnode_get_name = xmlnode_field xn_name None"

definition xmlnode_get_datasz :: "xmem \<Rightarrow> ptr \<Rightarrow> int option" where
  "xmlnode_get_datasz = xmlnode_field xn_data_sz 0"

definition xmlnode_get_type :: "xmem \<Rightarrow> ptr \<Rightarrow> nat option" where
  "xmlnode_get_type = xmlnode_field xn_type 0"

definition xmlnode_has_children :: "xmem \<Rightarrow> ptr \<Rightarrow> bool option" where
  "xmlnode_has_children = xmlnode_field (\<lambda>n. xn_firstchild n \<noteq> None) False"

definition xmlnode_has_attribs :: "xmem \<Rightarrow> ptr \<Rightarrow> bool option" where
  "xmlnode_has_attribs = xmlnode_field (\<lambda>n. xn_firstattrib n \<noteq> None) False"

definition xmlnode_pool :: "xmem \<Rightarrow> ptr \<Rightarrow> nat option option" where
  "xmlnode_pool = xmlnode_field (\<lambda>n. Some (xn_pool n)) None"

text \<open>
  The loops over siblings: \<open>visit\<close> looks at a node and answers whether the loop ends there, with
  its result. A list of siblings that does not end has no result.
\<close>

partial_function (option) siblings ::
  "xmem \<Rightarrow> ptr \<Rightarrow> (nat \<Rightarrow> 'r option option) \<Rightarrow> 'r option option" where
  "siblings m cur visit =
     (case cur of
        None \<Rightarrow> Some None
      | Some a \<Rightarrow> do {
          found \<leftarrow> visit a;
          (case found of
             Some r \<Rightarrow> Some (Some r)
           | None \<Rightarrow> do {
               n \<leftarrow> xm_nodes m a;
               siblings m (xn_next n) visit
             })
        })"

definition i_xmlnode_search :: "xmem \<Rightarrow> ptr \<Rightarrow> string option \<Rightarrow> nat \<Rightarrow> ptr option" where
  "i_xmlnode_search m firstsibling name type =
     siblings m firstsibling (\<lambda>a. do {
       n \<leftarrow> xm_nodes m a;
       Some (if xn_type n = type \<and> j_strcmp (xn_name n) name = 0 then Some a else None)
     })"

text \<open>\<open>xmlnode_get_data\<close>: the first character data among the children of a tag.\<close>

definition xmlnode_get_data :: "xmem \<Rightarrow> ptr \<Rightarrow> string option option" where
  "xmlnode_get_data m node =
     (case node of
        None \<Rightarrow> Some None
      | Some a \<Rightarrow> do {
          n \<leftarrow> xm_nodes m a;
          if xn_type n = NTYPE_TAG then do {
            r \<leftarrow> siblings m (xn_firstchild n) (\<lambda>c. do {
              k \<leftarrow> xm_nodes m c;
              Some (if xn_type k = NTYPE_CDATA then Some (xn_data k) else None)
            });
            Some (Option.bind r id)
          }
          else Some (xn_data n)
        })"

definition xmlnode_get_attrib :: "xmem \<Rightarrow> ptr \<Rightarrow> string option \<Rightarrow> string option option" where
  "xmlnode_get_attrib m owner name =
     (case owner of
        None \<Rightarrow> Some None
      | Some a \<Rightarrow> do {
          n \<leftarrow> xm_nodes m a;
          if xn_firstattrib n = None then Some None
          else do {
            attrib \<leftarrow> i_xmlnode_search m (xn_firstattrib n) name NTYPE_ATTRIB;
            (case attrib of
               None \<Rightarrow> Some None
             | Some t \<Rightarrow> map_option xn_data (xm_nodes m t))
          }
        })"

definition xmlnode_get_vattrib :: "xmem \<Rightarrow> ptr \<Rightarrow> string option \<Rightarrow> ptr option" where
  "xmlnode_get_vattrib m owner name =
     (case owner of
        None \<Rightarrow> Some None
      | Some a \<Rightarrow> do {
          n \<leftarrow> xm_nodes m a;
          if xn_firstattrib n = None then Some None
          else do {
            attrib \<leftarrow> i_xmlnode_search m (xn_firstattrib n) name NTYPE_ATTRIB;
            (case attrib of
               None \<Rightarrow> Some None
             | Some t \<Rightarrow> map_option xn_firstchild (xm_nodes m t))
          }
        })"

text \<open>
  \<open>xmlnode_get_tag\<close>: a name, a path \<open>a/b\<close>, or \<open>a?attrib=value\<close>. The copy of the name is cut
  into pieces by writing zero bytes at the positions of \<open>?\<close> and \<open>=\<close>.
\<close>

definition query_parts :: "string \<Rightarrow> nat \<Rightarrow> nat option \<Rightarrow> string \<times> string \<times> string option" where
  "query_parts str q equals =
     (case equals of
        None \<Rightarrow> (take q str, drop (q + 1) str, None)
      | Some e \<Rightarrow>
          if q < e then (take q str, take (e - (q + 1)) (drop (q + 1) str), Some (drop (e + 1) str))
          else (take e str, drop (q + 1) str, Some (take (q - (e + 1)) (drop (e + 1) str))))"

definition match_query :: "xmem \<Rightarrow> string \<times> string \<times> string option \<Rightarrow> nat \<Rightarrow> ptr option" where
  "match_query m parts step =
     (case parts of (str, qmark, equals) \<Rightarrow> do {
        n \<leftarrow> xm_nodes m step;
        if xn_type n \<noteq> NTYPE_TAG then Some None
        else if str \<noteq> [] \<and> j_strcmp (xn_name n) (Some str) \<noteq> 0 then Some None
        else do {
          v \<leftarrow> xmlnode_get_attrib m (Some step) (Some qmark);
          if v = None then Some None
          else if equals \<noteq> None \<and> j_strcmp v equals \<noteq> 0 then Some None
          else Some (Some step)
        }
      })"

text \<open>Which of the three forms a name has; a slash before the question mark comes first.\<close>

datatype tag_path = Plain | Query nat | Step nat

definition tag_path :: "string \<Rightarrow> tag_path" where
  "tag_path name =
     (case (strstr name ''/'', strstr name ''?'') of
        (None, None) \<Rightarrow> Plain
      | (None, Some q) \<Rightarrow> Query q
      | (Some l, None) \<Rightarrow> Step l
      | (Some l, Some q) \<Rightarrow> if q < l then Query q else Step l)"

lemma tag_path_Step: "tag_path name = Step l \<Longrightarrow> l < length name"
  by (auto simp: tag_path_def strstr_single split: option.splits if_splits dest: strchr_Some_take)

function xmlnode_get_tag :: "xmem \<Rightarrow> ptr \<Rightarrow> string option \<Rightarrow> ptr option" where
  "xmlnode_get_tag m parent name =
     (case parent of
        None \<Rightarrow> Some None
      | Some a \<Rightarrow> do {
          n \<leftarrow> xm_nodes m a;
          if xn_firstchild n = None then Some None
          else (case name of
             None \<Rightarrow> Some None
           | Some str \<Rightarrow>
               (case tag_path str of
                  Plain \<Rightarrow> i_xmlnode_search m (xn_firstchild n) name NTYPE_TAG
                | Query q \<Rightarrow>
                    siblings m (xn_firstchild n) (match_query m (query_parts str q (strstr str ''='')))
                | Step l \<Rightarrow>
                    siblings m (xn_firstchild n) (\<lambda>step. do {
                      k \<leftarrow> xm_nodes m step;
                      if xn_type k \<noteq> NTYPE_TAG then Some None
                      else if j_strcmp (xn_name k) (Some (take l str)) \<noteq> 0 then Some None
                      else xmlnode_get_tag m (Some step) (Some (drop (l + 1) str))
                    })))
        })"
  by pat_completeness auto
termination
  by (relation "measure (\<lambda>(m, parent, name). case name of None \<Rightarrow> 0 | Some str \<Rightarrow> length str)")
    (auto dest: tag_path_Step)

declare xmlnode_get_tag.simps [simp del]

definition xmlnode_get_tag_data :: "xmem \<Rightarrow> ptr \<Rightarrow> string option \<Rightarrow> string option option" where
  "xmlnode_get_tag_data m parent name = do {
     tag \<leftarrow> xmlnode_get_tag m parent name;
     if tag = None then Some None else xmlnode_get_data m tag
   }"

text \<open>
  \<open>xmlnode_cmp\<close> compares a node and all its following siblings.
\<close>

partial_function (option) xmlnode_cmp :: "xmem \<Rightarrow> ptr \<Rightarrow> ptr \<Rightarrow> int option" where
  "xmlnode_cmp m a b =
     (case (a, b) of
        (None, None) \<Rightarrow> Some 0
      | (Some x, Some y) \<Rightarrow> do {
          n \<leftarrow> xm_nodes m x;
          k \<leftarrow> xm_nodes m y;
          if xn_type n \<noteq> xn_type k then Some (- 1)
          else if xn_type n = NTYPE_ATTRIB then
            if j_strcmp (xn_name n) (xn_name k) \<noteq> 0 then Some (- 1)
            else if j_strcmp (xn_data n) (xn_data k) \<noteq> 0 then Some (- 1)
            else xmlnode_cmp m (xn_next n) (xn_next k)
          else if xn_type n = NTYPE_TAG then
            if j_strcmp (xn_name n) (xn_name k) \<noteq> 0 then Some (- 1)
            else do {
              ret \<leftarrow> xmlnode_cmp m (xn_firstattrib n) (xn_firstattrib k);
              if ret \<noteq> 0 then Some (- 1)
              else do {
                ret \<leftarrow> xmlnode_cmp m (xn_firstchild n) (xn_firstchild k);
                if ret \<noteq> 0 then Some (- 1) else xmlnode_cmp m (xn_next n) (xn_next k)
              }
            }
          else if xn_type n = NTYPE_CDATA then
            if j_strcmp (xn_data n) (xn_data k) \<noteq> 0 then Some (- 1)
            else xmlnode_cmp m (xn_next n) (xn_next k)
          else xmlnode_cmp m (xn_next n) (xn_next k)
        }
      | _ \<Rightarrow> Some (- 1))"

section \<open>Building trees\<close>

text \<open>
  \<open>_xmlnode_new\<close>: a \<open>NULL\<close> pool means a new pool. The node is at a fresh address.
\<close>

definition i_xmlnode_new :: "xmem \<Rightarrow> nat option \<Rightarrow> string option \<Rightarrow> nat \<Rightarrow> xmem \<times> ptr" where
  "i_xmlnode_new m p name type =
     (if NTYPE_LAST < type then (m, None)
      else if type \<noteq> NTYPE_CDATA \<and> name = None then (m, None)
      else
        let (pool, pools) = (case p of None \<Rightarrow> (xm_pools m, xm_pools m + 1) | Some q \<Rightarrow> (q, xm_pools m));
            a = xm_brk m;
            n = blank_node (if type \<noteq> NTYPE_CDATA then name else None) type pool in
        (m\<lparr>xm_nodes := (xm_nodes m)(a \<mapsto> n), xm_brk := a + 1, xm_pools := pools\<rparr>, Some a))"

definition i_xmlnode_append_sibling ::
  "xmem \<Rightarrow> ptr \<Rightarrow> string option \<Rightarrow> nat \<Rightarrow> (xmem \<times> ptr) option" where
  "i_xmlnode_append_sibling m lastsibling name type = do {
     p \<leftarrow> xmlnode_pool m lastsibling;
     let (m, result) = i_xmlnode_new m p name type;
     if result = None then Some (m, None)
     else do {
       m \<leftarrow> store m result (\<lambda>n. n\<lparr>xn_prev := lastsibling\<rparr>);
       m \<leftarrow> store m lastsibling (\<lambda>n. n\<lparr>xn_next := result\<rparr>);
       Some (m, result)
     }
   }"

definition i_xmlnode_insert :: "xmem \<Rightarrow> ptr \<Rightarrow> string option \<Rightarrow> nat \<Rightarrow> (xmem \<times> ptr) option" where
  "i_xmlnode_insert m parent name type =
     (if parent = None \<or> name = None then Some (m, None)
      else do {
        n \<leftarrow> load m parent;
        (m, result) \<leftarrow>
          (if xn_firstchild n = None then do {
             let (m, result) = i_xmlnode_new m (Some (xn_pool n)) name type;
             m \<leftarrow> store m parent (\<lambda>n. n\<lparr>xn_firstchild := result\<rparr>);
             Some (m, result)
           }
           else i_xmlnode_append_sibling m (xn_lastchild n) name type);
        m \<leftarrow> store m result (\<lambda>n. n\<lparr>xn_parent := parent\<rparr>);
        m \<leftarrow> store m parent (\<lambda>n. n\<lparr>xn_lastchild := result\<rparr>);
        Some (m, result)
      })"

definition xmlnode_new_tag :: "xmem \<Rightarrow> string option \<Rightarrow> xmem \<times> ptr" where
  "xmlnode_new_tag m name = i_xmlnode_new m None name NTYPE_TAG"

definition xmlnode_new_tag_pool :: "xmem \<Rightarrow> nat option \<Rightarrow> string option \<Rightarrow> xmem \<times> ptr" where
  "xmlnode_new_tag_pool m p name = i_xmlnode_new m p name NTYPE_TAG"

definition xmlnode_insert_tag :: "xmem \<Rightarrow> ptr \<Rightarrow> string option \<Rightarrow> (xmem \<times> ptr) option" where
  "xmlnode_insert_tag m parent name = i_xmlnode_insert m parent name NTYPE_TAG"

text \<open>
  \<open>xmlnode_insert_cdata\<close>: \<open>sz\<close> is the number of bytes to take, \<open>-1\<close> for all of the text.
  Copying more bytes than the text has reads outside of it.
\<close>

definition copy_bytes :: "string option \<Rightarrow> int \<Rightarrow> string option" where
  "copy_bytes src sz =
     (case src of None \<Rightarrow> if sz = 0 then Some [] else None
      | Some s \<Rightarrow> if 0 \<le> sz \<and> sz \<le> int (length s) then Some (take (nat sz) s) else None)"

definition insert_new_cdata ::
  "xmem \<Rightarrow> ptr \<Rightarrow> string option \<Rightarrow> int \<Rightarrow> (xmem \<times> ptr) option" where
  "insert_new_cdata m parent CDATA sz = do {
     (m, result) \<leftarrow> i_xmlnode_insert m parent (Some []) NTYPE_CDATA;
     if result = None then Some (m, None)
     else do {
       src \<leftarrow> copy_bytes CDATA sz;
       m \<leftarrow> store m result (\<lambda>r. r\<lparr>xn_data := Some src, xn_data_sz := sz\<rparr>);
       Some (m, result)
     }
   }"

definition xmlnode_insert_cdata ::
  "xmem \<Rightarrow> ptr \<Rightarrow> string option \<Rightarrow> int \<Rightarrow> (xmem \<times> ptr) option" where
  "xmlnode_insert_cdata m parent CDATA sz =
     (if CDATA = None \<or> parent = None then Some (m, None)
      else do {
        let sz = (if sz = - 1 then int (j_strlen CDATA) else sz);
        n \<leftarrow> load m parent;
        last \<leftarrow> xmlnode_field Some None m (xn_lastchild n);
        (case last of
           Some l \<Rightarrow>
             if xn_type l = NTYPE_CDATA then do {
               dest \<leftarrow> copy_bytes (xn_data l) (xn_data_sz l);
               src \<leftarrow> copy_bytes CDATA sz;
               m \<leftarrow> store m (xn_lastchild n)
                 (\<lambda>r. r\<lparr>xn_data := Some (dest @ src), xn_data_sz := xn_data_sz l + sz\<rparr>);
               Some (m, xn_lastchild n)
             }
             else insert_new_cdata m parent CDATA sz
         | None \<Rightarrow> insert_new_cdata m parent CDATA sz)
      })"


text \<open>\<open>xmlnode_put_attrib\<close> and the attributes that hold a pointer.\<close>

definition xmlnode_put_attrib :: "xmem \<Rightarrow> ptr \<Rightarrow> string option \<Rightarrow> string option \<Rightarrow> xmem option" where
  "xmlnode_put_attrib m owner name value =
     (if owner = None \<or> name = None \<or> value = None then Some m
      else do {
        n \<leftarrow> load m owner;
        (m, attrib) \<leftarrow>
          (if xn_firstattrib n = None then do {
             let (m, attrib) = i_xmlnode_new m (Some (xn_pool n)) name NTYPE_ATTRIB;
             m \<leftarrow> store m owner (\<lambda>n. n\<lparr>xn_firstattrib := attrib\<rparr>);
             m \<leftarrow> store m owner (\<lambda>n. n\<lparr>xn_lastattrib := attrib\<rparr>);
             Some (m, attrib)
           }
           else do {
             attrib \<leftarrow> i_xmlnode_search m (xn_firstattrib n) name NTYPE_ATTRIB;
             if attrib = None then do {
               (m, attrib) \<leftarrow> i_xmlnode_append_sibling m (xn_lastattrib n) name NTYPE_ATTRIB;
               m \<leftarrow> store m owner (\<lambda>n. n\<lparr>xn_lastattrib := attrib\<rparr>);
               Some (m, attrib)
             }
             else Some (m, attrib)
           });
        store m attrib (\<lambda>r. r\<lparr>xn_data_sz := int (j_strlen value), xn_data := value\<rparr>)
      })"

definition xmlnode_put_vattrib :: "xmem \<Rightarrow> ptr \<Rightarrow> string option \<Rightarrow> ptr \<Rightarrow> xmem option" where
  "xmlnode_put_vattrib m owner name value =
     (if owner = None then Some m
      else do {
        n \<leftarrow> load m owner;
        attrib \<leftarrow> i_xmlnode_search m (xn_firstattrib n) name NTYPE_ATTRIB;
        (m, attrib) \<leftarrow>
          (if attrib = None then do {
             m \<leftarrow> xmlnode_put_attrib m owner name (Some []);
             n \<leftarrow> load m owner;
             attrib \<leftarrow> i_xmlnode_search m (xn_firstattrib n) name NTYPE_ATTRIB;
             Some (m, attrib)
           }
           else Some (m, attrib));
        if attrib = None then Some m else store m attrib (\<lambda>r. r\<lparr>xn_firstchild := value\<rparr>)
      })"

text \<open>Unlinking a node; its own pointers keep their values.\<close>

definition i_xmlnode_hide_sibling :: "xmem \<Rightarrow> ptr \<Rightarrow> xmem option" where
  "i_xmlnode_hide_sibling m child =
     (if child = None then Some m
      else do {
        c \<leftarrow> load m child;
        m \<leftarrow> (if xn_prev c = None then Some m else store m (xn_prev c) (\<lambda>r. r\<lparr>xn_next := xn_next c\<rparr>));
        c \<leftarrow> load m child;
        (if xn_next c = None then Some m else store m (xn_next c) (\<lambda>r. r\<lparr>xn_prev := xn_prev c\<rparr>))
      })"

definition xmlnode_hide :: "xmem \<Rightarrow> ptr \<Rightarrow> xmem option" where
  "xmlnode_hide m child =
     (if child = None then Some m
      else do {
        c \<leftarrow> load m child;
        if xn_parent c = None then Some m
        else do {
          let parent = xn_parent c;
          m \<leftarrow> i_xmlnode_hide_sibling m child;
          c \<leftarrow> load m child;
          p \<leftarrow> load m parent;
          m \<leftarrow> (if xn_firstchild p = child then store m parent (\<lambda>r. r\<lparr>xn_firstchild := xn_next c\<rparr>) else Some m);
          c \<leftarrow> load m child;
          p \<leftarrow> load m parent;
          (if xn_lastchild p = child then store m parent (\<lambda>r. r\<lparr>xn_lastchild := xn_prev c\<rparr>) else Some m)
        }
      })"

definition xmlnode_hide_attrib :: "xmem \<Rightarrow> ptr \<Rightarrow> string option \<Rightarrow> xmem option" where
  "xmlnode_hide_attrib m parent name =
     (if parent = None then Some m
      else do {
        p \<leftarrow> load m parent;
        if xn_firstattrib p = None \<or> name = None then Some m
        else do {
          attrib \<leftarrow> i_xmlnode_search m (xn_firstattrib p) name NTYPE_ATTRIB;
          if attrib = None then Some m
          else do {
            m \<leftarrow> i_xmlnode_hide_sibling m attrib;
            c \<leftarrow> load m attrib;
            p \<leftarrow> load m parent;
            m \<leftarrow> (if xn_firstattrib p = attrib then store m parent (\<lambda>r. r\<lparr>xn_firstattrib := xn_next c\<rparr>) else Some m);
            c \<leftarrow> load m attrib;
            p \<leftarrow> load m parent;
            (if xn_lastattrib p = attrib then store m parent (\<lambda>r. r\<lparr>xn_lastattrib := xn_prev c\<rparr>) else Some m)
          }
        }
      })"

definition xmlnode_wrap :: "xmem \<Rightarrow> ptr \<Rightarrow> string option \<Rightarrow> (xmem \<times> ptr) option" where
  "xmlnode_wrap m x wrapper =
     (if x = None \<or> wrapper = None then Some (m, None)
      else do {
        p \<leftarrow> xmlnode_pool m x;
        let (m, wrap) = xmlnode_new_tag_pool m p wrapper;
        if wrap = None then Some (m, None)
        else do {
          m \<leftarrow> store m wrap (\<lambda>r. r\<lparr>xn_firstchild := x\<rparr>);
          m \<leftarrow> store m wrap (\<lambda>r. r\<lparr>xn_lastchild := x\<rparr>);
          m \<leftarrow> store m x (\<lambda>r. r\<lparr>xn_parent := wrap\<rparr>);
          Some (m, wrap)
        }
      })"

text \<open>\<open>xmlnode_free\<close> frees the pool of the node, with everything allocated from it.\<close>

definition pool_free_nodes :: "xmem \<Rightarrow> nat \<Rightarrow> xmem" where
  "pool_free_nodes m p =
     m\<lparr>xm_nodes := (\<lambda>a. case xm_nodes m a of None \<Rightarrow> None
        | Some n \<Rightarrow> if xn_pool n = p then None else Some n)\<rparr>"

definition xmlnode_free :: "xmem \<Rightarrow> ptr \<Rightarrow> xmem option" where
  "xmlnode_free m node =
     (case node of None \<Rightarrow> Some m
      | Some a \<Rightarrow> map_option (\<lambda>n. pool_free_nodes m (xn_pool n)) (xm_nodes m a))"

text \<open>
  \<open>xmlnode_insert_node\<close> copies \<open>node\<close> and its following siblings into \<open>parent\<close>; the branch of a
  tag is \<open>xmlnode_insert_tag_node\<close>, which calls it again for the attributes and the children.
\<close>

partial_function (option) xmlnode_insert_node :: "xmem \<Rightarrow> ptr \<Rightarrow> ptr \<Rightarrow> xmem option" where
  "xmlnode_insert_node m parent node =
     (if parent = None then Some m
      else (case node of
        None \<Rightarrow> Some m
      | Some a \<Rightarrow> do {
          n \<leftarrow> xm_nodes m a;
          m \<leftarrow>
            (if xn_type n = NTYPE_ATTRIB then do {
               d \<leftarrow> xmlnode_get_data m node;
               xmlnode_put_attrib m parent (xn_name n) d
             }
             else if xn_type n = NTYPE_TAG then do {
               (m, child) \<leftarrow> xmlnode_insert_tag m parent (xn_name n);
               b \<leftarrow> xmlnode_has_attribs m node;
               f \<leftarrow> xmlnode_get_firstattrib m node;
               m \<leftarrow> (if b then xmlnode_insert_node m child f else Some m);
               b \<leftarrow> xmlnode_has_children m node;
               f \<leftarrow> xmlnode_get_firstchild m node;
               (if b then xmlnode_insert_node m child f else Some m)
             }
             else if xn_type n = NTYPE_CDATA then do {
               d \<leftarrow> xmlnode_get_data m node;
               (m, c) \<leftarrow> xmlnode_insert_cdata m parent d (xn_data_sz n);
               Some m
             }
             else Some m);
          n \<leftarrow> xm_nodes m a;
          xmlnode_insert_node m parent (xn_next n)
        }))"

text \<open>The common end of \<open>xmlnode_insert_tag_node\<close> and \<open>xmlnode_dup\<close>: the contents of \<open>x\<close> are copied to \<open>x2\<close>.\<close>

definition copy_contents :: "xmem \<Rightarrow> ptr \<Rightarrow> ptr \<Rightarrow> xmem option" where
  "copy_contents m x2 x = do {
     b \<leftarrow> xmlnode_has_attribs m x;
     f \<leftarrow> xmlnode_get_firstattrib m x;
     m \<leftarrow> (if b then xmlnode_insert_node m x2 f else Some m);
     b \<leftarrow> xmlnode_has_children m x;
     f \<leftarrow> xmlnode_get_firstchild m x;
     (if b then xmlnode_insert_node m x2 f else Some m)
   }"

definition xmlnode_insert_tag_node :: "xmem \<Rightarrow> ptr \<Rightarrow> ptr \<Rightarrow> (xmem \<times> ptr) option" where
  "xmlnode_insert_tag_node m parent node = do {
     name \<leftarrow> xmlnode_get_name m node;
     (m, child) \<leftarrow> xmlnode_insert_tag m parent name;
     m \<leftarrow> copy_contents m child node;
     Some (m, child)
   }"

definition xmlnode_dup :: "xmem \<Rightarrow> ptr \<Rightarrow> (xmem \<times> ptr) option" where
  "xmlnode_dup m x =
     (if x = None then Some (m, None)
      else do {
        name \<leftarrow> xmlnode_get_name m x;
        let (m, x2) = xmlnode_new_tag m name;
        m \<leftarrow> copy_contents m x2 x;
        Some (m, x2)
      })"

definition xmlnode_dup_pool :: "xmem \<Rightarrow> nat option \<Rightarrow> ptr \<Rightarrow> (xmem \<times> ptr) option" where
  "xmlnode_dup_pool m p x =
     (if x = None then Some (m, None)
      else do {
        name \<leftarrow> xmlnode_get_name m x;
        let (m, x2) = xmlnode_new_tag_pool m p name;
        m \<leftarrow> copy_contents m x2 x;
        Some (m, x2)
      })"

section \<open>Printing\<close>

text \<open>\<open>_xmlnode_tag2str\<close>: the empty tag (0), the start tag (1) or the end tag (2).\<close>

partial_function (option) attribs2str :: "xmem \<Rightarrow> nat option \<Rightarrow> spool \<Rightarrow> ptr \<Rightarrow> spool option" where
  "attribs2str m p s tmp =
     (case tmp of
        None \<Rightarrow> Some s
      | Some a \<Rightarrow> do {
          n \<leftarrow> xm_nodes m a;
          d \<leftarrow> xmlnode_get_data m tmp;
          attribs2str m p (spooler s [Some '' '', xn_name n, Some [CHR ''='', apos], strescape p d, Some [apos]]) (xn_next n)
        })"

definition i_xmlnode_tag2str :: "xmem \<Rightarrow> spool \<Rightarrow> ptr \<Rightarrow> nat \<Rightarrow> spool option" where
  "i_xmlnode_tag2str m s node flag = do {
     name \<leftarrow> xmlnode_get_name m node;
     if flag = 0 \<or> flag = 1 then do {
       p \<leftarrow> xmlnode_pool m node;
       tmp \<leftarrow> xmlnode_get_firstattrib m node;
       s \<leftarrow> attribs2str m p (spooler s [Some ''<'', name]) tmp;
       Some (if flag = 0 then spool_add s (Some ''/>'') else spool_add s (Some ''>''))
     }
     else Some (spooler s [Some ''</'', name, Some ''>''])
   }"

text \<open>
  The loop of \<open>_xmlnode2spool\<close>, which keeps the depth below its first node in \<open>level\<close> and in
  \<open>dir\<close> whether it comes back from the children of \<open>node\<close>.
\<close>

partial_function (option) spool_loop :: "xmem \<Rightarrow> spool \<Rightarrow> ptr \<Rightarrow> int \<Rightarrow> int \<Rightarrow> spool option" where
  "spool_loop m s node level dir = do {
     t \<leftarrow> xmlnode_get_type m node;
     h \<leftarrow> xmlnode_has_children m node;
     if dir = 0 \<and> t = NTYPE_TAG \<and> h then do {
       s \<leftarrow> i_xmlnode_tag2str m s node 1;
       c \<leftarrow> xmlnode_get_firstchild m node;
       spool_loop m s c (level + 1) dir
     }
     else do {
       s \<leftarrow>
         (if dir \<noteq> 0 then Some s
          else if t = NTYPE_TAG then i_xmlnode_tag2str m s node 0
          else do {
            p \<leftarrow> xmlnode_pool m node;
            d \<leftarrow> xmlnode_get_data m node;
            Some (spool_add s (strescape p d))
          });
       tmp \<leftarrow> xmlnode_get_nextsibling m node;
       if tmp = None then do {
         up \<leftarrow> xmlnode_get_parent m node;
         let level = level - 1;
         s \<leftarrow> (if 0 \<le> level then i_xmlnode_tag2str m s up 2 else Some s);
         if level < 1 then Some s else spool_loop m s up level 1
       }
       else spool_loop m s tmp level 0
     }
   }"

definition i_xmlnode2spool :: "xmem \<Rightarrow> ptr \<Rightarrow> spool option option" where
  "i_xmlnode2spool m node = do {
     t \<leftarrow> xmlnode_get_type m node;
     if node = None \<or> t \<noteq> NTYPE_TAG then Some None
     else map_option Some (spool_loop m spool_new node 0 0)
   }"

definition xmlnode2str :: "xmem \<Rightarrow> ptr \<Rightarrow> string option option" where
  "xmlnode2str m node = map_option spool_print (i_xmlnode2spool m node)"

definition xmlnode2tstr :: "xmem \<Rightarrow> ptr \<Rightarrow> string option option" where
  "xmlnode2tstr m node = do {
     s \<leftarrow> i_xmlnode2spool m node;
     Some (spool_print (map_option (\<lambda>s. spool_add s (Some [CHR 0x0A])) s))
   }"

end
