(* ===== verification/XmlTree.thy ===== *)
theory XmlTree
  imports XmlNode
begin

text \<open>
  What the nodes in memory represent: a tree with the addresses of its nodes, and the document
  that remains when the addresses are forgotten. Each operation of \<open>XmlNode\<close> is shown to do on
  documents what its comment promises.
\<close>

section \<open>Documents\<close>

datatype xml = Tag string "(string \<times> string) list" "xml list" | CData string

text \<open>An attribute with its address and the pointer that \<open>xmlnode_put_vattrib\<close> keeps in it.\<close>

datatype aattr = Attr (at_addr: nat) (at_name: string) (at_value: string) (at_ptr: ptr)

datatype atree = ATag nat int string "aattr list" "atree list" | AData nat string

fun root :: "atree \<Rightarrow> nat" where
  "root (ATag a cp nm as ts) = a"
| "root (AData a d) = a"

fun document :: "atree \<Rightarrow> xml" where
  "document (ATag a cp nm as ts) = Tag nm (map (\<lambda>x. (at_name x, at_value x)) as) (map document ts)"
| "document (AData a d) = CData d"

text \<open>The addresses below the root, and all of them.\<close>

fun below :: "atree \<Rightarrow> nat list" where
  "below (ATag a cp nm as ts) = map at_addr as @ concat (map (\<lambda>t. root t # below t) ts)"
| "below (AData a d) = []"

definition addrs :: "atree \<Rightarrow> nat list" where
  "addrs t = root t # below t"

lemma root_in_addrs [simp]: "root t \<in> set (addrs t)"
  by (simp add: addrs_def)

lemma addrs_ATag: "addrs (ATag a cp nm as ts) = a # map at_addr as @ concat (map addrs ts)"
  by (simp add: addrs_def [abs_def])

section \<open>Layout\<close>

definition first_root :: "ptr \<Rightarrow> atree list \<Rightarrow> ptr" where
  "first_root nxt ts = (case ts of [] \<Rightarrow> nxt | t # _ \<Rightarrow> Some (root t))"

definition last_root :: "ptr \<Rightarrow> atree list \<Rightarrow> ptr" where
  "last_root prv ts = (if ts = [] then prv else Some (root (last ts)))"

definition first_attr :: "aattr list \<Rightarrow> ptr" where
  "first_attr as = (case as of [] \<Rightarrow> None | x # _ \<Rightarrow> Some (at_addr x))"

definition last_attr :: "ptr \<Rightarrow> aattr list \<Rightarrow> ptr" where
  "last_attr prv as = (if as = [] then prv else Some (at_addr (last as)))"

lemma first_root_simps [simp]:
  "first_root nxt [] = nxt" "first_root nxt (t # ts) = Some (root t)"
  "first_root nxt (ts @ us) = first_root (first_root nxt us) ts"
  by (auto simp: first_root_def split: list.splits)

lemma first_root_None [simp]: "first_root nxt ts = None \<longleftrightarrow> nxt = None \<and> ts = []"
  "last_root nxt ts = None \<longleftrightarrow> nxt = None \<and> ts = []"
  by (auto simp: first_root_def last_root_def split: list.splits)

lemma last_root_simps [simp]:
  "last_root prv [] = prv" "last_root prv (ts @ [t]) = Some (root t)"
  "last_root prv (t # ts) = last_root (Some (root t)) ts"
  by (auto simp: last_root_def)

lemma last_root_append [simp]: "last_root prv (ts @ us) = last_root (last_root prv ts) us"
  by (auto simp: last_root_def)

text \<open>The node at an attribute, and at the root of a tree.\<close>

definition attr_node :: "nat \<Rightarrow> ptr \<Rightarrow> ptr \<Rightarrow> aattr \<Rightarrow> xnode" where
  "attr_node p prv nxt x =
     \<lparr>xn_name = Some (at_name x), xn_type = NTYPE_ATTRIB, xn_data = Some (at_value x),
      xn_data_sz = int (length (at_value x)), xn_complete = 0, xn_pool = p, xn_parent = None,
      xn_firstchild = at_ptr x, xn_lastchild = None, xn_prev = prv, xn_next = nxt,
      xn_firstattrib = None, xn_lastattrib = None\<rparr>"

fun root_node :: "nat \<Rightarrow> ptr \<Rightarrow> ptr \<Rightarrow> ptr \<Rightarrow> atree \<Rightarrow> xnode" where
  "root_node p par prv nxt (ATag a cp nm as ts) =
     \<lparr>xn_name = Some nm, xn_type = NTYPE_TAG, xn_data = None, xn_data_sz = 0, xn_complete = cp,
      xn_pool = p, xn_parent = par, xn_firstchild = first_root None ts,
      xn_lastchild = last_root None ts, xn_prev = prv, xn_next = nxt,
      xn_firstattrib = first_attr as, xn_lastattrib = last_attr None as\<rparr>"
| "root_node p par prv nxt (AData a d) =
     \<lparr>xn_name = None, xn_type = NTYPE_CDATA, xn_data = Some d, xn_data_sz = int (length d),
      xn_complete = 0, xn_pool = p, xn_parent = par, xn_firstchild = None, xn_lastchild = None,
      xn_prev = prv, xn_next = nxt, xn_firstattrib = None, xn_lastattrib = None\<rparr>"

fun attr_cells :: "nat \<Rightarrow> ptr \<Rightarrow> ptr \<Rightarrow> aattr list \<Rightarrow> (nat \<times> xnode) list" where
  "attr_cells p prv nxt [] = []"
| "attr_cells p prv nxt (x # xs) =
     (at_addr x, attr_node p prv (if xs = [] then nxt else first_attr xs) x)
     # attr_cells p (Some (at_addr x)) nxt xs"

text \<open>
  All nodes of a tree, and of siblings with the same parent; \<open>prv\<close> and \<open>nxt\<close> are what the links
  at the two ends point to.
\<close>

fun inner :: "nat \<Rightarrow> atree \<Rightarrow> (nat \<times> xnode) list"
  and forest :: "nat \<Rightarrow> ptr \<Rightarrow> ptr \<Rightarrow> ptr \<Rightarrow> atree list \<Rightarrow> (nat \<times> xnode) list" where
  "inner p (ATag a cp nm as ts) = attr_cells p None None as @ forest p (Some a) None None ts"
| "inner p (AData a d) = []"
| "forest p par prv nxt [] = []"
| "forest p par prv nxt (t # ts) =
     (root t, root_node p par prv (first_root nxt ts) t) # inner p t @ forest p par (Some (root t)) nxt ts"

definition cells :: "nat \<Rightarrow> ptr \<Rightarrow> ptr \<Rightarrow> ptr \<Rightarrow> atree \<Rightarrow> (nat \<times> xnode) list" where
  "cells p par prv nxt t = (root t, root_node p par prv nxt t) # inner p t"

lemma forest_append [simp]:
  "forest p par prv nxt (ts @ us) =
     forest p par prv (first_root nxt us) ts @ forest p par (last_root prv ts) nxt us"
  by (induction ts arbitrary: prv) auto

lemma attr_cells_append [simp]:
  "attr_cells p prv nxt (xs @ ys) =
     attr_cells p prv (if ys = [] then nxt else first_attr ys) xs @ attr_cells p (last_attr prv xs) nxt ys"
proof (induction xs arbitrary: prv)
  case (Cons x xs)
  then show ?case by (cases xs) (auto simp: first_attr_def last_attr_def)
qed (simp add: last_attr_def)

lemma attr_cells_addrs [simp]: "fst ` set (attr_cells p prv nxt xs) = at_addr ` set xs"
  by (induction xs arbitrary: prv) auto

lemma cells_addrs [simp]:
  "fst ` set (inner p t) = set (below t)"
  "fst ` set (forest p par prv nxt ts) = (\<Union>t \<in> set ts. set (addrs t))"
proof (induction p t and p par prv nxt ts rule: inner_forest.induct)
  case (1 p a cp nm as ts)
  then show ?case by (simp add: image_Un addrs_def)
next
  case (4 p par prv nxt t ts)
  then show ?case by (simp add: image_Un addrs_def)
qed simp_all

lemma cells_all [simp]: "fst ` set (cells p par prv nxt t) = set (addrs t)"
  by (simp add: cells_def addrs_def)

text \<open>
  \<open>rep m p par prv nxt t\<close>: in \<open>m\<close> the tree \<open>t\<close>, allocated from pool \<open>p\<close>, hangs below \<open>par\<close>
  between \<open>prv\<close> and \<open>nxt\<close>.
\<close>

definition mem_ok :: "xmem \<Rightarrow> bool" where
  "mem_ok m \<longleftrightarrow> (\<forall>a n. xm_nodes m a = Some n \<longrightarrow> a < xm_brk m \<and> xn_pool n < xm_pools m)"

definition rep :: "xmem \<Rightarrow> nat \<Rightarrow> ptr \<Rightarrow> ptr \<Rightarrow> ptr \<Rightarrow> atree \<Rightarrow> bool" where
  "rep m p par prv nxt t \<longleftrightarrow>
     mem_ok m \<and> distinct (addrs t) \<and> holds (xm_nodes m) (cells p par prv nxt t)"

text \<open>
  \<open>becomes m t m' t'\<close>: an operation on \<open>t\<close> changed the memory only there and at fresh addresses.
\<close>

definition becomes :: "xmem \<Rightarrow> atree \<Rightarrow> xmem \<Rightarrow> atree \<Rightarrow> bool" where
  "becomes m t m' t' \<longleftrightarrow>
     xm_brk m \<le> xm_brk m' \<and> xm_pools m \<le> xm_pools m' \<and> root t' = root t \<and>
     set (addrs t') \<subseteq> set (addrs t) \<union> {xm_brk m..<xm_brk m'} \<and>
     (\<forall>b. b < xm_brk m \<longrightarrow> b \<notin> set (addrs t) \<longrightarrow> xm_nodes m' b = xm_nodes m b)"

lemma becomes_refl [simp, intro]: "becomes m t m t"
  by (simp add: becomes_def)

lemma becomes_trans: "becomes m t m' t' \<Longrightarrow> becomes m' t' m'' t'' \<Longrightarrow> becomes m t m'' t''"
proof -
  assume 1: "becomes m t m' t'" and 2: "becomes m' t' m'' t''"
  have "xm_nodes m'' b = xm_nodes m b" if b: "b < xm_brk m" "b \<notin> set (addrs t)" for b
  proof -
    have "b \<notin> set (addrs t')" using 1 b by (auto simp: becomes_def)
    then show ?thesis using 1 2 b by (simp add: becomes_def)
  qed
  moreover have "set (addrs t'') \<subseteq> set (addrs t) \<union> {xm_brk m..<xm_brk m''}"
  proof
    fix b assume "b \<in> set (addrs t'')"
    then have "b \<in> set (addrs t') \<or> xm_brk m' \<le> b \<and> b < xm_brk m''" using 2 by (auto simp: becomes_def)
    then show "b \<in> set (addrs t) \<union> {xm_brk m..<xm_brk m''}" using 1 2 by (auto simp: becomes_def)
  qed
  ultimately show ?thesis using 1 2 by (simp add: becomes_def)
qed

lemma rep_root: "rep m p par prv nxt t \<Longrightarrow> xm_nodes m (root t) = Some (root_node p par prv nxt t)"
  by (simp add: rep_def cells_def)

lemma rep_less: "rep m p par prv nxt t \<Longrightarrow> a \<in> set (addrs t) \<Longrightarrow> a < xm_brk m"
proof -
  assume r: "rep m p par prv nxt t" and "a \<in> set (addrs t)"
  then have "a \<in> fst ` set (cells p par prv nxt t)" by simp
  with r have "xm_nodes m a \<noteq> None" using holds_in rep_def by blast
  with r show ?thesis by (auto simp: rep_def mem_ok_def)
qed

text \<open>Loading and storing where a node is.\<close>

lemma load_Some [simp]: "load m (Some a) = xm_nodes m a"
  by (simp add: load_def)

lemma store_Some: "xm_nodes m a = Some n \<Longrightarrow> store m (Some a) f = Some (m\<lparr>xm_nodes := (xm_nodes m)(a \<mapsto> f n)\<rparr>)"
  by (simp add: store_def)

lemma field_Some [simp]: "xmlnode_field f z m (Some a) = map_option f (xm_nodes m a)"
  "xmlnode_field f z m None = Some z"
  by (simp_all add: xmlnode_field_def)

section \<open>Appending children\<close>

fun add_child :: "atree \<Rightarrow> atree \<Rightarrow> atree" where
  "add_child u (ATag a cp nm as ts) = ATag a cp nm as (ts @ [u])"
| "add_child u t = t"

lemma root_node_links [simp]:
  "(root_node p par prv nxt t)\<lparr>xn_next := nxt'\<rparr> = root_node p par prv nxt' t"
  "(root_node p par prv nxt t)\<lparr>xn_prev := prv'\<rparr> = root_node p par prv' nxt t"
  "(root_node p par prv nxt t)\<lparr>xn_parent := par'\<rparr> = root_node p par' prv nxt t"
  "xn_next (root_node p par prv nxt t) = nxt" "xn_prev (root_node p par prv nxt t) = prv"
  "xn_parent (root_node p par prv nxt t) = par" "xn_pool (root_node p par prv nxt t) = p"
  by (cases t; simp)+

lemma rep_facts:
  assumes "rep m p par prv nxt (ATag a cp nm as ts)"
  shows "mem_ok m" "xm_nodes m a = Some (root_node p par prv nxt (ATag a cp nm as ts))"
    "a < xm_brk m" "a \<notin> at_addr ` set as" "\<And>t. t \<in> set ts \<Longrightarrow> a \<notin> set (addrs t)"
    "p < xm_pools m"
    "holds (xm_nodes m) (attr_cells p None None as)"
    "holds (xm_nodes m) (forest p (Some a) None None ts)"
    "\<And>t b. t \<in> set ts \<Longrightarrow> b \<in> set (addrs t) \<Longrightarrow> b < xm_brk m \<and> b \<notin> at_addr ` set as"
    "\<And>b. b \<in> at_addr ` set as \<Longrightarrow> b < xm_brk m"
    "distinct (map at_addr as)" "distinct (concat (map addrs ts))"
proof -
  show 1: "mem_ok m" and 2: "xm_nodes m a = Some (root_node p par prv nxt (ATag a cp nm as ts))"
    using assms by (simp_all add: rep_def cells_def)
  have "xn_pool (root_node p par prv nxt (ATag a cp nm as ts)) < xm_pools m"
    using 1 2 unfolding mem_ok_def by blast
  then show "p < xm_pools m" by simp
  show "a < xm_brk m" using 1 2 unfolding mem_ok_def by blast
  show "a \<notin> at_addr ` set as" "\<And>t. t \<in> set ts \<Longrightarrow> a \<notin> set (addrs t)"
    "distinct (map at_addr as)" "distinct (concat (map addrs ts))"
    using assms by (auto simp: rep_def addrs_ATag)
  show "holds (xm_nodes m) (attr_cells p None None as)"
    "holds (xm_nodes m) (forest p (Some a) None None ts)"
    using assms by (auto simp: rep_def cells_def)
  show "\<And>t b. t \<in> set ts \<Longrightarrow> b \<in> set (addrs t) \<Longrightarrow> b < xm_brk m \<and> b \<notin> at_addr ` set as"
    using assms rep_less [OF assms] by (auto simp: rep_def addrs_ATag)
  show "\<And>b. b \<in> at_addr ` set as \<Longrightarrow> b < xm_brk m"
    using rep_less [OF assms] by (auto simp: addrs_ATag)
qed

text \<open>The memory after a node was appended to the children of a tag.\<close>

definition insert_mem :: "xmem \<Rightarrow> nat \<Rightarrow> xnode \<Rightarrow> nat \<Rightarrow> string option \<Rightarrow> nat \<Rightarrow> atree list \<Rightarrow> xmem" where
  "insert_mem m a n p name type ts =
     m\<lparr>xm_nodes :=
        (if ts = [] then xm_nodes m
         else (xm_nodes m)(root (last ts) \<mapsto>
           root_node p (Some a) (last_root None (butlast ts)) (Some (xm_brk m)) (last ts)))
        (xm_brk m \<mapsto> (blank_node name type p)\<lparr>xn_prev := last_root None ts, xn_parent := Some a\<rparr>,
         a \<mapsto> n), xm_brk := xm_brk m + 1\<rparr>"

lemma insert_computes:
  assumes r: "rep m p par prv nxt (ATag a cp nm as ts)"
    and ty: "type = NTYPE_TAG \<or> type = NTYPE_CDATA"
    and u: "root u = xm_brk m"
  shows "i_xmlnode_insert m (Some a) (Some nm') type =
    Some (insert_mem m a (root_node p par prv nxt (ATag a cp nm as (ts @ [u]))) p
      (if type = NTYPE_TAG then Some nm' else None) type ts, Some (xm_brk m))"
proof -
  note f = rep_facts [OF r]
  have ab: "a \<noteq> xm_brk m" "xm_brk m \<noteq> a" using f(3) by simp_all
  show ?thesis
  proof (cases ts rule: rev_cases)
    case Nil
    show ?thesis using ty f(2) ab u unfolding Nil
      by (auto simp: Let_def i_xmlnode_insert_def i_xmlnode_new_def blank_node_def store_Some insert_mem_def
          fun_upd_def fun_eq_iff)
  next
    case (snoc us l)
    have l: "xm_nodes m (root l) = Some (root_node p (Some a) (last_root None us) None l)"
      using f(8) unfolding snoc by (simp add: cells_def)
    have "l \<in> set ts" using snoc by simp
    then have d: "root l \<noteq> a" "root l \<noteq> xm_brk m" "xm_brk m \<noteq> root l"
      using f(5) [of l] f(9) [of l "root l"] by auto
    show ?thesis using ty f(2) ab u l d unfolding snoc
      by (auto simp: Let_def i_xmlnode_insert_def i_xmlnode_new_def i_xmlnode_append_sibling_def blank_node_def
          store_Some insert_mem_def xmlnode_pool_def fun_upd_def fun_eq_iff)
  qed
qed


lemma insert_holds:
  assumes r: "rep m p par prv nxt (ATag a cp nm as ts)" and u: "root u = xm_brk m" "inner p u = []"
  shows "holds ((xm_nodes (insert_mem m a (root_node p par prv nxt (ATag a cp nm as (ts @ [u]))) p n ty ts))
      (xm_brk m \<mapsto> root_node p (Some a) (last_root None ts) None u))
    (cells p par prv nxt (ATag a cp nm as (ts @ [u])))"
proof -
  note f = rep_facts [OF r]
  have fresh: "xm_brk m \<notin> at_addr ` set as" "\<And>t. t \<in> set ts \<Longrightarrow> xm_brk m \<notin> set (addrs t)"
    using f(9,10) by (meson less_irrefl)+
  have ab: "a \<noteq> xm_brk m" using f(3) by simp
  show ?thesis
  proof (cases ts rule: rev_cases)
    case Nil
    then show ?thesis using f(4,7) ab u fresh by (simp add: cells_def insert_mem_def)
  next
    case (snoc us l)
    have "l \<in> set ts" using snoc by simp
    then have d: "root l \<noteq> a" "root l \<noteq> xm_brk m" "root l \<notin> at_addr ` set as"
      using f(5) [of l] f(9) [of l "root l"] by auto
    have rl: "root l \<notin> set (below l)" "\<And>t. t \<in> set us \<Longrightarrow> root l \<notin> set (addrs t)"
      using f(12) unfolding snoc by (auto simp: addrs_def)
    have us: "\<And>t. t \<in> set us \<Longrightarrow> a \<notin> set (addrs t) \<and> xm_brk m \<notin> set (addrs t)"
      "a \<notin> set (below l)" "xm_brk m \<notin> set (below l)"
      using f(5) fresh(2) unfolding snoc by (auto simp: addrs_def)
    show ?thesis using f(4,7,8) ab u fresh(1) d rl us unfolding snoc
      by (simp add: cells_def insert_mem_def)
  qed
qed

lemma insert_mem_frame:
  assumes r: "rep m p par prv nxt (ATag a cp nm as ts)" and n: "xn_pool n = p"
  shows "mem_ok (insert_mem m a n p name ty ts)"
    "b < xm_brk m \<Longrightarrow> b \<notin> set (addrs (ATag a cp nm as ts)) \<Longrightarrow>
      xm_nodes (insert_mem m a n p name ty ts) b = xm_nodes m b"
proof -
  note f = rep_facts [OF r]
  have l: "root (last ts) \<in> set (addrs (last ts))" "last ts \<in> set ts" if "ts \<noteq> []"
    using that by simp_all
  have lb: "root (last ts) < xm_brk m" if "ts \<noteq> []"
    using f(9) [OF l(2) [OF that] l(1) [OF that]] by simp
  show "mem_ok (insert_mem m a n p name ty ts)"
    using f(1,3,6) lb n by (auto simp: mem_ok_def insert_mem_def blank_node_def less_Suc_eq)
  show "b < xm_brk m \<Longrightarrow> b \<notin> set (addrs (ATag a cp nm as ts)) \<Longrightarrow>
      xm_nodes (insert_mem m a n p name ty ts) b = xm_nodes m b"
  proof -
    assume b: "b < xm_brk m" "b \<notin> set (addrs (ATag a cp nm as ts))"
    have "ts \<noteq> [] \<Longrightarrow> root (last ts) \<in> set (addrs (ATag a cp nm as ts))"
      by (auto simp: addrs_ATag intro!: bexI [of _ "last ts"])
    with b have "ts \<noteq> [] \<Longrightarrow> b \<noteq> root (last ts)" by auto
    with b show ?thesis by (simp add: insert_mem_def addrs_ATag)
  qed
qed

lemma insert_mem_brk [simp]:
  "xm_brk (insert_mem m a n p name ty ts) = xm_brk m + 1"
  "xm_pools (insert_mem m a n p name ty ts) = xm_pools m"
  by (simp_all add: insert_mem_def)

lemma distinct_add:
  assumes r: "rep m p par prv nxt (ATag a cp nm as ts)" and u: "root u = xm_brk m" "below u = []"
  shows "distinct (addrs (ATag a cp nm as (ts @ [u])))"
proof -
  note f = rep_facts [OF r]
  have "distinct (addrs (ATag a cp nm as ts))" using r by (simp add: rep_def)
  moreover have "xm_brk m \<notin> set (addrs (ATag a cp nm as ts))"
    using rep_less [OF r] by blast
  ultimately show ?thesis using u by (auto simp: addrs_ATag addrs_def [of u])
qed

lemma insert_tag_rep:
  assumes r: "rep m p par prv nxt (ATag a cp nm as ts)"
    and T: "T' = ATag a cp nm as (ts @ [ATag (xm_brk m) 0 nm' [] []])"
  shows "\<exists>m'. xmlnode_insert_tag m (Some a) (Some nm') = Some (m', Some (xm_brk m)) \<and>
    rep m' p par prv nxt T' \<and> becomes m (ATag a cp nm as ts) m' T'"
proof -
  let ?u = "ATag (xm_brk m) 0 nm' [] []"
  let ?m = "insert_mem m a (root_node p par prv nxt T') p (Some nm') NTYPE_TAG ts"
  have "xm_nodes ?m (xm_brk m) = Some (root_node p (Some a) (last_root None ts) None ?u)"
    using rep_facts(3) [OF r] by (simp add: insert_mem_def blank_node_def first_attr_def last_attr_def)
  then have "(xm_nodes ?m)(xm_brk m \<mapsto> root_node p (Some a) (last_root None ts) None ?u) = xm_nodes ?m"
    by (simp add: fun_upd_idem)
  then have "holds (xm_nodes ?m) (cells p par prv nxt T')"
    using insert_holds [OF r, of ?u "Some nm'" NTYPE_TAG] unfolding T by simp
  moreover have "mem_ok ?m" "distinct (addrs T')"
    using insert_mem_frame(1) [OF r, of _ "Some nm'"] distinct_add [OF r, of ?u] unfolding T by simp_all
  ultimately have "rep ?m p par prv nxt T'" by (simp add: rep_def)
  moreover have "becomes m (ATag a cp nm as ts) ?m T'"
    using insert_mem_frame(2) [OF r] unfolding becomes_def T
    by (auto simp: addrs_ATag addrs_def [of ?u])
  moreover have "xmlnode_insert_tag m (Some a) (Some nm') = Some (?m, Some (xm_brk m))"
    using insert_computes [OF r, of NTYPE_TAG ?u nm'] unfolding T by (simp add: xmlnode_insert_tag_def)
  ultimately show ?thesis by blast
qed


text \<open>Character data is merged into a last child that is character data, too.\<close>

definition add_text :: "nat \<Rightarrow> string \<Rightarrow> atree list \<Rightarrow> atree list" where
  "add_text r s ts =
     (case rev ts of AData b d # us \<Rightarrow> rev us @ [AData b (d @ s)] | _ \<Rightarrow> ts @ [AData r s])"

lemma add_text_simps [simp]:
  "add_text r s [] = [AData r s]"
  "add_text r s (us @ [AData b d]) = us @ [AData b (d @ s)]"
  "add_text r s (us @ [ATag b cp nm as ts]) = us @ [ATag b cp nm as ts, AData r s]"
  by (simp_all add: add_text_def)

lemma insert_text_rep:
  assumes r: "rep m p par prv nxt (ATag a cp nm as ts)"
    and T: "T' = ATag a cp nm as (ts @ [AData (xm_brk m) (take n s)])" and n: "n \<le> length s"
  shows "\<exists>m'. insert_new_cdata m (Some a) (Some s) (int n) = Some (m', Some (xm_brk m)) \<and>
    rep m' p par prv nxt T' \<and> becomes m (ATag a cp nm as ts) m' T'"
proof -
  let ?u = "AData (xm_brk m) (take n s)"
  let ?m = "insert_mem m a (root_node p par prv nxt T') p None NTYPE_CDATA ts"
  let ?k = "root_node p (Some a) (last_root None ts) None ?u"
  let ?f = "(xm_nodes ?m)(xm_brk m \<mapsto> ?k)"
  let ?m' = "?m\<lparr>xm_nodes := ?f\<rparr>"
  have "xm_brk m \<noteq> a" using rep_facts(3) [OF r] by simp
  then have k: "xm_nodes ?m (xm_brk m) = Some ((blank_node None NTYPE_CDATA p)\<lparr>xn_prev := last_root None ts, xn_parent := Some a\<rparr>)"
    by (simp add: insert_mem_def)
  moreover have "i_xmlnode_insert m (Some a) (Some []) NTYPE_CDATA = Some (?m, Some (xm_brk m))"
    using insert_computes [OF r, of NTYPE_CDATA ?u] unfolding T by simp
  ultimately have "insert_new_cdata m (Some a) (Some s) (int n) = Some (?m', Some (xm_brk m))"
    using n by (simp add: insert_new_cdata_def copy_bytes_def store_Some blank_node_def min_absorb2)
  moreover have "holds ?f (cells p par prv nxt T')"
    using insert_holds [OF r, of ?u None NTYPE_CDATA] unfolding T by simp
  moreover have "mem_ok ?m'" "distinct (addrs T')"
  proof -
    have "mem_ok ?m" using insert_mem_frame(1) [OF r] unfolding T by simp
    moreover have "xn_pool ?k = p" "p < xm_pools ?m" using rep_facts(6) [OF r] by simp_all
    ultimately show "mem_ok ?m'" by (auto simp: mem_ok_def)
    show "distinct (addrs T')" using distinct_add [OF r, of ?u] unfolding T by simp
  qed
  moreover have "becomes m (ATag a cp nm as ts) ?m' T'"
    using insert_mem_frame(2) [OF r] unfolding becomes_def T
    by (auto simp: addrs_ATag addrs_def [of ?u])
  ultimately show ?thesis by (auto simp: rep_def)
qed

lemma merge_text_rep:
  assumes r: "rep m p par prv nxt (ATag a cp nm as (us @ [AData b d]))"
    and T: "T' = ATag a cp nm as (us @ [AData b d'])"
  shows "xm_nodes m b = Some (root_node p (Some a) (last_root None us) None (AData b d))"
    "rep (m\<lparr>xm_nodes := (xm_nodes m)(b \<mapsto> root_node p (Some a) (last_root None us) None (AData b d'))\<rparr>)
      p par prv nxt T'"
    "becomes m (ATag a cp nm as (us @ [AData b d]))
      (m\<lparr>xm_nodes := (xm_nodes m)(b \<mapsto> root_node p (Some a) (last_root None us) None (AData b d'))\<rparr>) T'"
proof -
  note f = rep_facts [OF r]
  show k: "xm_nodes m b = Some (root_node p (Some a) (last_root None us) None (AData b d))"
    using f(8) by simp
  have o: "b \<noteq> a" "b \<notin> at_addr ` set as" "\<And>t. t \<in> set us \<Longrightarrow> b \<notin> set (addrs t)" "b < xm_brk m"
    using f(5) [of "AData b d"] f(9) [of "AData b d" b] f(12) by (auto simp: addrs_def)
  have "first_root None (us @ [AData b d]) = first_root None (us @ [AData b d'])" by simp
  then show "rep (m\<lparr>xm_nodes := (xm_nodes m)(b \<mapsto> root_node p (Some a) (last_root None us) None (AData b d'))\<rparr>)
      p par prv nxt T'"
    using r o f(6) unfolding T
    by (auto simp: rep_def cells_def addrs_ATag addrs_def [of "AData x y" for x y] mem_ok_def)
  show "becomes m (ATag a cp nm as (us @ [AData b d]))
      (m\<lparr>xm_nodes := (xm_nodes m)(b \<mapsto> root_node p (Some a) (last_root None us) None (AData b d'))\<rparr>) T'"
    unfolding T by (auto simp: becomes_def addrs_ATag addrs_def [of "AData x y" for x y])
qed

lemma insert_cdata_rep:
  assumes r: "rep m p par prv nxt (ATag a cp nm as ts)"
    and n: "sz = - 1 \<and> n = length s \<or> sz = int n \<and> n \<le> length s"
    and T: "T' = ATag a cp nm as (add_text (xm_brk m) (take n s) ts)"
  shows "\<exists>m' b. xmlnode_insert_cdata m (Some a) (Some s) sz = Some (m', Some b) \<and>
    rep m' p par prv nxt T' \<and> becomes m (ATag a cp nm as ts) m' T'"
proof -
  have sz: "(if sz = - 1 then int (j_strlen (Some s)) else sz) = int n" "n \<le> length s"
    using n by (auto simp: j_strlen_def)
  have node: "xm_nodes m a = Some (root_node p par prv nxt (ATag a cp nm as ts))"
    using rep_facts(2) [OF r] .
  show ?thesis
  proof (cases ts rule: rev_cases)
    case Nil
    then have "xmlnode_insert_cdata m (Some a) (Some s) sz = insert_new_cdata m (Some a) (Some s) (int n)"
      using sz node by (simp add: xmlnode_insert_cdata_def Let_def)
    then show ?thesis using insert_text_rep [OF r _ sz(2)] T Nil by auto
  next
    case (snoc us l)
    have l: "xm_nodes m (root l) = Some (root_node p (Some a) (last_root None us) None l)"
      using rep_facts(8) [OF r] unfolding snoc by (simp add: cells_def)
    show ?thesis
    proof (cases l)
      case (ATag b cp' nm' as' ts')
      then have "xmlnode_insert_cdata m (Some a) (Some s) sz = insert_new_cdata m (Some a) (Some s) (int n)"
        using sz node l snoc by (simp add: xmlnode_insert_cdata_def Let_def)
      then show ?thesis using insert_text_rep [OF r _ sz(2)] T snoc ATag by auto
    next
      case (AData b d)
      have "xmlnode_insert_cdata m (Some a) (Some s) sz =
          Some (m\<lparr>xm_nodes := (xm_nodes m)(b \<mapsto> root_node p (Some a) (last_root None us) None (AData b (d @ take n s)))\<rparr>,
            Some b)"
        using sz node l snoc AData
        by (simp add: xmlnode_insert_cdata_def Let_def copy_bytes_def store_Some min_absorb2)
      then show ?thesis
        using merge_text_rep(2,3) [OF r [unfolded snoc AData], of T' "d @ take n s"] T snoc AData by auto
    qed
  qed
qed


section \<open>Searching\<close>

text \<open>A loop over siblings visits the roots of the trees in order.\<close>

fun first_visit :: "(nat \<Rightarrow> 'r option option) \<Rightarrow> nat list \<Rightarrow> 'r option option" where
  "first_visit visit [] = Some None"
| "first_visit visit (a # as) = do {
     found \<leftarrow> visit a;
     (case found of Some r \<Rightarrow> Some (Some r) | None \<Rightarrow> first_visit visit as)
   }"

lemma siblings_forest:
  "holds (xm_nodes m) (forest p par prv None ts) \<Longrightarrow>
   siblings m (first_root None ts) visit = first_visit visit (map root ts)"
proof (induction ts arbitrary: prv)
  case Nil
  then show ?case by (simp add: siblings.simps)
next
  case (Cons t ts)
  have "siblings m (first_root None ts) visit = first_visit visit (map root ts)"
    using Cons.prems by (intro Cons.IH [of "Some (root t)"]) simp
  then show ?case using Cons.prems
    by (subst siblings.simps) (simp cong: option.case_cong)
qed

lemma siblings_attrs:
  "holds (xm_nodes m) (attr_cells p prv None xs) \<Longrightarrow>
   siblings m (first_attr xs) visit = first_visit visit (map at_addr xs)"
proof (induction xs arbitrary: prv)
  case Nil
  then show ?case by (simp add: siblings.simps first_attr_def)
next
  case (Cons x xs)
  have e: "siblings m (first_attr xs) visit = first_visit visit (map at_addr xs)"
    using Cons.prems by (intro Cons.IH [of "Some (at_addr x)"]) simp
  have "xn_next (attr_node p prv (if xs = [] then None else first_attr xs) x) = first_attr xs"
    by (simp add: attr_node_def first_attr_def)
  moreover have "first_attr (x # xs) = Some (at_addr x)" by (simp add: first_attr_def)
  ultimately show ?case using Cons.prems e
    by (subst siblings.simps) (simp cong: option.case_cong)
qed

definition find_attr :: "string \<Rightarrow> aattr list \<Rightarrow> aattr option" where
  "find_attr k xs = List.find (\<lambda>x. at_name x = k) xs"

lemma search_attr:
  assumes "holds (xm_nodes m) (attr_cells p prv None xs)"
  shows "i_xmlnode_search m (first_attr xs) (Some k) NTYPE_ATTRIB = Some (map_option at_addr (find_attr k xs))"
proof -
  let ?v = "\<lambda>a. do { n \<leftarrow> xm_nodes m a;
    Some (if xn_type n = NTYPE_ATTRIB \<and> j_strcmp (xn_name n) (Some k) = 0 then Some a else None) }"
  have "first_visit ?v (map at_addr xs) = Some (map_option at_addr (find_attr k xs))"
    using assms by (induction xs arbitrary: prv) (auto simp: find_attr_def attr_node_def)
  with siblings_attrs [OF assms, of ?v] show ?thesis by (simp add: i_xmlnode_search_def)
qed

fun is_tag :: "string \<Rightarrow> atree \<Rightarrow> bool" where
  "is_tag k (ATag a cp nm as ts) = (nm = k)"
| "is_tag k (AData a d) = False"

lemma search_tag:
  assumes "holds (xm_nodes m) (forest p par prv None ts)"
  shows "i_xmlnode_search m (first_root None ts) (Some k) NTYPE_TAG = Some (map_option root (List.find (is_tag k) ts))"
proof -
  let ?v = "\<lambda>a. do { n \<leftarrow> xm_nodes m a;
    Some (if xn_type n = NTYPE_TAG \<and> j_strcmp (xn_name n) (Some k) = 0 then Some a else None) }"
  have "first_visit ?v (map root ts) = Some (map_option root (List.find (is_tag k) ts))"
    using assms
  proof (induction ts arbitrary: prv)
    case (Cons t ts)
    then show ?case by (cases t) auto
  qed simp
  with siblings_forest [OF assms, of ?v] show ?thesis by (simp add: i_xmlnode_search_def)
qed

lemma find_attr_node:
  "holds (xm_nodes m) (attr_cells p prv None xs) \<Longrightarrow> find_attr k xs = Some x \<Longrightarrow>
   map_option xn_data (xm_nodes m (at_addr x)) = Some (Some (at_value x)) \<and> at_name x = k \<and>
   map_option xn_firstchild (xm_nodes m (at_addr x)) = Some (at_ptr x)"
  by (induction xs arbitrary: prv) (auto simp: find_attr_def attr_node_def split: if_splits)

lemma get_attrib_rep:
  assumes "rep m p par prv nxt (ATag a cp nm as ts)"
  shows "xmlnode_get_attrib m (Some a) (Some k) = Some (map_option at_value (find_attr k as))"
    "xmlnode_get_vattrib m (Some a) (Some k) = Some (Option.bind (find_attr k as) at_ptr)"
proof -
  note f = rep_facts [OF assms]
  have s: "i_xmlnode_search m (first_attr as) (Some k) NTYPE_ATTRIB = Some (map_option at_addr (find_attr k as))"
    using search_attr f(7) by blast
  have e: "first_attr as = None \<Longrightarrow> find_attr k as = None"
    by (cases as) (auto simp: first_attr_def find_attr_def)
  show "xmlnode_get_attrib m (Some a) (Some k) = Some (map_option at_value (find_attr k as))"
    using f(2) s e find_attr_node [OF f(7), of k]
    by (cases "find_attr k as") (auto simp: xmlnode_get_attrib_def)
  show "xmlnode_get_vattrib m (Some a) (Some k) = Some (Option.bind (find_attr k as) at_ptr)"
    using f(2) s e find_attr_node [OF f(7), of k]
    by (cases "find_attr k as") (auto simp: xmlnode_get_vattrib_def)
qed

text \<open>The text of a node: the first character data of a tag.\<close>

fun is_text :: "atree \<Rightarrow> bool" where
  "is_text (ATag a cp nm as ts) = False"
| "is_text (AData a d) = True"

fun text_of :: "atree \<Rightarrow> string option" where
  "text_of (ATag a cp nm as ts) =
     (case List.find is_text ts of Some (AData b d) \<Rightarrow> Some d | _ \<Rightarrow> None)"
| "text_of (AData a d) = Some d"

lemma get_data_rep:
  assumes "rep m p par prv nxt t"
  shows "xmlnode_get_data m (Some (root t)) = Some (text_of t)"
proof (cases t)
  case (ATag a cp nm as ts)
  note f = rep_facts [OF assms [unfolded ATag]]
  let ?v = "\<lambda>c. do { k \<leftarrow> xm_nodes m c; Some (if xn_type k = NTYPE_CDATA then Some (xn_data k) else None) }"
  have "first_visit ?v (map root ts) =
      Some (case List.find is_text ts of Some (AData b d) \<Rightarrow> Some (Some d) | _ \<Rightarrow> None)"
    if "holds (xm_nodes m) (forest p (Some a) pr None ts)" for pr
    using that
  proof (induction ts arbitrary: pr)
    case (Cons t ts)
    then show ?case by (cases t) auto
  qed simp
  with siblings_forest [OF f(8), of ?v] f(2,8) show ?thesis
    unfolding ATag by (auto simp: xmlnode_get_data_def split: option.split atree.split)
next
  case (AData a d)
  then show ?thesis using rep_root [OF assms] by (simp add: xmlnode_get_data_def)
qed


section \<open>Attributes\<close>

lemma first_attr_simps [simp]:
  "first_attr [] = None" "first_attr (x # xs) = Some (at_addr x)" "first_attr xs = None \<longleftrightarrow> xs = []"
  "last_attr prv [] = prv" "last_attr prv (xs @ [x]) = Some (at_addr x)"
  "last_attr prv (x # xs) = last_attr (Some (at_addr x)) xs"
  "last_attr prv (xs @ ys) = last_attr (last_attr prv xs) ys"
  by (auto simp: first_attr_def last_attr_def split: list.splits)

lemma first_attr_append [simp]: "first_attr (xs @ ys) = (if xs = [] then first_attr ys else first_attr xs)"
  by (auto simp: first_attr_def split: list.splits)

fun put_attr :: "nat \<Rightarrow> string \<Rightarrow> string \<Rightarrow> aattr list \<Rightarrow> aattr list" where
  "put_attr r k v [] = [Attr r k v None]"
| "put_attr r k v (x # xs) =
     (if at_name x = k then Attr (at_addr x) k v (at_ptr x) # xs else x # put_attr r k v xs)"

lemma put_attr_new: "find_attr k xs = None \<Longrightarrow> put_attr r k v xs = xs @ [Attr r k v None]"
  by (induction xs) (auto simp: find_attr_def split: if_splits)

lemma find_attr_split:
  "find_attr k xs = Some x \<Longrightarrow> \<exists>ys zs. xs = ys @ x # zs \<and> at_name x = k \<and>
     put_attr r k v xs = ys @ Attr (at_addr x) k v (at_ptr x) # zs"
proof (induction xs)
  case (Cons y xs)
  show ?case
  proof (cases "at_name y = k")
    case True
    then show ?thesis using Cons.prems by (intro exI [of _ "[]"] exI [of _ xs]) (auto simp: find_attr_def)
  next
    case False
    then have "find_attr k xs = Some x" using Cons.prems by (simp add: find_attr_def)
    from Cons.IH [OF this] obtain ys zs where "xs = ys @ x # zs" "at_name x = k"
      "put_attr r k v xs = ys @ Attr (at_addr x) k v (at_ptr x) # zs" by blast
    then show ?thesis using False by (intro exI [of _ "y # ys"] exI [of _ zs]) simp
  qed
qed (simp add: find_attr_def)

lemma attr_node_links [simp]:
  "(attr_node p prv nxt x)\<lparr>xn_next := nxt'\<rparr> = attr_node p prv nxt' x"
  "xn_pool (attr_node p prv nxt x) = p"
  by (simp_all add: attr_node_def)

text \<open>The memory after an attribute was appended to a list.\<close>

definition attr_mem :: "xmem \<Rightarrow> nat \<Rightarrow> xnode \<Rightarrow> nat \<Rightarrow> aattr \<Rightarrow> aattr list \<Rightarrow> xmem" where
  "attr_mem m a n p x xs =
     m\<lparr>xm_nodes :=
        (if xs = [] then xm_nodes m
         else (xm_nodes m)(at_addr (last xs) \<mapsto>
           attr_node p (last_attr None (butlast xs)) (Some (xm_brk m)) (last xs)))
        (xm_brk m \<mapsto> attr_node p (last_attr None xs) None x, a \<mapsto> n), xm_brk := xm_brk m + 1\<rparr>"

lemma attr_mem_computes:
  assumes r: "rep m p par prv nxt (ATag a cp nm as ts)" and new: "find_attr k as = None"
  shows "xmlnode_put_attrib m (Some a) (Some k) (Some v) =
    Some (attr_mem m a (root_node p par prv nxt (ATag a cp nm (as @ [Attr (xm_brk m) k v None]) ts)) p
      (Attr (xm_brk m) k v None) as)"
proof -
  note f = rep_facts [OF r]
  have ab: "a \<noteq> xm_brk m" "xm_brk m \<noteq> a" using f(3) by simp_all
  show ?thesis
  proof (cases as rule: rev_cases)
    case Nil
    show ?thesis using f(2) ab unfolding Nil
      by (auto simp: Let_def xmlnode_put_attrib_def i_xmlnode_new_def blank_node_def store_Some
          attr_mem_def attr_node_def j_strlen_def fun_upd_def fun_eq_iff)
  next
    case (snoc us l)
    have l: "xm_nodes m (at_addr l) = Some (attr_node p (last_attr None us) None l)"
      using f(7) unfolding snoc by simp
    have d: "at_addr l \<noteq> a" "at_addr l \<noteq> xm_brk m" "xm_brk m \<noteq> at_addr l"
      using f(4) f(10) [of "at_addr l"] unfolding snoc by auto
    have "i_xmlnode_search m (first_attr as) (Some k) NTYPE_ATTRIB = Some None"
      using search_attr [OF f(7), of k] new by simp
    then show ?thesis using f(2) ab l d unfolding snoc
      by (auto simp: Let_def xmlnode_put_attrib_def i_xmlnode_new_def i_xmlnode_append_sibling_def
          blank_node_def store_Some attr_mem_def attr_node_def xmlnode_pool_def j_strlen_def
          fun_upd_def fun_eq_iff)
  qed
qed

lemma put_attrib_new_rep:
  assumes r: "rep m p par prv nxt (ATag a cp nm as ts)" and new: "find_attr k as = None"
    and T: "T' = ATag a cp nm (as @ [Attr (xm_brk m) k v None]) ts"
  shows "\<exists>m'. xmlnode_put_attrib m (Some a) (Some k) (Some v) = Some m' \<and>
    rep m' p par prv nxt T' \<and> becomes m (ATag a cp nm as ts) m' T'"
proof -
  note f = rep_facts [OF r]
  let ?x = "Attr (xm_brk m) k v None"
  let ?m = "attr_mem m a (root_node p par prv nxt T') p ?x as"
  have ab: "a \<noteq> xm_brk m" using f(3) by simp
  have fresh: "xm_brk m \<notin> at_addr ` set as" "\<And>t. t \<in> set ts \<Longrightarrow> xm_brk m \<notin> set (addrs t)"
    using f(9,10) by (meson less_irrefl)+
  have la: "at_addr (last as) \<in> at_addr ` set as" if "as \<noteq> []" using that by simp
  have ll: "at_addr (last as) < xm_brk m" "at_addr (last as) \<noteq> a"
    "\<And>t. t \<in> set ts \<Longrightarrow> at_addr (last as) \<notin> set (addrs t)" if "as \<noteq> []"
    using f(4,9,10) la [OF that] by auto
  have "holds (xm_nodes ?m) (cells p par prv nxt T')"
  proof (cases as rule: rev_cases)
    case Nil
    then show ?thesis using f(5,8) ab fresh unfolding T by (simp add: attr_mem_def cells_def)
  next
    case (snoc us l)
    have "at_addr l \<notin> at_addr ` set us" using f(11) unfolding snoc by simp
    then show ?thesis using f(4,5,7,8) ab fresh ll unfolding T snoc
      by (simp add: attr_mem_def cells_def)
  qed
  moreover have "mem_ok ?m"
    using f(1,3,6) ll unfolding T by (auto simp: mem_ok_def attr_mem_def less_Suc_eq)
  moreover have "distinct (addrs T')"
  proof -
    have "distinct (addrs (ATag a cp nm as ts))" using r by (simp add: rep_def)
    then show ?thesis using ab fresh unfolding T by (auto simp: addrs_ATag)
  qed
  moreover have "becomes m (ATag a cp nm as ts) ?m T'"
  proof -
    have "xm_nodes ?m b = xm_nodes m b"
      if "b < xm_brk m" "b \<notin> set (addrs (ATag a cp nm as ts))" for b
    proof -
      have "as \<noteq> [] \<Longrightarrow> b \<noteq> at_addr (last as)" using that la by (auto simp: addrs_ATag)
      with that show ?thesis by (simp add: attr_mem_def addrs_ATag)
    qed
    moreover have "xm_brk ?m = xm_brk m + 1" "xm_pools ?m = xm_pools m" by (simp_all add: attr_mem_def)
    ultimately show ?thesis unfolding becomes_def T by (auto simp: addrs_ATag)
  qed
  ultimately show ?thesis using attr_mem_computes [OF r new, of v] unfolding T by (auto simp: rep_def)
qed

lemma put_attrib_old_rep:
  assumes r: "rep m p par prv nxt (ATag a cp nm (ys @ x # zs) ts)"
    and x: "find_attr k (ys @ x # zs) = Some x"
    and T: "T' = ATag a cp nm (ys @ Attr (at_addr x) k v (at_ptr x) # zs) ts"
  shows "\<exists>m'. xmlnode_put_attrib m (Some a) (Some k) (Some v) = Some m' \<and>
    rep m' p par prv nxt T' \<and> becomes m (ATag a cp nm (ys @ x # zs) ts) m' T'"
proof -
  note f = rep_facts [OF r]
  let ?n = "attr_node p (last_attr None ys) (first_attr zs)"
  let ?m = "m\<lparr>xm_nodes := (xm_nodes m)(at_addr x \<mapsto> ?n (Attr (at_addr x) k v (at_ptr x)))\<rparr>"
  have k: "at_name x = k" using x by (auto simp: find_attr_def dest: find_Some_set)
  have nx: "xm_nodes m (at_addr x) = Some (?n x)" using f(7) by (cases zs) auto
  have "i_xmlnode_search m (first_attr (ys @ x # zs)) (Some k) NTYPE_ATTRIB = Some (Some (at_addr x))"
    using search_attr [OF f(7), of k] x by simp
  then have "xmlnode_put_attrib m (Some a) (Some k) (Some v) = Some ?m"
    using f(2) nx k
    by (auto simp: xmlnode_put_attrib_def store_Some attr_node_def j_strlen_def)
  moreover have d: "at_addr x \<noteq> a" "at_addr x \<notin> at_addr ` set ys" "at_addr x \<notin> at_addr ` set zs"
    "\<And>t. t \<in> set ts \<Longrightarrow> at_addr x \<notin> set (addrs t)" "at_addr x < xm_brk m"
    using f(4,11) f(9) [of _ "at_addr x"] f(10) [of "at_addr x"] by auto
  moreover have "holds (xm_nodes ?m) (cells p par prv nxt T')"
    using f(2,7,8) d unfolding T by (auto simp: cells_def)
  moreover have "mem_ok ?m" using f(1,6) d(5) by (auto simp: mem_ok_def)
  moreover have "distinct (addrs T')" using r unfolding T by (auto simp: rep_def addrs_ATag)
  moreover have "becomes m (ATag a cp nm (ys @ x # zs) ts) ?m T'"
    unfolding T by (auto simp: becomes_def addrs_ATag)
  ultimately show ?thesis by (auto simp: rep_def)
qed

lemma put_attrib_rep:
  assumes r: "rep m p par prv nxt (ATag a cp nm as ts)"
    and T: "T' = ATag a cp nm (put_attr (xm_brk m) k v as) ts"
  shows "\<exists>m'. xmlnode_put_attrib m (Some a) (Some k) (Some v) = Some m' \<and>
    rep m' p par prv nxt T' \<and> becomes m (ATag a cp nm as ts) m' T'"
proof (cases "find_attr k as")
  case None
  then show ?thesis using put_attrib_new_rep [OF r None] T by (simp add: put_attr_new)
next
  case (Some x)
  from find_attr_split [OF this, of "xm_brk m" v] obtain ys zs where "as = ys @ x # zs"
    "put_attr (xm_brk m) k v as = ys @ Attr (at_addr x) k v (at_ptr x) # zs" by blast
  then show ?thesis using put_attrib_old_rep [of m p par prv nxt a cp nm ys x zs ts k T' v] r T Some by simp
qed

end
