(* ===== verification/XmlRead.thy ===== *)
theory XmlRead
  imports XmlTree
begin

text \<open>
  Reading a tree: paths of \<open>xmlnode_get_tag\<close>, comparison and printing agree with functions on
  documents.
\<close>

section \<open>Paths\<close>

lemma forest_cells:
  "holds f (forest p par prv nxt ts) \<Longrightarrow> t \<in> set ts \<Longrightarrow> \<exists>prv nxt. holds f (cells p par prv nxt t)"
  by (induction ts arbitrary: prv) (auto simp: cells_def)

lemma distinct_concat_member: "distinct (concat (map f xs)) \<Longrightarrow> x \<in> set xs \<Longrightarrow> distinct (f x)"
  by (induction xs) auto

lemma rep_child:
  assumes "rep m p par prv nxt (ATag a cp nm as ts)" "t \<in> set ts"
  shows "\<exists>prv nxt. rep m p (Some a) prv nxt t"
  using forest_cells [OF rep_facts(8) [OF assms(1)] assms(2)] rep_facts(1,12) [OF assms(1)] assms(2)
  by (auto simp: rep_def distinct_concat_member)

text \<open>The tag that a path names, searched depth first among the children.\<close>

fun children :: "atree \<Rightarrow> atree list" where
  "children (ATag a cp nm as ts) = ts"
| "children (AData a d) = []"

fun query_ok :: "string \<times> string \<times> string option \<Rightarrow> atree \<Rightarrow> bool" where
  "query_ok (str, q, e) (ATag a cp nm as ts) \<longleftrightarrow>
     (str = [] \<or> nm = str) \<and>
     (case find_attr q as of None \<Rightarrow> False | Some x \<Rightarrow> e = None \<or> e = Some (at_value x))"
| "query_ok parts (AData a d) \<longleftrightarrow> False"

fun first_some :: "('a \<Rightarrow> 'b option) \<Rightarrow> 'a list \<Rightarrow> 'b option" where
  "first_some f [] = None"
| "first_some f (x # xs) = (case f x of Some r \<Rightarrow> Some r | None \<Rightarrow> first_some f xs)"

function tag_at :: "string \<Rightarrow> atree list \<Rightarrow> atree option" where
  "tag_at name ts =
     (case tag_path name of
        Plain \<Rightarrow> List.find (is_tag name) ts
      | Query q \<Rightarrow> List.find (query_ok (query_parts name q (strstr name ''=''))) ts
      | Step l \<Rightarrow> first_some (\<lambda>t. if is_tag (take l name) t
          then tag_at (drop (l + 1) name) (children t) else None) ts)"
  by pat_completeness auto
termination
  by (relation "measure (\<lambda>(name, ts). length name)") (auto dest: tag_path_Step)

declare tag_at.simps [simp del]

lemma tag_path_Nil [simp]: "tag_at name [] = None"
  by (subst tag_at.simps) (simp split: tag_path.split)

lemma match_query_rep:
  assumes "rep m p par prv nxt t"
  shows "match_query m parts (root t) = Some (if query_ok parts t then Some (root t) else None)"
proof (cases t)
  case (ATag a cp nm as ts)
  obtain str q e where parts: "parts = (str, q, e)" by (cases parts) auto
  show ?thesis
    using rep_facts(2) [OF assms [unfolded ATag]] get_attrib_rep(1) [OF assms [unfolded ATag], of q]
    unfolding ATag parts
    by (cases "find_attr q as") (auto simp: match_query_def)
next
  case (AData a d)
  then show ?thesis using rep_root [OF assms] by (cases parts) (simp add: match_query_def)
qed

lemma first_visit_find:
  "(\<And>t. t \<in> set ts \<Longrightarrow> visit (root t) = Some (if P t then Some (root t) else None)) \<Longrightarrow>
   first_visit visit (map root ts) = Some (map_option root (List.find P ts))"
  by (induction ts) auto

lemma first_visit_some:
  "(\<And>t. t \<in> set ts \<Longrightarrow> visit (root t) = Some (map_option root (f t))) \<Longrightarrow>
   first_visit visit (map root ts) = Some (map_option root (first_some f ts))"
  by (induction ts) (auto split: option.split)

lemma get_tag_rep:
  "rep m p par prv nxt (ATag a cp nm as ts) \<Longrightarrow>
   xmlnode_get_tag m (Some a) (Some name) = Some (map_option root (tag_at name ts))"
proof (induction "length name" arbitrary: name a cp nm as ts par prv nxt rule: less_induct)
  case less
  note f = rep_facts [OF less.prems]
  show ?case
  proof (cases "ts = []")
    case True
    then show ?thesis using f(2) by (subst xmlnode_get_tag.simps) simp
  next
    case False
    show ?thesis
    proof (cases "tag_path name")
      case Plain
      then show ?thesis using f(2) False search_tag [OF f(8), of name]
        by (subst xmlnode_get_tag.simps) (simp add: tag_at.simps [of name])
    next
      case (Query q)
      let ?v = "match_query m (query_parts name q (strstr name ''=''))"
      have "first_visit ?v (map root ts) =
          Some (map_option root (List.find (query_ok (query_parts name q (strstr name ''=''))) ts))"
        using rep_child [OF less.prems] match_query_rep by (intro first_visit_find) blast
      then show ?thesis using f(2) False Query siblings_forest [OF f(8), of ?v]
        by (subst xmlnode_get_tag.simps) (simp add: tag_at.simps [of name])
    next
      case (Step l)
      let ?v = "\<lambda>step. do {
          k \<leftarrow> xm_nodes m step;
          if xn_type k \<noteq> NTYPE_TAG then Some None
          else if j_strcmp (xn_name k) (Some (take l name)) \<noteq> 0 then Some None
          else xmlnode_get_tag m (Some step) (Some (drop (l + 1) name))
        }"
      let ?f = "\<lambda>t. if is_tag (take l name) t then tag_at (drop (l + 1) name) (children t) else None"
      have "?v (root t) = Some (map_option root (?f t))" if "t \<in> set ts" for t
      proof -
        from rep_child [OF less.prems that] obtain pr nx where t: "rep m p (Some a) pr nx t" by blast
        have "length (drop (l + 1) name) < length name" using tag_path_Step [OF Step] by simp
        from less.hyps [OF this] t rep_root [OF t] show ?thesis by (cases t) auto
      qed
      then have "first_visit ?v (map root ts) = Some (map_option root (first_some ?f ts))"
        by (rule first_visit_some)
      then show ?thesis using f(2) False Step siblings_forest [OF f(8), of ?v]
        by (subst xmlnode_get_tag.simps) (simp add: tag_at.simps [of name])
    qed
  qed
qed

section \<open>Comparison\<close>

lemma cmp_attrs:
  "holds (xm_nodes m) (attr_cells p pr None xs) \<Longrightarrow> holds (xm_nodes m) (attr_cells q qr None ys) \<Longrightarrow>
   xmlnode_cmp m (first_attr xs) (first_attr ys) =
     Some (if map (\<lambda>x. (at_name x, at_value x)) xs = map (\<lambda>x. (at_name x, at_value x)) ys then 0 else - 1)"
proof (induction xs arbitrary: pr ys qr)
  case Nil
  then show ?case by (cases ys) (simp_all add: xmlnode_cmp.simps)
next
  case (Cons x xs)
  show ?case
  proof (cases ys)
    case Nil
    then show ?thesis by (simp add: xmlnode_cmp.simps)
  next
    case ys: (Cons y ys')
    have e: "xmlnode_cmp m (first_attr xs) (first_attr ys') =
       Some (if map (\<lambda>x. (at_name x, at_value x)) xs = map (\<lambda>x. (at_name x, at_value x)) ys' then 0 else - 1)"
      using Cons.prems unfolding ys by (intro Cons.IH [of "Some (at_addr x)" "Some (at_addr y)"]) simp_all
    have "(if zs = [] then None else first_attr zs) = first_attr zs" for zs by simp
    then show ?thesis using Cons.prems e unfolding ys
      by (subst xmlnode_cmp.simps) (auto simp: attr_node_def)
  qed
qed

lemma cmp_forest:
  "holds (xm_nodes m) (forest p par pr None ts) \<Longrightarrow> holds (xm_nodes m) (forest q qar qr None us) \<Longrightarrow>
   xmlnode_cmp m (first_root None ts) (first_root None us) =
     Some (if map document ts = map document us then 0 else - 1)"
proof (induction "size_list size ts" arbitrary: ts us p q par qar pr qr rule: less_induct)
  case less
  show ?case
  proof (cases ts)
    case Nil
    then show ?thesis by (cases us) (simp_all add: xmlnode_cmp.simps)
  next
    case ts: (Cons t ts')
    show ?thesis
    proof (cases us)
      case Nil
      then show ?thesis using ts by (simp add: xmlnode_cmp.simps)
    next
      case us: (Cons u us')
      have rest: "xmlnode_cmp m (first_root None ts') (first_root None us') =
          Some (if map document ts' = map document us' then 0 else - 1)"
        using less.prems unfolding ts us by (intro less.hyps) (auto simp: ts)
      show ?thesis
      proof (cases t)
        case (AData a d)
        then show ?thesis using less.prems rest unfolding ts us
          by (subst xmlnode_cmp.simps) (cases u; auto)
      next
        case t: (ATag a cp nm as vs)
        show ?thesis
        proof (cases u)
          case (AData b e)
          then show ?thesis using less.prems t unfolding ts us by (subst xmlnode_cmp.simps) auto
        next
          case u: (ATag b cp' nm' bs ws)
          have "xmlnode_cmp m (first_root None vs) (first_root None ws) =
              Some (if map document vs = map document ws then 0 else - 1)"
            using less.prems unfolding ts us t u by (intro less.hyps) (auto simp: ts t)
          moreover have "xmlnode_cmp m (first_attr as) (first_attr bs) =
              Some (if map (\<lambda>x. (at_name x, at_value x)) as = map (\<lambda>x. (at_name x, at_value x)) bs then 0 else - 1)"
            using less.prems unfolding ts us t u by (intro cmp_attrs) auto
          ultimately show ?thesis using less.prems rest unfolding ts us t u
            by (subst xmlnode_cmp.simps) auto
        qed
      qed
    qed
  qed
qed


section \<open>Printing\<close>

definition render_attr :: "string \<times> string \<Rightarrow> string" where
  "render_attr kv = '' '' @ fst kv @ [CHR ''='', apos] @ escape_loop (snd kv) @ [apos]"

fun render :: "xml \<Rightarrow> string" where
  "render (Tag nm as ts) =
     ''<'' @ nm @ concat (map render_attr as) @
     (if ts = [] then ''/>'' else ''>'' @ concat (map render ts) @ ''</'' @ nm @ ''>'')"
| "render (CData d) = escape_loop d"

text \<open>A printing step that appends a text to the spool.\<close>

definition prints :: "spool option \<Rightarrow> spool \<Rightarrow> string \<Rightarrow> bool" where
  "prints r s txt \<longleftrightarrow> (\<exists>s'. r = Some s' \<and> spool_ok s' \<and> spool_text s' = spool_text s @ txt)"

lemma attribs2str_prints:
  "holds (xm_nodes m) (attr_cells p pr None xs) \<Longrightarrow> spool_ok s \<Longrightarrow>
   prints (attribs2str m (Some q) s (first_attr xs)) s
     (concat (map (\<lambda>x. render_attr (at_name x, at_value x)) xs))"
proof (induction xs arbitrary: s pr)
  case Nil
  then show ?case by (simp add: attribs2str.simps prints_def)
next
  case (Cons x xs)
  have n: "(if xs = [] then None else first_attr xs) = first_attr xs" by simp
  let ?s = "spooler s [Some '' '', Some (at_name x), Some [CHR ''='', apos],
    strescape (Some q) (Some (at_value x)), Some [apos]]"
  have "prints (attribs2str m (Some q) ?s (first_attr xs)) ?s
     (concat (map (\<lambda>x. render_attr (at_name x, at_value x)) xs))"
    using Cons.prems by (intro Cons.IH [of "Some (at_addr x)"]) simp_all
  then show ?case using Cons.prems n
    by (subst attribs2str.simps)
      (auto simp: prints_def attr_node_def xmlnode_get_data_def render_attr_def strescape_loop)
qed

lemma tag2str_prints:
  assumes r: "rep m p par prv nxt (ATag a cp nm as ts)" and s: "spool_ok s"
  shows "prints (i_xmlnode_tag2str m s (Some a) 0) s
      (''<'' @ nm @ concat (map (\<lambda>x. render_attr (at_name x, at_value x)) as) @ ''/>'')"
    "prints (i_xmlnode_tag2str m s (Some a) 1) s
      (''<'' @ nm @ concat (map (\<lambda>x. render_attr (at_name x, at_value x)) as) @ ''>'')"
    "prints (i_xmlnode_tag2str m s (Some a) 2) s (''</'' @ nm @ ''>'')"
proof -
  note f = rep_facts [OF r]
  have "spool_ok (spooler s [Some ''<'', Some nm])" using s by simp
  from attribs2str_prints [OF f(7) this, of p]
  show "prints (i_xmlnode_tag2str m s (Some a) 0) s
      (''<'' @ nm @ concat (map (\<lambda>x. render_attr (at_name x, at_value x)) as) @ ''/>'')"
    "prints (i_xmlnode_tag2str m s (Some a) 1) s
      (''<'' @ nm @ concat (map (\<lambda>x. render_attr (at_name x, at_value x)) as) @ ''>'')"
    using f(2) s
    by (auto simp: prints_def i_xmlnode_tag2str_def xmlnode_get_name_def xmlnode_pool_def
        xmlnode_get_firstattrib_def)
  show "prints (i_xmlnode_tag2str m s (Some a) 2) s (''</'' @ nm @ ''>'')"
    using f(2) s by (auto simp: prints_def i_xmlnode_tag2str_def xmlnode_get_name_def)
qed

lemmas get_defs = xmlnode_get_type_def xmlnode_has_children_def xmlnode_get_firstchild_def
  xmlnode_get_nextsibling_def xmlnode_get_parent_def xmlnode_pool_def

text \<open>
  The loop at a node comes, below level 1 at the latest, to the same node with \<open>dir\<close> set, after
  the text of the node was printed.
\<close>

definition walks :: "xmem \<Rightarrow> spool \<Rightarrow> atree \<Rightarrow> int \<Rightarrow> bool" where
  "walks m s t level \<longleftrightarrow> (\<exists>s'. spool_loop m s (Some (root t)) level 0 = spool_loop m s' (Some (root t)) level 1 \<and>
     spool_ok s' \<and> spool_text s' = spool_text s @ render (document t))"

lemma walks_leaf:
  assumes r: "rep m p par prv nxt t" and s: "spool_ok s" and c: "children t = []"
  shows "walks m s t level"
proof (cases t)
  case (ATag a cp nm as ts)
  with c have [simp]: "ts = []" by simp
  note r = r [unfolded ATag]
  from tag2str_prints(1) [OF r s] obtain s' where s': "i_xmlnode_tag2str m s (Some a) 0 = Some s'"
    "spool_ok s'" "spool_text s' = spool_text s @ render (document t)"
    by (auto simp: prints_def ATag comp_def)
  have "spool_loop m s (Some a) level 0 = spool_loop m s' (Some a) level 1"
    using rep_facts(2) [OF r] s' by (simp add: spool_loop.simps [of m _ "Some a" level] get_defs)
  with s' show ?thesis by (auto simp: walks_def ATag)
next
  case (AData a d)
  note k = rep_root [OF r]
  let ?s = "spool_add s (strescape (Some p) (Some d))"
  have "xmlnode_get_data m (Some a) = Some (Some d)" using get_data_rep [OF r] AData by simp
  then have "spool_loop m s (Some a) level 0 = spool_loop m ?s (Some a) level 1"
    using k AData by (simp add: spool_loop.simps [of m _ "Some a" level] get_defs)
  then show ?thesis using s AData by (auto simp: walks_def strescape_loop intro!: exI [of _ ?s])
qed

lemma walks_siblings:
  assumes "\<And>t s pr nx. t \<in> set ts \<Longrightarrow> spool_ok s \<Longrightarrow> walks m s t level"
    and "holds (xm_nodes m) (forest p par pr None ts)" "ts \<noteq> []" "spool_ok s"
  shows "\<exists>s'. spool_loop m s (first_root None ts) level 0 = spool_loop m s' (Some (root (last ts))) level 1 \<and>
     spool_ok s' \<and> spool_text s' = spool_text s @ concat (map (\<lambda>t. render (document t)) ts)"
  using assms
proof (induction ts arbitrary: s pr)
  case (Cons t ts)
  from Cons.prems(1) [of t s] Cons.prems(4) obtain s1 where s1:
    "spool_loop m s (Some (root t)) level 0 = spool_loop m s1 (Some (root t)) level 1"
    "spool_ok s1" "spool_text s1 = spool_text s @ render (document t)"
    by (auto simp: walks_def)
  show ?case
  proof (cases "ts = []")
    case True
    then show ?thesis using s1 by auto
  next
    case False
    have "\<exists>s'. spool_loop m s1 (first_root None ts) level 0 = spool_loop m s' (Some (root (last ts))) level 1 \<and>
     spool_ok s' \<and> spool_text s' = spool_text s1 @ concat (map (\<lambda>t. render (document t)) ts)"
      using Cons.prems s1 False by (intro Cons.IH [of "Some (root t)"]) auto
    moreover have "spool_loop m s1 (Some (root t)) level 1 = spool_loop m s1 (first_root None ts) level 0"
      using Cons.prems(2) False
      by (subst spool_loop.simps) (simp add: get_defs)
    ultimately show ?thesis using s1 False by auto
  qed
qed simp

text \<open>After the last child of \<open>a\<close> the loop closes the tag.\<close>

lemma children_printed:
  assumes r: "rep m p par prv nxt (ATag a cp nm as ts)" and ne: "ts \<noteq> []" and s: "spool_ok s"
    and walk: "\<And>t s. t \<in> set ts \<Longrightarrow> spool_ok s \<Longrightarrow> walks m s t (level + 1)" and lev: "0 \<le> level"
  shows "\<exists>s'. spool_loop m s (Some a) level 0 =
      (if level < 1 then Some s' else spool_loop m s' (Some a) level 1) \<and>
    spool_ok s' \<and> spool_text s' = spool_text s @ render (document (ATag a cp nm as ts))"
proof -
  note f = rep_facts [OF r]
  from tag2str_prints(2) [OF r s] obtain s1 where s1: "i_xmlnode_tag2str m s (Some a) 1 = Some s1"
    "spool_ok s1" "spool_text s1 = spool_text s @ ''<'' @ nm @
       concat (map (\<lambda>x. render_attr (at_name x, at_value x)) as) @ ''>''"
    by (auto simp: prints_def)
  from walks_siblings [OF walk f(8) ne s1(2)] obtain s2 where s2:
    "spool_loop m s1 (first_root None ts) (level + 1) 0 = spool_loop m s2 (Some (root (last ts))) (level + 1) 1"
    "spool_ok s2" "spool_text s2 = spool_text s1 @ concat (map (\<lambda>t. render (document t)) ts)" by blast
  from tag2str_prints(3) [OF r s2(2)] obtain s3 where s3: "i_xmlnode_tag2str m s2 (Some a) 2 = Some s3"
    "spool_ok s3" "spool_text s3 = spool_text s2 @ ''</'' @ nm @ ''>''"
    by (auto simp: prints_def)
  have l: "\<exists>pr. xm_nodes m (root (last ts)) = Some (root_node p (Some a) pr None (last ts))"
    using f(8) ne by (cases ts rule: rev_cases) auto
  have "spool_loop m s (Some a) level 0 = spool_loop m s1 (first_root None ts) (level + 1) 0"
    using f(2) s1 ne by (subst spool_loop.simps) (simp add: get_defs)
  also have "\<dots> = spool_loop m s2 (Some (root (last ts))) (level + 1) 1" by (rule s2)
  also have "\<dots> = (if level < 1 then Some s3 else spool_loop m s3 (Some a) level 1)"
    using l s3(1) lev by (subst spool_loop.simps) (auto simp: get_defs Let_def)
  finally show ?thesis using s1 s2 s3 ne by (auto simp: comp_def)
qed

lemma walks_rep:
  "rep m p par prv nxt t \<Longrightarrow> spool_ok s \<Longrightarrow> 1 \<le> level \<Longrightarrow> walks m s t level"
proof (induction t arbitrary: par prv nxt s level)
  case (ATag a cp nm as ts)
  show ?case
  proof (cases "ts = []")
    case True
    then show ?thesis using walks_leaf [OF ATag.prems(1,2)] by simp
  next
    case False
    have "walks m s' t (level + 1)" if "t \<in> set ts" "spool_ok s'" for t s'
      using rep_child [OF ATag.prems(1) that(1)] ATag.IH [OF that(1)] that(2) ATag.prems(3) by force
    from children_printed [OF ATag.prems(1) False ATag.prems(2) this] ATag.prems(3)
    show ?thesis by (auto simp: walks_def)
  qed
next
  case (AData a d)
  then show ?case by (intro walks_leaf) auto
qed

lemma walks_end:
  assumes "rep m p par prv None t"
  shows "spool_loop m s (Some (root t)) 0 1 = Some s"
  using rep_root [OF assms] by (subst spool_loop.simps) (simp add: get_defs Let_def)

lemma to_str_rep:
  assumes r: "rep m p par prv nxt t" and e: "nxt = None \<or> children t \<noteq> []"
    and tag: "t = ATag a cp nm as ts"
  shows "xmlnode2str m (Some a) = Some (Some (render (document t)))"
proof -
  have s: "spool_ok spool_new" by simp
  have "prints (spool_loop m spool_new (Some a) 0 0) spool_new (render (document t))"
  proof (cases "ts = []")
    case True
    then have "nxt = None" using e tag by simp
    have "walks m spool_new t 0" using walks_leaf [OF r s] True tag by simp
    then show ?thesis using walks_end [OF r [unfolded \<open>nxt = None\<close>]] tag by (auto simp: walks_def prints_def)
  next
    case False
    have "walks m s' u (0 + 1)" if "u \<in> set ts" "spool_ok s'" for u s'
      using rep_child [OF r [unfolded tag] that(1)] that(2) by (auto intro: walks_rep)
    from children_printed [OF r [unfolded tag] False s this] show ?thesis
      unfolding tag by (auto simp: prints_def)
  qed
  then obtain s' where "spool_loop m spool_new (Some a) 0 0 = Some s'" "spool_ok s'"
    "spool_text s' = render (document t)" by (auto simp: prints_def)
  moreover have "render (document t) \<noteq> []" using tag by simp
  ultimately show ?thesis using rep_root [OF r] tag spool_print_text [of s']
    by (simp add: xmlnode2str_def i_xmlnode2spool_def xmlnode_get_type_def)
qed


text \<open>
  A tag without children that has a following sibling: the loop does not stop at it and prints
  the sibling as well.
\<close>

lemma to_str_prints_sibling:
  assumes t: "rep m p par prv (Some (root u)) t" "t = ATag a cp nm as []"
    and u: "rep m p par prv' None u" "children u = []"
  shows "xmlnode2str m (Some a) = Some (Some (render (document t) @ render (document u)))"
proof -
  have s: "spool_ok spool_new" by simp
  have "children t = []" using t(2) by simp
  from walks_leaf [OF t(1) s this, of 0] obtain s1 where s1:
    "spool_loop m spool_new (Some (root t)) 0 0 = spool_loop m s1 (Some (root t)) 0 1"
    "spool_ok s1" "spool_text s1 = render (document t)"
    by (auto simp: walks_def)
  from walks_leaf [OF u(1) s1(2) u(2), of 0] obtain s2 where s2:
    "spool_loop m s1 (Some (root u)) 0 0 = spool_loop m s2 (Some (root u)) 0 1"
    "spool_ok s2" "spool_text s2 = spool_text s1 @ render (document u)"
    by (auto simp: walks_def)
  have "spool_loop m s1 (Some (root t)) 0 1 = spool_loop m s1 (Some (root u)) 0 0"
    using rep_root [OF t(1)] by (subst spool_loop.simps) (simp add: get_defs Let_def)
  then have "spool_loop m spool_new (Some a) 0 0 = Some s2"
    using s1(1) s2(1) walks_end [OF u(1)] t(2) by simp
  moreover have "spool_print (Some s2) = Some (render (document t) @ render (document u))"
    using spool_print_text [OF s2(2)] s1(3) s2(3) t(2) by simp
  ultimately show ?thesis using rep_root [OF t(1)] t(2)
    by (simp add: xmlnode2str_def i_xmlnode2spool_def xmlnode_get_type_def)
qed

end
