(* ===== verification/XmlCopy.thy ===== *)
theory XmlCopy
  imports XmlRead
begin

text \<open>
  Copying, unlinking, wrapping and freeing trees.
\<close>

section \<open>Copies of documents\<close>

text \<open>What \<open>xmlnode_insert_node\<close> does to the contents of a tag.\<close>

fun doc_put :: "string \<Rightarrow> string \<Rightarrow> (string \<times> string) list \<Rightarrow> (string \<times> string) list" where
  "doc_put k v [] = [(k, v)]"
| "doc_put k v (x # xs) = (if fst x = k then (k, v) # xs else x # doc_put k v xs)"

definition doc_text :: "string \<Rightarrow> xml list \<Rightarrow> xml list" where
  "doc_text s ts = (case rev ts of CData d # us \<Rightarrow> rev us @ [CData (d @ s)] | _ \<Rightarrow> ts @ [CData s])"

fun copy_list :: "xml list \<Rightarrow> xml list \<Rightarrow> xml list" where
  "copy_list acc [] = acc"
| "copy_list acc (CData d # ds) = copy_list (doc_text d acc) ds"
| "copy_list acc (Tag nm as us # ds) =
     copy_list (acc @ [Tag nm (fold (\<lambda>kv. doc_put (fst kv) (snd kv)) as []) (copy_list [] us)]) ds"

fun copy_doc :: "xml \<Rightarrow> xml" where
  "copy_doc (Tag nm as us) = Tag nm (fold (\<lambda>kv. doc_put (fst kv) (snd kv)) as []) (copy_list [] us)"
| "copy_doc (CData d) = CData d"

text \<open>
  Documents as the functions of \<open>xmlnode.c\<close> build them: no attribute twice, no two adjacent
  character data.
\<close>

fun merged :: "xml list \<Rightarrow> bool" where
  "merged (CData d # CData e # ts) = False"
| "merged (t # ts) = merged ts"
| "merged [] = True"

fun canonical :: "xml \<Rightarrow> bool" where
  "canonical (Tag nm as ts) \<longleftrightarrow> distinct (map fst as) \<and> merged ts \<and> (\<forall>t \<in> set ts. canonical t)"
| "canonical (CData d) \<longleftrightarrow> True"

lemma doc_put_new: "k \<notin> fst ` set xs \<Longrightarrow> doc_put k v xs = xs @ [(k, v)]"
  by (induction xs) auto

lemma fold_doc_put:
  "distinct (map fst (acc @ as)) \<Longrightarrow> fold (\<lambda>kv. doc_put (fst kv) (snd kv)) as acc = acc @ as"
proof (induction as arbitrary: acc)
  case (Cons x as)
  then have "fold (\<lambda>kv. doc_put (fst kv) (snd kv)) as (acc @ [x]) = (acc @ [x]) @ as"
    by (intro Cons.IH) auto
  moreover have "doc_put (fst x) (snd x) acc = acc @ [x]" using Cons.prems by (subst doc_put_new) auto
  ultimately show ?case by simp
qed simp

lemma doc_text_new:
  "(acc = [] \<or> (\<exists>nm as ts. last acc = Tag nm as ts)) \<Longrightarrow> doc_text s acc = acc @ [CData s]"
  by (cases acc rule: rev_cases) (auto simp: doc_text_def)

lemma copy_list_canonical:
  "merged ds \<Longrightarrow> (\<forall>d \<in> set ds. canonical d) \<Longrightarrow>
   (case ds of CData e # _ \<Rightarrow> acc = [] \<or> (\<exists>nm as ts. last acc = Tag nm as ts) | _ \<Rightarrow> True) \<Longrightarrow>
   copy_list acc ds = acc @ ds"
proof (induction acc ds rule: copy_list.induct)
  case (2 acc d ds)
  have e: "doc_text d acc = acc @ [CData d]" using 2 by (intro doc_text_new) simp
  have "copy_list (acc @ [CData d]) ds = (acc @ [CData d]) @ ds"
    using 2 e by (cases ds; cases "hd ds") auto
  then show ?case using e by simp
next
  case (3 acc nm as us ds)
  have "fold (\<lambda>kv. doc_put (fst kv) (snd kv)) as [] = as"
    using fold_doc_put [of "[]" as] 3 by simp
  moreover have "copy_list [] us = us" using 3 by (auto split: list.split xml.split)
  moreover have "copy_list (acc @ [Tag nm as us]) ds = (acc @ [Tag nm as us]) @ ds"
    using 3 calculation by (auto split: list.split xml.split)
  ultimately show ?case by simp
qed simp

lemma copy_doc_canonical: "canonical d \<Longrightarrow> copy_doc d = d"
  using fold_doc_put [of "[]"] by (cases d) (auto simp: copy_list_canonical split: list.split xml.split)


section \<open>Replacing a part of a tree\<close>

lemma links_same_root [simp]:
  "root c' = root c \<Longrightarrow> first_root nxt (us @ c' # vs) = first_root nxt (us @ c # vs)"
  "root c' = root c \<Longrightarrow> last_root prv (us @ c' # vs) = last_root prv (us @ c # vs)"
  by simp_all

lemma distinct_swap:
  "distinct (x # as @ us @ c @ vs) \<Longrightarrow> distinct d \<Longrightarrow>
   set d \<inter> insert x (set as \<union> set us \<union> set vs) = {} \<Longrightarrow> distinct (x # as @ us @ d @ vs)"
  by auto

lemma replace_child:
  assumes r: "rep m p par prv nxt (ATag a cp nm as (us @ c # vs))"
    and c': "rep m' p (Some a) (last_root None us) (first_root None vs) c'" and b: "becomes m c m' c'"
  shows "rep m p (Some a) (last_root None us) (first_root None vs) c"
    "rep m' p par prv nxt (ATag a cp nm as (us @ c' # vs))"
    "becomes m (ATag a cp nm as (us @ c # vs)) m' (ATag a cp nm as (us @ c' # vs))"
proof -
  note f = rep_facts [OF r]
  have root: "root c' = root c" using b by (simp add: becomes_def)
  have d: "distinct (addrs c)" "distinct (concat (map addrs us))" "distinct (concat (map addrs vs))"
    "\<And>t b. t \<in> set us \<union> set vs \<Longrightarrow> b \<in> set (addrs t) \<Longrightarrow> b \<notin> set (addrs c)"
    "\<And>t u b. t \<in> set us \<Longrightarrow> u \<in> set vs \<Longrightarrow> b \<in> set (addrs t) \<Longrightarrow> b \<notin> set (addrs u)"
    using f(12) by auto
  show "rep m p (Some a) (last_root None us) (first_root None vs) c"
    using f(1,8) d(1) by (simp add: rep_def cells_def)
  have same: "xm_nodes m' b = xm_nodes m b" if "b < xm_brk m" "b \<notin> set (addrs c)" for b
    using b that by (simp add: becomes_def)
  have o: "b < xm_brk m \<and> b \<notin> set (addrs c)"
    if "b = a \<or> b \<in> at_addr ` set as \<or> (\<exists>t \<in> set us \<union> set vs. b \<in> set (addrs t))" for b
  proof
    show "b < xm_brk m" using that f(3,9,10) by auto
    show "b \<notin> set (addrs c)"
      using that
    proof (elim disjE)
      assume "\<exists>t \<in> set us \<union> set vs. b \<in> set (addrs t)"
      then show ?thesis using d(4) by blast
    qed (use f(5) [of c] f(9) [of c b] in auto)
  qed
  have "xm_nodes m' a = xm_nodes m a" using same o by blast
  moreover have "holds (xm_nodes m') (attr_cells p None None as)"
    using f(7) by (rule holds_cong) (use same o in auto)
  moreover have "holds (xm_nodes m') (forest p (Some a) None (Some (root c)) us)"
  proof (rule holds_cong)
    show "holds (xm_nodes m) (forest p (Some a) None (Some (root c)) us)" using f(8) by simp
  qed (use same o in auto)
  moreover have "holds (xm_nodes m') (forest p (Some a) (Some (root c)) None vs)"
  proof (rule holds_cong)
    show "holds (xm_nodes m) (forest p (Some a) (Some (root c)) None vs)" using f(8) by simp
  qed (use same o in auto)
  ultimately have h: "holds (xm_nodes m') (cells p par prv nxt (ATag a cp nm as (us @ c' # vs)))"
    using f(2) c' root by (simp add: cells_def rep_def)
  have c'sub: "b \<in> set (addrs c) \<or> xm_brk m \<le> b" if "b \<in> set (addrs c')" for b
    using b that by (auto simp: becomes_def)
  have nc': "b \<notin> set (addrs c')"
    if "b = a \<or> b \<in> at_addr ` set as \<or> (\<exists>t \<in> set us \<union> set vs. b \<in> set (addrs t))" for b
    using o [OF that] c'sub by force
  have "distinct (addrs c')" using c' by (simp add: rep_def)
  have "distinct (addrs (ATag a cp nm as (us @ c # vs)))" using r by (simp add: rep_def)
  have "distinct (addrs (ATag a cp nm as (us @ c' # vs)))"
  proof -
    have "set (addrs c') \<inter> insert a (set (map at_addr as) \<union> set (concat (map addrs us)) \<union> set (concat (map addrs vs))) = {}"
      using nc' by (auto simp: disjoint_iff)
    with \<open>distinct (addrs c')\<close> \<open>distinct (addrs (ATag a cp nm as (us @ c # vs)))\<close> show ?thesis
      using distinct_swap [of a "map at_addr as" "concat (map addrs us)" "addrs c" "concat (map addrs vs)" "addrs c'"]
      by (simp add: addrs_ATag)
  qed
  with h c' show "rep m' p par prv nxt (ATag a cp nm as (us @ c' # vs))" by (simp add: rep_def)
  show "becomes m (ATag a cp nm as (us @ c # vs)) m' (ATag a cp nm as (us @ c' # vs))"
    using b by (auto simp: becomes_def addrs_ATag)
qed

text \<open>Any part of a tree may be replaced in the same way.\<close>

fun subtrees :: "atree \<Rightarrow> atree list" where
  "subtrees (ATag a cp nm as ts) = ATag a cp nm as ts # concat (map subtrees ts)"
| "subtrees (AData a d) = [AData a d]"

fun graft :: "nat \<Rightarrow> atree \<Rightarrow> atree \<Rightarrow> atree" where
  "graft b s (ATag a cp nm as ts) = (if a = b then s else ATag a cp nm as (map (graft b s) ts))"
| "graft b s (AData a d) = (if a = b then s else AData a d)"

lemma graft_root: "graft (root t) s t = s"
  by (cases t) auto

lemma graft_other: "b \<notin> set (addrs t) \<Longrightarrow> graft b s t = t"
  by (induction t) (auto simp: addrs_ATag addrs_def [of "AData x y" for x y] map_idI)

lemma self_subtree [simp]: "t \<in> set (subtrees t)"
  by (cases t) auto

lemma subtree_addrs: "s \<in> set (subtrees t) \<Longrightarrow> root s \<in> set (addrs t)"
  by (induction t) (auto simp: addrs_ATag addrs_def [of "AData x y" for x y])

lemma subtree_context:
  "rep m p par prv nxt t \<Longrightarrow> s \<in> set (subtrees t) \<Longrightarrow>
   \<exists>par' prv' nxt'. rep m p par' prv' nxt' s \<and>
     (\<forall>m' s'. rep m' p par' prv' nxt' s' \<longrightarrow> becomes m s m' s' \<longrightarrow>
        rep m' p par prv nxt (graft (root s) s' t) \<and> becomes m t m' (graft (root s) s' t))"
proof (induction t arbitrary: par prv nxt)
  case (ATag a cp nm as ts)
  show ?case
  proof (cases "s = ATag a cp nm as ts")
    case True
    then show ?thesis using ATag.prems(1) by (auto simp: graft_root)
  next
    case False
    then obtain c where c: "c \<in> set ts" "s \<in> set (subtrees c)" using ATag.prems(2) by auto
    then obtain us vs where ts: "ts = us @ c # vs" by (meson split_list)
    note f = rep_facts [OF ATag.prems(1) [unfolded ts]]
    have rc: "rep m p (Some a) (last_root None us) (first_root None vs) c"
      using f(1,8,12) by (simp add: rep_def cells_def)
    from ATag.IH [OF c(1) rc c(2)] obtain par' prv' nxt' where
      s: "rep m p par' prv' nxt' s" and
      up: "\<And>m' s'. rep m' p par' prv' nxt' s' \<Longrightarrow> becomes m s m' s' \<Longrightarrow>
        rep m' p (Some a) (last_root None us) (first_root None vs) (graft (root s) s' c) \<and>
        becomes m c m' (graft (root s) s' c)"
      by blast
    have "root s \<in> set (addrs c)" using c(2) by (rule subtree_addrs)
    then have "root s \<noteq> a" "\<And>t. t \<in> set us \<union> set vs \<Longrightarrow> root s \<notin> set (addrs t)"
      using f(5,12) by auto
    then have g: "graft (root s) s' (ATag a cp nm as ts) = ATag a cp nm as (us @ graft (root s) s' c # vs)" for s'
      unfolding ts by (auto simp: graft_other map_idI)
    have "rep m' p par prv nxt (graft (root s) s' (ATag a cp nm as ts)) \<and>
        becomes m (ATag a cp nm as ts) m' (graft (root s) s' (ATag a cp nm as ts))"
      if "rep m' p par' prv' nxt' s'" "becomes m s m' s'" for m' s'
      unfolding g unfolding ts
      using replace_child(2,3) [OF ATag.prems(1) [unfolded ts]] up [OF that] by blast
    with s show ?thesis by blast
  qed
next
  case (AData a d)
  then show ?case by (auto simp: graft_root)
qed


section \<open>Copying into a tag\<close>

lemma child_rep:
  assumes r: "rep m p par prv nxt (ATag a cp nm as (us @ c # vs))"
  shows "rep m p (Some a) (last_root None us) (first_root None vs) c"
  using rep_facts(1,8,12) [OF r] by (simp add: rep_def cells_def)

text \<open>The source of a copy: nodes in memory that are no part of the destination.\<close>

definition apart :: "xmem \<Rightarrow> atree \<Rightarrow> (nat \<times> xnode) list \<Rightarrow> bool" where
  "apart m t cs \<longleftrightarrow> holds (xm_nodes m) cs \<and> (\<forall>b \<in> fst ` set cs. b < xm_brk m \<and> b \<notin> set (addrs t))"

lemma apart_becomes: "apart m t cs \<Longrightarrow> becomes m t m' t' \<Longrightarrow> apart m' t' cs"
proof -
  assume a: "apart m t cs" and b: "becomes m t m' t'"
  have "b < xm_brk m' \<and> b \<notin> set (addrs t') \<and> xm_nodes m' b = xm_nodes m b"
    if "b \<in> fst ` set cs" for b
  proof -
    have "b < xm_brk m" "b \<notin> set (addrs t)" using a that by (auto simp: apart_def)
    then show ?thesis using b by (auto simp: becomes_def)
  qed
  then show ?thesis using a holds_cong [of "xm_nodes m" cs "xm_nodes m'"] by (simp add: apart_def)
qed

lemma apart_simps:
  "apart m t (cs @ ds) \<longleftrightarrow> apart m t cs \<and> apart m t ds"
  "apart m t ((b, n) # cs) \<longleftrightarrow>
     xm_nodes m b = Some n \<and> b < xm_brk m \<and> b \<notin> set (addrs t) \<and> apart m t cs"
  by (auto simp: apart_def image_Un)

lemma apart_new:
  "apart m t cs \<Longrightarrow> becomes m t m' t' \<Longrightarrow> set (addrs u) \<subseteq> {xm_brk m..<xm_brk m'} \<Longrightarrow> apart m' u cs"
proof -
  assume a: "apart m t cs" and b: "becomes m t m' t'" and u: "set (addrs u) \<subseteq> {xm_brk m..<xm_brk m'}"
  from apart_becomes [OF a b] have "apart m' t' cs" .
  moreover have "b \<notin> set (addrs u)" if "b \<in> fst ` set cs" for b
    using a u that by (force simp: apart_def)
  ultimately show ?thesis by (auto simp: apart_def)
qed

lemma put_attr_doc:
  "map (\<lambda>x. (at_name x, at_value x)) (put_attr r k v as) = doc_put k v (map (\<lambda>x. (at_name x, at_value x)) as)"
  by (induction as) auto

lemma add_text_doc: "map document (add_text r s ts) = doc_text s (map document ts)"
proof (cases ts rule: rev_cases)
  case (snoc us l)
  then show ?thesis by (cases l) (auto simp: doc_text_def)
qed (simp add: doc_text_def)

lemma insert_node_None [simp]: "xmlnode_insert_node m d None = Some m"
  by (subst xmlnode_insert_node.simps) simp

lemma copy_attrs:
  "rep m p par prv nxt (ATag a cp nm as ts) \<Longrightarrow> apart m (ATag a cp nm as ts) (attr_cells q pr None xs) \<Longrightarrow>
   \<exists>m' as'. xmlnode_insert_node m (Some a) (first_attr xs) = Some m' \<and>
     rep m' p par prv nxt (ATag a cp nm as' ts) \<and>
     becomes m (ATag a cp nm as ts) m' (ATag a cp nm as' ts) \<and>
     map (\<lambda>x. (at_name x, at_value x)) as' = fold (\<lambda>kv. doc_put (fst kv) (snd kv))
       (map (\<lambda>x. (at_name x, at_value x)) xs) (map (\<lambda>x. (at_name x, at_value x)) as)"
proof (induction xs arbitrary: m as pr)
  case Nil
  then show ?case by auto
next
  case (Cons x xs)
  let ?k = "at_name x" and ?v = "at_value x"
  have n: "(if xs = [] then None else first_attr xs) = first_attr xs" by simp
  from put_attrib_rep [OF Cons.prems(1) refl, of ?k ?v] obtain m1 where m1:
    "xmlnode_put_attrib m (Some a) (Some ?k) (Some ?v) = Some m1"
    "rep m1 p par prv nxt (ATag a cp nm (put_attr (xm_brk m) ?k ?v as) ts)"
    "becomes m (ATag a cp nm as ts) m1 (ATag a cp nm (put_attr (xm_brk m) ?k ?v as) ts)" by blast
  have ap: "apart m1 (ATag a cp nm (put_attr (xm_brk m) ?k ?v as) ts) (attr_cells q pr None (x # xs))"
    using apart_becomes [OF Cons.prems(2) m1(3)] .
  from Cons.IH [OF m1(2), of "Some (at_addr x)"] ap obtain m' as' where m':
    "xmlnode_insert_node m1 (Some a) (first_attr xs) = Some m'"
    "rep m' p par prv nxt (ATag a cp nm as' ts)"
    "becomes m1 (ATag a cp nm (put_attr (xm_brk m) ?k ?v as) ts) m' (ATag a cp nm as' ts)"
    "map (\<lambda>x. (at_name x, at_value x)) as' = fold (\<lambda>kv. doc_put (fst kv) (snd kv))
       (map (\<lambda>x. (at_name x, at_value x)) xs)
       (map (\<lambda>x. (at_name x, at_value x)) (put_attr (xm_brk m) ?k ?v as))"
    by (auto simp: apart_simps)
  have "xmlnode_insert_node m (Some a) (first_attr (x # xs)) = Some m'"
    using Cons.prems(2) ap m1(1) m'(1) n
    by (subst xmlnode_insert_node.simps)
      (auto simp: apart_simps attr_node_def xmlnode_get_data_def)
  then show ?case using m'(2,4) becomes_trans [OF m1(3) m'(3)] by (auto simp: put_attr_doc)
qed

lemma copy_forest:
  "rep m p par prv nxt (ATag a cp nm as ts) \<Longrightarrow>
   apart m (ATag a cp nm as ts) (forest q qar pr None src) \<Longrightarrow>
   \<exists>m' ts'. xmlnode_insert_node m (Some a) (first_root None src) = Some m' \<and>
     rep m' p par prv nxt (ATag a cp nm as ts') \<and>
     becomes m (ATag a cp nm as ts) m' (ATag a cp nm as ts') \<and>
     map document ts' = copy_list (map document ts) (map document src)"
proof (induction "size_list size src" arbitrary: m p par prv nxt a cp nm as ts q qar pr src rule: less_induct)
  case less
  show ?case
  proof (cases src)
    case Nil
    then show ?thesis using less.prems(1) by auto
  next
    case src: (Cons t src')
    have sz: "size_list size src' < size_list size src" using src by simp
    have rest: "apart m (ATag a cp nm as ts) (forest q qar (Some (root t)) None src')"
      "apart m (ATag a cp nm as ts) (inner q t)"
      "xm_nodes m (root t) = Some (root_node q qar pr (first_root None src') t)"
      "apart m (ATag a cp nm as ts) [(root t, root_node q qar pr (first_root None src') t)]"
      using less.prems(2) unfolding src by (auto simp: apart_simps) (auto simp: apart_def)
    show ?thesis
    proof (cases t)
      case t: (AData b d)
      let ?T = "ATag a cp nm as (add_text (xm_brk m) d ts)"
      from insert_cdata_rep [OF less.prems(1), of "int (length d)" "length d" d, OF _ refl] obtain m1 c where m1:
        "xmlnode_insert_cdata m (Some a) (Some d) (int (length d)) = Some (m1, Some c)"
        "rep m1 p par prv nxt ?T" "becomes m (ATag a cp nm as ts) m1 ?T" by auto
      from less.hyps [OF sz m1(2) apart_becomes [OF rest(1) m1(3)]] obtain m' ts' where m':
        "xmlnode_insert_node m1 (Some a) (first_root None src') = Some m'"
        "rep m' p par prv nxt (ATag a cp nm as ts')" "becomes m1 ?T m' (ATag a cp nm as ts')"
        "map document ts' = copy_list (map document (add_text (xm_brk m) d ts)) (map document src')" by blast
      have b1: "xm_nodes m1 b = Some (root_node q qar pr (first_root None src') t)"
        using apart_becomes [OF rest(4) m1(3)] t by (simp add: apart_simps)
      have "xmlnode_insert_node m (Some a) (first_root None src) = Some m'"
        using rest(3) b1 m1(1) m'(1) unfolding src t
        by (subst xmlnode_insert_node.simps) (simp add: xmlnode_get_data_def)
      then show ?thesis using m'(2,4) becomes_trans [OF m1(3) m'(3)]
        unfolding src t by (auto simp: add_text_doc)
    next
      case t: (ATag b cpb nmb asb tsb)
      let ?c = "xm_brk m"
      let ?E = "ATag ?c 0 nmb [] []" and ?T = "ATag a cp nm as ts"
      from insert_tag_rep [OF less.prems(1) refl, of nmb] obtain m1 where m1:
        "xmlnode_insert_tag m (Some a) (Some nmb) = Some (m1, Some ?c)"
        "rep m1 p par prv nxt (ATag a cp nm as (ts @ [?E]))"
        "becomes m ?T m1 (ATag a cp nm as (ts @ [?E]))" by blast
      have c0: "rep m1 p (Some a) (last_root None ts) None ?E" using child_rep [OF m1(2)] by simp
      have "set (addrs ?E) \<subseteq> {xm_brk m..<xm_brk m1}"
        using rep_less [OF c0, of ?c] by (simp add: addrs_ATag)
      note new = apart_new [OF _ m1(3) this]
      have at: "apart m1 ?E (attr_cells q None None asb)" "apart m1 ?E (forest q (Some b) None None tsb)"
        using new [OF rest(2)] unfolding t by (simp_all add: apart_simps)
      have bt: "apart m1 ?E [(b, root_node q qar pr (first_root None src') t)]"
        using new [OF rest(4)] t by simp
      from copy_attrs [OF c0 at(1)] obtain m2 as2 where m2:
        "xmlnode_insert_node m1 (Some ?c) (first_attr asb) = Some m2"
        "rep m2 p (Some a) (last_root None ts) None (ATag ?c 0 nmb as2 [])"
        "becomes m1 ?E m2 (ATag ?c 0 nmb as2 [])"
        "map (\<lambda>x. (at_name x, at_value x)) as2 = fold (\<lambda>kv. doc_put (fst kv) (snd kv))
          (map (\<lambda>x. (at_name x, at_value x)) asb) []" by auto
      have "size_list size tsb < size_list size src" using src t by simp
      from less.hyps [OF this m2(2) apart_becomes [OF at(2) m2(3)]] obtain m3 ts3 where m3:
        "xmlnode_insert_node m2 (Some ?c) (first_root None tsb) = Some m3"
        "rep m3 p (Some a) (last_root None ts) None (ATag ?c 0 nmb as2 ts3)"
        "becomes m2 (ATag ?c 0 nmb as2 []) m3 (ATag ?c 0 nmb as2 ts3)"
        "map document ts3 = copy_list [] (map document tsb)" by auto
      let ?C = "ATag ?c 0 nmb as2 ts3"
      have "becomes m1 ?E m3 ?C" using m2(3) m3(3) by (rule becomes_trans)
      from replace_child(2,3) [OF m1(2) _ this] m3(2)
      have T3: "rep m3 p par prv nxt (ATag a cp nm as (ts @ [?C]))"
        "becomes m1 (ATag a cp nm as (ts @ [?E])) m3 (ATag a cp nm as (ts @ [?C]))" by simp_all
      have b3: "becomes m ?T m3 (ATag a cp nm as (ts @ [?C]))" using m1(3) T3(2) by (rule becomes_trans)
      from less.hyps [OF sz T3(1) apart_becomes [OF rest(1) b3]] obtain m' ts' where m':
        "xmlnode_insert_node m3 (Some a) (first_root None src') = Some m'"
        "rep m' p par prv nxt (ATag a cp nm as ts')"
        "becomes m3 (ATag a cp nm as (ts @ [?C])) m' (ATag a cp nm as ts')"
        "map document ts' = copy_list (map document (ts @ [?C])) (map document src')" by blast
      have nb: "xm_nodes m1 b = Some (root_node q qar pr (first_root None src') t)"
        "xm_nodes m2 b = Some (root_node q qar pr (first_root None src') t)"
        "xm_nodes m3 b = Some (root_node q qar pr (first_root None src') t)"
        using bt apart_becomes [OF bt m2(3)] apart_becomes [OF apart_becomes [OF bt m2(3)] m3(3)]
        by (simp_all add: apart_simps)
      have "xmlnode_insert_node m (Some a) (first_root None src) = Some m'"
        using rest(3) nb m1(1) m2(1) m3(1) m'(1) unfolding src t
        by (subst xmlnode_insert_node.simps)
          (auto simp: get_defs xmlnode_has_attribs_def xmlnode_get_firstattrib_def split: if_splits)
      then show ?thesis using m'(2,4) becomes_trans [OF b3 m'(3)] m2(4) m3(4)
        unfolding src t by auto
    qed
  qed
qed


section \<open>Duplicates\<close>

lemma new_tag_rep:
  assumes m: "mem_ok m" and q: "q = (case pl of None \<Rightarrow> xm_pools m | Some q \<Rightarrow> q)"
    and ok: "pl = None \<or> q < xm_pools m" and m': "m' = fst (i_xmlnode_new m pl (Some nm) NTYPE_TAG)"
  shows "i_xmlnode_new m pl (Some nm) NTYPE_TAG = (m', Some (xm_brk m))"
    "rep m' q None None None (ATag (xm_brk m) 0 nm [] [])"
    "xm_brk m' = xm_brk m + 1" "xm_pools m \<le> xm_pools m'"
    "b < xm_brk m \<Longrightarrow> xm_nodes m' b = xm_nodes m b"
  using m ok unfolding m' q
  by (auto simp: i_xmlnode_new_def Let_def rep_def cells_def addrs_ATag blank_node_def mem_ok_def less_Suc_eq
      split: option.split)

lemma copy_contents_rep:
  assumes r: "rep m p par prv nxt (ATag c 0 nm [] [])"
    and src: "apart m (ATag c 0 nm [] []) (cells q sp sv sn (ATag a cp nm' as ts))"
  shows "\<exists>m' t'. copy_contents m (Some c) (Some a) = Some m' \<and> rep m' p par prv nxt t' \<and> root t' = c \<and>
    becomes m (ATag c 0 nm [] []) m' t' \<and>
    document t' = Tag nm (fold (\<lambda>kv. doc_put (fst kv) (snd kv)) (map (\<lambda>x. (at_name x, at_value x)) as) [])
      (copy_list [] (map document ts))"
proof -
  let ?E = "ATag c 0 nm [] []"
  have at: "apart m ?E (attr_cells q None None as)" "apart m ?E (forest q (Some a) None None ts)"
    "apart m ?E [(a, root_node q sp sv sn (ATag a cp nm' as ts))]"
    using src unfolding cells_def inner.simps by (simp_all add: apart_simps) (simp add: apart_def)
  from copy_attrs [OF r at(1)] obtain m2 as2 where m2:
    "xmlnode_insert_node m (Some c) (first_attr as) = Some m2" "rep m2 p par prv nxt (ATag c 0 nm as2 [])"
    "becomes m ?E m2 (ATag c 0 nm as2 [])"
    "map (\<lambda>x. (at_name x, at_value x)) as2 = fold (\<lambda>kv. doc_put (fst kv) (snd kv))
      (map (\<lambda>x. (at_name x, at_value x)) as) []" by auto
  from copy_forest [OF m2(2) apart_becomes [OF at(2) m2(3)]] obtain m3 ts3 where m3:
    "xmlnode_insert_node m2 (Some c) (first_root None ts) = Some m3" "rep m3 p par prv nxt (ATag c 0 nm as2 ts3)"
    "becomes m2 (ATag c 0 nm as2 []) m3 (ATag c 0 nm as2 ts3)"
    "map document ts3 = copy_list [] (map document ts)" by auto
  have "copy_contents m (Some c) (Some a) = Some m3"
    using at(3) apart_becomes [OF at(3) m2(3)] m2(1) m3(1)
    by (auto simp: copy_contents_def apart_simps get_defs xmlnode_has_attribs_def
        xmlnode_get_firstattrib_def split: if_splits)
  then show ?thesis using m2(4) m3(2,4) becomes_trans [OF m2(3) m3(3)] by auto
qed

lemma dup_pool_rep:
  assumes r: "rep m p par prv nxt (ATag a cp nm as ts)"
    and q: "q = (case pl of None \<Rightarrow> xm_pools m | Some q \<Rightarrow> q)" and ok: "pl = None \<or> q < xm_pools m"
  shows "\<exists>m' t'. xmlnode_dup_pool m pl (Some a) = Some (m', Some (root t')) \<and>
    rep m' q None None None t' \<and> document t' = copy_doc (document (ATag a cp nm as ts)) \<and>
    rep m' p par prv nxt (ATag a cp nm as ts) \<and> set (addrs t') \<inter> set (addrs (ATag a cp nm as ts)) = {}"
proof -
  define m1 where "m1 = fst (i_xmlnode_new m pl (Some nm) NTYPE_TAG)"
  note f = rep_facts [OF r]
  note n = new_tag_rep [OF f(1) q ok m1_def]
  let ?E = "ATag (xm_brk m) 0 nm [] []" and ?T = "ATag a cp nm as ts"
  have ap: "apart m1 ?E (cells p par prv nxt ?T)"
  proof -
    have "b < xm_brk m1 \<and> b \<notin> set (addrs ?E) \<and> xm_nodes m1 b = xm_nodes m b"
      if "b \<in> fst ` set (cells p par prv nxt ?T)" for b
      using rep_less [OF r, of b] that n(3,5) by (simp add: addrs_ATag [of "xm_brk m"])
    moreover have "holds (xm_nodes m) (cells p par prv nxt ?T)" using r by (simp add: rep_def)
    ultimately show ?thesis unfolding apart_def using holds_cong by blast
  qed
  from copy_contents_rep [OF n(2) ap] obtain m' t' where c:
    "copy_contents m1 (Some (xm_brk m)) (Some a) = Some m'" "rep m' q None None None t'" "root t' = xm_brk m"
    "becomes m1 ?E m' t'" "document t' = copy_doc (document ?T)" by auto
  have "xmlnode_dup_pool m pl (Some a) = Some (m', Some (root t'))"
    using f(2) n(1) c(1,3) by (simp add: xmlnode_dup_pool_def xmlnode_new_tag_pool_def xmlnode_get_name_def)
  moreover have "apart m' t' (cells p par prv nxt ?T)" using apart_becomes [OF ap c(4)] .
  then have "holds (xm_nodes m') (cells p par prv nxt ?T)" "set (addrs t') \<inter> set (addrs ?T) = {}"
    by (auto simp: apart_def)
  ultimately show ?thesis using c r by (intro exI [of _ m'] exI [of _ t']) (auto simp: rep_def)
qed

section \<open>Freeing\<close>

lemma attr_pool: "(b, n) \<in> set (attr_cells p pr nx xs) \<Longrightarrow> xn_pool n = p"
  by (induction xs arbitrary: pr) auto

lemma pools_of:
  "\<forall>(b, n) \<in> set (inner p t). xn_pool n = p"
  "\<forall>(b, n) \<in> set (forest p par prv nxt ts). xn_pool n = p"
  by (induction p t and p par prv nxt ts rule: inner_forest.induct) (auto dest: attr_pool)

lemma cells_pool: "(b, n) \<in> set (cells p par prv nxt t) \<Longrightarrow> xn_pool n = p"
  using pools_of(1) [of p t] by (auto simp: cells_def)

lemma free_rep:
  assumes t: "rep m p par prv nxt t" and u: "rep m q par' prv' nxt' u" and pq: "p \<noteq> q"
  shows "\<exists>m'. xmlnode_free m (Some (root t)) = Some m' \<and> rep m' q par' prv' nxt' u \<and>
    (\<forall>b \<in> set (addrs t). xm_nodes m' b = None)"
proof -
  let ?m = "pool_free_nodes m p"
  have "xm_nodes ?m b = Some n" if "(b, n) \<in> set (cells q par' prv' nxt' u)" for b n
  proof -
    have "xm_nodes m b = Some n" using u that by (auto simp: rep_def holds_def)
    moreover have "xn_pool n = q" using that by (rule cells_pool)
    ultimately show ?thesis using pq by (simp add: pool_free_nodes_def)
  qed
  then have "holds (xm_nodes ?m) (cells q par' prv' nxt' u)" by (auto simp: holds_def)
  moreover have "mem_ok ?m" using t by (auto simp: rep_def mem_ok_def pool_free_nodes_def split: option.splits if_splits)
  moreover have "xm_nodes ?m b = None" if "b \<in> set (addrs t)" for b
  proof -
    from that have "b \<in> fst ` set (cells p par prv nxt t)" by simp
    then obtain x where "x \<in> set (cells p par prv nxt t)" "b = fst x" by (rule imageE)
    then have n: "(b, snd x) \<in> set (cells p par prv nxt t)" by simp
    then have "xm_nodes m b = Some (snd x)" "xn_pool (snd x) = p" using t cells_pool [OF n] by (auto simp: rep_def holds_def)
    then show ?thesis by (simp add: pool_free_nodes_def)
  qed
  ultimately show ?thesis using rep_root [OF t] u
    by (auto simp: xmlnode_free_def rep_def)
qed


section \<open>Unlinking and wrapping\<close>

lemma xmem_eqI:
  "xm_nodes m = xm_nodes m' \<Longrightarrow> xm_brk m = xm_brk m' \<Longrightarrow> xm_pools m = xm_pools m' \<Longrightarrow> m = (m'::xmem)"
  by (cases m; cases m') simp

lemma forest_ends:
  assumes "holds f (forest p par None None (us @ c # vs))"
  shows "f (root c) = Some (root_node p par (last_root None us) (first_root None vs) c)"
    "us \<noteq> [] \<Longrightarrow> f (root (last us)) = Some (root_node p par (last_root None (butlast us)) (Some (root c)) (last us))"
    "vs \<noteq> [] \<Longrightarrow> f (root (hd vs)) = Some (root_node p par (Some (root c)) (first_root None (tl vs)) (hd vs))"
  using assms by (cases us rule: rev_cases; cases vs; auto)+

lemma hide_rep:
  assumes r: "rep m p par prv nxt (ATag a cp nm as (us @ c # vs))"
  shows "\<exists>m'. xmlnode_hide m (Some (root c)) = Some m' \<and> rep m' p par prv nxt (ATag a cp nm as (us @ vs)) \<and>
    xm_brk m' = xm_brk m \<and> becomes m (ATag a cp nm as (us @ c # vs)) m' (ATag a cp nm as (us @ vs))"
proof -
  note f = rep_facts [OF r]
  note e = forest_ends [OF f(8)]
  have d: "distinct (addrs (ATag a cp nm as (us @ vs)))" using r by (auto simp: rep_def addrs_ATag)
  have ca: "root c \<noteq> a" "a \<noteq> root c" using f(5) [of c] by auto
  let ?f1 = "if us = [] then xm_nodes m else (xm_nodes m)(root (last us) \<mapsto>
    root_node p (Some a) (last_root None (butlast us)) (first_root None vs) (last us))"
  let ?f2 = "if vs = [] then ?f1 else ?f1(root (hd vs) \<mapsto>
    root_node p (Some a) (last_root None us) (first_root None (tl vs)) (hd vs))"
  let ?m = "m\<lparr>xm_nodes := ?f2(a \<mapsto> root_node p par prv nxt (ATag a cp nm as (us @ vs)))\<rparr>"
  have l: "root (last us) \<noteq> a \<and> root (last us) \<noteq> root c \<and> root (last us) \<notin> at_addr ` set as \<and>
      root (last us) \<notin> set (below (last us)) \<and> (\<forall>t \<in> set (butlast us) \<union> set vs. root (last us) \<notin> set (addrs t))"
    if "us \<noteq> []"
  proof (cases us rule: rev_cases)
    case (snoc us' u)
    then show ?thesis using f(5) [of u] f(9) [of u "root u"] f(12) by (auto simp: addrs_def)
  qed (use that in simp)
  have h: "root (hd vs) \<noteq> a \<and> root (hd vs) \<noteq> root c \<and> root (hd vs) \<notin> at_addr ` set as \<and>
      root (hd vs) \<notin> set (below (hd vs)) \<and> (\<forall>t \<in> set us \<union> set (tl vs). root (hd vs) \<notin> set (addrs t))"
    if "vs \<noteq> []"
  proof (cases vs)
    case (Cons u vs')
    then show ?thesis using f(5) [of u] f(9) [of u "root u"] f(12) by (auto simp: addrs_def)
  qed (use that in simp)
  have ends: "us \<noteq> [] \<Longrightarrow> last_root pr us = Some (root (last us))"
    "us \<noteq> [] \<Longrightarrow> first_root pr us = Some (root (hd us))"
    "vs \<noteq> [] \<Longrightarrow> first_root pr vs = Some (root (hd vs))"
    "vs \<noteq> [] \<Longrightarrow> last_root pr vs = Some (root (last vs))" for pr
    by (auto simp: last_root_def first_root_def split: list.splits)
  have other: "root t \<noteq> root c" if "t \<in> set us \<union> set vs" for t
    using f(12) that by (auto simp: addrs_def)
  have ne: "us \<noteq> [] \<Longrightarrow> root (hd us) \<noteq> root c" "vs \<noteq> [] \<Longrightarrow> root (last vs) \<noteq> root c"
    using other by simp_all
  have lh: "us \<noteq> [] \<Longrightarrow> vs \<noteq> [] \<Longrightarrow> root (last us) \<noteq> root (hd vs)"
    using l by (metis Un_iff hd_in_set root_in_addrs)
  have "xmlnode_hide m (Some (root c)) = Some ?m"
    using f(2) e ca l h ends lh ne
    by (cases "us = []"; cases "vs = []")
      (auto simp: xmlnode_hide_def i_xmlnode_hide_sibling_def store_Some Let_def fun_upd_def fun_eq_iff
        intro!: xmem_eqI)
  moreover have "holds (xm_nodes ?m) (cells p par prv nxt (ATag a cp nm as (us @ vs)))"
  proof -
    have 1: "holds (xm_nodes ?m) (attr_cells p None None as)"
      using f(4,7) l h by (cases "us = []"; cases "vs = []") auto
    have 2: "holds (xm_nodes ?m) (forest p (Some a) None (first_root None vs) us)"
    proof (cases us rule: rev_cases)
      case (snoc us' u)
      have "holds (xm_nodes m) (forest p (Some a) None (Some (root u)) us')" "holds (xm_nodes m) (inner p u)"
        using f(8) unfolding snoc by auto
      moreover have "a \<notin> set (below u)" "\<And>t. t \<in> set us' \<Longrightarrow> a \<notin> set (addrs t)"
        using f(5) unfolding snoc by (auto simp: addrs_def)
      ultimately show ?thesis using l h lh unfolding snoc
        by (cases "vs = []") (auto simp: addrs_def)
    qed simp
    have 3: "holds (xm_nodes ?m) (forest p (Some a) (last_root None us) None vs)"
    proof (cases vs)
      case (Cons v vs')
      have "holds (xm_nodes m) (forest p (Some a) (Some (root v)) None vs')" "holds (xm_nodes m) (inner p v)"
        using f(8) unfolding Cons by auto
      moreover have "a \<notin> set (below v)" "\<And>t. t \<in> set vs' \<Longrightarrow> a \<notin> set (addrs t)"
        using f(5) unfolding Cons by (auto simp: addrs_def)
      ultimately show ?thesis using l h lh unfolding Cons
        by (cases "us = []") (auto simp: addrs_def)
    qed simp
    show ?thesis using 1 2 3 by (simp add: cells_def)
  qed
  moreover have "mem_ok ?m"
  proof -
    have "us \<noteq> [] \<Longrightarrow> root (last us) < xm_brk m" "vs \<noteq> [] \<Longrightarrow> root (hd vs) < xm_brk m"
      using f(9) [of "last us" "root (last us)"] f(9) [of "hd vs" "root (hd vs)"] by auto
    then show ?thesis using f(1,3,6) by (auto simp: mem_ok_def split: if_splits)
  qed
  moreover have "becomes m (ATag a cp nm as (us @ c # vs)) ?m (ATag a cp nm as (us @ vs))"
  proof -
    have "us \<noteq> [] \<Longrightarrow> \<exists>t \<in> set us. root (last us) \<in> set (addrs t)"
      "vs \<noteq> [] \<Longrightarrow> \<exists>t \<in> set vs. root (hd vs) \<in> set (addrs t)"
      by (auto intro: bexI [of _ "last us"] bexI [of _ "hd vs"])
    then show ?thesis by (auto simp: becomes_def addrs_ATag)
  qed
  ultimately show ?thesis using d by (intro exI [of _ ?m]) (simp add: rep_def)
qed


lemma wrap_rep:
  assumes r: "rep m p par None None x"
  shows "\<exists>m'. xmlnode_wrap m (Some (root x)) (Some w) = Some (m', Some (xm_brk m)) \<and>
    rep m' p None None None (ATag (xm_brk m) 0 w [] [x])"
proof -
  have x: "root x < xm_brk m" "\<And>b. b \<in> set (addrs x) \<Longrightarrow> b < xm_brk m" using rep_less [OF r] by simp_all
  have n: "xm_brk m \<noteq> root x" "root x \<noteq> xm_brk m" "xm_brk m \<notin> set (addrs x)"
    using x(1) by simp_all (use x(2) in blast)
  note k = rep_root [OF r]
  have p: "p < xm_pools m"
  proof -
    have "xn_pool (root_node p par None None x) < xm_pools m" using r k unfolding rep_def mem_ok_def by blast
    then show ?thesis by simp
  qed
  let ?T = "ATag (xm_brk m) 0 w [] [x]"
  let ?m = "m\<lparr>xm_nodes := (xm_nodes m)(xm_brk m \<mapsto> root_node p None None None ?T,
    root x \<mapsto> root_node p (Some (xm_brk m)) None None x), xm_brk := xm_brk m + 1\<rparr>"
  have "xmlnode_wrap m (Some (root x)) (Some w) = Some (?m, Some (xm_brk m))"
    using k n by (auto simp: xmlnode_wrap_def xmlnode_new_tag_pool_def i_xmlnode_new_def Let_def
        xmlnode_pool_def store_Some blank_node_def fun_upd_def fun_eq_iff intro!: xmem_eqI)
  moreover have "holds (xm_nodes m) (inner p x)" "root x \<notin> set (below x)" "distinct (addrs x)"
    using r by (auto simp: rep_def cells_def addrs_def)
  then have "holds (xm_nodes ?m) (cells p None None None ?T)" "distinct (addrs ?T)"
    using n by (auto simp: cells_def addrs_ATag) (auto simp: addrs_def)
  moreover have "mem_ok ?m" using r x(1) p by (auto simp: rep_def mem_ok_def less_Suc_eq)
  ultimately show ?thesis by (auto simp: rep_def)
qed

lemma attr_ends:
  assumes "holds f (attr_cells p None None (us @ c # vs))"
  shows "f (at_addr c) = Some (attr_node p (last_attr None us) (first_attr vs) c)"
    "us \<noteq> [] \<Longrightarrow> f (at_addr (last us)) = Some (attr_node p (last_attr None (butlast us)) (Some (at_addr c)) (last us))"
    "vs \<noteq> [] \<Longrightarrow> f (at_addr (hd vs)) = Some (attr_node p (Some (at_addr c)) (first_attr (tl vs)) (hd vs))"
  using assms by (cases us rule: rev_cases; cases vs; auto)+

lemma hide_attrib_rep:
  assumes r: "rep m p par prv nxt (ATag a cp nm (us @ c # vs) ts)" and c: "find_attr k (us @ c # vs) = Some c"
  shows "\<exists>m'. xmlnode_hide_attrib m (Some a) (Some k) = Some m' \<and> rep m' p par prv nxt (ATag a cp nm (us @ vs) ts) \<and>
    xm_brk m' = xm_brk m \<and> becomes m (ATag a cp nm (us @ c # vs) ts) m' (ATag a cp nm (us @ vs) ts)"
proof -
  note f = rep_facts [OF r]
  note e = attr_ends [OF f(7)]
  have d: "distinct (addrs (ATag a cp nm (us @ vs) ts))" using r by (auto simp: rep_def addrs_ATag)
  have ca: "at_addr c \<noteq> a" "a \<noteq> at_addr c" using f(4) by auto
  let ?f1 = "if us = [] then xm_nodes m else (xm_nodes m)(at_addr (last us) \<mapsto>
    attr_node p (last_attr None (butlast us)) (first_attr vs) (last us))"
  let ?f2 = "if vs = [] then ?f1 else ?f1(at_addr (hd vs) \<mapsto>
    attr_node p (last_attr None us) (first_attr (tl vs)) (hd vs))"
  let ?m = "m\<lparr>xm_nodes := ?f2(a \<mapsto> root_node p par prv nxt (ATag a cp nm (us @ vs) ts))\<rparr>"
  have mem: "us \<noteq> [] \<Longrightarrow> at_addr (last us) \<in> at_addr ` set us" "vs \<noteq> [] \<Longrightarrow> at_addr (hd vs) \<in> at_addr ` set vs"
    by simp_all
  have l: "at_addr (last us) \<noteq> a \<and> at_addr (last us) \<noteq> at_addr c \<and> at_addr (last us) < xm_brk m \<and>
      at_addr (last us) \<notin> at_addr ` set (butlast us) \<and> at_addr (last us) \<notin> at_addr ` set vs \<and>
      (\<forall>t \<in> set ts. at_addr (last us) \<notin> set (addrs t))"
    if "us \<noteq> []"
  proof (cases us rule: rev_cases)
    case (snoc us' u)
    then show ?thesis using f(4,9,11) f(10) [of "at_addr u"] by (auto simp: image_iff)
  qed (use that in simp)
  have h: "at_addr (hd vs) \<noteq> a \<and> at_addr (hd vs) \<noteq> at_addr c \<and> at_addr (hd vs) < xm_brk m \<and>
      at_addr (hd vs) \<notin> at_addr ` set us \<and> at_addr (hd vs) \<notin> at_addr ` set (tl vs) \<and>
      (\<forall>t \<in> set ts. at_addr (hd vs) \<notin> set (addrs t))"
    if "vs \<noteq> []"
  proof (cases vs)
    case (Cons u vs')
    then show ?thesis using f(4,9,11) f(10) [of "at_addr u"] by (auto simp: image_iff)
  qed (use that in simp)
  have ends: "us \<noteq> [] \<Longrightarrow> last_attr pr us = Some (at_addr (last us))"
    "us \<noteq> [] \<Longrightarrow> first_attr us = Some (at_addr (hd us))"
    "vs \<noteq> [] \<Longrightarrow> first_attr vs = Some (at_addr (hd vs))"
    "vs \<noteq> [] \<Longrightarrow> last_attr pr vs = Some (at_addr (last vs))" for pr
    by (auto simp: last_attr_def first_attr_def split: list.splits)
  have ne: "us \<noteq> [] \<Longrightarrow> at_addr (hd us) \<noteq> at_addr c" "vs \<noteq> [] \<Longrightarrow> at_addr (last vs) \<noteq> at_addr c"
  proof -
    have "at_addr x \<noteq> at_addr c" if "x \<in> set us \<union> set vs" for x using f(11) that by auto (metis image_eqI)+
    then show "us \<noteq> [] \<Longrightarrow> at_addr (hd us) \<noteq> at_addr c" "vs \<noteq> [] \<Longrightarrow> at_addr (last vs) \<noteq> at_addr c" by simp_all
  qed
  have lh: "us \<noteq> [] \<Longrightarrow> vs \<noteq> [] \<Longrightarrow> at_addr (last us) \<noteq> at_addr (hd vs)"
    using l mem by metis
  have s: "i_xmlnode_search m (first_attr (us @ c # vs)) (Some k) NTYPE_ATTRIB = Some (Some (at_addr c))"
    using search_attr [OF f(7), of k] c by simp
  have an: "xn_next (attr_node p x y z) = y" "xn_prev (attr_node p x y z) = x"
    "(attr_node p x y z)\<lparr>xn_prev := y'\<rparr> = attr_node p y' y z" for x y z y'
    by (simp_all add: attr_node_def)
  have "xmlnode_hide_attrib m (Some a) (Some k) = Some ?m"
    using f(2) e ca l h ends lh ne s
    by (cases "us = []"; cases "vs = []")
      (auto simp: xmlnode_hide_attrib_def i_xmlnode_hide_sibling_def store_Some Let_def fun_upd_def
        fun_eq_iff an intro!: xmem_eqI)
  moreover have "holds (xm_nodes ?m) (cells p par prv nxt (ATag a cp nm (us @ vs) ts))"
  proof -
    have "holds (xm_nodes ?m) (forest p (Some a) None None ts)"
      using f(5,8) l h by (cases "us = []"; cases "vs = []") auto
    moreover have "holds (xm_nodes ?m) (attr_cells p None (first_attr vs) us)"
    proof (cases us rule: rev_cases)
      case (snoc us' u)
      have "holds (xm_nodes m) (attr_cells p None (Some (at_addr u)) us')" using f(7) unfolding snoc by auto
      then show ?thesis using l h lh f(4) unfolding snoc
        by (cases "vs = []") (auto simp: image_Un)
    qed simp
    moreover have "holds (xm_nodes ?m) (attr_cells p (last_attr None us) None vs)"
    proof (cases vs)
      case (Cons v vs')
      have "holds (xm_nodes m) (attr_cells p (Some (at_addr v)) None vs')" using f(7) unfolding Cons by auto
      then show ?thesis using l h lh f(4) unfolding Cons
        by (cases "us = []") (auto simp: image_Un)
    qed simp
    ultimately show ?thesis by (cases "vs = []") (simp_all add: cells_def)
  qed
  moreover have "mem_ok ?m" using f(1,3,6) l h by (auto simp: mem_ok_def split: if_splits)
  moreover have "becomes m (ATag a cp nm (us @ c # vs) ts) ?m (ATag a cp nm (us @ vs) ts)"
    using mem by (auto simp: becomes_def addrs_ATag)
  ultimately show ?thesis using d by (intro exI [of _ ?m]) (simp add: rep_def)
qed

end
