(* ===== verification/XmlDoc.thy ===== *)
theory XmlDoc
  imports XmlCopy
begin

text \<open>
  The properties of the document tree: what the operations of \<open>xmlnode.c\<close> do to a node anywhere
  in a document, and the contract under which attributes are used as a map.
\<close>

section \<open>Memories that hold a given tree\<close>

lemma map_fst_attrs [simp]: "map fst (attr_cells p pr nx xs) = map at_addr xs"
  by (induction xs arbitrary: pr) auto

lemma map_fst_inner:
  "map fst (inner p t) = below t"
  "map fst (forest p par prv nxt ts) = concat (map addrs ts)"
  by (induction p t and p par prv nxt ts rule: inner_forest.induct) (auto simp: addrs_def [abs_def])

definition tree_mem :: "nat \<Rightarrow> nat \<Rightarrow> atree \<Rightarrow> xmem" where
  "tree_mem n p t = \<lparr>xm_nodes = map_of (cells p None None None t), xm_brk = n, xm_pools = Suc p\<rparr>"

lemma holds_map_of: "distinct (map fst cs) \<Longrightarrow> holds (map_of cs) cs"
  by (auto simp: holds_def)

lemma rep_tree_mem:
  "distinct (addrs t) \<Longrightarrow> \<forall>b \<in> set (addrs t). b < n \<Longrightarrow> rep (tree_mem n p t) p None None None t"
proof -
  assume d: "distinct (addrs t)" and l: "\<forall>b \<in> set (addrs t). b < n"
  have m: "map fst (cells p None None None t) = addrs t"
    by (simp add: cells_def map_fst_inner addrs_def)
  have "b < n \<and> xn_pool k < Suc p" if "map_of (cells p None None None t) b = Some k" for b k
  proof -
    from that have in_cells: "(b, k) \<in> set (cells p None None None t)" by (rule map_of_SomeD)
    then have "b \<in> fst ` set (cells p None None None t)" by (rule rev_image_eqI) simp
    then show ?thesis using l cells_pool [OF in_cells] by simp
  qed
  then show ?thesis using d m
    by (simp add: rep_def tree_mem_def mem_ok_def holds_map_of)
qed

definition sample :: atree where
  "sample = ATag 0 0 ''message'' [Attr 1 ''to'' ''ann'' None]
     [ATag 2 0 ''body'' [] [AData 3 ''hi''], ATag 4 0 ''x'' [Attr 5 ''xmlns'' ''jabber:x'' None] []]"

lemma sample_rep: "rep (tree_mem 6 0 sample) 0 None None None sample"
  by (rule rep_tree_mem) (simp_all add: sample_def addrs_ATag addrs_def [of "AData x y" for x y])

section \<open>Attributes as a map\<close>

text \<open>
  The contract between the tree and its clients: a node that may carry attributes keeps them
  under \<open>put\<close>, and \<open>get\<close> reads what was put last.
\<close>

locale attribute_map =
  fixes carries :: "'m \<Rightarrow> 'n \<Rightarrow> bool"
    and put :: "'m \<Rightarrow> 'n \<Rightarrow> string \<Rightarrow> string \<Rightarrow> 'm option"
    and get :: "'m \<Rightarrow> 'n \<Rightarrow> string \<Rightarrow> string option option"
  assumes put_carries: "carries m a \<Longrightarrow> \<exists>m'. put m a k v = Some m' \<and> carries m' a"
    and get_total: "carries m a \<Longrightarrow> \<exists>r. get m a k = Some r"
    and get_put: "carries m a \<Longrightarrow> put m a k v = Some m' \<Longrightarrow>
      get m' a k' = (if k' = k then Some (Some v) else get m a k')"
begin

fun put_all :: "'m \<Rightarrow> 'n \<Rightarrow> (string \<times> string) list \<Rightarrow> 'm option" where
  "put_all m a [] = Some m"
| "put_all m a ((k, v) # kvs) = Option.bind (put m a k v) (\<lambda>m. put_all m a kvs)"

lemma put_all_get:
  "carries m a \<Longrightarrow> \<exists>m'. put_all m a kvs = Some m' \<and> carries m' a \<and>
     (\<forall>k. get m' a k = (case map_of (rev kvs) k of Some v \<Rightarrow> Some (Some v) | None \<Rightarrow> get m a k))"
proof (induction kvs arbitrary: m)
  case (Cons kv kvs)
  obtain k v where kv: "kv = (k, v)" by (cases kv)
  obtain m1 where m1: "put m a k v = Some m1" "carries m1 a"
    using put_carries [OF Cons.prems] by blast
  from Cons.IH [OF m1(2)] obtain m' where m': "put_all m1 a kvs = Some m'" "carries m' a"
    "\<And>k. get m' a k = (case map_of (rev kvs) k of Some v \<Rightarrow> Some (Some v) | None \<Rightarrow> get m1 a k)"
    by blast
  have "get m' a k' = (case map_of (rev (kv # kvs)) k' of Some v \<Rightarrow> Some (Some v) | None \<Rightarrow> get m a k')" for k'
    using get_put [OF Cons.prems m1(1), of k'] m'(3) [of k'] unfolding kv
    by (auto simp: map_add_def split: option.split)
  with m1 m' show ?case unfolding kv by auto
qed simp

lemma put_twice:
  assumes "carries m a" "put m a k v = Some m1" "put m1 a k w = Some m2"
  shows "get m2 a k' = (if k' = k then Some (Some w) else get m a k')"
proof -
  have "carries m1 a" using put_carries [OF assms(1), of k v] assms(2) by auto
  then show ?thesis using get_put [OF _ assms(3)] get_put [OF assms(1,2)] by simp
qed

end

lemma find_put_attr:
  "map_option at_value (find_attr k' (put_attr r k v as)) =
     (if k' = k then Some v else map_option at_value (find_attr k' as))"
  by (induction as) (auto simp: find_attr_def)

definition is_tag_at :: "xmem \<Rightarrow> nat \<Rightarrow> bool" where
  "is_tag_at m a \<longleftrightarrow> (\<exists>p par prv nxt cp nm as ts. rep m p par prv nxt (ATag a cp nm as ts))"

interpretation xml_attrs: attribute_map is_tag_at
  "\<lambda>m a k v. xmlnode_put_attrib m (Some a) (Some k) (Some v)" "\<lambda>m a k. xmlnode_get_attrib m (Some a) (Some k)"
proof unfold_locales
  fix m a k v
  assume "is_tag_at m a"
  then obtain p par prv nxt cp nm as ts where r: "rep m p par prv nxt (ATag a cp nm as ts)"
    unfolding is_tag_at_def by blast
  show "\<exists>m'. xmlnode_put_attrib m (Some a) (Some k) (Some v) = Some m' \<and> is_tag_at m' a"
    using put_attrib_rep [OF r refl, of k v] unfolding is_tag_at_def by blast
  show "\<exists>r. xmlnode_get_attrib m (Some a) (Some k) = Some r" using get_attrib_rep(1) [OF r] by blast
  fix k' m'
  assume "xmlnode_put_attrib m (Some a) (Some k) (Some v) = Some m'"
  then have "rep m' p par prv nxt (ATag a cp nm (put_attr (xm_brk m) k v as) ts)"
    using put_attrib_rep [OF r refl, of k v] by auto
  from get_attrib_rep(1) [OF this] get_attrib_rep(1) [OF r]
  show "xmlnode_get_attrib m' (Some a) (Some k') =
      (if k' = k then Some (Some v) else xmlnode_get_attrib m (Some a) (Some k'))"
    by (simp add: find_put_attr)
qed

section \<open>Properties\<close>

text \<open>
  C27. Editing a tag anywhere in a document: appending a child tag, appending text (which is merged
  into a last child that is text) and setting an attribute change exactly that tag of the
  document, and the memory still represents a well-linked tree.
\<close>

theorem xml_edits_refine:
  assumes r: "rep m p par prv nxt doc" and a: "ATag a cp nm as ts \<in> set (subtrees doc)"
  shows "(\<exists>m'. xmlnode_insert_tag m (Some a) (Some k) = Some (m', Some (xm_brk m)) \<and>
      rep m' p par prv nxt (graft a (ATag a cp nm as (ts @ [ATag (xm_brk m) 0 k [] []])) doc)) \<and>
    (\<exists>m' b. xmlnode_insert_cdata m (Some a) (Some k) (- 1) = Some (m', Some b) \<and>
      rep m' p par prv nxt (graft a (ATag a cp nm as (add_text (xm_brk m) k ts)) doc)) \<and>
    (\<exists>m'. xmlnode_put_attrib m (Some a) (Some k) (Some v) = Some m' \<and>
      rep m' p par prv nxt (graft a (ATag a cp nm (put_attr (xm_brk m) k v as) ts) doc))"
proof -
  from subtree_context [OF r a] obtain par' prv' nxt' where
    s: "rep m p par' prv' nxt' (ATag a cp nm as ts)" and
    up: "\<And>m' s'. rep m' p par' prv' nxt' s' \<Longrightarrow> becomes m (ATag a cp nm as ts) m' s' \<Longrightarrow>
      rep m' p par prv nxt (graft a s' doc)" by auto
  show ?thesis
    using insert_tag_rep [OF s refl, of k] insert_cdata_rep [OF s _ refl, of "- 1" "length k" k]
      put_attrib_rep [OF s refl, of k v] up by auto
qed


theorem xml_edits_refine_witness:
  "\<exists>m'. xmlnode_insert_tag (tree_mem 6 0 sample) (Some 4) (Some ''event'') = Some (m', Some 6) \<and>
     rep m' 0 None None None (ATag 0 0 ''message'' [Attr 1 ''to'' ''ann'' None]
       [ATag 2 0 ''body'' [] [AData 3 ''hi''],
        ATag 4 0 ''x'' [Attr 5 ''xmlns'' ''jabber:x'' None] [ATag 6 0 ''event'' [] []]])"
proof -
  have "ATag 4 0 ''x'' [Attr 5 ''xmlns'' ''jabber:x'' None] [] \<in> set (subtrees sample)"
    by (simp add: sample_def)
  from xml_edits_refine [OF sample_rep this, of "''event''" "''v''"]
  show ?thesis by (simp add: tree_mem_def sample_def)
qed

text \<open>
  C28. \<open>xmlnode_dup\<close> makes, from a fresh pool, a tree that shares no node with the original and
  represents its copy, which for documents built by these functions is the document itself; the
  original stays as it was. Freeing the original then leaves the duplicate whole.
\<close>

theorem xml_dup_independent:
  assumes r: "rep m p par prv nxt (ATag a cp nm as ts)"
  shows "\<exists>m' t' m''. xmlnode_dup m (Some a) = Some (m', Some (root t')) \<and>
    document t' = copy_doc (document (ATag a cp nm as ts)) \<and>
    (canonical (document (ATag a cp nm as ts)) \<longrightarrow> document t' = document (ATag a cp nm as ts)) \<and>
    rep m' (xm_pools m) None None None t' \<and> rep m' p par prv nxt (ATag a cp nm as ts) \<and>
    set (addrs t') \<inter> set (addrs (ATag a cp nm as ts)) = {} \<and>
    xmlnode_free m' (Some a) = Some m'' \<and> rep m'' (xm_pools m) None None None t' \<and>
    xm_nodes m'' a = None"
proof -
  have d: "xmlnode_dup m (Some a) = xmlnode_dup_pool m None (Some a)"
    by (simp add: xmlnode_dup_def xmlnode_dup_pool_def xmlnode_new_tag_def xmlnode_new_tag_pool_def)
  from dup_pool_rep [OF r, of "xm_pools m" None] obtain m' t' where
    1: "xmlnode_dup m (Some a) = Some (m', Some (root t'))" "rep m' (xm_pools m) None None None t'"
      "document t' = copy_doc (document (ATag a cp nm as ts))" "rep m' p par prv nxt (ATag a cp nm as ts)"
      "set (addrs t') \<inter> set (addrs (ATag a cp nm as ts)) = {}"
    unfolding d by auto
  have "p \<noteq> xm_pools m" using rep_facts(6) [OF r] by simp
  from free_rep [OF 1(4,2) this] obtain m'' where
    "xmlnode_free m' (Some a) = Some m''" "rep m'' (xm_pools m) None None None t'" "xm_nodes m'' a = None"
    by (auto simp: addrs_ATag)
  with 1 show ?thesis using copy_doc_canonical by metis
qed

theorem xml_dup_independent_witness:
  "\<exists>m' b. xmlnode_dup (tree_mem 6 0 sample) (Some 0) = Some (m', Some b) \<and>
     xmlnode_free m' (Some 0) \<noteq> None"
proof -
  have "rep (tree_mem 6 0 sample) 0 None None None (ATag 0 0 ''message'' [Attr 1 ''to'' ''ann'' None]
     [ATag 2 0 ''body'' [] [AData 3 ''hi''], ATag 4 0 ''x'' [Attr 5 ''xmlns'' ''jabber:x'' None] []])"
    using sample_rep by (simp add: sample_def)
  from xml_dup_independent [OF this] show ?thesis by auto
qed

text \<open>
  C29. \<open>xmlnode2str\<close> of a tag without following sibling, or with children, is the text of the
  document: start tag with escaped attributes, contents in order, end tag, or an empty tag. It does
  not depend on the addresses.
\<close>

theorem xml_print_spec:
  assumes "rep m p par prv nxt (ATag a cp nm as ts)" "nxt = None \<or> ts \<noteq> []"
  shows "xmlnode2str m (Some a) = Some (Some (render (document (ATag a cp nm as ts))))"
  using to_str_rep [OF assms(1) _ refl] assms(2) by simp

theorem xml_print_spec_witness:
  "\<exists>r. xmlnode2str (tree_mem 6 0 sample) (Some 0) = Some (Some r)"
proof -
  have "rep (tree_mem 6 0 sample) 0 None None None (ATag 0 0 ''message'' [Attr 1 ''to'' ''ann'' None]
     [ATag 2 0 ''body'' [] [AData 3 ''hi''], ATag 4 0 ''x'' [Attr 5 ''xmlns'' ''jabber:x'' None] []])"
    using sample_rep by (simp add: sample_def)
  from xml_print_spec [OF this] show ?thesis by simp
qed

text \<open>Of a tag without children it prints the following sibling, too.\<close>

theorem xml_print_sibling:
  assumes "rep m p par prv (Some (root u)) (ATag a cp nm as [])" "rep m p par prv' None u" "children u = []"
  shows "xmlnode2str m (Some a) =
    Some (Some (render (document (ATag a cp nm as [])) @ render (document u)))"
  using to_str_prints_sibling [OF assms(1) refl assms(2,3)] .

theorem xml_print_sibling_witness:
  "\<exists>m'. xmlnode2str m' (Some 1) = Some (Some (''<b/><c/>''))"
proof -
  let ?t = "ATag 0 0 ''a'' [] [ATag 1 0 ''b'' [] [], ATag 2 0 ''c'' [] []]"
  have r: "rep (tree_mem 3 0 ?t) 0 None None None ?t"
    by (rule rep_tree_mem) (simp_all add: addrs_ATag)
  then have "rep (tree_mem 3 0 ?t) 0 (Some 0) None (Some (root (ATag 2 0 ''c'' [] []))) (ATag 1 0 ''b'' [] [])"
    using child_rep [of _ _ _ _ _ 0 0 "''a''" "[]" "[]" "ATag 1 0 ''b'' [] []" "[ATag 2 0 ''c'' [] []]"] by simp
  moreover have "rep (tree_mem 3 0 ?t) 0 (Some 0) (Some 1) None (ATag 2 0 ''c'' [] [])"
    using r child_rep [of _ _ _ _ _ 0 0 "''a''" "[]" "[ATag 1 0 ''b'' [] []]" "ATag 2 0 ''c'' [] []" "[]"] by simp
  ultimately have "xmlnode2str (tree_mem 3 0 ?t) (Some 1) =
      Some (Some (render (document (ATag 1 0 ''b'' [] [])) @ render (document (ATag 2 0 ''c'' [] []))))"
    by (rule xml_print_sibling) simp
  then show ?thesis by (intro exI [of _ "tree_mem 3 0 ?t"]) simp
qed

text \<open>
  C39. \<open>xmlnode_cmp\<close> of two trees without following siblings answers 0 exactly when they are the
  same document, attributes in the same order, and -1 otherwise.
\<close>

theorem xml_cmp_decides_equality:
  assumes "rep m p par prv None t" "rep m q par' prv' None u"
  shows "xmlnode_cmp m (Some (root t)) (Some (root u)) = Some (if document t = document u then 0 else - 1)"
proof -
  have "holds (xm_nodes m) (forest p par prv None [t])" "holds (xm_nodes m) (forest q par' prv' None [u])"
    using assms by (auto simp: rep_def cells_def)
  from cmp_forest [OF this] show ?thesis by simp
qed

theorem xml_cmp_decides_equality_witness:
  "xmlnode_cmp (tree_mem 6 0 sample) (Some 0) (Some 0) = Some 0"
  using xml_cmp_decides_equality [OF sample_rep sample_rep] by (simp add: sample_def)

text \<open>
  \<open>xmlnode_get_tag\<close> finds what its path names: the first child tag of that name, the first
  that satisfies \<open>name?attrib=value\<close>, or, below a slash, the first match depth first.
\<close>

theorem xml_get_tag_spec:
  assumes "rep m p par prv nxt (ATag a cp nm as ts)"
  shows "xmlnode_get_tag m (Some a) (Some name) = Some (map_option root (tag_at name ts))"
  by (rule get_tag_rep [OF assms])

theorem xml_get_tag_spec_witness:
  "xmlnode_get_tag (tree_mem 6 0 sample) (Some 0) (Some ''?xmlns=jabber:x'') = Some (Some 4)"
proof -
  have "rep (tree_mem 6 0 sample) 0 None None None (ATag 0 0 ''message'' [Attr 1 ''to'' ''ann'' None]
     [ATag 2 0 ''body'' [] [AData 3 ''hi''], ATag 4 0 ''x'' [Attr 5 ''xmlns'' ''jabber:x'' None] []])"
    using sample_rep by (simp add: sample_def)
  from xml_get_tag_spec [OF this, of "''?xmlns=jabber:x''"] show ?thesis
    by (simp add: tag_at.simps tag_path_def query_parts_def find_attr_def)
qed

text \<open>
  C40. \<open>xmlnode_hide\<close> unlinks exactly the given child, wherever it stands among its siblings, and
  \<open>xmlnode_hide_attrib\<close> the attribute of the given name.
\<close>

theorem xml_hide_unlinks:
  assumes r: "rep m p par prv nxt (ATag a cp nm as (us @ c # vs))"
  shows "(\<exists>m'. xmlnode_hide m (Some (root c)) = Some m' \<and> rep m' p par prv nxt (ATag a cp nm as (us @ vs))) \<and>
    (\<forall>xs x ys k. as = xs @ x # ys \<and> find_attr k as = Some x \<longrightarrow>
      (\<exists>m'. xmlnode_hide_attrib m (Some a) (Some k) = Some m' \<and>
        rep m' p par prv nxt (ATag a cp nm (xs @ ys) (us @ c # vs))))"
  using hide_rep [OF r] hide_attrib_rep r by blast

theorem xml_hide_unlinks_witness:
  "\<exists>m'. xmlnode_hide (tree_mem 6 0 sample) (Some 2) = Some m' \<and>
     rep m' 0 None None None (ATag 0 0 ''message'' [Attr 1 ''to'' ''ann'' None]
       [ATag 4 0 ''x'' [Attr 5 ''xmlns'' ''jabber:x'' None] []])"
proof -
  have "rep (tree_mem 6 0 sample) 0 None None None (ATag 0 0 ''message'' [Attr 1 ''to'' ''ann'' None]
     ([] @ ATag 2 0 ''body'' [] [AData 3 ''hi''] # [ATag 4 0 ''x'' [Attr 5 ''xmlns'' ''jabber:x'' None] []]))"
    using sample_rep by (simp add: sample_def)
  from xml_hide_unlinks [OF this] show ?thesis by auto
qed

end
