(* ===== verification/XmlBuild.thy ===== *)
theory XmlBuild
  imports XmlDoc
begin

text \<open>
  Building trees from the events of the XML parser: \<open>libjabber/expat.c\<close> for a whole document and
  \<open>libjabber/xstream.c\<close> for the stream of stanzas of a Jabber connection. The parser itself is an
  argument; an event is a start tag, an end tag or a piece of text.
\<close>

datatype sax = Start_tag string "(string \<times> string) list" | End_tag string | Chars string

fun events :: "xml \<Rightarrow> sax list" where
  "events (Tag nm as ts) = Start_tag nm as # concat (map events ts) @ [End_tag nm]"
| "events (CData d) = [Chars d]"

text \<open>Depth of nested tags.\<close>

fun height :: "xml \<Rightarrow> nat" where
  "height (Tag nm as ts) = Suc (fold (\<lambda>t n. max (height t) n) ts 0)"
| "height (CData d) = 0"

definition heights :: "xml list \<Rightarrow> nat" where
  "heights ts = fold (\<lambda>t n. max (height t) n) ts 0"

lemma heights_fold: "fold (\<lambda>t n. max (height t) n) ts k = max (heights ts) k"
proof (induction ts arbitrary: k)
  case (Cons t ts)
  from Cons [of "max (height t) k"] Cons [of "height t"] show ?case by (simp add: heights_def)
qed (simp add: heights_def)

lemma heights_simps [simp]:
  "heights [] = 0" "heights (t # ts) = max (height t) (heights ts)"
  using heights_fold [of ts "height t"] by (simp_all add: heights_def)

section \<open>Attributes of a start tag\<close>

fun xmlnode_put_expat_attribs :: "xmem \<Rightarrow> ptr \<Rightarrow> (string \<times> string) list \<Rightarrow> xmem option" where
  "xmlnode_put_expat_attribs m owner [] = Some m"
| "xmlnode_put_expat_attribs m owner ((k, v) # atts) = do {
     m \<leftarrow> xmlnode_put_attrib m owner (Some k) (Some v);
     xmlnode_put_expat_attribs m owner atts
   }"

lemma put_expat_attribs_client: "xmlnode_put_expat_attribs m (Some a) atts = xml_attrs.put_all m a atts"
  by (induction atts arbitrary: m) (auto intro!: Option.bind_cong)

text \<open>
  The attributes of a start tag become the attributes of the node: each name has the last
  value the parser gave for it, other attributes of the node keep theirs.
\<close>

theorem expat_attribs_last_wins:
  assumes "rep m p par prv nxt (ATag a cp nm as ts)"
  shows "\<exists>m'. xmlnode_put_expat_attribs m (Some a) atts = Some m' \<and>
    (\<forall>k. xmlnode_get_attrib m' (Some a) (Some k) =
      (case map_of (rev atts) k of Some v \<Rightarrow> Some (Some v)
       | None \<Rightarrow> xmlnode_get_attrib m (Some a) (Some k)))"
proof -
  have "is_tag_at m a" using assms unfolding is_tag_at_def by blast
  from xml_attrs.put_all_get [OF this, of atts] show ?thesis
    unfolding put_expat_attribs_client by blast
qed

theorem expat_attribs_last_wins_witness:
  "\<exists>m'. xmlnode_put_expat_attribs (tree_mem 6 0 sample) (Some 0) [(''id'', ''1''), (''id'', ''2'')] = Some m' \<and>
     xmlnode_get_attrib m' (Some 0) (Some ''id'') = Some (Some ''2'')"
proof -
  have "rep (tree_mem 6 0 sample) 0 None None None (ATag 0 0 ''message'' [Attr 1 ''to'' ''ann'' None]
     [ATag 2 0 ''body'' [] [AData 3 ''hi''], ATag 4 0 ''x'' [Attr 5 ''xmlns'' ''jabber:x'' None] []])"
    using sample_rep by (simp add: sample_def)
  from expat_attribs_last_wins [OF this, of "[(''id'', ''1''), (''id'', ''2'')]"] show ?thesis by auto
qed

lemma put_expat_rep:
  "rep m p par prv nxt (ATag a cp nm as ts) \<Longrightarrow>
   \<exists>m' as'. xmlnode_put_expat_attribs m (Some a) atts = Some m' \<and>
     rep m' p par prv nxt (ATag a cp nm as' ts) \<and>
     becomes m (ATag a cp nm as ts) m' (ATag a cp nm as' ts) \<and>
     map (\<lambda>x. (at_name x, at_value x)) as' =
       fold (\<lambda>kv. doc_put (fst kv) (snd kv)) atts (map (\<lambda>x. (at_name x, at_value x)) as)"
proof (induction atts arbitrary: m as)
  case Nil
  then show ?case by auto
next
  case (Cons kv atts)
  obtain k v where kv: "kv = (k, v)" by (cases kv)
  let ?as = "put_attr (xm_brk m) k v as"
  from put_attrib_rep [OF Cons.prems refl, of k v] obtain m1 where m1:
    "xmlnode_put_attrib m (Some a) (Some k) (Some v) = Some m1" "rep m1 p par prv nxt (ATag a cp nm ?as ts)"
    "becomes m (ATag a cp nm as ts) m1 (ATag a cp nm ?as ts)" by blast
  from Cons.IH [OF m1(2)] obtain m' as' where m':
    "xmlnode_put_expat_attribs m1 (Some a) atts = Some m'" "rep m' p par prv nxt (ATag a cp nm as' ts)"
    "becomes m1 (ATag a cp nm ?as ts) m' (ATag a cp nm as' ts)"
    "map (\<lambda>x. (at_name x, at_value x)) as' =
       fold (\<lambda>kv. doc_put (fst kv) (snd kv)) atts (map (\<lambda>x. (at_name x, at_value x)) ?as)" by blast
  show ?case unfolding kv using m1(1) m'(1,2,4) becomes_trans [OF m1(3) m'(3)]
    by (auto simp: put_attr_doc)
qed

section \<open>The contract of an event handler\<close>

text \<open>
  Both users of the parser keep a current node and answer an event by one operation of the tree.
  \<open>ready k s\<close> says that the handler accepts \<open>k\<close> more levels of tags; \<open>mark\<close> is what it does
  to the field \<open>complete\<close> of a node that ends; \<open>rest\<close> is the state that events inside an
  element do not touch.
\<close>

locale sax_builder =
  fixes mem :: "'s \<Rightarrow> xmem" and cur :: "'s \<Rightarrow> ptr" and rest :: "'s \<Rightarrow> 'r"
    and start :: "string \<Rightarrow> (string \<times> string) list \<Rightarrow> 's \<Rightarrow> 's option"
    and finish :: "string \<Rightarrow> 's \<Rightarrow> 's option" and chars :: "string \<Rightarrow> 's \<Rightarrow> 's option"
    and ready :: "nat \<Rightarrow> 's \<Rightarrow> bool" and mark :: "int \<Rightarrow> int"
  assumes ready_less: "ready k s \<Longrightarrow> k' \<le> k \<Longrightarrow> ready k' s"
    and start_inside: "ready (Suc k) s \<Longrightarrow> cur s = Some a \<Longrightarrow>
      xmlnode_insert_tag (mem s) (Some a) (Some nm) = Some (m1, Some c) \<Longrightarrow>
      xmlnode_put_expat_attribs m1 (Some c) atts = Some m2 \<Longrightarrow>
      \<exists>s'. start nm atts s = Some s' \<and> mem s' = m2 \<and> cur s' = Some c \<and> ready k s' \<and> rest s' = rest s"
    and chars_inside: "ready k s \<Longrightarrow> cur s = Some a \<Longrightarrow>
      xmlnode_insert_cdata (mem s) (Some a) (Some d) (int (length d)) = Some (m1, b) \<Longrightarrow>
      \<exists>s'. chars d s = Some s' \<and> mem s' = m1 \<and> cur s' = Some a \<and> ready k s' \<and> rest s' = rest s"
    and finish_inside: "ready k s \<Longrightarrow> cur s = Some c \<Longrightarrow> xm_nodes (mem s) c = Some n \<Longrightarrow>
      xn_parent n = Some a \<Longrightarrow>
      \<exists>s'. finish nm s = Some s' \<and>
        mem s' = (mem s)\<lparr>xm_nodes := (xm_nodes (mem s))(c \<mapsto> n\<lparr>xn_complete := mark (xn_complete n)\<rparr>)\<rparr> \<and>
        cur s' = Some a \<and> ready (Suc k) s' \<and> rest s' = rest s"
begin

fun handle :: "sax \<Rightarrow> 's \<Rightarrow> 's option" where
  "handle (Start_tag nm as) s = start nm as s"
| "handle (End_tag nm) s = finish nm s"
| "handle (Chars d) s = chars d s"

fun feed :: "sax list \<Rightarrow> 's \<Rightarrow> 's option" where
  "feed [] s = Some s"
| "feed (e # es) s = Option.bind (handle e s) (feed es)"

lemma feed_append: "feed (es @ fs) s = Option.bind (feed es s) (feed fs)"
proof (induction es arbitrary: s)
  case (Cons e es)
  then show ?case by (cases "handle e s") simp_all
qed simp

lemma mark_rep:
  assumes r: "rep m p par prv nxt (ATag c cp nm as ts)" and n: "xm_nodes m c = Some n"
  shows "rep (m\<lparr>xm_nodes := (xm_nodes m)(c \<mapsto> n\<lparr>xn_complete := x\<rparr>)\<rparr>) p par prv nxt (ATag c x nm as ts)"
    "becomes m (ATag c cp nm as ts)
      (m\<lparr>xm_nodes := (xm_nodes m)(c \<mapsto> n\<lparr>xn_complete := x\<rparr>)\<rparr>) (ATag c x nm as ts)"
proof -
  note f = rep_facts [OF r]
  have n': "n = root_node p par prv nxt (ATag c cp nm as ts)" using f(2) n by simp
  show "rep (m\<lparr>xm_nodes := (xm_nodes m)(c \<mapsto> n\<lparr>xn_complete := x\<rparr>)\<rparr>) p par prv nxt (ATag c x nm as ts)"
    using r f(1,3-8) unfolding n' by (auto simp: rep_def cells_def addrs_ATag mem_ok_def)
  show "becomes m (ATag c cp nm as ts)
      (m\<lparr>xm_nodes := (xm_nodes m)(c \<mapsto> n\<lparr>xn_complete := x\<rparr>)\<rparr>) (ATag c x nm as ts)"
    by (auto simp: becomes_def addrs_ATag)
qed

lemma feed_contents:
  "rep (mem s) p par prv nxt (ATag a cp nm as ts) \<Longrightarrow> cur s = Some a \<Longrightarrow> ready k s \<Longrightarrow> heights ds \<le> k \<Longrightarrow>
   \<exists>s' ts'. feed (concat (map events ds)) s = Some s' \<and> cur s' = Some a \<and> ready k s' \<and> rest s' = rest s \<and>
     rep (mem s') p par prv nxt (ATag a cp nm as ts') \<and>
     becomes (mem s) (ATag a cp nm as ts) (mem s') (ATag a cp nm as ts') \<and>
     map document ts' = copy_list (map document ts) ds"
proof (induction "size_list size ds" arbitrary: s p par prv nxt a cp nm as ts ds k rule: less_induct)
  case less
  show ?case
  proof (cases ds)
    case Nil
    then show ?thesis using less.prems by auto
  next
    case ds: (Cons d ds')
    have sz: "size_list size ds' < size_list size ds" using ds by simp
    have hk: "heights ds' \<le> k" using less.prems(4) ds by simp
    show ?thesis
    proof (cases d)
      case d: (CData e)
      let ?T = "ATag a cp nm as (add_text (xm_brk (mem s)) e ts)"
      from insert_cdata_rep [OF less.prems(1), of "int (length e)" "length e" e, OF _ refl] obtain m1 b where m1:
        "xmlnode_insert_cdata (mem s) (Some a) (Some e) (int (length e)) = Some (m1, Some b)"
        "rep m1 p par prv nxt ?T" "becomes (mem s) (ATag a cp nm as ts) m1 ?T" by auto
      from chars_inside [OF less.prems(3,2) m1(1)] obtain s1 where s1: "chars e s = Some s1" "mem s1 = m1"
        "cur s1 = Some a" "ready k s1" "rest s1 = rest s" by blast
      from less.hyps [OF sz, of s1 p par prv nxt a cp nm as "add_text (xm_brk (mem s)) e ts" k] m1 s1 hk
      obtain s' ts' where s': "feed (concat (map events ds')) s1 = Some s'" "cur s' = Some a" "ready k s'"
        "rest s' = rest s1" "rep (mem s') p par prv nxt (ATag a cp nm as ts')"
        "becomes m1 ?T (mem s') (ATag a cp nm as ts')"
        "map document ts' = copy_list (map document (add_text (xm_brk (mem s)) e ts)) ds'" by auto
      then show ?thesis using s1 becomes_trans [OF m1(3) s'(6)] unfolding ds d
        by (auto simp: add_text_doc)
    next
      case d: (Tag nm' atts us)
      obtain k' where k': "k = Suc k'" "heights us \<le> k'"
        using less.prems(4) unfolding ds d by (cases k) (auto simp: heights_fold)
      let ?c = "xm_brk (mem s)"
      let ?E = "ATag ?c 0 nm' [] []" and ?T = "ATag a cp nm as ts"
      from insert_tag_rep [OF less.prems(1) refl, of nm'] obtain m1 where m1:
        "xmlnode_insert_tag (mem s) (Some a) (Some nm') = Some (m1, Some ?c)"
        "rep m1 p par prv nxt (ATag a cp nm as (ts @ [?E]))"
        "becomes (mem s) ?T m1 (ATag a cp nm as (ts @ [?E]))" by blast
      have e: "rep m1 p (Some a) (last_root None ts) None ?E" using child_rep [OF m1(2)] by simp
      from put_expat_rep [OF e, of atts] obtain m2 as2 where m2:
        "xmlnode_put_expat_attribs m1 (Some ?c) atts = Some m2"
        "rep m2 p (Some a) (last_root None ts) None (ATag ?c 0 nm' as2 [])"
        "becomes m1 ?E m2 (ATag ?c 0 nm' as2 [])"
        "map (\<lambda>x. (at_name x, at_value x)) as2 = fold (\<lambda>kv. doc_put (fst kv) (snd kv)) atts []" by auto
      from start_inside [OF less.prems(3) [unfolded k'(1)] less.prems(2) m1(1) m2(1)] obtain s2 where
        s2: "start nm' atts s = Some s2" "mem s2 = m2" "cur s2 = Some ?c" "ready k' s2" "rest s2 = rest s" by blast
      have "size_list size us < size_list size ds" using ds d by simp
      from less.hyps [OF this, of s2 p "Some a" "last_root None ts" None ?c 0 nm' as2 "[]" k'] m2(2) s2 k'(2)
      obtain s3 us3 where s3: "feed (concat (map events us)) s2 = Some s3" "cur s3 = Some ?c" "ready k' s3"
        "rest s3 = rest s2" "rep (mem s3) p (Some a) (last_root None ts) None (ATag ?c 0 nm' as2 us3)"
        "becomes m2 (ATag ?c 0 nm' as2 []) (mem s3) (ATag ?c 0 nm' as2 us3)"
        "map document us3 = copy_list [] us" by auto
      let ?n = "root_node p (Some a) (last_root None ts) None (ATag ?c 0 nm' as2 us3)"
      let ?C = "ATag ?c (mark 0) nm' as2 us3"
      have n3: "xm_nodes (mem s3) ?c = Some ?n" using rep_root [OF s3(5)] by simp
      from finish_inside [OF s3(3,2) n3, of a nm'] obtain s4 where s4: "finish nm' s3 = Some s4"
        "mem s4 = (mem s3)\<lparr>xm_nodes := (xm_nodes (mem s3))(?c \<mapsto> ?n\<lparr>xn_complete := mark 0\<rparr>)\<rparr>"
        "cur s4 = Some a" "ready (Suc k') s4" "rest s4 = rest s3" by auto
      note mk = mark_rep [OF s3(5) n3, of "mark 0", folded s4(2)]
      have "becomes m1 ?E (mem s4) ?C"
        using becomes_trans [OF becomes_trans [OF m2(3) s3(6)] mk(2)] .
      from replace_child(2,3) [OF m1(2) _ this] mk(1)
      have T4: "rep (mem s4) p par prv nxt (ATag a cp nm as (ts @ [?C]))"
        "becomes m1 (ATag a cp nm as (ts @ [?E])) (mem s4) (ATag a cp nm as (ts @ [?C]))" by simp_all
      from less.hyps [OF sz, of s4 p par prv nxt a cp nm as "ts @ [?C]" k] T4(1) s4 hk k'(1)
      obtain s' ts' where s': "feed (concat (map events ds')) s4 = Some s'" "cur s' = Some a" "ready k s'"
        "rest s' = rest s4" "rep (mem s') p par prv nxt (ATag a cp nm as ts')"
        "becomes (mem s4) (ATag a cp nm as (ts @ [?C])) (mem s') (ATag a cp nm as ts')"
        "map document ts' = copy_list (map document (ts @ [?C])) ds'" by auto
      have "becomes (mem s) ?T (mem s') (ATag a cp nm as ts')"
        using becomes_trans [OF becomes_trans [OF m1(3) T4(2)] s'(6)] .
      then show ?thesis using s2 s3 s4 s' m2(4) unfolding ds d
        by (auto simp: feed_append)
    qed
  qed
qed

end


section \<open>Whole documents (\<open>expat.c\<close>)\<close>

text \<open>The state is the memory and the pointer that the user data points to.\<close>

definition expat_startElement :: "string \<Rightarrow> (string \<times> string) list \<Rightarrow> xmem \<times> ptr \<Rightarrow> (xmem \<times> ptr) option" where
  "expat_startElement name atts = (\<lambda>(m, x).
     if x = None then do {
       let (m, current) = xmlnode_new_tag m (Some name);
       m \<leftarrow> xmlnode_put_expat_attribs m current atts;
       Some (m, current)
     }
     else do {
       (m, x) \<leftarrow> xmlnode_insert_tag m x (Some name);
       m \<leftarrow> xmlnode_put_expat_attribs m x atts;
       Some (m, x)
     })"

definition expat_endElement :: "string \<Rightarrow> xmem \<times> ptr \<Rightarrow> (xmem \<times> ptr) option" where
  "expat_endElement name = (\<lambda>(m, x). do {
     m \<leftarrow> store m x (\<lambda>n. n\<lparr>xn_complete := 1\<rparr>);
     current \<leftarrow> xmlnode_get_parent m x;
     Some (m, if current \<noteq> None then current else x)
   })"

definition expat_charData :: "string \<Rightarrow> xmem \<times> ptr \<Rightarrow> (xmem \<times> ptr) option" where
  "expat_charData s = (\<lambda>(m, x). do {
     (m, r) \<leftarrow> xmlnode_insert_cdata m x (Some s) (int (length s));
     Some (m, x)
   })"

interpretation expat: sax_builder fst snd "\<lambda>_. ()" expat_startElement expat_endElement expat_charData
  "\<lambda>_ _. True" "\<lambda>_. 1"
  by unfold_locales
    (auto simp: expat_startElement_def expat_charData_def expat_endElement_def store_Some xmlnode_get_parent_def)

fun expat_event :: "sax \<Rightarrow> xmem \<times> ptr \<Rightarrow> (xmem \<times> ptr) option" where
  "expat_event (Start_tag nm as) = expat_startElement nm as"
| "expat_event (End_tag nm) = expat_endElement nm"
| "expat_event (Chars d) = expat_charData d"

fun expat_events :: "sax list \<Rightarrow> xmem \<times> ptr \<Rightarrow> (xmem \<times> ptr) option" where
  "expat_events [] s = Some s"
| "expat_events (e # es) s = Option.bind (expat_event e s) (expat_events es)"

lemma expat_events_feed: "expat_events es s = expat.feed es s"
proof (induction es arbitrary: s)
  case (Cons e es)
  have "expat_event e s = expat.handle e s" by (cases e) auto
  with Cons show ?case by (cases "expat.handle e s") auto
qed simp

text \<open>
  \<open>xmlnode_str\<close>: \<open>parse\<close> is the parser, which answers the events it fired and whether the text was
  well formed. On an error the tree that was built so far is freed.
\<close>

definition xmlnode_str :: "xmem \<Rightarrow> (string \<Rightarrow> int \<Rightarrow> sax list \<times> bool) \<Rightarrow> string option \<Rightarrow> int \<Rightarrow> (xmem \<times> ptr) option" where
  "xmlnode_str m parse str len =
     (case str of
        None \<Rightarrow> Some (m, None)
      | Some s \<Rightarrow> do {
          let (es, ok) = parse s len;
          (m, x) \<leftarrow> expat_events es (m, None);
          if \<not> ok then do {
            m \<leftarrow> xmlnode_free m x;
            Some (m, None)
          }
          else Some (m, x)
        })"

lemma expat_contents:
  assumes "mem_ok m"
  shows "\<exists>m' x' t'. expat_events (Start_tag nm as # concat (map events ds)) (m, None) = Some (m', Some (xm_brk m)) \<and>
    rep m' (xm_pools m) None None None t' \<and> root t' = xm_brk m \<and>
    (\<exists>as' ts'. t' = ATag (xm_brk m) 0 nm as' ts') \<and>
    document t' = copy_doc (Tag nm as ds) \<and> (\<forall>b < xm_brk m. xm_nodes m' b = xm_nodes m b)"
proof -
  let ?a = "xm_brk m"
  define m1 where "m1 = fst (i_xmlnode_new m None (Some nm) NTYPE_TAG)"
  note n = new_tag_rep [OF assms _ _ m1_def, of "xm_pools m", simplified]
  from put_expat_rep [OF n(2), of as] obtain m2 as2 where m2:
    "xmlnode_put_expat_attribs m1 (Some ?a) as = Some m2" "rep m2 (xm_pools m) None None None (ATag ?a 0 nm as2 [])"
    "becomes m1 (ATag ?a 0 nm [] []) m2 (ATag ?a 0 nm as2 [])"
    "map (\<lambda>x. (at_name x, at_value x)) as2 = fold (\<lambda>kv. doc_put (fst kv) (snd kv)) as []" by auto
  have s1: "expat_startElement nm as (m, None) = Some (m2, Some ?a)"
    using n(1) m2(1) by (simp add: expat_startElement_def xmlnode_new_tag_def)
  from expat.feed_contents [of "(m2, Some ?a)" "xm_pools m" None None None ?a 0 nm as2 "[]" ds "heights ds"] m2(2)
  obtain m3 ts3 where m3: "expat.feed (concat (map events ds)) (m2, Some ?a) = Some (m3, Some ?a)"
    "rep m3 (xm_pools m) None None None (ATag ?a 0 nm as2 ts3)"
    "becomes m2 (ATag ?a 0 nm as2 []) m3 (ATag ?a 0 nm as2 ts3)"
    "map document ts3 = copy_list [] ds" by auto
  have b: "becomes m1 (ATag ?a 0 nm [] []) m3 (ATag ?a 0 nm as2 ts3)"
    using m2(3) m3(3) by (rule becomes_trans)
  have "xm_nodes m3 b = xm_nodes m b" if "b < xm_brk m" for b
  proof -
    have "b < xm_brk m1" "b \<notin> set (addrs (ATag ?a 0 nm [] []))" using n(3) that by (auto simp: addrs_ATag)
    then have "xm_nodes m3 b = xm_nodes m1 b" using b by (simp add: becomes_def)
    then show ?thesis using n(5) [OF that] by simp
  qed
  with s1 m3 m2(4) show ?thesis by (auto simp: expat_events_feed)
qed



end
