(* ===== verification/XStream.thy ===== *)
theory XStream
  imports XmlBuild
begin

text \<open>
  The stream of a Jabber connection (\<open>libjabber/xstream.c\<close>): the parser events build one tree
  per stanza, and the client's function \<open>f\<close> gets the root element, every stanza, the end of the
  stream and an error.
\<close>

abbreviation XSTREAM_ROOT :: int where "XSTREAM_ROOT \<equiv> 0"
abbreviation XSTREAM_NODE :: int where "XSTREAM_NODE \<equiv> 1"
abbreviation XSTREAM_CLOSE :: int where "XSTREAM_CLOSE \<equiv> 2"
abbreviation XSTREAM_ERR :: int where "XSTREAM_ERR \<equiv> 4"
abbreviation XSTREAM_MAXDEPTH :: int where "XSTREAM_MAXDEPTH \<equiv> 100"
abbreviation XSTREAM_MAXNODE :: int where "XSTREAM_MAXNODE \<equiv> 1000000"

text \<open>
  \<open>xs_app\<close> is the state behind \<open>arg\<close>, which \<open>f\<close> changes together with the memory.
\<close>

record 'a xstream =
  xs_mem :: xmem
  xs_node :: ptr
  xs_cdata_len :: int
  xs_status :: int
  xs_depth :: int
  xs_app :: 'a

type_synonym 'a on_node = "int \<Rightarrow> ptr \<Rightarrow> xmem \<times> 'a \<Rightarrow> (xmem \<times> 'a) option"

definition xstream_new :: "xmem \<Rightarrow> 'a \<Rightarrow> 'a xstream" where
  "xstream_new m arg =
     \<lparr>xs_mem = m, xs_node = None, xs_cdata_len = 0, xs_status = XSTREAM_ROOT, xs_depth = 0, xs_app = arg\<rparr>"

definition depth_check :: "'a xstream \<Rightarrow> 'a xstream" where
  "depth_check xs =
     (let xs = xs\<lparr>xs_depth := xs_depth xs + 1\<rparr> in
      if XSTREAM_MAXDEPTH < xs_depth xs then xs\<lparr>xs_status := XSTREAM_ERR\<rparr> else xs)"

definition xstream_startElement ::
  "'a on_node \<Rightarrow> string \<Rightarrow> (string \<times> string) list \<Rightarrow> 'a xstream \<Rightarrow> 'a xstream option" where
  "xstream_startElement f name atts xs =
     (if XSTREAM_NODE < xs_status xs then Some xs
      else do {
        xs \<leftarrow>
          (if xs_node xs = None then do {
             let p = xm_pools (xs_mem xs);
             let (m, node) = xmlnode_new_tag_pool ((xs_mem xs)\<lparr>xm_pools := p + 1\<rparr>) (Some p) (Some name);
             m \<leftarrow> xmlnode_put_expat_attribs m node atts;
             if xs_status xs = XSTREAM_ROOT then do {
               (m, app) \<leftarrow> f XSTREAM_ROOT node (m, xs_app xs);
               Some (xs\<lparr>xs_mem := m, xs_node := None, xs_status := XSTREAM_NODE, xs_app := app\<rparr>)
             }
             else Some (xs\<lparr>xs_mem := m, xs_node := node\<rparr>)
           }
           else do {
             (m, node) \<leftarrow> xmlnode_insert_tag (xs_mem xs) (xs_node xs) (Some name);
             m \<leftarrow> xmlnode_put_expat_attribs m node atts;
             Some (xs\<lparr>xs_mem := m, xs_node := node\<rparr>)
           });
        Some (depth_check xs)
      })"

definition xstream_endElement :: "'a on_node \<Rightarrow> string \<Rightarrow> 'a xstream \<Rightarrow> 'a xstream option" where
  "xstream_endElement f name xs =
     (if XSTREAM_NODE < xs_status xs then Some xs
      else do {
        xs \<leftarrow>
          (if xs_node xs = None then do {
             (m, app) \<leftarrow> f XSTREAM_CLOSE None (xs_mem xs, xs_app xs);
             Some (xs\<lparr>xs_mem := m, xs_status := XSTREAM_CLOSE, xs_app := app\<rparr>)
           }
           else do {
             parent \<leftarrow> xmlnode_get_parent (xs_mem xs) (xs_node xs);
             (m, app) \<leftarrow>
               (if parent = None then f XSTREAM_NODE (xs_node xs) (xs_mem xs, xs_app xs)
                else Some (xs_mem xs, xs_app xs));
             Some (xs\<lparr>xs_mem := m, xs_node := parent, xs_app := app\<rparr>)
           });
        Some (xs\<lparr>xs_depth := xs_depth xs - 1\<rparr>)
      })"

definition xstream_charData :: "string \<Rightarrow> 'a xstream \<Rightarrow> 'a xstream option" where
  "xstream_charData str xs =
     (if XSTREAM_NODE < xs_status xs then Some xs
      else if xs_node xs = None then Some xs
      else do {
        (m, r) \<leftarrow> xmlnode_insert_cdata (xs_mem xs) (xs_node xs) (Some str) (int (length str));
        Some (xs\<lparr>xs_mem := m\<rparr>)
      })"

fun xstream_event :: "'a on_node \<Rightarrow> sax \<Rightarrow> 'a xstream \<Rightarrow> 'a xstream option" where
  "xstream_event f (Start_tag nm as) xs = xstream_startElement f nm as xs"
| "xstream_event f (End_tag nm) xs = xstream_endElement f nm xs"
| "xstream_event f (Chars d) xs = xstream_charData d xs"

fun xstream_events :: "'a on_node \<Rightarrow> sax list \<Rightarrow> 'a xstream \<Rightarrow> 'a xstream option" where
  "xstream_events f [] xs = Some xs"
| "xstream_events f (e # es) xs = Option.bind (xstream_event f e xs) (xstream_events f es)"

text \<open>
  \<open>xstream_eat\<close>: \<open>parse\<close> is the parser, with the text of its error; \<open>size_of\<close> is the number of
  bytes of the pool of a node.
\<close>

definition xstream_eat ::
  "'a on_node \<Rightarrow> (string \<Rightarrow> int \<Rightarrow> sax list \<times> bool \<times> string) \<Rightarrow> (xmem \<Rightarrow> ptr \<Rightarrow> int) \<Rightarrow>
   'a xstream \<Rightarrow> string option \<Rightarrow> int \<Rightarrow> ('a xstream \<times> int) option" where
  "xstream_eat f parse size_of xs buff len =
     (case buff of
        None \<Rightarrow> Some (xs, xs_status xs)
      | Some b \<Rightarrow>
          if len = 0 then Some (xs, xs_status xs)
          else do {
            let len = (if len = - 1 then int (length b) else len);
            let (es, ok, errstr) = parse b len;
            xs \<leftarrow> xstream_events f es xs;
            let (xs, err) =
              (if \<not> ok then (xs\<lparr>xs_status := XSTREAM_ERR\<rparr>, errstr)
               else if XSTREAM_MAXNODE < size_of (xs_mem xs) (xs_node xs) \<or> XSTREAM_MAXNODE < xs_cdata_len xs
               then (xs\<lparr>xs_status := XSTREAM_ERR\<rparr>, ''maximum node size reached'')
               else (xs, ''maximum node depth reached''));
            if xs_status xs = XSTREAM_ERR then do {
              let (m, xerr) = xmlnode_new_tag (xs_mem xs) (Some ''error'');
              (m, r) \<leftarrow> xmlnode_insert_cdata m xerr (Some err) (- 1);
              (m, app) \<leftarrow> f XSTREAM_ERR xerr (m, xs_app xs);
              Some (xs\<lparr>xs_mem := m, xs_app := app\<rparr>, xs_status xs)
            }
            else Some (xs, xs_status xs)
          })"

section \<open>Stanzas\<close>

definition xs_ready :: "nat \<Rightarrow> 'a xstream \<Rightarrow> bool" where
  "xs_ready k xs \<longleftrightarrow> xs_status xs = XSTREAM_NODE \<and> xs_depth xs + int k \<le> XSTREAM_MAXDEPTH"

lemma same_nodes: "xm_nodes m c = Some n \<Longrightarrow> m\<lparr>xm_nodes := (xm_nodes m)(c \<mapsto> n)\<rparr> = m"
  by (simp add: fun_upd_idem)

interpretation stanza: sax_builder xs_mem xs_node xs_app
  "xstream_startElement f" "xstream_endElement f" xstream_charData xs_ready "\<lambda>x. x"
  for f :: "'a on_node"
  by unfold_locales
    (auto simp: xs_ready_def xstream_startElement_def xstream_endElement_def xstream_charData_def
      depth_check_def Let_def xmlnode_get_parent_def same_nodes)

lemma xstream_events_feed: "xstream_events f es xs = stanza.feed f es xs"
proof (induction es arbitrary: xs)
  case (Cons e es)
  have "xstream_event f e xs = stanza.handle f e xs" by (cases e) auto
  with Cons show ?case by (cases "stanza.handle f e xs") auto
qed simp

text \<open>
  The contract of the client's function: given a tree it takes note of its document through \<open>g\<close>
  and leaves a memory in order; it may free the tree.
\<close>

definition consumes :: "(int \<times> 'b option) list on_node \<Rightarrow> (xml \<Rightarrow> 'b) \<Rightarrow> bool" where
  "consumes f g \<longleftrightarrow>
     (\<forall>ty m app p a cp nm as ts. rep m p None None None (ATag a cp nm as ts) \<longrightarrow>
        (\<exists>m'. f ty (Some a) (m, app) = Some (m', app @ [(ty, Some (g (document (ATag a cp nm as ts))))]) \<and> mem_ok m')) \<and>
     (\<forall>ty m app. mem_ok m \<longrightarrow> (\<exists>m'. f ty None (m, app) = Some (m', app @ [(ty, None)]) \<and> mem_ok m'))"

fun is_element :: "xml \<Rightarrow> bool" where
  "is_element (Tag nm as ts) = True"
| "is_element (CData d) = False"

text \<open>Between stanzas.\<close>

definition idle :: "nat \<Rightarrow> 'a xstream \<Rightarrow> bool" where
  "idle k xs \<longleftrightarrow> mem_ok (xs_mem xs) \<and> xs_node xs = None \<and> xs_ready k xs"

lemma new_node_in_pool:
  "mem_ok m \<Longrightarrow> mem_ok (m\<lparr>xm_pools := xm_pools m + 1\<rparr>)"
  by (auto simp: mem_ok_def less_Suc_eq)

lemma start_top:
  assumes m: "mem_ok (xs_mem xs)" and n: "xs_node xs = None"
  shows "\<exists>m2 as2. xmlnode_put_expat_attribs
      (fst (xmlnode_new_tag_pool ((xs_mem xs)\<lparr>xm_pools := xm_pools (xs_mem xs) + 1\<rparr>) (Some (xm_pools (xs_mem xs))) (Some nm)))
      (Some (xm_brk (xs_mem xs))) as = Some m2 \<and>
    rep m2 (xm_pools (xs_mem xs)) None None None (ATag (xm_brk (xs_mem xs)) 0 nm as2 []) \<and>
    map (\<lambda>x. (at_name x, at_value x)) as2 = fold (\<lambda>kv. doc_put (fst kv) (snd kv)) as [] \<and>
    snd (xmlnode_new_tag_pool ((xs_mem xs)\<lparr>xm_pools := xm_pools (xs_mem xs) + 1\<rparr>) (Some (xm_pools (xs_mem xs))) (Some nm)) =
      Some (xm_brk (xs_mem xs))"
proof -
  let ?m = "(xs_mem xs)\<lparr>xm_pools := xm_pools (xs_mem xs) + 1\<rparr>"
  note n = new_tag_rep [OF new_node_in_pool [OF m], of "xm_pools (xs_mem xs)" "Some (xm_pools (xs_mem xs))" _ nm, OF _ _ refl, simplified]
  from put_expat_rep [OF n(2), of as] obtain m2 as2 where "xmlnode_put_expat_attribs
      (fst (i_xmlnode_new ?m (Some (xm_pools (xs_mem xs))) (Some nm) NTYPE_TAG)) (Some (xm_brk (xs_mem xs))) as = Some m2"
    "rep m2 (xm_pools (xs_mem xs)) None None None (ATag (xm_brk (xs_mem xs)) 0 nm as2 [])"
    "map (\<lambda>x. (at_name x, at_value x)) as2 = fold (\<lambda>kv. doc_put (fst kv) (snd kv)) as []" by auto
  then show ?thesis using arg_cong [OF n(1), of snd]
    by (intro exI [of _ m2] exI [of _ as2]) (simp add: xmlnode_new_tag_pool_def)
qed

lemma feed_stanza:
  assumes i: "idle k xs" and f: "consumes f g" and d: "height (Tag nm as ds) \<le> k"
  shows "\<exists>xs'. xstream_events f (events (Tag nm as ds)) xs = Some xs' \<and> idle k xs' \<and>
    xs_app xs' = xs_app xs @ [(XSTREAM_NODE, Some (g (copy_doc (Tag nm as ds))))]"
proof -
  let ?m = "xs_mem xs" let ?a = "xm_brk ?m"
  obtain k' where k': "k = Suc k'" "heights ds \<le> k'" using d by (cases k) (auto simp: heights_fold)
  from start_top [of xs nm as] i obtain m2 as2 where m2:
    "xmlnode_put_expat_attribs (fst (xmlnode_new_tag_pool (?m\<lparr>xm_pools := xm_pools ?m + 1\<rparr>) (Some (xm_pools ?m)) (Some nm)))
      (Some ?a) as = Some m2" "rep m2 (xm_pools ?m) None None None (ATag ?a 0 nm as2 [])"
    "map (\<lambda>x. (at_name x, at_value x)) as2 = fold (\<lambda>kv. doc_put (fst kv) (snd kv)) as []"
    "snd (xmlnode_new_tag_pool (?m\<lparr>xm_pools := xm_pools ?m + 1\<rparr>) (Some (xm_pools ?m)) (Some nm)) = Some ?a"
    by (auto simp: idle_def)
  define xs1 where "xs1 = xs\<lparr>xs_mem := m2, xs_node := Some ?a, xs_depth := xs_depth xs + 1\<rparr>"
  have 1: "xstream_startElement f nm as xs = Some xs1"
    using i m2(1,4) k' by (cases "xmlnode_new_tag_pool (?m\<lparr>xm_pools := xm_pools ?m + 1\<rparr>) (Some (xm_pools ?m)) (Some nm)")
      (simp add: xstream_startElement_def idle_def xs_ready_def Let_def depth_check_def xs1_def)
  have r1: "xs_ready k' xs1" using i k' by (simp add: idle_def xs_ready_def xs1_def)
  from stanza.feed_contents [of xs1 "xm_pools ?m" None None None ?a 0 nm as2 "[]" k' ds f] m2(2) r1 k'(2)
  obtain xs2 ts2 where 2: "stanza.feed f (concat (map events ds)) xs1 = Some xs2" "xs_node xs2 = Some ?a"
    "xs_ready k' xs2" "xs_app xs2 = xs_app xs" "rep (xs_mem xs2) (xm_pools ?m) None None None (ATag ?a 0 nm as2 ts2)"
    "map document ts2 = copy_list [] ds" by (auto simp: xs1_def)
  let ?t = "ATag ?a 0 nm as2 ts2"
  have doc: "document ?t = copy_doc (Tag nm as ds)" using m2(3) 2(6) by simp
  from f 2(5) obtain m3 where 3: "f XSTREAM_NODE (Some ?a) (xs_mem xs2, xs_app xs) =
      Some (m3, xs_app xs @ [(XSTREAM_NODE, Some (g (document ?t)))])" "mem_ok m3"
    unfolding consumes_def by blast
  have "xmlnode_get_parent (xs_mem xs2) (Some ?a) = Some None"
    using rep_root [OF 2(5)] by (simp add: xmlnode_get_parent_def)
  then have 4: "xstream_endElement f nm xs2 = Some (xs2\<lparr>xs_mem := m3, xs_node := None,
      xs_app := xs_app xs @ [(XSTREAM_NODE, Some (g (document ?t)))], xs_depth := xs_depth xs2 - 1\<rparr>)"
    using 2(2-4) 3(1) by (simp add: xstream_endElement_def xs_ready_def)
  have "xstream_events f (events (Tag nm as ds)) xs = stanza.feed f [End_tag nm] xs2"
    using 1 2(1) by (simp add: xstream_events_feed stanza.feed_append)
  also have "\<dots> = xstream_endElement f nm xs2" by (simp add: 4)
  finally show ?thesis using 2(3) 3(2) 4 k'(1) unfolding doc
    by (auto simp: idle_def xs_ready_def)
qed

lemma feed_stanzas:
  "idle k xs \<Longrightarrow> consumes f g \<Longrightarrow> heights ds \<le> k \<Longrightarrow>
   \<exists>xs'. xstream_events f (concat (map events ds)) xs = Some xs' \<and> idle k xs' \<and>
    xs_app xs' = xs_app xs @ map (\<lambda>d. (XSTREAM_NODE, Some (g (copy_doc d)))) (filter is_element ds)"
proof (induction ds arbitrary: xs)
  case (Cons d ds)
  show ?case
  proof (cases d)
    case d: (Tag nm as us)
    from feed_stanza [OF Cons.prems(1,2), of nm as us] Cons.prems(3) d obtain xs1 where 1:
      "xstream_events f (events d) xs = Some xs1" "idle k xs1"
      "xs_app xs1 = xs_app xs @ [(XSTREAM_NODE, Some (g (copy_doc d)))]" by auto
    from Cons.IH [OF 1(2) Cons.prems(2)] Cons.prems(3) obtain xs2 where
      "xstream_events f (concat (map events ds)) xs1 = Some xs2" "idle k xs2"
      "xs_app xs2 = xs_app xs1 @ map (\<lambda>d. (XSTREAM_NODE, Some (g (copy_doc d)))) (filter is_element ds)" by auto
    with 1 d show ?thesis by (simp add: xstream_events_feed stanza.feed_append del: events.simps)
  next
    case d: (CData e)
    have "xstream_charData e xs = Some xs" using Cons.prems(1) by (simp add: xstream_charData_def idle_def)
    moreover from Cons.IH [OF Cons.prems(1,2)] Cons.prems(3) obtain xs2 where
      "xstream_events f (concat (map events ds)) xs = Some xs2" "idle k xs2"
      "xs_app xs2 = xs_app xs @ map (\<lambda>d. (XSTREAM_NODE, Some (g (copy_doc d)))) (filter is_element ds)" by auto
    ultimately show ?thesis using d by simp
  qed
qed auto

text \<open>
  C30. A whole stream: the client's function is called with the root element, then once with every
  stanza in order, each as a tree of its own that represents the stanza, and at the end of the
  stream; text between stanzas is dropped. This holds as long as no stanza is nested deeper than
  99 tags.
\<close>

theorem xstream_delivers_stanzas:
  assumes f: "consumes f g" and m: "mem_ok m" and h: "heights ds \<le> 99"
  shows "\<exists>xs'. xstream_events f (Start_tag nm as # concat (map events ds) @ [End_tag nm]) (xstream_new m []) = Some xs' \<and>
    xs_app xs' = (XSTREAM_ROOT, Some (g (copy_doc (Tag nm as [])))) #
      map (\<lambda>d. (XSTREAM_NODE, Some (g (copy_doc d)))) (filter is_element ds) @ [(XSTREAM_CLOSE, None)] \<and>
    xs_status xs' = XSTREAM_CLOSE"
proof -
  let ?xs = "xstream_new m []" let ?a = "xm_brk m"
  have x: "xs_mem ?xs = m" "xs_node ?xs = None" by (simp_all add: xstream_new_def)
  from start_top [of ?xs nm as] m obtain m2 as2 where m2:
    "xmlnode_put_expat_attribs (fst (xmlnode_new_tag_pool (m\<lparr>xm_pools := xm_pools m + 1\<rparr>) (Some (xm_pools m)) (Some nm)))
      (Some ?a) as = Some m2" "rep m2 (xm_pools m) None None None (ATag ?a 0 nm as2 [])"
    "map (\<lambda>x. (at_name x, at_value x)) as2 = fold (\<lambda>kv. doc_put (fst kv) (snd kv)) as []"
    "snd (xmlnode_new_tag_pool (m\<lparr>xm_pools := xm_pools m + 1\<rparr>) (Some (xm_pools m)) (Some nm)) = Some ?a"
    by (auto simp: x)
  have doc: "document (ATag ?a 0 nm as2 []) = copy_doc (Tag nm as [])" using m2(3) by simp
  from f m2(2) obtain m3 where 3: "f XSTREAM_ROOT (Some ?a) (m2, []) =
      Some (m3, [(XSTREAM_ROOT, Some (g (document (ATag ?a 0 nm as2 []))))])" "mem_ok m3"
    unfolding consumes_def by (metis append_Nil)
  define xs1 where "xs1 = ?xs\<lparr>xs_mem := m3, xs_status := XSTREAM_NODE, xs_depth := 1,
    xs_app := [(XSTREAM_ROOT, Some (g (copy_doc (Tag nm as []))))]\<rparr>"
  have 1: "xstream_startElement f nm as ?xs = Some xs1"
    using m2(1,4) 3(1) unfolding doc
    by (cases "xmlnode_new_tag_pool (m\<lparr>xm_pools := xm_pools m + 1\<rparr>) (Some (xm_pools m)) (Some nm)")
      (simp add: xstream_startElement_def Let_def depth_check_def xs1_def xstream_new_def)
  have "idle 99 xs1" using 3(2) by (simp add: idle_def xs_ready_def xs1_def xstream_new_def)
  from feed_stanzas [OF this f h] obtain xs2 where 2: "xstream_events f (concat (map events ds)) xs1 = Some xs2"
    "idle 99 xs2" "xs_app xs2 = xs_app xs1 @ map (\<lambda>d. (XSTREAM_NODE, Some (g (copy_doc d)))) (filter is_element ds)"
    by blast
  from f 2(2) obtain m4 where 4: "f XSTREAM_CLOSE None (xs_mem xs2, xs_app xs2) = Some (m4, xs_app xs2 @ [(XSTREAM_CLOSE, None)])"
    unfolding consumes_def idle_def by blast
  then have "xstream_endElement f nm xs2 = Some (xs2\<lparr>xs_mem := m4, xs_status := XSTREAM_CLOSE,
      xs_app := xs_app xs2 @ [(XSTREAM_CLOSE, None)], xs_depth := xs_depth xs2 - 1\<rparr>)"
    using 2(2) by (simp add: xstream_endElement_def idle_def xs_ready_def)
  then show ?thesis using 1 2
    by (simp add: xstream_events_feed stanza.feed_append xs1_def)
qed

text \<open>A client that notes the text of every tree and frees it, as a client of a stream must.\<close>

definition print_and_free :: "(int \<times> string option) list on_node" where
  "print_and_free ty x = (\<lambda>(m, log).
     if x = None then Some (m, log @ [(ty, None)])
     else do {
       s \<leftarrow> xmlnode2str m x;
       m \<leftarrow> xmlnode_free m x;
       Some (m, log @ [(ty, s)])
     })"

lemma free_ok: "mem_ok m \<Longrightarrow> mem_ok (pool_free_nodes m p)"
  by (auto simp: mem_ok_def pool_free_nodes_def split: option.splits if_splits)

lemma print_and_free_consumes: "consumes print_and_free render"
  unfolding consumes_def
proof (intro conjI allI impI)
  fix ty m and log :: "(int \<times> string option) list" and p a cp nm as ts
  assume r: "rep m p None None None (ATag a cp nm as ts)"
  have ok: "mem_ok m" using r by (simp add: rep_def)
  then show "\<exists>m'. print_and_free ty (Some a) (m, log) =
      Some (m', log @ [(ty, Some (render (document (ATag a cp nm as ts))))]) \<and> mem_ok m'"
    using rep_root [OF r] to_str_rep [OF r, of a cp nm as ts]
    by (simp add: print_and_free_def xmlnode_free_def free_ok del: document.simps)
qed (simp add: print_and_free_def)

theorem xstream_delivers_stanzas_witness:
  "\<exists>xs'. xstream_events print_and_free
      [Start_tag ''s'' [], Start_tag ''m'' [(''to'', ''b'')], Chars ''h'', Chars ''i'', End_tag ''m'', Chars '' '', End_tag ''s'']
      (xstream_new \<lparr>xm_nodes = Map.empty, xm_brk = 0, xm_pools = 0\<rparr> []) = Some xs' \<and>
    xs_app xs' = [(XSTREAM_ROOT, Some ''<s/>''), (XSTREAM_NODE, Some (render (Tag ''m'' [(''to'', ''b'')] [CData ''hi'']))),
      (XSTREAM_CLOSE, None)]"
proof -
  have "mem_ok \<lparr>xm_nodes = Map.empty, xm_brk = 0, xm_pools = 0\<rparr>" by (simp add: mem_ok_def)
  from xstream_delivers_stanzas [OF print_and_free_consumes this,
      of "[Tag ''m'' [(''to'', ''b'')] [CData ''h'', CData ''i''], CData '' '']" "''s''" "[]"]
  show ?thesis by (auto simp: doc_text_def)
qed

section \<open>The limit on the depth\<close>

text \<open>
  Whatever the parser sends and whatever the client's function does, at most 100 tags are open
  while the stream is in use, and a closed or broken stream ignores every further event.
\<close>

theorem xstream_depth_bounded:
  "(xs_depth xs \<le> XSTREAM_MAXDEPTH \<or> XSTREAM_NODE < xs_status xs \<longrightarrow>
     xstream_events f es xs = Some xs' \<longrightarrow>
     xs_depth xs' \<le> XSTREAM_MAXDEPTH \<or> XSTREAM_NODE < xs_status xs') \<and>
   (XSTREAM_NODE < xs_status xs \<longrightarrow> xstream_events f es xs = Some xs)"
proof -
  have e: "xs_depth xs' \<le> XSTREAM_MAXDEPTH \<or> XSTREAM_NODE < xs_status xs'"
    if "xs_depth xs \<le> XSTREAM_MAXDEPTH \<or> XSTREAM_NODE < xs_status xs" "xstream_event f e xs = Some xs'"
    for e xs xs'
    using that
    by (cases e)
      (auto simp: xstream_startElement_def xstream_endElement_def xstream_charData_def depth_check_def Let_def
        split: if_splits Option.bind_splits prod.splits)
  have "xs_depth xs \<le> XSTREAM_MAXDEPTH \<or> XSTREAM_NODE < xs_status xs \<Longrightarrow>
      xstream_events f es xs = Some xs' \<Longrightarrow>
      xs_depth xs' \<le> XSTREAM_MAXDEPTH \<or> XSTREAM_NODE < xs_status xs'"
  proof (induction es arbitrary: xs)
    case (Cons d es)
    then show ?case using e by (cases "xstream_event f d xs") auto
  qed simp
  moreover have "xstream_events f es xs = Some xs" if "XSTREAM_NODE < xs_status xs"
  proof (induction es)
    case (Cons d es)
    have "xstream_event f d xs = Some xs" using that
      by (cases d) (simp_all add: xstream_startElement_def xstream_endElement_def xstream_charData_def)
    with Cons show ?case by simp
  qed simp
  ultimately show ?thesis by blast
qed

theorem xstream_depth_bounded_witness:
  "(case xstream_events print_and_free (replicate 150 (Start_tag ''a'' []))
      (xstream_new \<lparr>xm_nodes = Map.empty, xm_brk = 0, xm_pools = 0\<rparr> []) of
      None \<Rightarrow> True
    | Some xs' \<Rightarrow> xs_depth xs' \<le> XSTREAM_MAXDEPTH \<or> XSTREAM_NODE < xs_status xs') \<and>
   xstream_events print_and_free [Start_tag ''a'' []]
     ((xstream_new \<lparr>xm_nodes = Map.empty, xm_brk = 0, xm_pools = 0\<rparr> [])\<lparr>xs_status := XSTREAM_ERR\<rparr>) =
     Some ((xstream_new \<lparr>xm_nodes = Map.empty, xm_brk = 0, xm_pools = 0\<rparr> [])\<lparr>xs_status := XSTREAM_ERR\<rparr>)"
proof (rule conjI)
  have d: "xs_depth (xstream_new \<lparr>xm_nodes = Map.empty, xm_brk = 0, xm_pools = 0\<rparr> []) \<le> XSTREAM_MAXDEPTH"
    by (simp add: xstream_new_def)
  show "case xstream_events print_and_free (replicate 150 (Start_tag ''a'' []))
      (xstream_new \<lparr>xm_nodes = Map.empty, xm_brk = 0, xm_pools = 0\<rparr> []) of
      None \<Rightarrow> True
    | Some xs' \<Rightarrow> xs_depth xs' \<le> XSTREAM_MAXDEPTH \<or> XSTREAM_NODE < xs_status xs'"
    using d xstream_depth_bounded by (auto split: option.splits simp del: xstream_events.simps)
next
  show "xstream_events print_and_free [Start_tag ''a'' []]
     ((xstream_new \<lparr>xm_nodes = Map.empty, xm_brk = 0, xm_pools = 0\<rparr> [])\<lparr>xs_status := XSTREAM_ERR\<rparr>) =
     Some ((xstream_new \<lparr>xm_nodes = Map.empty, xm_brk = 0, xm_pools = 0\<rparr> [])\<lparr>xs_status := XSTREAM_ERR\<rparr>)"
    using xstream_depth_bounded
      [of "(xstream_new \<lparr>xm_nodes = Map.empty, xm_brk = 0, xm_pools = 0\<rparr> [])\<lparr>xs_status := XSTREAM_ERR\<rparr>"] by (auto simp del: xstream_events.simps)
qed

end
