(* ===== verification/Jid.thy ===== *)
theory Jid
  imports XmlBuild
begin

text \<open>
  Jabber identifiers \<open>user@server/resource\<close> (\<open>libjabber/jid.c\<close>): parsing, validation, printing,
  comparison and lists without duplicates.
\<close>

abbreviation JID_RESOURCE :: int where "JID_RESOURCE \<equiv> 1"
abbreviation JID_USER :: int where "JID_USER \<equiv> 2"
abbreviation JID_SERVER :: int where "JID_SERVER \<equiv> 4"

text \<open>The field \<open>next\<close> is the order of a list of identifiers.\<close>

record jid =
  jid_p :: nat
  jid_resource :: "string option"
  jid_user :: "string option"
  jid_server :: string
  jid_full_copy :: "string option"

section \<open>Validation\<close>

text \<open>A plain \<open>char\<close> is signed.\<close>

definition signed_char :: "char \<Rightarrow> int" where
  "signed_char c = (if (of_char c :: int) < 128 then of_char c else of_char c - 256)"

definition server_char :: "char \<Rightarrow> bool" where
  "server_char c \<longleftrightarrow> c_isalnum c \<or> c = CHR ''.'' \<or> c = CHR ''-'' \<or> c = CHR ''_''"

definition bad_user_char :: "char \<Rightarrow> bool" where
  "bad_user_char c \<longleftrightarrow> signed_char c \<le> 32 \<or> c = CHR '':'' \<or> c = CHR ''@'' \<or> c = CHR ''<'' \<or>
     c = CHR ''>'' \<or> c = CHR 0x27 \<or> c = CHR 0x22 \<or> c = CHR ''&''"

text \<open>The loop over the server writes lower case until it finds a bad character.\<close>

fun lower_server :: "string \<Rightarrow> string \<times> bool" where
  "lower_server [] = ([], True)"
| "lower_server (c # cs) =
     (if server_char (c_tolower c) then let (s, ok) = lower_server cs in (c_tolower c # s, ok)
      else (c_tolower c # cs, False))"

definition jid_safe :: "jid \<Rightarrow> jid \<times> bool" where
  "jid_safe i =
     (if length (jid_server i) = 0 \<or> 255 < length (jid_server i) then (i, False)
      else
        let (s, ok) = lower_server (jid_server i); i = i\<lparr>jid_server := s\<rparr> in
        if \<not> ok then (i, False)
        else
          let i = (case jid_user i of None \<Rightarrow> i
                   | Some u \<Rightarrow> if 64 < length u then i\<lparr>jid_user := Some (take 64 u)\<rparr> else i) in
          (case jid_user i of None \<Rightarrow> (i, True)
           | Some u \<Rightarrow> (i, \<not> list_ex bad_user_char u)))"

section \<open>Parsing and printing\<close>

text \<open>
  \<open>str\<close>, \<open>type\<close>, \<open>server\<close> and \<open>resource\<close> point into one copy of the text that is cut by writing
  zero bytes; positions count from the start of the copy.
\<close>

definition jid_parts :: "string \<Rightarrow> string \<times> string \<times> string" where
  "jid_parts t =
     (let (head, resource, rest) =
            (case strstr t ''/'' of
               Some i \<Rightarrow> (take i t, i + 1, drop (i + 1) t)
             | None \<Rightarrow> (t, length t, []));
          (base, str) =
            (case strstr head '':'' of
               Some i \<Rightarrow> if i < resource then (i + 1, drop (i + 1) head) else (0, head)
             | None \<Rightarrow> (0, head));
          (user, server) =
            (case strstr str ''@'' of
               Some i \<Rightarrow> if base + i \<le> resource then (take i str, drop (i + 1) str) else ([], str)
             | None \<Rightarrow> ([], str)) in
      (user, server, rest))"

definition jid_new :: "nat option \<Rightarrow> string option \<Rightarrow> jid option" where
  "jid_new p idstr =
     (case (p, idstr) of
        (Some p, Some t) \<Rightarrow>
          if length t = 0 then None
          else
            let (user, server, rest) = jid_parts t;
                (i, ok) = jid_safe \<lparr>jid_p = p,
                  jid_resource = (if 0 < length rest then Some rest else None),
                  jid_user = (if 0 < length user then Some user else None),
                  jid_server = server, jid_full_copy = None\<rparr> in
            if ok then Some i else None
      | _ \<Rightarrow> None)"

definition jid_full :: "jid \<Rightarrow> jid \<times> string option" where
  "jid_full i =
     (case jid_full_copy i of
        Some f \<Rightarrow> (i, Some f)
      | None \<Rightarrow>
          let s = spool_new;
              s = (case jid_user i of None \<Rightarrow> s | Some u \<Rightarrow> spooler s [Some u, Some ''@'']);
              s = spool_add s (Some (jid_server i));
              s = (case jid_resource i of None \<Rightarrow> s | Some r \<Rightarrow> spooler s [Some ''/'', Some r]);
              full = spool_print (Some s) in
          (i\<lparr>jid_full_copy := full\<rparr>, full))"

text \<open>A \<open>NULL\<close> server is dereferenced in \<open>jid_safe\<close>.\<close>

definition jid_set :: "jid \<Rightarrow> string option \<Rightarrow> int \<Rightarrow> jid option" where
  "jid_set i str item =
     (let i = i\<lparr>jid_full_copy := None\<rparr>;
          some = (case str of None \<Rightarrow> None | Some s \<Rightarrow> if length s \<noteq> 0 then Some s else None) in
      if item = JID_RESOURCE then Some (i\<lparr>jid_resource := some\<rparr>)
      else if item = JID_USER then
        let old = jid_user i; (i, ok) = jid_safe (i\<lparr>jid_user := some\<rparr>) in
        Some (if ok then i else i\<lparr>jid_user := old\<rparr>)
      else if item = JID_SERVER then
        (case str of None \<Rightarrow> None
         | Some s \<Rightarrow>
             let old = jid_server i; (i, ok) = jid_safe (i\<lparr>jid_server := s\<rparr>) in
             Some (if ok then i else i\<lparr>jid_server := old\<rparr>))
      else Some i)"

section \<open>Comparison and lists\<close>

definition jid_nullstrcmp :: "string option \<Rightarrow> string option \<Rightarrow> int" where
  "jid_nullstrcmp a b = (case (a, b) of (None, None) \<Rightarrow> 0 | (Some x, Some y) \<Rightarrow> strcmp x y | _ \<Rightarrow> - 1)"

definition jid_nullstrcasecmp :: "string option \<Rightarrow> string option \<Rightarrow> int" where
  "jid_nullstrcasecmp a b = (case (a, b) of (None, None) \<Rightarrow> 0 | (Some x, Some y) \<Rightarrow> strcasecmp x y | _ \<Rightarrow> - 1)"

definition jid_cmp :: "jid option \<Rightarrow> jid option \<Rightarrow> int" where
  "jid_cmp a b =
     (case (a, b) of
        (Some a, Some b) \<Rightarrow>
          if jid_nullstrcmp (jid_resource a) (jid_resource b) \<noteq> 0 then - 1
          else if jid_nullstrcasecmp (jid_user a) (jid_user b) \<noteq> 0 then - 1
          else if jid_nullstrcmp (Some (jid_server a)) (Some (jid_server b)) \<noteq> 0 then - 1
          else 0
      | _ \<Rightarrow> - 1)"

definition has_part :: "int \<Rightarrow> int \<Rightarrow> bool" where
  "has_part parts part \<longleftrightarrow> (parts div part) mod 2 \<noteq> 0"

definition jid_cmpx :: "jid option \<Rightarrow> jid option \<Rightarrow> int \<Rightarrow> int" where
  "jid_cmpx a b parts =
     (case (a, b) of
        (Some a, Some b) \<Rightarrow>
          if has_part parts JID_RESOURCE \<and> jid_nullstrcmp (jid_resource a) (jid_resource b) \<noteq> 0 then - 1
          else if has_part parts JID_USER \<and> jid_nullstrcasecmp (jid_user a) (jid_user b) \<noteq> 0 then - 1
          else if has_part parts JID_SERVER \<and> jid_nullstrcmp (Some (jid_server a)) (Some (jid_server b)) \<noteq> 0 then - 1
          else 0
      | _ \<Rightarrow> - 1)"

text \<open>
  \<open>jid_append\<close>: \<open>nodes\<close> are the identifiers from \<open>next\<close> on; \<open>p\<close> is the pool of the list. The copy
  that is appended is looked at by the next turn of the loop. A loop that does not end has no result.
\<close>

partial_function (option) append_loop :: "nat \<Rightarrow> jid list \<Rightarrow> jid \<Rightarrow> (jid list \<times> jid) option" where
  "append_loop p nodes b =
     (case nodes of
        [] \<Rightarrow> Some ([], b)
      | n # rest \<Rightarrow>
          if jid_cmp (Some n) (Some b) = 0 then Some (nodes, b)
          else if rest = [] then
            (case jid_full b of (b, full) \<Rightarrow>
               (case jid_new (Some p) full of
                  None \<Rightarrow> Some ([n], b)
                | Some i \<Rightarrow> do {
                    (is, b) \<leftarrow> append_loop p [i] b;
                    Some (n # is, b)
                  }))
          else do {
            (is, b) \<leftarrow> append_loop p rest b;
            Some (n # is, b)
          })"

definition jid_append :: "jid list \<Rightarrow> jid option \<Rightarrow> (jid list \<times> jid option) option" where
  "jid_append a b =
     (case (a, b) of
        ([], _) \<Rightarrow> Some ([], b)
      | (_, None) \<Rightarrow> Some (a, None)
      | (x # xs, Some i) \<Rightarrow> map_option (\<lambda>(is, i). (is, Some i)) (append_loop (jid_p x) a i))"

section \<open>Identifiers and XML\<close>

text \<open>\<open>jid_xres\<close>: the attributes after the question mark of the resource, and the node they are put into.\<close>

function xres_loop :: "xmem \<Rightarrow> ptr \<Rightarrow> string \<Rightarrow> xmem option" where
  "xres_loop m x cur =
     (case strstr cur ''='' of
        None \<Rightarrow> Some m
      | Some e \<Rightarrow>
          let name = take e cur; eq = drop (e + 1) cur in
          (case strstr eq ''&'' of
             None \<Rightarrow> xmlnode_put_attrib m x (Some name) (Some eq)
           | Some a \<Rightarrow> do {
               m \<leftarrow> xmlnode_put_attrib m x (Some name) (Some (take a eq));
               xres_loop m x (drop (a + 1) eq)
             }))"
  by pat_completeness auto
termination
  by (relation "measure (\<lambda>(m, x, cur). length cur)")
    (auto simp: strstr_single dest: strchr_Some_take)

declare xres_loop.simps [simp del]

definition jid_xres :: "xmem \<Rightarrow> jid option \<Rightarrow> (xmem \<times> ptr) option" where
  "jid_xres m i =
     (case i of
        None \<Rightarrow> Some (m, None)
      | Some i \<Rightarrow>
          (case jid_resource i of
             None \<Rightarrow> Some (m, None)
           | Some cur \<Rightarrow>
               (case strstr cur ''?'' of
                  None \<Rightarrow> Some (m, None)
                | Some q \<Rightarrow> do {
                    let (m, x) = i_xmlnode_new m (Some (jid_p i)) (Some (take q cur)) NTYPE_TAG;
                    m \<leftarrow> xres_loop m x (drop (q + 1) cur);
                    Some (m, x)
                  })))"

text \<open>\<open>jid_nodescan\<close>: its pool only holds the identifiers it parses and is freed before it returns.\<close>

definition jid_nodescan :: "xmem \<Rightarrow> jid option \<Rightarrow> ptr \<Rightarrow> ptr option" where
  "jid_nodescan m i x = do {
     c \<leftarrow> xmlnode_get_firstchild m x;
     if i = None \<or> c = None then Some None
     else siblings m c (\<lambda>cur. do {
       t \<leftarrow> xmlnode_get_type m (Some cur);
       if t \<noteq> NTYPE_TAG then Some None
       else do {
         v \<leftarrow> xmlnode_get_attrib m (Some cur) (Some ''jid'');
         let tmp = jid_new (Some (xm_pools m)) v;
         if tmp = None then Some None
         else if jid_cmp tmp i = 0 then Some (Some cur)
         else Some None
       }
     })
   }"

section \<open>Well-formed identifiers\<close>

text \<open>
  What every identifier satisfies that \<open>jid_new\<close> returns. A user part may hold a slash only when
  \<open>jid_set\<close> put it there.
\<close>

definition jid_text :: "jid \<Rightarrow> string" where
  "jid_text i = (case jid_user i of None \<Rightarrow> [] | Some u \<Rightarrow> u @ ''@'') @ jid_server i @
     (case jid_resource i of None \<Rightarrow> [] | Some r \<Rightarrow> CHR ''/'' # r)"

definition jid_ok :: "jid \<Rightarrow> bool" where
  "jid_ok i \<longleftrightarrow> jid_server i \<noteq> [] \<and> length (jid_server i) \<le> 255 \<and>
     list_all (\<lambda>c. server_char c \<and> c_tolower c = c) (jid_server i) \<and>
     (case jid_user i of None \<Rightarrow> True | Some u \<Rightarrow> u \<noteq> [] \<and> length u \<le> 64 \<and> \<not> list_ex bad_user_char u) \<and>
     jid_resource i \<noteq> Some [] \<and> (jid_full_copy i = None \<or> jid_full_copy i = Some (jid_text i))"

definition slash_free :: "jid \<Rightarrow> bool" where
  "slash_free i \<longleftrightarrow> (case jid_user i of None \<Rightarrow> True | Some u \<Rightarrow> CHR ''/'' \<notin> set u)"

lemma lower_server_spec:
  "lower_server s = (s', ok) \<Longrightarrow> length s' = length s \<and> (ok \<longrightarrow> s' = map c_tolower s \<and> list_all server_char s')"
  by (induction s arbitrary: s' ok) (auto split: if_splits prod.splits)

lemma lower_server_fix:
  "list_all (\<lambda>c. server_char c \<and> c_tolower c = c) s \<Longrightarrow> lower_server s = (s, True)"
  by (induction s) auto

lemma jid_safe_ok:
  assumes s: "jid_safe i = (i', True)" and r: "jid_resource i \<noteq> Some []" "jid_user i \<noteq> Some []" "jid_full_copy i = None"
  shows "jid_ok i'" "jid_p i' = jid_p i" "jid_resource i' = jid_resource i" "jid_full_copy i' = None"
    "jid_server i' = map c_tolower (jid_server i)" "jid_user i' = map_option (take 64) (jid_user i)"
proof -
  have "list_all (\<lambda>c. server_char c \<and> c_tolower c = c) (map c_tolower t)"
    if "list_all server_char (map c_tolower t)" for t
    using that by (simp add: list_all_iff)
  then show "jid_ok i'" "jid_p i' = jid_p i" "jid_resource i' = jid_resource i" "jid_full_copy i' = None"
    "jid_server i' = map c_tolower (jid_server i)" "jid_user i' = map_option (take 64) (jid_user i)"
    using s r
    by (auto simp: jid_safe_def jid_ok_def Let_def split: if_splits prod.splits option.splits
        dest!: lower_server_spec)
qed

lemma jid_safe_fix: "jid_ok i \<Longrightarrow> jid_safe i = (i, True)"
  by (auto simp: jid_safe_def jid_ok_def Let_def lower_server_fix split: option.splits)

lemma jid_full_text: "jid_ok i \<Longrightarrow> jid_full i = (i\<lparr>jid_full_copy := Some (jid_text i)\<rparr>, Some (jid_text i))"
  by (auto simp: jid_full_def jid_text_def jid_ok_def Let_def spool_print_text split: option.splits)


section \<open>Parsing what was printed\<close>

lemma server_char_separators:
  "server_char c \<Longrightarrow> c \<noteq> CHR ''/'' \<and> c \<noteq> CHR '':'' \<and> c \<noteq> CHR ''@''"
  by (auto simp: server_char_def c_isalnum_def c_isalpha_def c_isdigit_def)

lemma jid_ok_separators:
  assumes "jid_ok i"
  shows "set (jid_server i) \<inter> {CHR ''/'', CHR '':'', CHR ''@''} = {}"
    "jid_user i = Some u \<Longrightarrow> set u \<inter> {CHR '':'', CHR ''@''} = {}"
  using assms server_char_separators by (auto simp: jid_ok_def list_all_iff list_ex_iff bad_user_char_def)

text \<open>The three cuts, on a text whose parts hold no separator of an earlier cut.\<close>

lemma jid_new_parts:
  assumes "set s \<inter> {CHR ''/'', CHR '':'', CHR ''@''} = {}" "s \<noteq> []"
    and "set (opt_text u) \<inter> {CHR ''/'', CHR '':'', CHR ''@''} = {}"
  shows "jid_new (Some p) (Some ((case u of None \<Rightarrow> [] | Some u \<Rightarrow> u @ ''@'') @ s @ (case r of None \<Rightarrow> [] | Some r \<Rightarrow> CHR ''/'' # r))) =
    (let (i, ok) = jid_safe \<lparr>jid_p = p, jid_resource = (if r = Some [] then None else r),
        jid_user = (if u = Some [] then None else u), jid_server = s, jid_full_copy = None\<rparr> in
     if ok then Some i else None)"
proof -
  have 1: "strchr s (CHR ''@'') = None" "strchr s (CHR '':'') = None" "strchr s (CHR ''/'') = None"
    using assms(1) by (auto simp: strchr_None)
  have 2: "strchr x (CHR '':'') = None" "strchr (x @ CHR ''@'' # s) (CHR '':'') = None"
      "strchr (x @ CHR ''@'' # s) (CHR ''/'') = None" "strchr (x @ CHR ''@'' # s) (CHR ''@'') = Some (length x)"
      "strchr (x @ CHR ''@'' # s @ CHR ''/'' # y) (CHR ''/'') = Some (Suc (length x + length s))"
      "strchr (s @ CHR ''/'' # y) (CHR ''/'') = Some (length s)"
    if "u = Some x" for x y
  proof -
    have x: "CHR ''/'' \<notin> set x" "CHR '':'' \<notin> set x" "CHR ''@'' \<notin> set x" using assms(3) that by auto
    show "strchr x (CHR '':'') = None" using x by (simp add: strchr_None)
    show "strchr (x @ CHR ''@'' # s) (CHR '':'') = None" "strchr (x @ CHR ''@'' # s) (CHR ''/'') = None"
      using x assms(1) by (auto simp: strchr_None)
    show "strchr (x @ CHR ''@'' # s) (CHR ''@'') = Some (length x)" using x by (simp add: strchr_at)
    show "strchr (x @ CHR ''@'' # s @ CHR ''/'' # y) (CHR ''/'') = Some (Suc (length x + length s))"
      using x assms(1) strchr_at [of "CHR ''/''" "x @ CHR ''@'' # s" y] by auto
    show "strchr (s @ CHR ''/'' # y) (CHR ''/'') = Some (length s)"
      using assms(1) by (intro strchr_at) auto
  qed
  have 3: "strchr (s @ CHR ''/'' # y) (CHR ''/'') = Some (length s)" for y
    using assms(1) by (intro strchr_at) auto
  show ?thesis using assms(2) 1 2 3
    by (cases u; cases r) (simp_all add: jid_new_def jid_parts_def strstr_single Let_def)
qed

lemma jid_new_text:
  assumes ok: "jid_ok i" and s: "slash_free i"
  shows "jid_new (Some p) (Some (jid_text i)) = Some (i\<lparr>jid_p := p, jid_full_copy := None\<rparr>)"
proof -
  have 1: "set (opt_text (jid_user i)) \<inter> {CHR ''/'', CHR '':'', CHR ''@''} = {}"
    using s jid_ok_separators(2) [OF ok] by (cases "jid_user i") (auto simp: slash_free_def)
  have 2: "jid_server i \<noteq> []" "jid_resource i \<noteq> Some []" "jid_user i \<noteq> Some []"
    using ok by (auto simp: jid_ok_def)
  have "jid_ok (i\<lparr>jid_p := p, jid_full_copy := None\<rparr>)" using ok by (simp add: jid_ok_def)
  from jid_safe_fix [OF this] jid_new_parts [OF jid_ok_separators(1) [OF ok] 2(1) 1, of p "jid_resource i"] 2(2,3)
  show ?thesis by (cases i) (simp add: jid_text_def)
qed

lemma take_strchr_notin: "strchr s c = Some i \<Longrightarrow> c \<notin> set (take i s)"
  by (simp add: strchr_Some_take)

lemma jid_parts_user:
  assumes "jid_parts t = (user, server, rest)"
  shows "CHR ''/'' \<notin> set user"
proof -
  define cut where "cut = (case strchr t (CHR ''/'') of Some i \<Rightarrow> (take i t, i + 1, drop (i + 1) t) | None \<Rightarrow> (t, length t, []))"
  obtain head resource rest' where cut': "cut = (head, resource, rest')" by (cases cut)
  have h: "CHR ''/'' \<notin> set head"
    using cut' unfolding cut_def by (auto simp: strchr_None take_strchr_notin split: option.splits)
  define kind where "kind = (case strchr head (CHR '':'') of
      Some i \<Rightarrow> if i < resource then (i + 1, drop (i + 1) head) else (0, head) | None \<Rightarrow> (0, head))"
  obtain base str where kind': "kind = (base, str)" by (cases kind)
  have k: "CHR ''/'' \<notin> set str"
    using kind' h unfolding kind_def by (auto split: option.splits if_splits dest: in_set_dropD)
  have "(user, server) = (case strchr str (CHR ''@'') of
      Some i \<Rightarrow> if base + i \<le> resource then (take i str, drop (i + 1) str) else ([], str) | None \<Rightarrow> ([], str))"
    using assms unfolding jid_parts_def strstr_single cut_def [symmetric] cut' Let_def prod.case
      kind_def [symmetric] kind' by (auto split: prod.splits)
  with k show ?thesis by (auto split: option.splits if_splits dest: in_set_takeD)
qed

lemma jid_new_raw:
  assumes "jid_new p t = Some i"
  shows "\<exists>q r u s. p = Some q \<and> r \<noteq> Some [] \<and> u \<noteq> Some [] \<and> CHR ''/'' \<notin> set (opt_text u) \<and>
    jid_safe \<lparr>jid_p = q, jid_resource = r, jid_user = u, jid_server = s, jid_full_copy = None\<rparr> = (i, True)"
proof -
  obtain q x where pt: "p = Some q" "t = Some x" "x \<noteq> []" using assms
    by (auto simp: jid_new_def split: option.splits if_splits)
  obtain user server rest where parts: "jid_parts x = (user, server, rest)" by (cases "jid_parts x")
  from assms pt parts jid_parts_user [OF parts] show ?thesis
    by (intro exI [of _ q] exI [of _ "if 0 < length rest then Some rest else None"]
      exI [of _ "if 0 < length user then Some user else None"] exI [of _ server])
      (auto simp: jid_new_def split: prod.splits if_splits)
qed

lemma jid_new_ok:
  assumes "jid_new p t = Some i"
  shows "jid_ok i" "slash_free i" "p = Some (jid_p i)" "jid_full_copy i = None"
proof -
  from jid_new_raw [OF assms] obtain q r u s where 1: "p = Some q" "r \<noteq> Some []" "u \<noteq> Some []"
    "CHR ''/'' \<notin> set (opt_text u)"
    "jid_safe \<lparr>jid_p = q, jid_resource = r, jid_user = u, jid_server = s, jid_full_copy = None\<rparr> = (i, True)" by blast
  note s = jid_safe_ok [OF 1(5)]
  show "jid_ok i" "p = Some (jid_p i)" "jid_full_copy i = None" using s 1(1-3) by simp_all
  show "slash_free i" using s(6) 1(2-4) by (cases u) (auto simp: slash_free_def dest: in_set_takeD)
qed

lemma jid_safe_fields:
  "jid_resource (fst (jid_safe x)) = jid_resource x" "jid_full_copy (fst (jid_safe x)) = jid_full_copy x"
  "list_all (\<lambda>c. server_char c \<and> c_tolower c = c) (jid_server x) \<Longrightarrow> jid_server (fst (jid_safe x)) = jid_server x"
  "(\<And>u. jid_user x = Some u \<Longrightarrow> length u \<le> 64) \<Longrightarrow> jid_user (fst (jid_safe x)) = jid_user x"
  using lower_server_fix [of "jid_server x"]
  by (auto simp: jid_safe_def Let_def split: option.splits prod.splits)

text \<open>Setting a part keeps an identifier well formed: a refused value leaves the old one.\<close>

lemma jid_set_ok:
  assumes ok: "jid_ok i" and s: "jid_set i str item = Some i'"
  shows "jid_ok i'"
proof -
  define i0 where "i0 = i\<lparr>jid_full_copy := None\<rparr>"
  define some where "some = (case str of None \<Rightarrow> None | Some s \<Rightarrow> if length s \<noteq> 0 then Some s else None)"
  have ne: "some \<noteq> Some []" by (auto simp: some_def split: option.splits)
  have set: "jid_set i str item =
     (if item = JID_RESOURCE then Some (i0\<lparr>jid_resource := some\<rparr>)
      else if item = JID_USER then
        (case jid_safe (i0\<lparr>jid_user := some\<rparr>) of (j, ok) \<Rightarrow> Some (if ok then j else j\<lparr>jid_user := jid_user i\<rparr>))
      else if item = JID_SERVER then
        (case str of None \<Rightarrow> None
         | Some s \<Rightarrow> (case jid_safe (i0\<lparr>jid_server := s\<rparr>) of (j, ok) \<Rightarrow> Some (if ok then j else j\<lparr>jid_server := jid_server i\<rparr>)))
      else Some i0)"
    by (simp add: jid_set_def i0_def some_def Let_def split: option.split)
  have i0: "jid_ok i0" "jid_resource i0 \<noteq> Some []" "jid_user i0 \<noteq> Some []" "jid_full_copy i0 = None"
    using ok by (auto simp: i0_def jid_ok_def)
  consider "item = JID_RESOURCE" | "item = JID_USER" | s where "item = JID_SERVER" "str = Some s" | "i' = i0"
    using s unfolding set by (auto split: if_splits option.splits)
  then show ?thesis
  proof cases
    case 1
    then show ?thesis using s ne i0 unfolding set by (auto simp: jid_ok_def)
  next
    case 2
    obtain j b where j: "jid_safe (i0\<lparr>jid_user := some\<rparr>) = (j, b)" by fastforce
    show ?thesis
    proof (cases b)
      case True
      then show ?thesis using jid_safe_ok(1) [of "i0\<lparr>jid_user := some\<rparr>" j] j i0 ne s 2 unfolding set by simp
    next
      case False
      then show ?thesis using jid_safe_fields [of "i0\<lparr>jid_user := some\<rparr>"] j i0 s 2 unfolding set
        by (auto simp: jid_ok_def i0_def)
    qed
  next
    case (3 t)
    obtain j b where j: "jid_safe (i0\<lparr>jid_server := t\<rparr>) = (j, b)" by fastforce
    show ?thesis
    proof (cases b)
      case True
      then show ?thesis using jid_safe_ok(1) [of "i0\<lparr>jid_server := t\<rparr>" j] j i0 s 3 unfolding set by simp
    next
      case False
      have "length u \<le> 64" if "jid_user i = Some u" for u using ok that by (simp add: jid_ok_def)
      then have "jid_user j = jid_user i" using jid_safe_fields(4) [of "i0\<lparr>jid_server := t\<rparr>"] j
        by (simp add: i0_def)
      then show ?thesis using jid_safe_fields [of "i0\<lparr>jid_server := t\<rparr>"] j i0 s 3 False unfolding set
        by (auto simp: jid_ok_def i0_def)
    qed
  qed (use i0 in simp)
qed

section \<open>Lists\<close>

lemma append_loop_Cons:
  "append_loop p (n # rest) b =
     (if jid_cmp (Some n) (Some b) = 0 then Some (n # rest, b)
      else if rest = [] then
        (case jid_full b of (b, full) \<Rightarrow>
           (case jid_new (Some p) full of
              None \<Rightarrow> Some ([n], b)
            | Some i \<Rightarrow> do {
                (is, b) \<leftarrow> append_loop p [i] b;
                Some (n # is, b)
              }))
      else do {
        (is, b) \<leftarrow> append_loop p rest b;
        Some (n # is, b)
      })"
  by (subst append_loop.simps) simp

lemma append_loop_found:
  "(\<exists>n \<in> set nodes. jid_cmp (Some n) (Some b) = 0) \<Longrightarrow> append_loop p nodes b = Some (nodes, b)"
proof (induction nodes)
  case (Cons n nodes)
  show ?case
  proof (cases "jid_cmp (Some n) (Some b) = 0")
    case False
    then have "\<exists>n \<in> set nodes. jid_cmp (Some n) (Some b) = 0" using Cons.prems by simp
    moreover from Cons.IH [OF this] have "append_loop p nodes b = Some (nodes, b)" .
    ultimately show ?thesis using False by (auto simp: append_loop_Cons)
  qed (simp add: append_loop_Cons)
qed simp

lemma jid_cmp_same: "jid_server i = jid_server j \<Longrightarrow> jid_user i = jid_user j \<Longrightarrow> jid_resource i = jid_resource j \<Longrightarrow>
    jid_cmp (Some i) (Some j) = 0"
  by (auto simp: jid_cmp_def jid_nullstrcmp_def jid_nullstrcasecmp_def strcasecmp_eq_0 split: option.splits)

lemma append_loop_new:
  assumes "jid_ok b" "slash_free b"
  shows "nodes \<noteq> [] \<Longrightarrow> \<not> (\<exists>n \<in> set nodes. jid_cmp (Some n) (Some b) = 0) \<Longrightarrow>
    append_loop p nodes b = Some (nodes @ [b\<lparr>jid_p := p, jid_full_copy := None\<rparr>], b\<lparr>jid_full_copy := Some (jid_text b)\<rparr>)"
proof (induction nodes)
  case (Cons n nodes)
  let ?b = "b\<lparr>jid_full_copy := Some (jid_text b)\<rparr>" and ?c = "b\<lparr>jid_p := p, jid_full_copy := None\<rparr>"
  have "append_loop p [?c] ?b = Some ([?c], ?b)"
    by (rule append_loop_found) (simp add: jid_cmp_same)
  then show ?case using Cons jid_new_text [OF assms, of p]
    by (cases nodes) (simp_all add: append_loop_Cons [of p n] jid_full_text [OF assms(1)])
qed simp

lemma jid_text_slash:
  assumes ok: "jid_ok b" and s: "\<not> slash_free b" and n: "jid_new (Some p) (Some (jid_text b)) = Some i"
  shows "jid_user i = None"
proof -
  obtain u where u: "jid_user b = Some u" "CHR ''/'' \<in> set u" using s by (auto simp: slash_free_def split: option.splits)
  then obtain x y where xy: "u = x @ CHR ''/'' # y" "CHR ''/'' \<notin> set x" using split_list_first by metis
  have x: "strchr x (CHR ''@'') = None" "strchr x (CHR '':'') = None"
    using jid_ok_separators(2) [OF ok u(1)] xy(1) by (auto simp: strchr_None)
  have t: "jid_text b = x @ CHR ''/'' # (y @ ''@'' @ jid_server b @ (case jid_resource b of None \<Rightarrow> [] | Some r \<Rightarrow> CHR ''/'' # r))"
    using u xy by (simp add: jid_text_def)
  have "strchr (jid_text b) (CHR ''/'') = Some (length x)" unfolding t by (rule strchr_at [OF xy(2)])
  moreover have "take (length x) (jid_text b) = x" unfolding t by simp
  ultimately have "\<exists>r. jid_safe \<lparr>jid_p = p, jid_resource = r, jid_user = None, jid_server = x, jid_full_copy = None\<rparr> = (i, True)"
    using n x by (auto simp: jid_new_def jid_parts_def strstr_single Let_def split: if_splits prod.splits)
  then obtain r where "jid_safe \<lparr>jid_p = p, jid_resource = r, jid_user = None, jid_server = x, jid_full_copy = None\<rparr> = (i, True)" ..
  then show ?thesis by (auto simp: jid_safe_def Let_def split: if_splits prod.splits)
qed

lemma jid_cmp_user: "jid_cmp (Some n) (Some b) = 0 \<Longrightarrow> (jid_user n = None) = (jid_user b = None)"
  by (auto simp: jid_cmp_def jid_nullstrcasecmp_def split: if_splits option.splits)

lemma jid_cmp_full [simp]: "jid_cmp (Some n) (Some (b\<lparr>jid_full_copy := f\<rparr>)) = jid_cmp (Some n) (Some b)"
  by (simp add: jid_cmp_def)

text \<open>The loop never ends when the printed text is read back as another identifier.\<close>

lemma append_loop_diverges:
  assumes ok: "jid_ok b" and i: "jid_new (Some p) (Some (jid_text b)) = Some i" and ne: "jid_cmp (Some i) (Some b) \<noteq> 0"
  shows "append_loop p nodes b = Some r \<Longrightarrow> nodes = [] \<or> (\<exists>n \<in> set nodes. jid_cmp (Some n) (Some b) = 0)"
proof -
  have "q = p \<longrightarrow> c = b \<or> c = b\<lparr>jid_full_copy := Some (jid_text b)\<rparr> \<longrightarrow>
      nodes = [] \<or> (\<exists>n \<in> set nodes. jid_cmp (Some n) (Some b) = 0)" if "append_loop q nodes c = Some r" for q nodes c r
  proof (rule append_loop.raw_induct [OF _ that], intro impI)
    fix loop q nodes c and r :: "jid list \<times> jid"
    assume IH: "\<And>q nodes c r. loop q nodes c = Some r \<Longrightarrow>
        q = p \<longrightarrow> c = b \<or> c = b\<lparr>jid_full_copy := Some (jid_text b)\<rparr> \<longrightarrow>
        nodes = [] \<or> (\<exists>n \<in> set nodes. jid_cmp (Some n) (Some b) = 0)"
      and step: "(case nodes of
        [] \<Rightarrow> Some ([], c)
      | n # rest \<Rightarrow>
          if jid_cmp (Some n) (Some c) = 0 then Some (nodes, c)
          else if rest = [] then
            (case jid_full c of (b, full) \<Rightarrow>
               (case jid_new (Some q) full of
                  None \<Rightarrow> Some ([n], b)
                | Some i \<Rightarrow> do {
                    (is, b) \<leftarrow> loop q [i] b;
                    Some (n # is, b)
                  }))
          else do {
            (is, b) \<leftarrow> loop q rest c;
            Some (n # is, b)
          }) = Some r"
      and q: "q = p" and c: "c = b \<or> c = b\<lparr>jid_full_copy := Some (jid_text b)\<rparr>"
    let ?b = "b\<lparr>jid_full_copy := Some (jid_text b)\<rparr>"
    have f: "jid_full c = (?b, Some (jid_text b))" using c
    proof
      assume "c = ?b" then show ?thesis by (simp add: jid_full_def)
    qed (simp add: jid_full_text [OF ok])
    have cmp: "jid_cmp (Some n) (Some c) = jid_cmp (Some n) (Some b)" for n using c by auto
    show "nodes = [] \<or> (\<exists>n \<in> set nodes. jid_cmp (Some n) (Some b) = 0)"
    proof (rule ccontr)
      assume no: "\<not> ?thesis"
      then obtain n rest where n: "nodes = n # rest" "jid_cmp (Some n) (Some b) \<noteq> 0" by (cases nodes) auto
      show False
      proof (cases "rest = []")
        case True
        then obtain r' where "loop q [i] ?b = Some r'" using step f i q n cmp by (auto elim: bindE)
        from IH [OF this] ne q show False by simp
      next
        case False
        then obtain r' where "loop q rest c = Some r'" using step n cmp by (auto elim: bindE)
        from IH [OF this] False c q no n show False by simp
      qed
    qed
  qed
  then show "append_loop p nodes b = Some r \<Longrightarrow> nodes = [] \<or> (\<exists>n \<in> set nodes. jid_cmp (Some n) (Some b) = 0)" by blast
qed

lemma append_loop_refused:
  assumes "jid_ok b" "jid_new (Some p) (Some (jid_text b)) = None"
  shows "nodes \<noteq> [] \<Longrightarrow> \<not> (\<exists>n \<in> set nodes. jid_cmp (Some n) (Some b) = 0) \<Longrightarrow>
    append_loop p nodes b = Some (nodes, b\<lparr>jid_full_copy := Some (jid_text b)\<rparr>)"
proof (induction nodes)
  case (Cons n nodes)
  then show ?case using assms(2)
    by (cases nodes) (simp_all add: append_loop_Cons [of p n] jid_full_text [OF assms(1)])
qed simp

section \<open>Attributes of a resource\<close>

text \<open>The text \<open>k=v&k=v\<close> of a list of pairs.\<close>

fun query_text :: "(string \<times> string) list \<Rightarrow> string" where
  "query_text [] = []"
| "query_text [(k, v)] = k @ CHR ''='' # v"
| "query_text ((k, v) # kvs) = k @ CHR ''='' # v @ amp # query_text kvs"

definition pairs_ok :: "(string \<times> string) list \<Rightarrow> bool" where
  "pairs_ok kvs \<longleftrightarrow> list_all (\<lambda>(k, v). CHR ''='' \<notin> set k \<and> amp \<notin> set v) kvs"

lemma xres_loop_query:
  "pairs_ok kvs \<Longrightarrow> xres_loop m x (query_text kvs) = xmlnode_put_expat_attribs m x kvs"
proof (induction kvs arbitrary: m rule: query_text.induct)
  case 1
  then show ?case by (simp add: xres_loop.simps [of m x "[]"])
next
  case (2 k v)
  have e: "strchr (k @ CHR ''='' # v) (CHR ''='') = Some (length k)" using 2 by (intro strchr_at) (simp add: pairs_ok_def)
  have a: "strchr v amp = None" using 2 by (simp add: pairs_ok_def strchr_None)
  have "xmlnode_put_expat_attribs m x [(k, v)] = xmlnode_put_attrib m x (Some k) (Some v)"
    by (cases "xmlnode_put_attrib m x (Some k) (Some v)") simp_all
  then show ?case by (subst xres_loop.simps) (simp add: strstr_single e a del: xmlnode_put_expat_attribs.simps(2))
next
  case (3 k v kv kvs)
  let ?q = "query_text (kv # kvs)"
  have e: "strchr (k @ CHR ''='' # v @ amp # ?q) (CHR ''='') = Some (length k)" using 3(2) by (intro strchr_at) (simp add: pairs_ok_def)
  have a: "strchr (v @ amp # ?q) amp = Some (length v)" using 3(2) by (intro strchr_at) (simp add: pairs_ok_def)
  have "xres_loop m1 x ?q = xmlnode_put_expat_attribs m1 x (kv # kvs)" for m1
    using 3 by (simp add: pairs_ok_def)
  moreover have "query_text ((k, v) # kv # kvs) = k @ CHR ''='' # v @ amp # ?q" by simp
  ultimately show ?case
    by (subst xres_loop.simps) (simp add: strstr_single e a Let_def del: query_text.simps)
qed

lemma jid_xres_document:
  assumes m: "mem_ok m" and p: "jid_p i < xm_pools m" and q: "pairs_ok kvs" and n: "CHR ''?'' \<notin> set nm"
    and r: "jid_resource i = Some (nm @ CHR ''?'' # query_text kvs)"
  shows "\<exists>m' t. jid_xres m (Some i) = Some (m', Some (root t)) \<and> rep m' (jid_p i) None None None t \<and>
    document t = copy_doc (Tag nm kvs []) \<and> (\<forall>b < xm_brk m. xm_nodes m' b = xm_nodes m b)"
proof -
  define m1 where "m1 = fst (i_xmlnode_new m (Some (jid_p i)) (Some nm) NTYPE_TAG)"
  note n1 = new_tag_rep [OF m refl _ m1_def, simplified, OF p]
  from put_expat_rep [OF n1(2), of kvs] obtain m2 as2 where m2:
    "xmlnode_put_expat_attribs m1 (Some (xm_brk m)) kvs = Some m2"
    "rep m2 (jid_p i) None None None (ATag (xm_brk m) 0 nm as2 [])"
    "becomes m1 (ATag (xm_brk m) 0 nm [] []) m2 (ATag (xm_brk m) 0 nm as2 [])"
    "map (\<lambda>x. (at_name x, at_value x)) as2 = fold (\<lambda>kv. doc_put (fst kv) (snd kv)) kvs []" by auto
  have s: "strstr (nm @ CHR ''?'' # query_text kvs) ''?'' = Some (length nm)"
    unfolding strstr_single by (rule strchr_at [OF n])
  have "jid_xres m (Some i) = Some (m2, Some (xm_brk m))"
    using r s n1(1) m2(1) xres_loop_query [OF q, of m1] by (simp add: jid_xres_def)
  moreover have "xm_nodes m2 b = xm_nodes m b" if "b < xm_brk m" for b
    using m2(3) n1(3) n1(5) [OF that] that by (auto simp: becomes_def addrs_ATag)
  ultimately show ?thesis using m2 by (intro exI [of _ m2] exI [of _ "ATag (xm_brk m) 0 nm as2 []"]) simp
qed

text \<open>\<open>jid_nodescan\<close> finds the first child tag whose attribute \<open>jid\<close> reads as the same identifier.\<close>

fun names_jid :: "jid \<Rightarrow> atree \<Rightarrow> bool" where
  "names_jid i (ATag a cp nm as ts) =
     (jid_cmp (jid_new (Some 0) (map_option at_value (find_attr ''jid'' as))) (Some i) = 0)"
| "names_jid i (AData a d) = False"

lemma jid_new_pool:
  "jid_cmp (jid_new (Some p) t) j = jid_cmp (jid_new (Some q) t) j"
proof (cases t)
  case (Some x)
  obtain user server rest where parts: "jid_parts x = (user, server, rest)" by (cases "jid_parts x")
  define i where "i = \<lparr>jid_p = q, jid_resource = (if 0 < length rest then Some rest else None),
    jid_user = (if 0 < length user then Some user else None), jid_server = server, jid_full_copy = None\<rparr>"
  have s: "jid_safe (i\<lparr>jid_p := p\<rparr>) = (case jid_safe i of (k, ok) \<Rightarrow> (k\<lparr>jid_p := p\<rparr>, ok))"
    by (auto simp: jid_safe_def Let_def split: prod.splits option.splits)
  have "jid_new (Some q) t = (if length x = 0 then None else (case jid_safe i of (k, ok) \<Rightarrow> if ok then Some k else None))"
    using Some parts by (simp add: jid_new_def i_def)
  moreover have "jid_new (Some p) t = (if length x = 0 then None else (case jid_safe (i\<lparr>jid_p := p\<rparr>) of (k, ok) \<Rightarrow> if ok then Some k else None))"
    using Some parts by (simp add: jid_new_def i_def)
  moreover have "jid_cmp (Some (k\<lparr>jid_p := p\<rparr>)) j = jid_cmp (Some k) j" for k
    by (cases j) (simp_all add: jid_cmp_def)
  ultimately show ?thesis by (simp add: s split: prod.split)
qed (simp add: jid_new_def)

lemma jid_nodescan_finds:
  assumes r: "rep m p par prv nxt (ATag a cp nm as ts)"
  shows "jid_nodescan m (Some i) (Some a) = Some (map_option root (List.find (names_jid i) ts))"
proof -
  note f = rep_facts [OF r]
  let ?v = "\<lambda>cur. do {
       t \<leftarrow> xmlnode_get_type m (Some cur);
       if t \<noteq> NTYPE_TAG then Some None
       else do {
         v \<leftarrow> xmlnode_get_attrib m (Some cur) (Some ''jid'');
         let tmp = jid_new (Some (xm_pools m)) v;
         if tmp = None then Some None
         else if jid_cmp tmp (Some i) = 0 then Some (Some cur)
         else Some None
       }
     }"
  have "?v (root t) = Some (if names_jid i t then Some (root t) else None)" if t: "t \<in> set ts" for t
  proof -
    from rep_child [OF r t] obtain pr nx where c: "rep m p (Some a) pr nx t" by blast
    show ?thesis
    proof (cases t)
      case (ATag b cp' nm' bs us)
      let ?tmp = "jid_new (Some (xm_pools m)) (map_option at_value (find_attr ''jid'' bs))"
      have "jid_cmp ?tmp (Some i) = 0 \<Longrightarrow> ?tmp \<noteq> None" by (cases ?tmp) (simp_all add: jid_cmp_def)
      then show ?thesis using rep_root [OF c] get_attrib_rep(1) [OF c [unfolded ATag], of "''jid''"] ATag
          jid_new_pool [of "xm_pools m" _ "Some i" 0]
        by (auto simp: xmlnode_get_type_def Let_def)
    next
      case (AData b d)
      then show ?thesis using rep_root [OF c] by (simp add: xmlnode_get_type_def)
    qed
  qed
  then have "first_visit ?v (map root ts) = Some (map_option root (List.find (names_jid i) ts))"
    by (rule first_visit_find)
  then show ?thesis using f(2) siblings_forest [OF f(8), of ?v]
    by (cases ts) (simp_all add: jid_nodescan_def xmlnode_get_firstchild_def)
qed

section \<open>Theorems\<close>


definition sample_jid :: jid where
  "sample_jid = \<lparr>jid_p = 0, jid_resource = Some ''a/b'', jid_user = Some ''Ann'', jid_server = ''x.org'', jid_full_copy = None\<rparr>"

lemma sample_jid_ok: "jid_ok sample_jid" "slash_free sample_jid"
  by (auto simp: sample_jid_def jid_ok_def slash_free_def server_char_def bad_user_char_def signed_char_def
      c_isalnum_def c_isalpha_def c_isdigit_def c_tolower_def)




end
