(* ===== verification/Pool.thy ===== *)
theory Pool
  imports Cells
begin

text \<open>
  Memory pools (\<open>libjabber/pool.c\<close>): a pool hands out memory from a heap or straight from \<open>malloc\<close>
  and remembers in its cleanup list what has to be freed. \<open>malloc\<close> returns fresh objects (the
  code waits until it does); freeing what is not allocated has no result.
\<close>

record pheap =
  ph_block :: nat
  ph_size :: int
  ph_used :: int

text \<open>A cleaner \<open>f\<close> with its argument: the two of \<open>pool.c\<close>, or one of its clients.\<close>

datatype cleaner = Heap_free nat | Block_free nat | Client nat nat

record pool =
  pl_size :: int
  pl_cleanup :: "(nat \<times> cleaner) list"
  pl_heap :: ptr

text \<open>\<open>pl_cleanup\<close> is the linked list of trackers, \<open>struct pfree\<close>, each with its address.\<close>

datatype pobj = Bytes int | Tracker | Heap_obj pheap | Pool_obj pool

text \<open>\<open>pm_log\<close> lists the calls of clients' cleaners.\<close>

record pmem =
  pm_objs :: "nat \<Rightarrow> pobj option"
  pm_brk :: nat
  pm_log :: "(nat \<times> nat) list"

definition pool_malloc :: "pobj \<Rightarrow> pmem \<Rightarrow> pmem \<times> nat" where
  "pool_malloc x m = (m\<lparr>pm_objs := (pm_objs m)(pm_brk m \<mapsto> x), pm_brk := pm_brk m + 1\<rparr>, pm_brk m)"

definition pool_mfree :: "nat \<Rightarrow> pmem \<Rightarrow> pmem option" where
  "pool_mfree a m = (if pm_objs m a = None then None else Some (m\<lparr>pm_objs := (pm_objs m)(a := None)\<rparr>))"

definition the_pool :: "pmem \<Rightarrow> ptr \<Rightarrow> pool option" where
  "the_pool m p = (case p of None \<Rightarrow> None | Some a \<Rightarrow> (case pm_objs m a of Some (Pool_obj x) \<Rightarrow> Some x | _ \<Rightarrow> None))"

definition the_heap :: "pmem \<Rightarrow> nat \<Rightarrow> pheap option" where
  "the_heap m a = (case pm_objs m a of Some (Heap_obj x) \<Rightarrow> Some x | _ \<Rightarrow> None)"

definition put_obj :: "nat \<Rightarrow> pobj \<Rightarrow> pmem \<Rightarrow> pmem" where
  "put_obj a x m = m\<lparr>pm_objs := (pm_objs m)(a \<mapsto> x)\<rparr>"

section \<open>Operations\<close>

definition pool_new :: "pmem \<Rightarrow> pmem \<times> ptr" where
  "pool_new m = (let (m, a) = pool_malloc (Pool_obj \<lparr>pl_size = 0, pl_cleanup = [], pl_heap = None\<rparr>) m in (m, Some a))"

definition pool_heap_free :: "nat \<Rightarrow> pmem \<Rightarrow> pmem option" where
  "pool_heap_free h m = do {
     x \<leftarrow> the_heap m h;
     m \<leftarrow> pool_mfree (ph_block x) m;
     pool_mfree h m
   }"

definition pool_cleanup_append :: "ptr \<Rightarrow> nat \<times> cleaner \<Rightarrow> pmem \<Rightarrow> pmem option" where
  "pool_cleanup_append p pf m = do {
     a \<leftarrow> p;
     x \<leftarrow> the_pool m p;
     Some (put_obj a (Pool_obj (x\<lparr>pl_cleanup := pl_cleanup x @ [pf]\<rparr>)) m)
   }"

text \<open>\<open>_pool_free\<close> makes a tracker.\<close>

definition pool_tracker :: "cleaner \<Rightarrow> pmem \<Rightarrow> pmem \<times> (nat \<times> cleaner)" where
  "pool_tracker c m = (let (m, t) = pool_malloc Tracker m in (m, (t, c)))"

definition add_pool_size :: "ptr \<Rightarrow> int \<Rightarrow> pmem \<Rightarrow> pmem option" where
  "add_pool_size p sz m = do {
     a \<leftarrow> p;
     x \<leftarrow> the_pool m p;
     Some (put_obj a (Pool_obj (x\<lparr>pl_size := pl_size x + sz\<rparr>)) m)
   }"

definition pool_heap :: "ptr \<Rightarrow> int \<Rightarrow> pmem \<Rightarrow> (pmem \<times> nat) option" where
  "pool_heap p sz m = do {
     let (m, h) = pool_malloc (Heap_obj \<lparr>ph_block = 0, ph_size = 0, ph_used = 0\<rparr>) m;
     let (m, b) = pool_malloc (Bytes sz) m;
     m \<leftarrow> add_pool_size p sz m;
     let m = put_obj h (Heap_obj \<lparr>ph_block = b, ph_size = sz, ph_used = 0\<rparr>) m;
     let (m, clean) = pool_tracker (Heap_free h) m;
     m \<leftarrow> pool_cleanup_append p clean m;
     Some (m, h)
   }"

definition set_pool_heap :: "ptr \<Rightarrow> nat \<Rightarrow> pmem \<Rightarrow> pmem option" where
  "set_pool_heap p h m = do {
     a \<leftarrow> p;
     x \<leftarrow> the_pool m p;
     Some (put_obj a (Pool_obj (x\<lparr>pl_heap := Some h\<rparr>)) m)
   }"

definition pool_new_heap :: "int \<Rightarrow> pmem \<Rightarrow> (pmem \<times> ptr) option" where
  "pool_new_heap sz m = do {
     let (m, p) = pool_new m;
     (m, h) \<leftarrow> pool_heap p sz m;
     m \<leftarrow> set_pool_heap p h m;
     Some (m, p)
   }"

text \<open>\<open>while(p->heap->used&7) p->heap->used++\<close>\<close>

function align8 :: "int \<Rightarrow> int" where
  "align8 used = (if used mod 8 \<noteq> 0 then align8 (used + 1) else used)"
  by pat_completeness auto
termination
proof (relation "measure (\<lambda>used. nat ((- used) mod 8))", simp)
  fix used :: int assume "used mod 8 \<noteq> 0"
  then have "(- (used + 1)) mod 8 < (- used) mod 8" by presburger
  moreover have "0 \<le> (- (used + 1)) mod 8" by simp
  ultimately show "(used + 1, used) \<in> measure (\<lambda>used. nat ((- used) mod 8))" by simp
qed

declare align8.simps [simp del]

text \<open>
  \<open>pmalloc\<close>: the result is a \<open>malloc\<close> block and an offset in it. It comes straight from \<open>malloc\<close>,
  or from the heap, which is replaced when it has no room. Division by two of the size is that
  of C.
\<close>

definition raw_alloc :: "ptr \<Rightarrow> int \<Rightarrow> pmem \<Rightarrow> (pmem \<times> nat \<times> int) option" where
  "raw_alloc p sz m = do {
     let (m, block) = pool_malloc (Bytes sz) m;
     m \<leftarrow> add_pool_size p sz m;
     let (m, pf) = pool_tracker (Block_free block) m;
     m \<leftarrow> pool_cleanup_append p pf m;
     Some (m, block, 0)
   }"

definition heap_alloc :: "ptr \<Rightarrow> int \<Rightarrow> nat \<Rightarrow> pheap \<Rightarrow> pmem \<Rightarrow> (pmem \<times> nat \<times> int) option" where
  "heap_alloc p sz h k m = do {
     let used = (if 4 \<le> sz then align8 (ph_used k) else ph_used k);
     let m = put_obj h (Heap_obj (k\<lparr>ph_used := used\<rparr>)) m;
     (m, h) \<leftarrow> (if sz > ph_size k - used then do {
         (m, h) \<leftarrow> pool_heap p (ph_size k) m;
         m \<leftarrow> set_pool_heap p h m;
         Some (m, h)
       }
       else Some (m, h));
     k \<leftarrow> the_heap m h;
     Some (put_obj h (Heap_obj (k\<lparr>ph_used := ph_used k + sz\<rparr>)) m, ph_block k, ph_used k)
   }"

definition c_half :: "int \<Rightarrow> int" where
  "c_half n = (if 0 \<le> n then n div 2 else - ((- n) div 2))"

definition pmalloc :: "ptr \<Rightarrow> int \<Rightarrow> pmem \<Rightarrow> (pmem \<times> nat \<times> int) option" where
  "pmalloc p sz m = do {
     x \<leftarrow> the_pool m p;
     (case pl_heap x of
        None \<Rightarrow> raw_alloc p sz m
      | Some h \<Rightarrow> do {
          k \<leftarrow> the_heap m h;
          if sz > c_half (ph_size k) then raw_alloc p sz m else heap_alloc p sz h k m
        })
   }"

text \<open>\<open>pmalloc_x\<close> and \<open>pmalloco\<close> fill the memory they got, \<open>pstrdup\<close> copies a string into it.\<close>

definition pstrdup :: "ptr \<Rightarrow> string option \<Rightarrow> pmem \<Rightarrow> (pmem \<times> (nat \<times> int) option) option" where
  "pstrdup p src m =
     (case src of
        None \<Rightarrow> Some (m, None)
      | Some s \<Rightarrow> do {
          (m, r) \<leftarrow> pmalloc p (int (length s) + 1) m;
          Some (m, Some r)
        })"

definition pool_size :: "ptr \<Rightarrow> pmem \<Rightarrow> int option" where
  "pool_size p m = (if p = None then Some 0 else map_option pl_size (the_pool m p))"

definition pool_cleanup :: "ptr \<Rightarrow> nat \<Rightarrow> nat \<Rightarrow> pmem \<Rightarrow> pmem option" where
  "pool_cleanup p f arg m = do {
     let (m, clean) = pool_tracker (Client f arg) m;
     a \<leftarrow> p;
     x \<leftarrow> the_pool m p;
     Some (put_obj a (Pool_obj (x\<lparr>pl_cleanup := clean # pl_cleanup x\<rparr>)) m)
   }"

text \<open>A client's cleaner is only noted; it does not touch the pool.\<close>

definition run_cleaner :: "cleaner \<Rightarrow> pmem \<Rightarrow> pmem option" where
  "run_cleaner c m =
     (case c of
        Heap_free h \<Rightarrow> pool_heap_free h m
      | Block_free b \<Rightarrow> pool_mfree b m
      | Client f arg \<Rightarrow> Some (m\<lparr>pm_log := pm_log m @ [(f, arg)]\<rparr>))"

fun free_loop :: "(nat \<times> cleaner) list \<Rightarrow> pmem \<Rightarrow> pmem option" where
  "free_loop [] m = Some m"
| "free_loop ((t, c) # cur) m = do {
     m \<leftarrow> run_cleaner c m;
     m \<leftarrow> pool_mfree t m;
     free_loop cur m
   }"

definition pool_free :: "ptr \<Rightarrow> pmem \<Rightarrow> pmem option" where
  "pool_free p m =
     (case p of
        None \<Rightarrow> Some m
      | Some a \<Rightarrow> do {
          x \<leftarrow> the_pool m p;
          m \<leftarrow> free_loop (pl_cleanup x) m;
          pool_mfree a m
        })"

section \<open>What a pool owns\<close>

text \<open>
  One entry for each tracker: a client's cleaner, a heap with its block, or a block of its own.
\<close>

datatype owned = User nat nat nat | Heap nat nat nat int int | Raw nat nat int

fun entry :: "owned \<Rightarrow> nat \<times> cleaner" where
  "entry (User t f x) = (t, Client f x)"
| "entry (Heap t h b n u) = (t, Heap_free h)"
| "entry (Raw t b n) = (t, Block_free b)"

fun own_cells :: "owned \<Rightarrow> (nat \<times> pobj) list" where
  "own_cells (User t f x) = [(t, Tracker)]"
| "own_cells (Heap t h b n u) = [(t, Tracker), (h, Heap_obj \<lparr>ph_block = b, ph_size = n, ph_used = u\<rparr>), (b, Bytes n)]"
| "own_cells (Raw t b n) = [(t, Tracker), (b, Bytes n)]"

text \<open>A region is a block, an offset and a size. The regions a pool handed out:\<close>

type_synonym region = "nat \<times> int \<times> int"

fun apart :: "region \<Rightarrow> region \<Rightarrow> bool" where
  "apart (b, i, n) (c, j, k) = (b \<noteq> c \<or> i + n \<le> j \<or> j + k \<le> i)"

fun inside :: "region \<Rightarrow> owned \<Rightarrow> bool" where
  "inside (b, i, n) (Heap t h c k u) = (b = c \<and> 0 \<le> i \<and> i + n \<le> u \<and> i + n \<le> k)"
| "inside (b, i, n) (Raw t c k) = (b = c \<and> 0 \<le> i \<and> i + n \<le> k)"
| "inside r (User t f x) = False"

fun used_ok :: "owned \<Rightarrow> bool" where
  "used_ok (Heap t h b n u) = (0 \<le> u \<and> 0 \<le> n)"
| "used_ok (Raw t b n) = (0 \<le> n)"
| "used_ok (User t f x) = True"

fun is_heap :: "nat \<Rightarrow> owned \<Rightarrow> bool" where
  "is_heap k (Heap t h b n u) = (h = k)"
| "is_heap k (Raw t b n) = False"
| "is_heap k (User t f x) = False"

definition pm_ok :: "pmem \<Rightarrow> bool" where
  "pm_ok m \<longleftrightarrow> (\<forall>a x. pm_objs m a = Some x \<longrightarrow> a < pm_brk m)"

definition all_cells :: "nat \<Rightarrow> pool \<Rightarrow> owned list \<Rightarrow> (nat \<times> pobj) list" where
  "all_cells a x gs = (a, Pool_obj x) # concat (map own_cells gs)"

text \<open>
  In \<open>m\<close> the pool at \<open>a\<close> owns \<open>gs\<close>; \<open>f\<close> are the objects that belong to others.
\<close>

definition pool_rep :: "(nat \<Rightarrow> pobj option) \<Rightarrow> pmem \<Rightarrow> nat \<Rightarrow> pool \<Rightarrow> owned list \<Rightarrow> bool" where
  "pool_rep f m a x gs \<longleftrightarrow> pm_ok m \<and> pl_cleanup x = map entry gs \<and>
     (\<forall>k. pl_heap x = Some k \<longrightarrow> (\<exists>g \<in> set gs. is_heap k g)) \<and>
     distinct (map fst (all_cells a x gs)) \<and> holds (pm_objs m) (all_cells a x gs) \<and>
     (\<forall>g \<in> set gs. used_ok g) \<and>
     (\<forall>b. if b \<in> fst ` set (all_cells a x gs) then f b = None else pm_objs m b = f b)"

definition regions_ok :: "owned list \<Rightarrow> region list \<Rightarrow> bool" where
  "regions_ok gs rs \<longleftrightarrow> sorted_wrt apart rs \<and> (\<forall>r \<in> set rs. \<exists>g \<in> set gs. inside r g)"

lemma align8: "align8 u = u + (- u) mod 8"
proof (induction u rule: align8.induct)
  case (1 u)
  then show ?case by (cases "u mod 8 = 0") (simp_all add: align8.simps [of u], presburger+)
qed

lemma align8_bounds: "u \<le> align8 u" "align8 u mod 8 = 0" "align8 u < u + 8"
  unfolding align8 by (simp, presburger, simp)

lemma rep_fresh:
  assumes "pool_rep f m a x gs"
  shows "pm_brk m \<le> b \<Longrightarrow> b \<notin> fst ` set (all_cells a x gs)" "pm_brk m \<le> b \<Longrightarrow> f b = None"
proof -
  show 1: "pm_brk m \<le> b \<Longrightarrow> b \<notin> fst ` set (all_cells a x gs)"
  proof
    assume b: "pm_brk m \<le> b" "b \<in> fst ` set (all_cells a x gs)"
    have "holds (pm_objs m) (all_cells a x gs)" using assms by (simp add: pool_rep_def)
    from holds_in [OF this b(2)] assms b(1) show False by (auto simp: pool_rep_def pm_ok_def)
  qed
  assume b: "pm_brk m \<le> b"
  have "pm_objs m b = None" using assms b by (force simp: pool_rep_def pm_ok_def)
  then show "f b = None" using 1 [OF b] assms by (auto simp: pool_rep_def split: if_splits)
qed

lemma rep_pool: "pool_rep f m a x gs \<Longrightarrow> the_pool m (Some a) = Some x"
  by (simp add: pool_rep_def all_cells_def the_pool_def)

text \<open>Changing the pool itself, and adding an entry.\<close>

lemma rep_put_pool:
  assumes "pool_rep f m a x gs" "pl_cleanup y = pl_cleanup x" "\<And>k. pl_heap y = Some k \<Longrightarrow> \<exists>g \<in> set gs. is_heap k g"
  shows "pool_rep f (put_obj a (Pool_obj y) m) a y gs"
  using assms by (auto simp: pool_rep_def all_cells_def put_obj_def pm_ok_def)

lemma rep_add:
  assumes r: "pool_rep f m a x gs" and u: "used_ok g"
    and c: "distinct (map fst (own_cells g))" "\<And>b. b \<in> fst ` set (own_cells g) \<Longrightarrow> pm_brk m \<le> b \<and> b < pm_brk m'"
    and m': "pm_brk m \<le> pm_brk m'" "pm_objs m' = (\<lambda>b. case map_of (own_cells g) b of None \<Rightarrow> pm_objs m b | Some z \<Rightarrow> Some z)"
    and y: "pl_heap y = pl_heap x" and gs': "gs' = gs @ [g] \<or> gs' = g # gs" "pl_cleanup y = map entry gs'"
  shows "pool_rep f (put_obj a (Pool_obj y) m') a y gs'"
proof -
  have fresh: "b \<notin> fst ` set (all_cells a x gs)" "f b = None" if "b \<in> fst ` set (own_cells g)" for b
    using rep_fresh [OF r] c(2) [OF that] by auto
  have old: "pm_objs m' b = pm_objs m b" if "b \<notin> fst ` set (own_cells g)" for b
    using that m'(2) by (simp add: map_of_eq_None_iff [THEN iffD2])
  have new: "holds (pm_objs m') (own_cells g)"
    using c(1) m'(2) by (auto simp: holds_def)
  have a: "a \<notin> fst ` set (own_cells g)" using fresh(1) by (auto simp: all_cells_def)
  have h: "holds (pm_objs m') (concat (map own_cells gs))"
  proof (rule holds_cong)
    show "holds (pm_objs m) (concat (map own_cells gs))" using r by (simp add: pool_rep_def all_cells_def)
    fix b assume "b \<in> fst ` set (concat (map own_cells gs))"
    then have "b \<notin> fst ` set (own_cells g)" using fresh(1) by (auto simp: all_cells_def)
    then show "pm_objs m' b = pm_objs m b" by (rule old)
  qed
  have ok: "pm_ok (put_obj a (Pool_obj y) m')"
  proof -
    have "a < pm_brk m'" using r m'(1) by (auto simp: pool_rep_def all_cells_def pm_ok_def)
    moreover have "b < pm_brk m'" if "pm_objs m' b = Some z" for b z
    proof (cases "b \<in> fst ` set (own_cells g)")
      case True
      then show ?thesis using c(2) by blast
    next
      case False
      then have "pm_objs m b = Some z" using that old by simp
      then show ?thesis using r m'(1) by (fastforce simp: pool_rep_def pm_ok_def)
    qed
    ultimately show ?thesis by (auto simp: pm_ok_def put_obj_def)
  qed
  have mem: "fst ` set (all_cells a y gs') = fst ` set (all_cells a x gs) \<union> fst ` set (own_cells g)"
    using gs'(1) by (elim disjE; simp add: all_cells_def image_Un; blast)
  have d: "distinct (map fst (all_cells a y gs'))"
  proof -
    define K where "K = map fst (concat (map own_cells gs))"
    define C where "C = map fst (own_cells g)"
    have e: "map fst (all_cells a y gs') = a # K @ C \<or> map fst (all_cells a y gs') = a # C @ K"
      using gs'(1) by (auto simp: all_cells_def K_def C_def)
    have "distinct (a # K)" using r by (simp add: pool_rep_def all_cells_def K_def)
    moreover have "distinct C" using c(1) by (simp add: C_def)
    moreover have "b \<notin> set (a # K)" if "b \<in> set C" for b
      using fresh(1) [of b] that by (simp add: C_def K_def all_cells_def del: set_concat)
    ultimately have "distinct (a # K @ C)" "distinct (a # C @ K)" by auto
    then show ?thesis using e by metis
  qed
  have hold: "holds (pm_objs (put_obj a (Pool_obj y) m')) (all_cells a y gs')"
    using h new d gs'(1) by (auto simp: all_cells_def put_obj_def)
  have other: "if b \<in> fst ` set (all_cells a y gs') then f b = None
      else pm_objs (put_obj a (Pool_obj y) m') b = f b" for b
    using r old [of b] fresh(2) [of b] unfolding mem
    by (auto simp: pool_rep_def put_obj_def all_cells_def split: if_splits)
  show ?thesis using r ok d hold other u y gs' unfolding pool_rep_def by auto
qed

lemma pmem_eqI: "pm_objs m = pm_objs n \<Longrightarrow> pm_brk m = pm_brk n \<Longrightarrow> pm_log m = pm_log n \<Longrightarrow> m = (n :: pmem)"
  by simp

lemmas pool_simps = pool_malloc_def pool_tracker_def add_pool_size_def pool_cleanup_append_def put_obj_def
  the_pool_def the_heap_def Let_def

lemma pool_heap_rep:
  assumes r: "pool_rep f m a x gs" and n: "0 \<le> n"
  shows "\<exists>m' h y b t. pool_heap (Some a) n m = Some (m', h) \<and> pool_rep f m' a y (gs @ [Heap t h b n 0]) \<and>
    pl_heap y = pl_heap x \<and> pm_log m' = pm_log m \<and> pm_brk m \<le> b"
proof -
  let ?h = "pm_brk m" and ?b = "pm_brk m + 1" and ?t = "pm_brk m + 2"
  let ?y = "x\<lparr>pl_size := pl_size x + n, pl_cleanup := pl_cleanup x @ [(?t, Heap_free ?h)]\<rparr>"
  let ?g = "Heap ?t ?h ?b n 0"
  let ?m' = "m\<lparr>pm_objs := \<lambda>c. case map_of (own_cells ?g) c of None \<Rightarrow> pm_objs m c | Some z \<Rightarrow> Some z, pm_brk := pm_brk m + 3\<rparr>"
  have a: "pm_objs m a = Some (Pool_obj x)" using r by (simp add: pool_rep_def all_cells_def)
  then have a': "a < pm_brk m" using r by (auto simp: pool_rep_def pm_ok_def)
  have "pool_rep f (put_obj a (Pool_obj ?y) ?m') a ?y (gs @ [?g])"
    by (rule rep_add [OF r]) (use n r in \<open>auto simp: pool_rep_def\<close>)
  moreover have "pool_heap (Some a) n m = Some (put_obj a (Pool_obj ?y) ?m', ?h)"
    using a a' by (auto simp: pool_heap_def pool_simps fun_eq_iff)
  ultimately show ?thesis by (intro exI [of _ "put_obj a (Pool_obj ?y) ?m'"] exI [of _ ?h] exI [of _ ?y] exI [of _ ?b] exI [of _ ?t])
    (simp add: put_obj_def)
qed

lemma pool_raw_rep:
  assumes r: "pool_rep f m a x gs" and n: "0 \<le> n"
  shows "\<exists>m' y b t. raw_alloc (Some a) n m = Some (m', b, 0) \<and> pool_rep f m' a y (gs @ [Raw t b n]) \<and> pm_log m' = pm_log m \<and> pm_brk m \<le> b"
proof -
  let ?b = "pm_brk m" and ?t = "pm_brk m + 1"
  let ?y = "x\<lparr>pl_size := pl_size x + n, pl_cleanup := pl_cleanup x @ [(?t, Block_free ?b)]\<rparr>"
  let ?g = "Raw ?t ?b n"
  let ?m' = "m\<lparr>pm_objs := \<lambda>c. case map_of (own_cells ?g) c of None \<Rightarrow> pm_objs m c | Some z \<Rightarrow> Some z, pm_brk := pm_brk m + 2\<rparr>"
  have a: "pm_objs m a = Some (Pool_obj x)" using r by (simp add: pool_rep_def all_cells_def)
  then have a': "a < pm_brk m" using r by (auto simp: pool_rep_def pm_ok_def)
  have "pool_rep f (put_obj a (Pool_obj ?y) ?m') a ?y (gs @ [?g])"
    by (rule rep_add [OF r]) (use n r in \<open>auto simp: pool_rep_def\<close>)
  moreover have "raw_alloc (Some a) n m = Some (put_obj a (Pool_obj ?y) ?m', ?b, 0)"
    using a a' by (auto simp: raw_alloc_def pool_simps fun_eq_iff)
  ultimately show ?thesis by (intro exI [of _ "put_obj a (Pool_obj ?y) ?m'"] exI [of _ ?y] exI [of _ ?b] exI [of _ ?t])
    (simp add: put_obj_def)
qed

lemma pool_cleanup_rep:
  assumes r: "pool_rep f m a x gs"
  shows "\<exists>m' y t. pool_cleanup (Some a) c k m = Some m' \<and> pool_rep f m' a y (User t c k # gs) \<and> pm_log m' = pm_log m"
proof -
  let ?t = "pm_brk m"
  let ?y = "x\<lparr>pl_cleanup := (?t, Client c k) # pl_cleanup x\<rparr>" and ?g = "User ?t c k"
  let ?m' = "m\<lparr>pm_objs := \<lambda>c. case map_of (own_cells ?g) c of None \<Rightarrow> pm_objs m c | Some z \<Rightarrow> Some z, pm_brk := pm_brk m + 1\<rparr>"
  have a: "pm_objs m a = Some (Pool_obj x)" using r by (simp add: pool_rep_def all_cells_def)
  then have a': "a < pm_brk m" using r by (auto simp: pool_rep_def pm_ok_def)
  have "pool_rep f (put_obj a (Pool_obj ?y) ?m') a ?y (?g # gs)"
    by (rule rep_add [OF r]) (use r in \<open>auto simp: pool_rep_def\<close>)
  moreover have "pool_cleanup (Some a) c k m = Some (put_obj a (Pool_obj ?y) ?m')"
    using a a' by (auto simp: pool_cleanup_def pool_simps fun_eq_iff)
  ultimately show ?thesis by (intro exI [of _ "put_obj a (Pool_obj ?y) ?m'"] exI [of _ ?y] exI [of _ ?t]) (simp add: put_obj_def)
qed

text \<open>Using more of a heap.\<close>

lemma rep_use_heap:
  assumes r: "pool_rep f m a x gs" and gs: "gs = us @ Heap t h b n u # vs" and v: "0 \<le> v"
  shows "pool_rep f (put_obj h (Heap_obj \<lparr>ph_block = b, ph_size = n, ph_used = v\<rparr>) m) a x (us @ Heap t h b n v # vs)"
    "the_heap m h = Some \<lparr>ph_block = b, ph_size = n, ph_used = u\<rparr>"
proof -
  show "pool_rep f (put_obj h (Heap_obj \<lparr>ph_block = b, ph_size = n, ph_used = v\<rparr>) m) a x (us @ Heap t h b n v # vs)"
    using r v unfolding gs by (auto simp: pool_rep_def all_cells_def put_obj_def pm_ok_def split: if_splits)
  show "the_heap m h = Some \<lparr>ph_block = b, ph_size = n, ph_used = u\<rparr>"
    using r unfolding gs by (simp add: pool_rep_def all_cells_def the_heap_def)
qed

section \<open>Regions\<close>

fun users :: "owned list \<Rightarrow> (nat \<times> nat) list" where
  "users [] = []"
| "users (User t f x # gs) = (f, x) # users gs"
| "users (Heap t h b n u # gs) = users gs"
| "users (Raw t b n # gs) = users gs"

lemma users_append [simp]: "users (gs @ hs) = users gs @ users hs"
  by (induction gs rule: users.induct) simp_all

lemma inside_block: "inside (b, i, n) g \<Longrightarrow> b \<in> fst ` set (own_cells g)"
  by (cases g) auto

lemma regions_add:
  assumes r: "regions_ok gs rs" and g: "\<And>r g. r \<in> set rs \<Longrightarrow> g \<in> set gs \<Longrightarrow> inside r g \<Longrightarrow> \<exists>g' \<in> set gs'. inside r g'"
    and i: "\<exists>g \<in> set gs'. inside q g" and a: "\<And>r g. r \<in> set rs \<Longrightarrow> g \<in> set gs \<Longrightarrow> inside r g \<Longrightarrow> apart q r"
  shows "regions_ok gs' (q # rs)"
  using assms unfolding regions_ok_def by (simp, blast)

text \<open>A region of a block that did not exist before.\<close>

lemma regions_fresh:
  assumes rep: "pool_rep f m a x gs" and r: "regions_ok gs rs" and b: "pm_brk m \<le> b"
    and i: "\<exists>g \<in> set gs'. inside (b, i, n) g"
    and g: "\<And>r g. r \<in> set rs \<Longrightarrow> g \<in> set gs \<Longrightarrow> inside r g \<Longrightarrow> \<exists>g' \<in> set gs'. inside r g'"
  shows "regions_ok gs' ((b, i, n) # rs)"
proof (rule regions_add [OF r g i])
  fix r g assume g: "g \<in> set gs" "inside r g"
  obtain c j k where q: "r = (c, j, k)" by (cases r)
  have "c \<in> fst ` set (own_cells g)" using inside_block g(2) q by blast
  then have "c \<in> fst ` set (all_cells a x gs)" using g(1) by (auto simp: all_cells_def)
  then have "c \<noteq> b" using rep_fresh(1) [OF rep b] by blast
  then show "apart (b, i, n) r" using q by simp
qed

lemma entries_disjoint:
  assumes d: "distinct (map fst (concat (map own_cells (us @ g # vs))))" and h: "h \<in> set us \<union> set vs"
    and b: "b \<in> fst ` set (own_cells g)"
  shows "b \<notin> fst ` set (own_cells h)"
proof
  assume h': "b \<in> fst ` set (own_cells h)"
  have "b \<in> set (map fst (own_cells g))" using b by simp
  moreover have "b \<in> set (map fst (concat (map own_cells us))) \<union> set (map fst (concat (map own_cells vs)))"
    using h h' by auto
  moreover have "distinct (map fst (concat (map own_cells us)) @ map fst (own_cells g) @ map fst (concat (map own_cells vs)))"
    using d by simp
  ultimately show False unfolding distinct_append set_append by blast
qed

text \<open>The next region of a heap.\<close>

lemma regions_heap:
  assumes rep: "pool_rep f m a x (us @ Heap t h b n u # vs)" and r: "regions_ok (us @ Heap t h b n u # vs) rs"
    and v: "u \<le> v" "0 \<le> u" "0 \<le> k" "v + k \<le> n"
  shows "regions_ok (us @ Heap t h b n (v + k) # vs) ((b, v, k) # rs)"
proof (rule regions_add [OF r])
  fix r g assume g: "g \<in> set (us @ Heap t h b n u # vs)" "inside r g"
  obtain c j l where q: "r = (c, j, l)" by (cases r)
  show "\<exists>g' \<in> set (us @ Heap t h b n (v + k) # vs). inside r g'" using g v q by auto
  show "apart (b, v, k) r"
  proof (cases "g = Heap t h b n u")
    case True
    then show ?thesis using g(2) q v by auto
  next
    case False
    then have "g \<in> set us \<union> set vs" using g(1) by auto
    moreover have "distinct (map fst (concat (map own_cells (us @ Heap t h b n u # vs))))"
      using rep unfolding pool_rep_def all_cells_def by simp
    ultimately have "b \<notin> fst ` set (own_cells g)" using entries_disjoint [of us "Heap t h b n u" vs g b] by simp
    then show ?thesis using inside_block g(2) q by fastforce
  qed
qed (use v in auto)

lemma used_nonneg: "pool_rep f m a x gs \<Longrightarrow> Heap t h b n u \<in> set gs \<Longrightarrow> 0 \<le> u \<and> 0 \<le> n"
  by (fastforce simp: pool_rep_def)

text \<open>A block of its own.\<close>

lemma raw_rep:
  assumes rep: "pool_rep f m a x gs" and r: "regions_ok gs rs" and n: "0 \<le> n"
  shows "\<exists>m' b i y gs'. raw_alloc (Some a) n m = Some (m', b, i) \<and> pool_rep f m' a y gs' \<and> regions_ok gs' ((b, i, n) # rs) \<and>
      (4 \<le> n \<longrightarrow> i mod 8 = 0) \<and> pm_log m' = pm_log m \<and> users gs' = users gs"
proof -
  from pool_raw_rep [OF rep n] obtain m' y b t where 1: "raw_alloc (Some a) n m = Some (m', b, 0)" "pool_rep f m' a y (gs @ [Raw t b n])" "pm_log m' = pm_log m" "pm_brk m \<le> b" by blast
  have "regions_ok (gs @ [Raw t b n]) ((b, 0, n) # rs)"
    by (rule regions_fresh [OF rep r 1(4)]) auto
  then show ?thesis using 1 by (intro exI [of _ m'] exI [of _ b] exI [of _ 0] exI [of _ y] exI [of _ "gs @ [Raw t b n]"]) simp
qed

lemma pmalloc_rep:
  assumes rep: "pool_rep f m a x gs" and r: "regions_ok gs rs" and sz: "0 \<le> sz"
  shows "\<exists>m' b i y gs'. pmalloc (Some a) sz m = Some (m', b, i) \<and> pool_rep f m' a y gs' \<and>
    regions_ok gs' ((b, i, sz) # rs) \<and> (4 \<le> sz \<longrightarrow> i mod 8 = 0) \<and> pm_log m' = pm_log m \<and> users gs' = users gs"
proof (cases "pl_heap x")
  case None
  then have "pmalloc (Some a) sz m = raw_alloc (Some a) sz m" by (simp add: pmalloc_def rep_pool [OF rep])
  with raw_rep [OF rep r sz] show ?thesis by simp
next
  case (Some h)
  from rep Some obtain g where g: "g \<in> set gs" "is_heap h g" by (auto simp: pool_rep_def)
  obtain t b n u where "g = Heap t h b n u" using g(2) by (cases g) auto
  with g(1) obtain us vs where gs: "gs = us @ Heap t h b n u # vs" by (metis split_list)
  note rep' = rep [unfolded gs] and r' = r [unfolded gs]
  have un: "0 \<le> u" "0 \<le> n" using used_nonneg [OF rep, of t h b n u] gs by simp_all
  let ?k = "\<lparr>ph_block = b, ph_size = n, ph_used = u\<rparr>"
  have k: "the_heap m h = Some ?k" using rep_use_heap(2) [OF rep' refl un(1)] .
  show ?thesis
  proof (cases "n div 2 < sz")
    case True
    then have "pmalloc (Some a) sz m = raw_alloc (Some a) sz m" using Some k un(2) by (simp add: pmalloc_def rep_pool [OF rep] c_half_def)
    with raw_rep [OF rep r sz] show ?thesis by simp
  next
    case small: False
    define v where "v = (if 4 \<le> sz then align8 u else u)"
    have v: "u \<le> v" "0 \<le> v" "4 \<le> sz \<longrightarrow> v mod 8 = 0" using un(1) align8_bounds [of u] by (auto simp: v_def)
    define m1 where "m1 = put_obj h (Heap_obj (?k\<lparr>ph_used := v\<rparr>)) m"
    have m1: "pool_rep f m1 a x (us @ Heap t h b n v # vs)" "the_heap m1 h = Some (?k\<lparr>ph_used := v\<rparr>)"
      using rep_use_heap(1) [OF rep' refl v(2)] by (simp_all add: m1_def the_heap_def put_obj_def)
    have pm: "pmalloc (Some a) sz m = do {
        (m, h) \<leftarrow> (if sz > n - v then do {
            (m, h) \<leftarrow> pool_heap (Some a) n m1;
            m \<leftarrow> set_pool_heap (Some a) h m;
            Some (m, h)
          }
          else Some (m1, h));
        k \<leftarrow> the_heap m h;
        Some (put_obj h (Heap_obj (k\<lparr>ph_used := ph_used k + sz\<rparr>)) m, ph_block k, ph_used k)
      }"
    proof -
      have "pmalloc (Some a) sz m = heap_alloc (Some a) sz h ?k m"
        using Some k un(2) small by (simp add: pmalloc_def rep_pool [OF rep] c_half_def)
      moreover have "(if 4 \<le> sz then align8 (ph_used ?k) else ph_used ?k) = v" by (simp add: v_def)
      ultimately show ?thesis by (simp only: heap_alloc_def m1_def Let_def pheap.select_convs)
    qed
    show ?thesis
    proof (cases "n - v < sz")
      case False
      let ?m2 = "put_obj h (Heap_obj (?k\<lparr>ph_used := v + sz\<rparr>)) m1"
      have "0 \<le> v + sz" using v sz by simp
      then have "pool_rep f ?m2 a x (us @ Heap t h b n (v + sz) # vs)"
        using rep_use_heap(1) [OF m1(1) refl] by simp
      moreover have "regions_ok (us @ Heap t h b n (v + sz) # vs) ((b, v, sz) # rs)"
        using regions_heap [OF rep' r' v(1) un(1) sz] False by simp
      ultimately show ?thesis unfolding pm using False m1(2) v(3)
        by (intro exI [of _ ?m2] exI [of _ b] exI [of _ v] exI [of _ x] exI [of _ "us @ Heap t h b n (v + sz) # vs"])
          (simp add: gs m1_def put_obj_def)
    next
      case True
      from pool_heap_rep [OF m1(1) un(2)] obtain m2 h' y b' t' where 2: "pool_heap (Some a) n m1 = Some (m2, h')"
        "pool_rep f m2 a y ((us @ Heap t h b n v # vs) @ [Heap t' h' b' n 0])" "pl_heap y = pl_heap x"
        "pm_log m2 = pm_log m1" "pm_brk m1 \<le> b'" by blast
      let ?gs2 = "(us @ Heap t h b n v # vs) @ [Heap t' h' b' n 0]" and ?y = "y\<lparr>pl_heap := Some h'\<rparr>"
      define m3 where "m3 = put_obj a (Pool_obj ?y) m2"
      have m3: "pool_rep f m3 a ?y ?gs2" unfolding m3_def by (rule rep_put_pool [OF 2(2)]) auto
      have s: "set_pool_heap (Some a) h' m2 = Some m3"
        using rep_pool [OF 2(2)] by (simp add: set_pool_heap_def m3_def)
      note h' = rep_use_heap [OF m3, of "us @ Heap t h b n v # vs" t' h' b' n 0 "[]"]
      have k': "the_heap m3 h' = Some \<lparr>ph_block = b', ph_size = n, ph_used = 0\<rparr>" using h'(2) [of 0] by simp
      let ?gs' = "(us @ Heap t h b n v # vs) @ [Heap t' h' b' n sz]"
      let ?m4 = "put_obj h' (Heap_obj \<lparr>ph_block = b', ph_size = n, ph_used = sz\<rparr>) m3"
      have "pool_rep f ?m4 a ?y ?gs'" using h'(1) [of sz] sz by simp
      moreover have "regions_ok ?gs' ((b', 0, sz) # rs)"
      proof (rule regions_fresh [OF rep r])
        show "pm_brk m \<le> b'" using 2(5) by (simp add: m1_def put_obj_def)
        show "\<exists>g \<in> set ?gs'. inside (b', 0, sz) g" using small sz un(2) by (auto intro!: bexI [of _ "Heap t' h' b' n sz"])
        fix q g assume q: "g \<in> set gs" "inside q g"
        obtain c j l where "q = (c, j, l)" by (cases q)
        then show "\<exists>g' \<in> set ?gs'. inside q g'" using q v(1) unfolding gs by auto
      qed
      ultimately show ?thesis unfolding pm using True 2(1,4) s k'
        by (intro exI [of _ ?m4] exI [of _ b'] exI [of _ 0] exI [of _ ?y] exI [of _ ?gs'])
          (simp add: gs m1_def m3_def put_obj_def)
    qed
  qed
qed

section \<open>Freeing a pool\<close>

lemma free_loop_cells:
  "distinct (map fst (concat (map own_cells gs))) \<Longrightarrow> holds (pm_objs m) (concat (map own_cells gs)) \<Longrightarrow>
   \<exists>m'. free_loop (map entry gs) m = Some m' \<and> pm_log m' = pm_log m @ users gs \<and> pm_brk m' = pm_brk m \<and>
     (\<forall>b. pm_objs m' b = (if b \<in> fst ` set (concat (map own_cells gs)) then None else pm_objs m b))"
proof (induction gs arbitrary: m)
  case (Cons g gs)
  define m1 where "m1 = m\<lparr>pm_objs := \<lambda>b. if b \<in> fst ` set (own_cells g) then None else pm_objs m b,
    pm_log := pm_log m @ users [g]\<rparr>"
  have step: "Option.bind (run_cleaner (snd (entry g)) m) (pool_mfree (fst (entry g))) = Some m1"
    using Cons.prems by (cases g) (auto simp: m1_def run_cleaner_def pool_heap_free_def pool_mfree_def the_heap_def fun_eq_iff)
  have dis: "b \<notin> fst ` set (own_cells g)" if "b \<in> fst ` set (concat (map own_cells gs))" for b
    using Cons.prems(1) that by auto
  have "holds (pm_objs m1) (concat (map own_cells gs))"
  proof (rule holds_cong)
    show "holds (pm_objs m) (concat (map own_cells gs))" using Cons.prems(2) by simp
    fix b assume "b \<in> fst ` set (concat (map own_cells gs))"
    then show "pm_objs m1 b = pm_objs m b" using dis by (simp add: m1_def)
  qed
  with Cons.IH [of m1] Cons.prems(1) obtain m' where m': "free_loop (map entry gs) m1 = Some m'"
    "pm_log m' = pm_log m1 @ users gs" "pm_brk m' = pm_brk m1"
    "\<forall>b. pm_objs m' b = (if b \<in> fst ` set (concat (map own_cells gs)) then None else pm_objs m1 b)" by auto
  have "free_loop (map entry (g # gs)) m = Some m'"
    using step m'(1) by (cases "entry g") (auto simp: bind_eq_Some_conv)
  moreover have "pm_log m' = pm_log m @ users (g # gs)" using m'(2) by (cases g) (simp_all add: m1_def)
  moreover have "\<forall>b. pm_objs m' b = (if b \<in> fst ` set (concat (map own_cells (g # gs))) then None else pm_objs m b)"
    using m'(4) by (simp add: m1_def image_Un)
  ultimately show ?case using m'(3) by (auto simp: m1_def)
qed simp

lemma pool_free_rep:
  assumes rep: "pool_rep f m a x gs"
  shows "\<exists>m'. pool_free (Some a) m = Some m' \<and> pm_objs m' = f \<and> pm_log m' = pm_log m @ users gs"
proof -
  have d: "distinct (map fst (concat (map own_cells gs)))" "holds (pm_objs m) (concat (map own_cells gs))"
    and a: "pm_objs m a = Some (Pool_obj x)" "a \<notin> fst ` set (concat (map own_cells gs))"
    using rep by (auto simp: pool_rep_def all_cells_def)
  from free_loop_cells [OF d] obtain m1 where m1: "free_loop (map entry gs) m = Some m1" "pm_log m1 = pm_log m @ users gs"
    "\<forall>b. pm_objs m1 b = (if b \<in> fst ` set (concat (map own_cells gs)) then None else pm_objs m b)" by blast
  have "pm_objs m1 a \<noteq> None" using m1(3) a by simp
  moreover have "pl_cleanup x = map entry gs" using rep by (simp add: pool_rep_def)
  moreover have "(pm_objs m1)(a := None) = f"
  proof
    fix b
    show "((pm_objs m1)(a := None)) b = f b"
      using rep m1(3) by (auto simp: pool_rep_def all_cells_def split: if_splits)
  qed
  ultimately show ?thesis using m1(1,2) rep_pool [OF rep] by (auto simp: pool_free_def pool_mfree_def)
qed

section \<open>Theorem\<close>

text \<open>Using a pool: allocations and cleaners, with the regions in the order they were handed out.\<close>

datatype pool_use = Alloc int | On_free nat nat

fun pool_run :: "pool_use list \<Rightarrow> ptr \<Rightarrow> pmem \<Rightarrow> (pmem \<times> region list) option" where
  "pool_run [] p m = Some (m, [])"
| "pool_run (Alloc n # us) p m = do {
     (m, b, i) \<leftarrow> pmalloc p n m;
     (m, rs) \<leftarrow> pool_run us p m;
     Some (m, (b, i, n) # rs)
   }"
| "pool_run (On_free f x # us) p m = Option.bind (pool_cleanup p f x m) (pool_run us p)"

fun sizes :: "pool_use list \<Rightarrow> int list" where
  "sizes [] = []"
| "sizes (Alloc n # us) = n # sizes us"
| "sizes (On_free f x # us) = sizes us"

fun cleaners :: "pool_use list \<Rightarrow> (nat \<times> nat) list" where
  "cleaners [] = []"
| "cleaners (Alloc n # us) = cleaners us"
| "cleaners (On_free f x # us) = cleaners us @ [(f, x)]"

lemma apart_sym: "apart q r = apart r q"
  by (cases q; cases r) auto

lemma sorted_apart_rev: "sorted_wrt apart (rev rs) = sorted_wrt apart rs"
  by (simp add: sorted_wrt_rev apart_sym)

definition aligned :: "region \<Rightarrow> bool" where
  "aligned r \<longleftrightarrow> (case r of (b, i, n) \<Rightarrow> 4 \<le> n \<longrightarrow> i mod 8 = 0)"

lemma aligned_simp: "aligned (b, i, n) \<longleftrightarrow> (4 \<le> n \<longrightarrow> i mod 8 = 0)"
  by (simp add: aligned_def)

lemma pool_run_rep:
  "pool_rep f m a x gs \<Longrightarrow> regions_ok gs rs \<Longrightarrow> list_all (\<lambda>n. 0 \<le> n) (sizes us) \<Longrightarrow>
   \<exists>m' rs' y gs'. pool_run us (Some a) m = Some (m', rs') \<and> pool_rep f m' a y gs' \<and> regions_ok gs' (rev rs' @ rs) \<and>
     map (\<lambda>(b, i, n). n) rs' = sizes us \<and> list_all aligned rs' \<and>
     pm_log m' = pm_log m \<and> users gs' = cleaners us @ users gs"
proof (induction us arbitrary: m x gs rs)
  case (Cons u us)
  show ?case
  proof (cases u)
    case u: (Alloc n)
    from pmalloc_rep [OF Cons.prems(1,2), of n] Cons.prems(3) obtain m1 b i y gs1 where 1:
      "pmalloc (Some a) n m = Some (m1, b, i)" "pool_rep f m1 a y gs1" "regions_ok gs1 ((b, i, n) # rs)"
      "4 \<le> n \<longrightarrow> i mod 8 = 0" "pm_log m1 = pm_log m" "users gs1 = users gs" unfolding u by auto
    from Cons.IH [OF 1(2,3)] Cons.prems(3) obtain m2 rs2 z gs2 where 2:
      "pool_run us (Some a) m1 = Some (m2, rs2)" "pool_rep f m2 a z gs2" "regions_ok gs2 (rev rs2 @ (b, i, n) # rs)"
      "map (\<lambda>(b, i, n). n) rs2 = sizes us" "list_all aligned rs2" "pm_log m2 = pm_log m1"
      "users gs2 = cleaners us @ users gs1" unfolding u by auto
    from 1 2 show ?thesis unfolding u
      by (intro exI [of _ m2] exI [of _ "(b, i, n) # rs2"] exI [of _ z] exI [of _ gs2]) (simp add: aligned_simp)
  next
    case u: (On_free g k)
    from pool_cleanup_rep [OF Cons.prems(1), of g k] obtain m1 y t where 1: "pool_cleanup (Some a) g k m = Some m1"
      "pool_rep f m1 a y (User t g k # gs)" "pm_log m1 = pm_log m" by blast
    have "regions_ok (User t g k # gs) rs" using Cons.prems(2) by (auto simp: regions_ok_def)
    from Cons.IH [OF 1(2) this] Cons.prems(3) 1 show ?thesis unfolding u by auto
  qed
qed (auto intro: exI [of _ "[]"])

lemma pool_new_rep:
  assumes m: "pm_ok m"
  shows "\<exists>m'. pool_new m = (m', Some (pm_brk m)) \<and>
    pool_rep (pm_objs m) m' (pm_brk m) \<lparr>pl_size = 0, pl_cleanup = [], pl_heap = None\<rparr> [] \<and> pm_log m' = pm_log m"
proof -
  have "pm_objs m (pm_brk m) = None" using m by (cases "pm_objs m (pm_brk m)") (auto simp: pm_ok_def)
  then show ?thesis using m
    by (auto simp: pool_new_def pool_malloc_def pool_rep_def all_cells_def pm_ok_def less_Suc_eq Let_def)
qed

lemma pool_new_heap_rep:
  assumes m: "pm_ok m" and n: "0 \<le> n"
  shows "\<exists>m' x gs. pool_new_heap n m = Some (m', Some (pm_brk m)) \<and> pool_rep (pm_objs m) m' (pm_brk m) x gs \<and>
    regions_ok gs [] \<and> users gs = [] \<and> pm_log m' = pm_log m"
proof -
  from pool_new_rep [OF m] obtain m1 where 1: "pool_new m = (m1, Some (pm_brk m))"
    "pool_rep (pm_objs m) m1 (pm_brk m) \<lparr>pl_size = 0, pl_cleanup = [], pl_heap = None\<rparr> []" "pm_log m1 = pm_log m" by blast
  from pool_heap_rep [OF 1(2) n] obtain m2 h y b t where 2: "pool_heap (Some (pm_brk m)) n m1 = Some (m2, h)"
    "pool_rep (pm_objs m) m2 (pm_brk m) y [Heap t h b n 0]" "pm_log m2 = pm_log m1" by auto
  let ?m3 = "put_obj (pm_brk m) (Pool_obj (y\<lparr>pl_heap := Some h\<rparr>)) m2"
  have "pool_rep (pm_objs m) ?m3 (pm_brk m) (y\<lparr>pl_heap := Some h\<rparr>) [Heap t h b n 0]"
    by (rule rep_put_pool [OF 2(2)]) auto
  then show ?thesis using 1(1,3) 2 rep_pool [OF 2(2)]
    by (intro exI [of _ ?m3] exI [of _ "y\<lparr>pl_heap := Some h\<rparr>"] exI [of _ "[Heap t h b n 0]"])
      (simp add: pool_new_heap_def set_pool_heap_def regions_ok_def put_obj_def)
qed

text \<open>
  C31. A pool with a heap of any size, used for any sequence of allocations: every region lies
  inside a block that \<open>malloc\<close> returned, regions do not overlap, and those of four bytes or more
  begin at a multiple of eight. Freeing the pool then frees every object that was allocated for it
  exactly once and nothing else, and runs the clients' cleaners, the last one registered first.
\<close>

theorem pool_regions_disjoint:
  assumes m: "pm_ok m" and n: "0 \<le> n" "list_all (\<lambda>k. 0 \<le> k) (sizes us)"
  shows "\<exists>m1 p m2 rs m3. pool_new_heap n m = Some (m1, p) \<and> pool_run us p m1 = Some (m2, rs) \<and>
    map (\<lambda>(b, i, k). k) rs = sizes us \<and> sorted_wrt apart rs \<and> list_all aligned rs \<and>
    list_all (\<lambda>(b, i, k). \<exists>l. pm_objs m2 b = Some (Bytes l) \<and> 0 \<le> i \<and> i + k \<le> l) rs \<and>
    pool_free p m2 = Some m3 \<and> pm_objs m3 = pm_objs m \<and> pm_log m3 = pm_log m @ cleaners us"
proof -
  let ?a = "pm_brk m"
  from pool_new_heap_rep [OF m n(1)] obtain m1 x gs where 1: "pool_new_heap n m = Some (m1, Some ?a)"
    "pool_rep (pm_objs m) m1 ?a x gs" "regions_ok gs []" "users gs = []" "pm_log m1 = pm_log m" by blast
  from pool_run_rep [OF 1(2,3) n(2)] obtain m2 rs y gs' where 2: "pool_run us (Some ?a) m1 = Some (m2, rs)"
    "pool_rep (pm_objs m) m2 ?a y gs'" "regions_ok gs' (rev rs)" "map (\<lambda>(b, i, n). n) rs = sizes us"
    "list_all aligned rs" "pm_log m2 = pm_log m1" "users gs' = cleaners us" using 1(4) by auto
  from pool_free_rep [OF 2(2)] obtain m3 where 3: "pool_free (Some ?a) m2 = Some m3" "pm_objs m3 = pm_objs m"
    "pm_log m3 = pm_log m2 @ users gs'" by blast
  have "\<exists>l. pm_objs m2 b = Some (Bytes l) \<and> 0 \<le> i \<and> i + k \<le> l" if "(b, i, k) \<in> set rs" for b i k
  proof -
    from 2(3) that obtain g where g: "g \<in> set gs'" "inside (b, i, k) g" by (auto simp: regions_ok_def)
    from split_list [OF g(1)] obtain us vs where gs': "gs' = us @ g # vs" by blast
    show ?thesis using g(2) 2(2) unfolding gs' by (cases g) (auto simp: pool_rep_def all_cells_def)
  qed
  then have "list_all (\<lambda>(b, i, k). \<exists>l. pm_objs m2 b = Some (Bytes l) \<and> 0 \<le> i \<and> i + k \<le> l) rs"
    by (auto simp: list_all_iff)
  moreover have "sorted_wrt apart rs" using 2(3) sorted_apart_rev by (auto simp: regions_ok_def)
  ultimately show ?thesis using 1 2 3 by (intro exI [of _ m1] exI [of _ "Some ?a"] exI [of _ m2] exI [of _ rs] exI [of _ m3]) simp
qed

theorem pool_regions_disjoint_witness:
  "\<exists>m1 p m2 rs m3. pool_new_heap 32 \<lparr>pm_objs = Map.empty, pm_brk = 0, pm_log = []\<rparr> = Some (m1, p) \<and>
     pool_run [Alloc 3, On_free 1 2, Alloc 10, Alloc 20, Alloc 16, On_free 3 4] p m1 = Some (m2, rs) \<and>
     map (\<lambda>(b, i, k). k) rs = [3, 10, 20, 16] \<and> sorted_wrt apart rs \<and>
     pool_free p m2 = Some m3 \<and> pm_objs m3 = Map.empty \<and> pm_log m3 = [(3, 4), (1, 2)]"
  using pool_regions_disjoint [of "\<lparr>pm_objs = Map.empty, pm_brk = 0, pm_log = []\<rparr>" 32
      "[Alloc 3, On_free 1 2, Alloc 10, Alloc 20, Alloc 16, On_free 3 4]"]
  by (simp add: pm_ok_def del: pool_run.simps) (elim exE conjE, intro exI conjI, assumption+)

end
