(* ===== verification/GHash.thy ===== *)
theory GHash
  imports Prelude "HOL-Library.Word"
begin

unbundle bit_operations_syntax

text \<open>
  The hash tables of \<open>libjabber/genhash.c\<close>. A bucket is the list of its nodes from the head; the
  free nodes of the slabs are counted. Keys are compared by the functions of the table; storing a
  key keeps the caller's pointer, here its value.
\<close>

abbreviation SLAB_NUM_NODES :: nat where "SLAB_NUM_NODES \<equiv> 64"
abbreviation HASH_NUM_BUCKETS :: int where "HASH_NUM_BUCKETS \<equiv> 509"
abbreviation HASH_SIG1 :: nat where "HASH_SIG1 \<equiv> 0x68736148"
abbreviation HASH_SIG2 :: nat where "HASH_SIG2 \<equiv> 0x6F627245"

record ('k, 'v) htab =
  ht_sig1 :: nat
  ht_hash :: "'k \<Rightarrow> int"
  ht_cmp :: "'k \<Rightarrow> 'k \<Rightarrow> int"
  ht_count :: int
  ht_bcount :: int
  ht_buckets :: "('k \<times> 'v) list list"
  ht_sig2 :: nat

text \<open>
  The state of the module: the length of \<open>s_free_nodes\<close> and the number of \<open>s_slabs\<close>; and how many
  more slabs \<open>malloc\<close> can give.
\<close>

record slabs =
  s_free_nodes :: nat
  s_slabs :: nat
  s_left :: nat

definition allocate_node :: "slabs \<Rightarrow> slabs \<times> bool" where
  "allocate_node s =
     (if s_free_nodes s = 0 then
        if s_left s = 0 then (s, False)
        else (s\<lparr>s_free_nodes := SLAB_NUM_NODES - 1, s_slabs := s_slabs s + 1, s_left := s_left s - 1\<rparr>, True)
      else (s\<lparr>s_free_nodes := s_free_nodes s - 1\<rparr>, True))"

definition free_node :: "slabs \<Rightarrow> slabs" where
  "free_node s = s\<lparr>s_free_nodes := s_free_nodes s + 1\<rparr>"

text \<open>\<open>%\<close> of C; a negative result would index in front of the array, which has no result.\<close>

definition c_rem :: "int \<Rightarrow> int \<Rightarrow> int" where
  "c_rem a b = (if a < 0 then - ((- a) mod b) else a mod b)"

definition do_hash :: "('k, 'v) htab \<Rightarrow> 'k \<Rightarrow> int" where
  "do_hash tab key = c_rem (ht_hash tab key) (ht_bcount tab)"

definition bucket_at :: "('k, 'v) htab \<Rightarrow> int \<Rightarrow> ('k \<times> 'v) list option" where
  "bucket_at tab i = (if 0 \<le> i \<and> i < int (length (ht_buckets tab)) then Some (ht_buckets tab ! nat i) else None)"

text \<open>The node that is found is the key and value it holds; \<open>NULL\<close> is the inner \<open>None\<close>.\<close>

definition find_node :: "('k, 'v) htab \<Rightarrow> 'k \<Rightarrow> int \<Rightarrow> ('k \<times> 'v) option option" where
  "find_node tab key bucket = do {
     let bucket = (if bucket < 0 then do_hash tab key else bucket);
     ps \<leftarrow> bucket_at tab bucket;
     Some (List.find (\<lambda>p. ht_cmp tab key (fst p) = 0) ps)
   }"

definition handle2ptr :: "('k, 'v) htab \<Rightarrow> ('k, 'v) htab option" where
  "handle2ptr tbl = (if ht_sig1 tbl = HASH_SIG1 \<and> ht_sig2 tbl = HASH_SIG2 then Some tbl else None)"

definition ghash_create :: "int \<Rightarrow> ('k \<Rightarrow> int) option \<Rightarrow> ('k \<Rightarrow> 'k \<Rightarrow> int) option \<Rightarrow> ('k, 'v) htab option" where
  "ghash_create buckets hash cmp =
     (case (hash, cmp) of
        (Some hash, Some cmp) \<Rightarrow>
          let buckets = (if buckets \<le> 0 then HASH_NUM_BUCKETS else buckets) in
          Some \<lparr>ht_sig1 = HASH_SIG1, ht_hash = hash, ht_cmp = cmp, ht_count = 0, ht_bcount = buckets,
            ht_buckets = replicate (nat buckets) [], ht_sig2 = HASH_SIG2\<rparr>
      | _ \<Rightarrow> None)"

definition ghash_destroy :: "('k, 'v) htab option \<Rightarrow> slabs \<Rightarrow> slabs" where
  "ghash_destroy tbl s =
     (case Option.bind tbl handle2ptr of
        None \<Rightarrow> s
      | Some tab \<Rightarrow> fold (\<lambda>ps s. fold (\<lambda>p s. free_node s) ps s) (ht_buckets tab) s)"

definition ghash_get :: "('k, 'v) htab option \<Rightarrow> 'k option \<Rightarrow> 'v option option" where
  "ghash_get tbl key =
     (case (Option.bind tbl handle2ptr, key) of
        (Some tab, Some k) \<Rightarrow> do {
          node \<leftarrow> find_node tab k (- 1);
          Some (map_option snd node)
        }
      | _ \<Rightarrow> Some None)"

definition set_bucket :: "int \<Rightarrow> ('k \<times> 'v) list \<Rightarrow> ('k, 'v) htab \<Rightarrow> ('k, 'v) htab" where
  "set_bucket i ps tab = tab\<lparr>ht_buckets := (ht_buckets tab)[nat i := ps]\<rparr>"

definition ghash_put ::
  "('k, 'v) htab option \<Rightarrow> 'k option \<Rightarrow> 'v option \<Rightarrow> slabs \<Rightarrow> (('k, 'v) htab option \<times> slabs \<times> int) option" where
  "ghash_put tbl key val s =
     (case (Option.bind tbl handle2ptr, key, val) of
        (Some tab, Some k, Some v) \<Rightarrow> do {
          let bucket = do_hash tab k;
          node \<leftarrow> find_node tab k bucket;
          ps \<leftarrow> bucket_at tab bucket;
          (case node of
             None \<Rightarrow>
               (case allocate_node s of (s, ok) \<Rightarrow>
                  if ok then
                    let tab = set_bucket bucket ((k, v) # ps) tab in
                    Some (Some (tab\<lparr>ht_count := ht_count tab + 1\<rparr>), s, 1)
                  else Some (Some tab, s, 0))
           | Some n \<Rightarrow>
               Some (Some (set_bucket bucket (map_first (\<lambda>p. ht_cmp tab k (fst p) = 0) (\<lambda>p. (fst p, v)) ps) tab), s, 1))
        }
      | _ \<Rightarrow> Some (tbl, s, 0))"

definition ghash_remove :: "('k, 'v) htab option \<Rightarrow> 'k option \<Rightarrow> slabs \<Rightarrow> (('k, 'v) htab option \<times> slabs \<times> int) option" where
  "ghash_remove tbl key s =
     (case (Option.bind tbl handle2ptr, key) of
        (Some tab, Some k) \<Rightarrow> do {
          let bucket = do_hash tab k;
          node \<leftarrow> find_node tab k bucket;
          ps \<leftarrow> bucket_at tab bucket;
          (case node of
             None \<Rightarrow> Some (tbl, s, 0)
           | Some n \<Rightarrow>
               let tab = set_bucket bucket (remove_first (\<lambda>p. ht_cmp tab k (fst p) = 0) ps) tab in
               Some (Some (tab\<lparr>ht_count := ht_count tab - 1\<rparr>), free_node s, 1))
        }
      | _ \<Rightarrow> Some (tbl, s, 0))"

text \<open>\<open>ghash_walk\<close>: \<open>func\<close> changes the user data and answers whether to go on.\<close>

fun walk_loop :: "('u \<Rightarrow> 'k \<Rightarrow> 'v \<Rightarrow> 'u \<times> bool) \<Rightarrow> ('k \<times> 'v) list \<Rightarrow> 'u \<Rightarrow> int \<Rightarrow> 'u \<times> int \<times> bool" where
  "walk_loop func [] u n = (u, n, True)"
| "walk_loop func ((k, v) # ps) u n =
     (case func u k v of (u, running) \<Rightarrow> if running then walk_loop func ps u (n + 1) else (u, n + 1, False))"

fun walk_buckets :: "('u \<Rightarrow> 'k \<Rightarrow> 'v \<Rightarrow> 'u \<times> bool) \<Rightarrow> ('k \<times> 'v) list list \<Rightarrow> 'u \<Rightarrow> int \<Rightarrow> 'u \<times> int" where
  "walk_buckets func [] u n = (u, n)"
| "walk_buckets func (ps # bs) u n =
     (case walk_loop func ps u n of (u, n, running) \<Rightarrow> if running then walk_buckets func bs u n else (u, n))"

definition ghash_walk :: "('k, 'v) htab option \<Rightarrow> ('u \<Rightarrow> 'k \<Rightarrow> 'v \<Rightarrow> 'u \<times> bool) option \<Rightarrow> 'u \<Rightarrow> 'u \<times> int" where
  "ghash_walk tbl func u =
     (case (Option.bind tbl handle2ptr, func) of
        (Some tab, Some f) \<Rightarrow> walk_buckets f (ht_buckets tab) u 0
      | _ \<Rightarrow> (u, - 1))"

section \<open>The hash code of strings\<close>

text \<open>\<open>unsigned long\<close> has 64 bits; the result is cast to an \<open>int\<close> of 32 bits.\<close>

definition elf_step :: "64 word \<Rightarrow> char \<Rightarrow> 64 word" where
  "elf_step h c =
     (let h = push_bit 4 h + of_nat (of_char c);
          g = h AND 0xF0000000;
          h = (if g \<noteq> 0 then h XOR drop_bit 24 g else h) in
      h AND NOT g)"

definition str_hash_code :: "string option \<Rightarrow> int" where
  "str_hash_code s = (case s of None \<Rightarrow> 0 | Some str \<Rightarrow> sint (ucast (fold (\<lambda>c h. elf_step h c) str (0 :: 64 word)) :: 32 word))"

lemma elf_step_bits:
  assumes "28 \<le> i" "i < 32"
  shows "\<not> bit (elf_step h c) i"
proof -
  have "i = 28 \<or> i = 29 \<or> i = 30 \<or> i = 31" using assms by auto
  then have "bit (0xF0000000 :: 64 word) i" "\<not> bit (0xF0 :: 64 word) i" by auto
  then show ?thesis using assms by (simp add: elf_step_def Let_def bit_simps)
qed

text \<open>The result fits into 28 bits, so a bucket number is never negative.\<close>

lemma str_hash_code_bounds: "0 \<le> str_hash_code s" "str_hash_code s < 2 ^ 28"
proof -
  have "0 \<le> str_hash_code s \<and> str_hash_code s < 2 ^ 28"
  proof (cases s)
    case (Some t)
    define w where "w = (ucast (fold (\<lambda>c h. elf_step h c) t (0 :: 64 word)) :: 32 word)"
    have "\<not> bit (fold (\<lambda>c h. elf_step h c) t (0 :: 64 word)) i" if "28 \<le> i" "i < 32" for i
      using elf_step_bits [OF that] by (cases t rule: rev_cases) auto
    then have "bit (take_bit 28 w) i \<longleftrightarrow> bit w i" for i
      by (cases "28 \<le> i \<and> i < 32") (auto simp: w_def bit_simps)
    then have "take_bit 28 w = w" by (rule bit_eqI)
    then have u: "uint w = take_bit 28 (uint w)" by (metis unsigned_take_bit_eq)
    then have "uint w < 2 ^ 28" by (metis take_bit_int_less_exp)
    then have "sint w = uint w" using signed_take_bit_int_eq_self [of 31 "uint w"] uint_ge_0 [of w] by (simp add: sint_uint)
    with \<open>uint w < 2 ^ 28\<close> show ?thesis using Some by (simp add: str_hash_code_def w_def)
  qed (simp add: str_hash_code_def)
  then show "0 \<le> str_hash_code s" "str_hash_code s < 2 ^ 28" by simp_all
qed

section \<open>Tables as maps\<close>

text \<open>
  What a table asks of its two functions: the comparison is an equivalence and the hash code is
  the same for equal keys and not negative.
\<close>

locale key_compare =
  fixes hash :: "'k \<Rightarrow> int" and cmp :: "'k \<Rightarrow> 'k \<Rightarrow> int"
  assumes cmp_refl: "cmp k k = 0" and cmp_sym: "cmp k j = 0 \<Longrightarrow> cmp j k = 0"
    and cmp_trans: "cmp i j = 0 \<Longrightarrow> cmp j k = 0 \<Longrightarrow> cmp i k = 0"
    and hash_cmp: "cmp k j = 0 \<Longrightarrow> hash k = hash j" and hash_nonneg: "0 \<le> hash k"
begin

definition bucket_ok :: "nat \<Rightarrow> int \<Rightarrow> ('k \<times> 'v) list \<Rightarrow> bool" where
  "bucket_ok n i ps \<longleftrightarrow> pairwise_unrelated (\<lambda>p q. cmp (fst p) (fst q) = 0) ps \<and> (\<forall>p \<in> set ps. hash (fst p) mod int n = i)"

definition table_ok :: "('k, 'v) htab \<Rightarrow> bool" where
  "table_ok tab \<longleftrightarrow> ht_sig1 tab = HASH_SIG1 \<and> ht_sig2 tab = HASH_SIG2 \<and> ht_hash tab = hash \<and> ht_cmp tab = cmp \<and>
     ht_bcount tab = int (length (ht_buckets tab)) \<and> ht_buckets tab \<noteq> [] \<and>
     (\<forall>i < length (ht_buckets tab). bucket_ok (length (ht_buckets tab)) (int i) (ht_buckets tab ! i)) \<and>
     ht_count tab = int (sum_list (map length (ht_buckets tab)))"

definition index_of :: "('k, 'v) htab \<Rightarrow> 'k \<Rightarrow> nat" where
  "index_of tab k = nat (hash k mod int (length (ht_buckets tab)))"

definition lookup :: "('k, 'v) htab \<Rightarrow> 'k \<Rightarrow> 'v option" where
  "lookup tab k = map_option snd (List.find (\<lambda>p. cmp k (fst p) = 0) (ht_buckets tab ! index_of tab k))"

lemma table_bucket:
  assumes "table_ok tab" and that: "b < 0 \<or> b = do_hash tab k"
  shows "do_hash tab k = int (index_of tab k)" "index_of tab k < length (ht_buckets tab)"
    "bucket_at tab (do_hash tab k) = Some (ht_buckets tab ! index_of tab k)"
    "find_node tab k b = Some (List.find (\<lambda>p. cmp k (fst p) = 0) (ht_buckets tab ! index_of tab k))"
proof -
  have l: "0 < int (length (ht_buckets tab))" using assms by (simp add: table_ok_def)
  then have m: "0 \<le> hash k mod int (length (ht_buckets tab))" "hash k mod int (length (ht_buckets tab)) < int (length (ht_buckets tab))"
    by simp_all
  show h: "do_hash tab k = int (index_of tab k)"
    using assms m hash_nonneg [of k] by (simp add: do_hash_def c_rem_def index_of_def table_ok_def)
  show n: "index_of tab k < length (ht_buckets tab)" using m by (simp add: index_of_def nat_less_iff)
  show b: "bucket_at tab (do_hash tab k) = Some (ht_buckets tab ! index_of tab k)"
    using n by (simp add: bucket_at_def h)
  show "find_node tab k b = Some (List.find (\<lambda>p. cmp k (fst p) = 0) (ht_buckets tab ! index_of tab k))"
    using that b assms by (auto simp: find_node_def table_ok_def Let_def h)
qed

lemma handle_ok: "table_ok tab \<Longrightarrow> handle2ptr tab = Some tab"
  by (simp add: handle2ptr_def table_ok_def)

lemma cmp_cong: "cmp j k = 0 \<Longrightarrow> cmp j l = 0 \<longleftrightarrow> cmp k l = 0"
  using cmp_sym cmp_trans by blast

text \<open>Replacing one bucket.\<close>

lemma set_bucket_ok:
  assumes t: "table_ok tab" and b: "bucket_ok (length (ht_buckets tab)) (int (index_of tab k)) ps"
    and i: "i = int (index_of tab k)" and n: "n = ht_count tab + int (length ps) - int (length (ht_buckets tab ! index_of tab k))"
  shows "table_ok ((set_bucket i ps tab)\<lparr>ht_count := n\<rparr>)"
proof -
  note l = table_bucket(2) [OF t disjI2 [OF refl], of k]
  have "int (sum_list (map length ((ht_buckets tab)[index_of tab k := ps]))) =
      int (sum_list (map length (ht_buckets tab))) + int (length ps) - int (length (ht_buckets tab ! index_of tab k))"
  proof -
    have "length (ht_buckets tab ! index_of tab k) \<le> sum_list (map length (ht_buckets tab))"
      using elem_le_sum_list [of "index_of tab k" "map length (ht_buckets tab)"] l by simp
    then show ?thesis using l by (simp add: map_update sum_list_update of_nat_diff)
  qed
  then show ?thesis using t b l unfolding i n
    by (auto simp: table_ok_def set_bucket_def nth_list_update)
qed

lemma lookup_set_bucket:
  assumes t: "table_ok tab" and i: "i = int (index_of tab k)"
  shows "lookup ((set_bucket i ps tab)\<lparr>ht_count := n\<rparr>) j =
    (if index_of tab j = index_of tab k then map_option snd (List.find (\<lambda>p. cmp j (fst p) = 0) ps) else lookup tab j)"
proof -
  have "index_of ((set_bucket i ps tab)\<lparr>ht_count := n\<rparr>) j = index_of tab j" by (simp add: index_of_def set_bucket_def)
  then show ?thesis using table_bucket(2) [OF t disjI2 [OF refl], of k] unfolding i lookup_def
    by (simp add: set_bucket_def nth_list_update)
qed

lemma bucket_ok_keys:
  fixes qs ps :: "('k \<times> 'v) list"
  assumes "map fst qs = map fst ps"
  shows "bucket_ok n i qs = bucket_ok n i ps"
proof -
  have "bucket_ok n i rs \<longleftrightarrow> pairwise_unrelated (\<lambda>p q. cmp (fst p) (fst q) = 0) rs \<and> (\<forall>x \<in> set (map fst rs). hash x mod int n = i)" for rs :: "('k \<times> 'v) list"
    by (auto simp: bucket_ok_def)
  then show ?thesis unfolding assms
    using pairwise_unrelated_map_cong [OF assms, of "\<lambda>a b. cmp a b = 0"] assms by metis
qed

lemma find_replaced:
  "List.find (\<lambda>p. cmp k (fst p) = 0) ps \<noteq> None \<Longrightarrow>
   map_option snd (List.find (\<lambda>p. cmp j (fst p) = 0) (map_first (\<lambda>p. cmp k (fst p) = 0) (\<lambda>p. (fst p, v)) ps)) =
     (if cmp j k = 0 then Some v else map_option snd (List.find (\<lambda>p. cmp j (fst p) = 0) ps))"
proof (induction ps)
  case (Cons p ps)
  show ?case
  proof (cases "cmp k (fst p) = 0")
    case True
    then have "cmp j (fst p) = 0 \<longleftrightarrow> cmp j k = 0" using cmp_trans cmp_sym by blast
    then show ?thesis using True by simp
  next
    case False
    then have "cmp j k = 0 \<Longrightarrow> cmp j (fst p) \<noteq> 0" using cmp_cong by blast
    then show ?thesis using False Cons by auto
  qed
qed simp

lemma index_cmp: "cmp j k = 0 \<Longrightarrow> index_of tab j = index_of tab k"
  using hash_cmp by (simp add: index_of_def)

lemma get_lookup: "table_ok tab \<Longrightarrow> ghash_get (Some tab) (Some k) = Some (lookup tab k)"
  using table_bucket(4) [of tab "- 1" k] by (simp add: ghash_get_def handle_ok lookup_def)

lemma put_lookup:
  assumes t: "table_ok tab"
  shows "\<exists>tab' s' rc. ghash_put (Some tab) (Some k) (Some v) s = Some (Some tab', s', rc) \<and>
    (if rc = 1 then table_ok tab' \<and> (\<forall>j. lookup tab' j = (if cmp j k = 0 then Some v else lookup tab j)) \<and>
       ht_count tab' = ht_count tab + (if lookup tab k = None then 1 else 0) \<and>
       int (s_free_nodes s') + ht_count tab' - 64 * int (s_slabs s') = int (s_free_nodes s) + ht_count tab - 64 * int (s_slabs s)
     else rc = 0 \<and> tab' = tab \<and> s' = s \<and> lookup tab k = None \<and> s_free_nodes s = 0 \<and> s_left s = 0)"
proof -
  let ?i = "index_of tab k"
  let ?ps = "ht_buckets tab ! ?i"
  note b = table_bucket [OF t disjI2 [OF refl], of k]
  have ok: "bucket_ok (length (ht_buckets tab)) (int ?i) ?ps" using t b(2) by (simp add: table_ok_def)
  have cmp: "ht_cmp tab = cmp" using t by (simp add: table_ok_def)
  show ?thesis
  proof (cases "List.find (\<lambda>p. cmp k (fst p) = 0) ?ps")
    case None
    then have no: "\<And>p. p \<in> set ?ps \<Longrightarrow> cmp k (fst p) \<noteq> 0" by (auto simp: find_None_conv)
    have l: "lookup tab k = None" using None by (simp add: lookup_def)
    obtain s' ok' where a: "allocate_node s = (s', ok')" by (cases "allocate_node s")
    show ?thesis
    proof (cases ok')
      case True
      let ?tab = "(set_bucket (int ?i) ((k, v) # ?ps) tab)\<lparr>ht_count := ht_count tab + 1\<rparr>"
      have "ghash_put (Some tab) (Some k) (Some v) s = Some (Some ?tab, s', 1)"
        using b None a True by (simp add: ghash_put_def handle_ok [OF t] Let_def set_bucket_def)
      moreover have "bucket_ok (length (ht_buckets tab)) (int ?i) ((k, v) # ?ps)"
        using ok no b(1) t hash_nonneg [of k] by (auto simp: bucket_ok_def do_hash_def c_rem_def table_ok_def)
      then have "table_ok ?tab" by (rule set_bucket_ok [OF t _ refl]) simp
      moreover have "lookup ?tab j = (if cmp j k = 0 then Some v else lookup tab j)" for j
        unfolding lookup_set_bucket [OF t refl] using index_cmp [of j k tab] by (auto simp: lookup_def)
      moreover have "int (s_free_nodes s') + 1 - 64 * int (s_slabs s') = int (s_free_nodes s) - 64 * int (s_slabs s)"
        using a True by (auto simp: allocate_node_def split: if_splits)
      ultimately show ?thesis using l by (intro exI [of _ ?tab] exI [of _ s'] exI [of _ 1]) simp
    next
      case False
      then have "ghash_put (Some tab) (Some k) (Some v) s = Some (Some tab, s', 0)" "s' = s" "s_free_nodes s = 0" "s_left s = 0"
        using b None a by (auto simp: ghash_put_def handle_ok [OF t] Let_def allocate_node_def split: if_splits)
      then show ?thesis using l by simp
    qed
  next
    case (Some n)
    let ?qs = "map_first (\<lambda>p. cmp k (fst p) = 0) (\<lambda>p. (fst p, v)) ?ps"
    let ?tab = "set_bucket (int ?i) ?qs tab"
    have "ghash_put (Some tab) (Some k) (Some v) s = Some (Some ?tab, s, 1)"
      using b Some cmp by (simp add: ghash_put_def handle_ok [OF t] Let_def)
    moreover have fs: "map fst ?qs = map fst ?ps" by (rule map_map_first) simp
    then have "bucket_ok (length (ht_buckets tab)) (int ?i) ?qs"
      using ok bucket_ok_keys [OF fs] by simp
    then have "table_ok (?tab\<lparr>ht_count := ht_count tab\<rparr>)" by (rule set_bucket_ok [OF t _ refl]) simp
    then have "table_ok ?tab" by (simp add: set_bucket_def)
    moreover have "lookup ?tab j = (if cmp j k = 0 then Some v else lookup tab j)" for j
    proof -
      have "lookup (?tab\<lparr>ht_count := ht_count tab\<rparr>) j = lookup ?tab j" by (simp add: lookup_def index_of_def)
      moreover have "List.find (\<lambda>p. cmp k (fst p) = 0) ?ps \<noteq> None" using Some by simp
      note find_replaced [OF this, of j v]
      ultimately show ?thesis using lookup_set_bucket [OF t refl, where k = k and ps = ?qs and n = "ht_count tab" and j = j] index_cmp [of j k tab]
        by (auto simp: lookup_def)
    qed
    moreover have "lookup tab k \<noteq> None" using Some by (simp add: lookup_def)
    ultimately show ?thesis by (intro exI [of _ ?tab] exI [of _ s] exI [of _ 1]) (simp add: set_bucket_def)
  qed
qed

lemma find_removed:
  "pairwise_unrelated (\<lambda>p q. cmp (fst p) (fst q) = 0) ps \<Longrightarrow>
   map_option snd (List.find (\<lambda>p. cmp j (fst p) = 0) (remove_first (\<lambda>p. cmp k (fst p) = 0) ps)) =
     (if cmp j k = 0 then None else map_option snd (List.find (\<lambda>p. cmp j (fst p) = 0) ps))"
proof (induction ps)
  case (Cons p ps)
  show ?case
  proof (cases "cmp k (fst p) = 0")
    case True
    show ?thesis
    proof (cases "cmp j k = 0")
      case j: True
      have "\<not> (\<exists>q \<in> set ps. cmp j (fst q) = 0)"
      proof
        assume "\<exists>q \<in> set ps. cmp j (fst q) = 0"
        then obtain q where "q \<in> set ps" "cmp j (fst q) = 0" ..
        moreover have "cmp (fst p) j = 0" using True j cmp_trans cmp_sym by blast
        ultimately have "cmp (fst p) (fst q) = 0" using cmp_trans by blast
        then show False using Cons.prems \<open>q \<in> set ps\<close> by simp
      qed
      then have "List.find (\<lambda>p. cmp j (fst p) = 0) ps = None" by (simp add: find_None_conv)
      then show ?thesis using True j by simp
    next
      case j: False
      then have "cmp j (fst p) \<noteq> 0" using True cmp_trans cmp_sym by blast
      then show ?thesis using True j by simp
    qed
  next
    case False
    then have "cmp j k = 0 \<Longrightarrow> cmp j (fst p) \<noteq> 0" using cmp_cong by blast
    then show ?thesis using False Cons by auto
  qed
qed simp

lemma length_remove_first: "List.find P xs \<noteq> None \<Longrightarrow> length (remove_first P xs) + 1 = length xs"
  by (induction xs) auto

lemma remove_lookup:
  assumes t: "table_ok tab"
  shows "\<exists>tab'. ghash_remove (Some tab) (Some k) s =
      Some (Some tab', if lookup tab k = None then s else free_node s, if lookup tab k = None then 0 else 1) \<and>
    table_ok tab' \<and> (\<forall>j. lookup tab' j = (if cmp j k = 0 then None else lookup tab j)) \<and>
    ht_count tab' = ht_count tab - (if lookup tab k = None then 0 else 1)"
proof -
  let ?i = "index_of tab k"
  let ?ps = "ht_buckets tab ! ?i"
  note b = table_bucket [OF t disjI2 [OF refl], of k]
  have ok: "bucket_ok (length (ht_buckets tab)) (int ?i) ?ps" using t b(2) by (simp add: table_ok_def)
  have cmp: "ht_cmp tab = cmp" using t by (simp add: table_ok_def)
  show ?thesis
  proof (cases "List.find (\<lambda>p. cmp k (fst p) = 0) ?ps")
    case None
    then have l: "lookup tab k = None" by (simp add: lookup_def)
    have "lookup tab j = (if cmp j k = 0 then None else lookup tab j)" for j
    proof (cases "cmp j k = 0")
      case True
      then have "index_of tab j = ?i" "\<And>q. cmp j q = 0 \<longleftrightarrow> cmp k q = 0" using index_cmp cmp_cong by blast+
      with None True show ?thesis by (simp add: lookup_def)
    qed simp
    then show ?thesis using t b None l by (intro exI [of _ tab]) (simp add: ghash_remove_def handle_ok [OF t] Let_def)
  next
    case (Some n)
    let ?qs = "remove_first (\<lambda>p. cmp k (fst p) = 0) ?ps"
    let ?tab = "(set_bucket (int ?i) ?qs tab)\<lparr>ht_count := ht_count tab - 1\<rparr>"
    obtain y where l: "lookup tab k = Some y" using Some by (simp add: lookup_def)
    have "ghash_remove (Some tab) (Some k) s = Some (Some ?tab, free_node s, 1)"
      using b Some cmp by (simp add: ghash_remove_def handle_ok [OF t] Let_def set_bucket_def)
    moreover have "bucket_ok (length (ht_buckets tab)) (int ?i) ?qs"
      using ok set_remove_first_subset [of "\<lambda>p. cmp k (fst p) = 0" ?ps] by (auto simp: bucket_ok_def)
    then have "table_ok ?tab"
      using length_remove_first [of "\<lambda>p. cmp k (fst p) = 0" ?ps] Some by (intro set_bucket_ok [OF t _ refl]) auto
    moreover have "lookup ?tab j = (if cmp j k = 0 then None else lookup tab j)" for j
      unfolding lookup_set_bucket [OF t refl] using index_cmp [of j k tab] find_removed [of ?ps j k] ok
      by (auto simp: lookup_def bucket_ok_def)
    ultimately show ?thesis using l by (intro exI [of _ ?tab]) simp
  qed
qed

lemma create_ok:
  "\<exists>tab :: ('k, 'v) htab. ghash_create n (Some hash) (Some cmp) = Some tab \<and> table_ok tab \<and> lookup tab = Map.empty \<and> ht_count tab = 0"
proof -
  define b where "b = (if n \<le> 0 then HASH_NUM_BUCKETS else n)"
  have b: "0 < b" by (simp add: b_def)
  define tab :: "('k, 'v) htab" where
    "tab = \<lparr>ht_sig1 = HASH_SIG1, ht_hash = hash, ht_cmp = cmp, ht_count = 0, ht_bcount = b,
            ht_buckets = replicate (nat b) [], ht_sig2 = HASH_SIG2\<rparr>"
  have t: "table_ok tab" using b by (auto simp: tab_def table_ok_def bucket_ok_def sum_list_replicate)
  have "ht_buckets tab = replicate (nat b) []" by (simp add: tab_def)
  then have "lookup tab k = None" for k
    using table_bucket(2) [OF t disjI2 [OF refl], of k] by (simp add: lookup_def)
  with t show ?thesis by (intro exI [of _ tab]) (auto simp: ghash_create_def b_def Let_def tab_def)
qed

text \<open>The keys that are in the table, one of each class, and their number.\<close>

lemma count_entries: "table_ok tab \<Longrightarrow> ht_count tab = int (length (concat (ht_buckets tab)))"
  by (simp add: table_ok_def length_concat)

lemma lookup_entry:
  assumes t: "table_ok tab" and kv: "(k, v) \<in> set (concat (ht_buckets tab))"
  shows "lookup tab k = Some v"
proof -
  from kv obtain ps where ps: "ps \<in> set (ht_buckets tab)" "(k, v) \<in> set ps" by auto
  from ps(1) obtain i where "i < length (ht_buckets tab)" "ps = ht_buckets tab ! i" by (auto simp: in_set_conv_nth)
  with ps(2) have i: "i < length (ht_buckets tab)" "(k, v) \<in> set (ht_buckets tab ! i)" by simp_all
  have ok: "bucket_ok (length (ht_buckets tab)) (int i) (ht_buckets tab ! i)" using t i(1) by (simp add: table_ok_def)
  then have "hash k mod int (length (ht_buckets tab)) = int i" using i(2) by (auto simp: bucket_ok_def)
  then have idx: "index_of tab k = i" by (simp add: index_of_def)
  have "pairwise_unrelated (\<lambda>p q. cmp (fst p) (fst q) = 0) ps \<Longrightarrow> (k, v) \<in> set ps \<Longrightarrow>
      map_option snd (List.find (\<lambda>p. cmp k (fst p) = 0) ps) = Some v" for ps
  proof (induction ps)
    case (Cons p ps)
    show ?case
    proof (cases "p = (k, v)")
      case True
      then show ?thesis by (simp add: cmp_refl)
    next
      case False
      then have "(k, v) \<in> set ps" using Cons.prems(2) by simp
      then have "cmp (fst p) k \<noteq> 0" using Cons.prems(1) by fastforce
      then have "cmp k (fst p) \<noteq> 0" using cmp_sym by blast
      then show ?thesis using Cons False by auto
    qed
  qed simp
  with ok i(2) show ?thesis by (simp add: lookup_def idx bucket_ok_def)
qed

end

text \<open>Tables of strings, as the callers use them.\<close>

interpretation str_table: key_compare "\<lambda>s. str_hash_code (Some s)" strcmp
  by unfold_locales (simp_all add: str_hash_code_bounds)

lemma walk_all:
  assumes "\<And>u k v. snd (f u k v)"
  shows "walk_loop f ps u n = (fold (\<lambda>(k, v) u. fst (f u k v)) ps u, n + int (length ps), True)"
proof (induction ps arbitrary: u n)
  case (Cons p ps)
  obtain k v where p: "p = (k, v)" by (cases p)
  obtain u' where "f u k v = (u', True)" using assms [of u k v] by (cases "f u k v") simp
  with Cons show ?case by (simp add: p)
qed simp

lemma walk_buckets_all: "(\<And>u k v. snd (f u k v)) \<Longrightarrow>
    walk_buckets f bs u n = (fold (\<lambda>(k, v) u. fst (f u k v)) (concat bs) u, n + int (length (concat bs)))"
proof (induction bs arbitrary: u n)
  case (Cons ps bs)
  then show ?case by (simp add: walk_all split: prod.splits)
qed simp

text \<open>The map that a table of strings stands for.\<close>

definition table_map :: "(string, 'v) htab \<Rightarrow> string \<Rightarrow> 'v option" where
  "table_map tab = map_of (concat (ht_buckets tab))"

definition str_table_ok :: "(string, 'v) htab \<Rightarrow> bool" where
  "str_table_ok = str_table.table_ok"

lemma lookup_map:
  assumes t: "str_table_ok tab"
  shows "str_table.lookup tab = table_map tab"
proof
  fix k
  note t' = t [unfolded str_table_ok_def]
  show "str_table.lookup tab k = table_map tab k"
  proof (cases "table_map tab k")
    case (Some v)
    then show ?thesis using str_table.lookup_entry [OF t', of k v] by (auto simp: table_map_def dest: map_of_SomeD)
  next
    case None
    show ?thesis
    proof (cases "str_table.lookup tab k")
      case (Some v)
      then obtain p where p: "List.find (\<lambda>p. strcmp k (fst p) = 0) (ht_buckets tab ! str_table.index_of tab k) = Some p"
        by (auto simp: str_table.lookup_def)
      from find_Some_set [OF this] have "p \<in> set (ht_buckets tab ! str_table.index_of tab k)" "fst p = k" by auto
      moreover have "ht_buckets tab ! str_table.index_of tab k \<in> set (ht_buckets tab)"
        using str_table.table_bucket(2) [OF t' disjI2 [OF refl], of k] by simp
      ultimately have "k \<in> fst ` set (concat (ht_buckets tab))" by auto
      then show ?thesis using None by (simp add: table_map_def map_of_eq_None_iff)
    qed (simp add: None)
  qed
qed

lemma table_keys_distinct:
  assumes t: "str_table_ok tab"
  shows "distinct (map fst (concat (ht_buckets tab)))"
proof -
  let ?n = "length (ht_buckets tab)"
  have ok: "str_table.bucket_ok ?n (int i) (ht_buckets tab ! i)" if "i < ?n" for i
    using t that by (simp add: str_table_ok_def str_table.table_ok_def)
  have one: "pairwise_unrelated (\<lambda>p q. strcmp (fst p) (fst q) = 0) ps \<Longrightarrow> distinct (map fst ps)" for ps :: "(string \<times> 'a) list"
    by (induction ps) auto
  have key: "str_hash_code (Some x) mod int ?n = int i" if "i < ?n" "x \<in> fst ` set (ht_buckets tab ! i)" for i x
    using ok [OF that(1)] that(2) by (auto simp: str_table.bucket_ok_def)
  have "distinct (map fst (concat (drop j (ht_buckets tab))))" if "j \<le> ?n" for j
    using that
  proof (induction "?n - j" arbitrary: j)
    case (Suc d)
    then have j: "j < ?n" by simp
    have e: "drop j (ht_buckets tab) = ht_buckets tab ! j # drop (Suc j) (ht_buckets tab)" using j by (rule Cons_nth_drop_Suc [symmetric])
    have "distinct (map fst (concat (drop (Suc j) (ht_buckets tab))))" using Suc.hyps(2) j by (intro Suc.hyps(1)) auto
    moreover have "distinct (map fst (ht_buckets tab ! j))" using ok [OF j] one by (simp add: str_table.bucket_ok_def)
    moreover have "x \<notin> set (map fst (concat (drop (Suc j) (ht_buckets tab))))" if x: "x \<in> fst ` set (ht_buckets tab ! j)" for x
    proof
      assume "x \<in> set (map fst (concat (drop (Suc j) (ht_buckets tab))))"
      then obtain ps where "ps \<in> set (drop (Suc j) (ht_buckets tab))" "x \<in> fst ` set ps" by auto
      moreover from this(1) obtain d where "d < length (drop (Suc j) (ht_buckets tab))" "ps = drop (Suc j) (ht_buckets tab) ! d"
        unfolding in_set_conv_nth by blast
      ultimately obtain i where "i = Suc j + d" "i < ?n" "x \<in> fst ` set (ht_buckets tab ! i)" by simp
      with key [of i x] key [OF j x] show False by simp
    qed
    ultimately show ?case unfolding e by auto
  qed simp
  from this [of 0] show ?thesis by simp
qed

lemma ghash_put_map:
  assumes t: "str_table_ok tab"
  shows "\<exists>tab' s' rc. ghash_put (Some tab) (Some k) (Some v) s = Some (Some tab', s', rc) \<and>
      (rc = 1 \<and> str_table_ok tab' \<and> table_map tab' = (table_map tab)(k \<mapsto> v) \<and>
        int (s_free_nodes s') + ht_count tab' - 64 * int (s_slabs s') = int (s_free_nodes s) + ht_count tab - 64 * int (s_slabs s) \<or>
       rc = 0 \<and> tab' = tab \<and> s' = s \<and> table_map tab k = None \<and> s_free_nodes s = 0 \<and> s_left s = 0)"
proof -
  note t' = t [unfolded str_table_ok_def] and l = lookup_map [OF t]
  from str_table.put_lookup [OF t', of k v s] obtain tab' s' rc where p:
    "ghash_put (Some tab) (Some k) (Some v) s = Some (Some tab', s', rc)"
    "if rc = 1 then str_table.table_ok tab' \<and> (\<forall>j. str_table.lookup tab' j = (if strcmp j k = 0 then Some v else str_table.lookup tab j)) \<and>
       ht_count tab' = ht_count tab + (if str_table.lookup tab k = None then 1 else 0) \<and>
       int (s_free_nodes s') + ht_count tab' - 64 * int (s_slabs s') = int (s_free_nodes s) + ht_count tab - 64 * int (s_slabs s)
     else rc = 0 \<and> tab' = tab \<and> s' = s \<and> str_table.lookup tab k = None \<and> s_free_nodes s = 0 \<and> s_left s = 0" by blast
  show ?thesis
  proof (cases "rc = 1")
    case True
    then have ok: "str_table_ok tab'" using p(2) by (simp add: str_table_ok_def)
    have "table_map tab' = (table_map tab)(k \<mapsto> v)"
      using p(2) True unfolding lookup_map [OF ok] l by (auto simp: fun_eq_iff)
    then show ?thesis using p ok True by (intro exI [of _ tab'] exI [of _ s'] exI [of _ rc]) simp
  next
    case False
    then show ?thesis using p l by (intro exI [of _ tab'] exI [of _ s'] exI [of _ rc]) simp
  qed
qed

lemma ghash_remove_map:
  assumes t: "str_table_ok tab"
  shows "\<exists>tab' s'. ghash_remove (Some tab) (Some k) s = Some (Some tab', s', if table_map tab k = None then 0 else 1) \<and>
      str_table_ok tab' \<and> table_map tab' = (table_map tab)(k := None) \<and>
      int (s_free_nodes s') + ht_count tab' = int (s_free_nodes s) + ht_count tab"
proof -
  note t' = t [unfolded str_table_ok_def] and l = lookup_map [OF t]
  from str_table.remove_lookup [OF t', of k s] obtain tab' where r: "ghash_remove (Some tab) (Some k) s =
      Some (Some tab', if table_map tab k = None then s else free_node s, if table_map tab k = None then 0 else 1)"
    "str_table.table_ok tab'" "\<forall>j. str_table.lookup tab' j = (if strcmp j k = 0 then None else table_map tab j)"
    "ht_count tab' = ht_count tab - (if table_map tab k = None then 0 else 1)" unfolding l by blast
  have ok: "str_table_ok tab'" using r(2) by (simp add: str_table_ok_def)
  have "table_map tab' = (table_map tab)(k := None)" using r(3) unfolding lookup_map [OF ok] by (auto simp: fun_eq_iff)
  then show ?thesis using r(1,4) ok by (intro exI [of _ tab'] exI [of _ "if table_map tab k = None then s else free_node s"])
      (simp add: free_node_def)
qed

lemma ghash_create_map:
  "\<exists>new :: (string, 'v) htab. ghash_create n (Some (\<lambda>s. str_hash_code (Some s))) (Some strcmp) = Some new \<and>
      str_table_ok new \<and> table_map new = Map.empty"
  using str_table.create_ok [of n] lookup_map by (metis str_table_ok_def)

text \<open>
  C32. A hash table of strings is a map: a new table is the empty map, \<open>ghash_get\<close> looks up,
  \<open>ghash_put\<close> updates and answers 1, or answers 0 and changes nothing when no node can be allocated,
  \<open>ghash_remove\<close> deletes and answers whether the key was there. Every operation keeps the table
  consistent, with the number of keys in \<open>count\<close>, and no node of the slabs is lost.
\<close>

theorem ghash_refines_map:
  assumes t: "str_table_ok tab"
  shows "ghash_get (Some tab) (Some k) = Some (table_map tab k) \<and> ht_count tab = int (card (dom (table_map tab))) \<and>
    (\<exists>tab' s' rc. ghash_put (Some tab) (Some k) (Some v) s = Some (Some tab', s', rc) \<and>
      (rc = 1 \<and> str_table_ok tab' \<and> table_map tab' = (table_map tab)(k \<mapsto> v) \<and>
        int (s_free_nodes s') + ht_count tab' - 64 * int (s_slabs s') = int (s_free_nodes s) + ht_count tab - 64 * int (s_slabs s) \<or>
       rc = 0 \<and> tab' = tab \<and> s' = s \<and> table_map tab k = None \<and> s_free_nodes s = 0 \<and> s_left s = 0)) \<and>
    (\<exists>tab' s'. ghash_remove (Some tab) (Some k) s = Some (Some tab', s', if table_map tab k = None then 0 else 1) \<and>
      str_table_ok tab' \<and> table_map tab' = (table_map tab)(k := None) \<and>
      int (s_free_nodes s') + ht_count tab' = int (s_free_nodes s) + ht_count tab)"
proof (intro conjI)
  show "ghash_get (Some tab) (Some k) = Some (table_map tab k)"
    using str_table.get_lookup [OF t [unfolded str_table_ok_def], of k] lookup_map [OF t] by simp
  have "dom (table_map tab) = set (map fst (concat (ht_buckets tab)))"
    by (simp only: table_map_def dom_map_of_conv_image_fst set_map)
  then show "ht_count tab = int (card (dom (table_map tab)))"
    using str_table.count_entries [OF t [unfolded str_table_ok_def]] distinct_card [OF table_keys_distinct [OF t]]
    by (simp only: length_map)
qed (rule ghash_put_map [OF t], rule ghash_remove_map [OF t])

definition small_table :: "(string, int) htab" where
  "small_table = \<lparr>ht_sig1 = HASH_SIG1, ht_hash = (\<lambda>s. str_hash_code (Some s)), ht_cmp = strcmp, ht_count = 1,
     ht_bcount = 1, ht_buckets = [[(''id'', 7)]], ht_sig2 = HASH_SIG2\<rparr>"

lemma small_table_ok: "str_table_ok small_table"
  by (simp add: str_table_ok_def small_table_def str_table.table_ok_def str_table.bucket_ok_def)

theorem ghash_refines_map_witness:
  "ghash_get (Some small_table) (Some ''id'') = Some (Some 7) \<and> ht_count small_table = int (card (dom (table_map small_table)))"
  using ghash_refines_map [OF small_table_ok, of "''id''"] by (simp add: table_map_def small_table_def)

end
