(* ===== verification/YList.thy ===== *)
theory YList
  imports Cells
begin

text \<open>
  The doubly linked list of \<open>libyahoo2/yahoo_list.c\<close>. A list is a pointer to its first node; \<open>data\<close>
  pointers are values of a type parameter that are compared for equality.
\<close>

record 'a ynode =
  yl_next :: ptr
  yl_prev :: ptr
  yl_data :: 'a

text \<open>\<open>ym_brk\<close> is the next address that \<open>malloc\<close> returns.\<close>

record 'a ymem =
  ym_cells :: "nat \<Rightarrow> 'a ynode option"
  ym_brk :: nat

definition y_malloc :: "'a ynode \<Rightarrow> 'a ymem \<Rightarrow> 'a ymem \<times> nat" where
  "y_malloc n m = (m\<lparr>ym_cells := (ym_cells m)(ym_brk m \<mapsto> n), ym_brk := ym_brk m + 1\<rparr>, ym_brk m)"

definition y_store :: "ptr \<Rightarrow> ('a ynode \<Rightarrow> 'a ynode) \<Rightarrow> 'a ymem \<Rightarrow> 'a ymem option" where
  "y_store p f m = do {
     a \<leftarrow> p;
     n \<leftarrow> ym_cells m a;
     Some (m\<lparr>ym_cells := (ym_cells m)(a \<mapsto> f n)\<rparr>)
   }"

text \<open>
  \<open>for (n = list; n != NULL; n = n->next)\<close>: \<open>body\<close> answers its new state and whether it leaves the
  loop. A list that does not end has no result.
\<close>

partial_function (option) y_loop ::
  "('s \<Rightarrow> 'a ymem) \<Rightarrow> (nat \<Rightarrow> 's \<Rightarrow> ('s \<times> bool) option) \<Rightarrow> ptr \<Rightarrow> 's \<Rightarrow> 's option" where
  "y_loop mem body n s =
     (case n of
        None \<Rightarrow> Some s
      | Some a \<Rightarrow> do {
          (s, stop) \<leftarrow> body a s;
          if stop then Some s
          else do {
            c \<leftarrow> ym_cells (mem s) a;
            y_loop mem body (yl_next c) s
          }
        })"

section \<open>Operations\<close>

definition y_list_append :: "ptr \<Rightarrow> 'a \<Rightarrow> 'a ymem \<Rightarrow> ('a ymem \<times> ptr) option" where
  "y_list_append list d m = do {
     let (m, new_list) = y_malloc \<lparr>yl_next = None, yl_prev = None, yl_data = d\<rparr> m;
     attach_to \<leftarrow> y_loop (\<lambda>_. m) (\<lambda>n attach_to. Some (Some n, False)) list None;
     if attach_to = None then do {
       m \<leftarrow> y_store (Some new_list) (\<lambda>n. n\<lparr>yl_prev := None\<rparr>) m;
       Some (m, Some new_list)
     }
     else do {
       m \<leftarrow> y_store (Some new_list) (\<lambda>n. n\<lparr>yl_prev := attach_to\<rparr>) m;
       m \<leftarrow> y_store attach_to (\<lambda>n. n\<lparr>yl_next := Some new_list\<rparr>) m;
       Some (m, list)
     }
   }"

definition y_list_prepend :: "ptr \<Rightarrow> 'a \<Rightarrow> 'a ymem \<Rightarrow> ('a ymem \<times> ptr) option" where
  "y_list_prepend list d m = do {
     let (m, n) = y_malloc \<lparr>yl_next = list, yl_prev = None, yl_data = d\<rparr> m;
     m \<leftarrow> (if list \<noteq> None then y_store list (\<lambda>l. l\<lparr>yl_prev := Some n\<rparr>) m else Some m);
     Some (m, Some n)
   }"

text \<open>The first loop of \<open>y_list_concat\<close> stops at the last node.\<close>

definition y_list_concat :: "ptr \<Rightarrow> ptr \<Rightarrow> 'a ymem \<Rightarrow> ('a ymem \<times> ptr) option" where
  "y_list_concat list add m =
     (if list = None then Some (m, add)
      else if add = None then Some (m, list)
      else do {
        l \<leftarrow> y_loop (\<lambda>_. m) (\<lambda>l s. map_option (\<lambda>c. (Some l, yl_next c = None)) (ym_cells m l)) list None;
        m \<leftarrow> y_store l (\<lambda>n. n\<lparr>yl_next := add\<rparr>) m;
        m \<leftarrow> y_store add (\<lambda>n. n\<lparr>yl_prev := l\<rparr>) m;
        Some (m, list)
      })"

definition y_list_remove_link :: "ptr \<Rightarrow> ptr \<Rightarrow> 'a ymem \<Rightarrow> ('a ymem \<times> ptr) option" where
  "y_list_remove_link list link m =
     (case link of
        None \<Rightarrow> Some (m, list)
      | Some a \<Rightarrow> do {
          l \<leftarrow> ym_cells m a;
          m \<leftarrow> (if yl_next l \<noteq> None then y_store (yl_next l) (\<lambda>n. n\<lparr>yl_prev := yl_prev l\<rparr>) m else Some m);
          l \<leftarrow> ym_cells m a;
          m \<leftarrow> (if yl_prev l \<noteq> None then y_store (yl_prev l) (\<lambda>n. n\<lparr>yl_next := yl_next l\<rparr>) m else Some m);
          l \<leftarrow> ym_cells m a;
          Some (m, if link = list then yl_next l else list)
        })"

definition y_list_free_1 :: "ptr \<Rightarrow> 'a ymem \<Rightarrow> 'a ymem option" where
  "y_list_free_1 p m =
     (case p of
        None \<Rightarrow> Some m
      | Some a \<Rightarrow> if ym_cells m a = None then None else Some (m\<lparr>ym_cells := (ym_cells m)(a := None)\<rparr>))"

definition y_list_find :: "ptr \<Rightarrow> 'a \<Rightarrow> 'a ymem \<Rightarrow> ptr option" where
  "y_list_find list d m =
     y_loop (\<lambda>_. m) (\<lambda>l s. map_option (\<lambda>c. if yl_data c = d then (Some l, True) else (s, False)) (ym_cells m l)) list None"

text \<open>The loop of \<open>y_list_remove\<close> removes the first node with the data, and ends.\<close>

definition y_list_remove :: "ptr \<Rightarrow> 'a \<Rightarrow> 'a ymem \<Rightarrow> ('a ymem \<times> ptr) option" where
  "y_list_remove list d m =
     y_loop fst (\<lambda>n (m, list). do {
       c \<leftarrow> ym_cells m n;
       if yl_data c = d then do {
         (m, list) \<leftarrow> y_list_remove_link list (Some n) m;
         m \<leftarrow> y_list_free_1 (Some n) m;
         Some ((m, list), True)
       }
       else Some ((m, list), False)
     }) list (m, list)"

definition y_list_length :: "ptr \<Rightarrow> 'a ymem \<Rightarrow> int option" where
  "y_list_length list m = y_loop (\<lambda>_. m) (\<lambda>n retval. Some (retval + 1, False)) list 0"

definition y_list_empty :: "ptr \<Rightarrow> int" where
  "y_list_empty list = (if list = None then 1 else 0)"

definition y_list_singleton :: "ptr \<Rightarrow> 'a ymem \<Rightarrow> int option" where
  "y_list_singleton list m =
     (case list of
        None \<Rightarrow> Some 0
      | Some a \<Rightarrow> map_option (\<lambda>c. if yl_next c \<noteq> None then 0 else 1) (ym_cells m a))"

definition y_list_copy :: "ptr \<Rightarrow> 'a ymem \<Rightarrow> ('a ymem \<times> ptr) option" where
  "y_list_copy list m =
     y_loop fst (\<lambda>n (m, copy). do {
       c \<leftarrow> ym_cells m n;
       (m, copy) \<leftarrow> y_list_append copy (yl_data c) m;
       Some ((m, copy), False)
     }) list (m, None)"

text \<open>\<open>y_list_free\<close> reads the link of a node before it frees the node.\<close>

partial_function (option) y_list_free :: "ptr \<Rightarrow> 'a ymem \<Rightarrow> 'a ymem option" where
  "y_list_free n m =
     (case n of
        None \<Rightarrow> Some m
      | Some a \<Rightarrow> do {
          c \<leftarrow> ym_cells m a;
          m \<leftarrow> y_list_free_1 n m;
          y_list_free (yl_next c) m
        })"

definition y_list_foreach :: "ptr \<Rightarrow> ('a \<Rightarrow> 'u \<Rightarrow> 'u) \<Rightarrow> 'u \<Rightarrow> 'a ymem \<Rightarrow> 'u option" where
  "y_list_foreach list fn user_data m =
     y_loop (\<lambda>_. m) (\<lambda>n u. map_option (\<lambda>c. (fn (yl_data c) u, False)) (ym_cells m n)) list user_data"

definition y_list_find_custom :: "ptr \<Rightarrow> 'b \<Rightarrow> ('a \<Rightarrow> 'b \<Rightarrow> int) \<Rightarrow> 'a ymem \<Rightarrow> ptr option" where
  "y_list_find_custom list d cmp m =
     y_loop (\<lambda>_. m) (\<lambda>l s. map_option (\<lambda>c. if cmp (yl_data c) d = 0 then (Some l, True) else (s, False)) (ym_cells m l))
       list None"

partial_function (option) y_list_nth :: "ptr \<Rightarrow> int \<Rightarrow> 'a ymem \<Rightarrow> ptr option" where
  "y_list_nth list i m =
     (case list of
        None \<Rightarrow> Some None
      | Some a \<Rightarrow> if i = 0 then Some list
          else do {
            c \<leftarrow> ym_cells m a;
            y_list_nth (yl_next c) (i - 1) m
          })"

text \<open>
  \<open>y_list_insert_sorted\<close>: the loop leaves the first node that is greater in \<open>l\<close>, or \<open>NULL\<close>, and the
  last node it passed in \<open>prev\<close>. The fields of the new node are written later.
\<close>

definition y_list_insert_sorted :: "ptr \<Rightarrow> 'a \<Rightarrow> ('a \<Rightarrow> 'a \<Rightarrow> int) \<Rightarrow> 'a ymem \<Rightarrow> ('a ymem \<times> ptr) option" where
  "y_list_insert_sorted list d cmp m =
     (if list = None then y_list_append list d m
      else do {
        let (m, n) = y_malloc \<lparr>yl_next = None, yl_prev = None, yl_data = d\<rparr> m;
        (l, prev) \<leftarrow> y_loop (\<lambda>_. m) (\<lambda>l (found, prev). do {
            c \<leftarrow> ym_cells m l;
            Some (if cmp (yl_data c) d \<le> 0 then ((found, Some l), False) else ((Some l, prev), True))
          }) list (None, None);
        m \<leftarrow> (case l of
            Some a \<Rightarrow> do {
              c \<leftarrow> ym_cells m a;
              m \<leftarrow> y_store (Some n) (\<lambda>k. k\<lparr>yl_prev := yl_prev c\<rparr>) m;
              y_store l (\<lambda>k. k\<lparr>yl_prev := Some n\<rparr>) m
            }
          | None \<Rightarrow> y_store (Some n) (\<lambda>k. k\<lparr>yl_prev := prev\<rparr>) m);
        m \<leftarrow> y_store (Some n) (\<lambda>k. k\<lparr>yl_next := l\<rparr>) m;
        c \<leftarrow> ym_cells m n;
        if yl_prev c \<noteq> None then do {
          m \<leftarrow> y_store (yl_prev c) (\<lambda>k. k\<lparr>yl_next := Some n\<rparr>) m;
          Some (m, list)
        }
        else Some (m, Some n)
      })"

section \<open>The cells of a list\<close>

definition first_addr :: "(nat \<times> 'a) list \<Rightarrow> ptr \<Rightarrow> ptr" where
  "first_addr xs nx = (case xs of [] \<Rightarrow> nx | x # _ \<Rightarrow> Some (fst x))"

definition last_addr :: "ptr \<Rightarrow> (nat \<times> 'a) list \<Rightarrow> ptr" where
  "last_addr pr xs = (if xs = [] then pr else Some (fst (last xs)))"

fun ycells :: "ptr \<Rightarrow> (nat \<times> 'a) list \<Rightarrow> ptr \<Rightarrow> (nat \<times> 'a ynode) list" where
  "ycells pr [] nx = []"
| "ycells pr ((a, d) # xs) nx = (a, \<lparr>yl_next = first_addr xs nx, yl_prev = pr, yl_data = d\<rparr>) # ycells (Some a) xs nx"

definition ym_ok :: "'a ymem \<Rightarrow> bool" where
  "ym_ok m \<longleftrightarrow> (\<forall>a n. ym_cells m a = Some n \<longrightarrow> a < ym_brk m)"

text \<open>At \<open>p\<close> there is a list with the nodes \<open>xs\<close>, addresses and data.\<close>

definition ylist :: "'a ymem \<Rightarrow> ptr \<Rightarrow> (nat \<times> 'a) list \<Rightarrow> bool" where
  "ylist m p xs \<longleftrightarrow> p = first_addr xs None \<and> ym_ok m \<and> distinct (map fst xs) \<and> holds (ym_cells m) (ycells None xs None)"

lemma addr_simps [simp]:
  "first_addr [] nx = nx" "first_addr (x # xs) nx = Some (fst x)"
  "last_addr pr [] = pr" "last_addr pr (xs @ [x]) = Some (fst x)"
  "last_addr pr (x # xs) = last_addr (Some (fst x)) xs"
  by (simp_all add: first_addr_def last_addr_def)

lemma first_addr_append [simp]: "first_addr (xs @ ys) nx = first_addr xs (first_addr ys nx)"
  by (cases xs) simp_all

lemma first_addr_None [simp]: "first_addr xs None = None \<longleftrightarrow> xs = []"
  by (cases xs) simp_all

lemma first_addr_Some [simp]: "first_addr xs (Some a) \<noteq> None"
  by (cases xs) simp_all

lemma ycells_append [simp]:
  "ycells pr (xs @ ys) nx = ycells pr xs (first_addr ys nx) @ ycells (last_addr pr xs) ys nx"
  by (induction xs arbitrary: pr) auto

lemma ycells_addrs [simp]: "map fst (ycells pr xs nx) = map fst xs" "fst ` set (ycells pr xs nx) = fst ` set xs"
proof -
  show m: "map fst (ycells pr xs nx) = map fst xs" by (induction xs arbitrary: pr) auto
  show "fst ` set (ycells pr xs nx) = fst ` set xs" using arg_cong [OF m, of set] by simp
qed

lemma ylist_fresh: "ylist m p xs \<Longrightarrow> ym_brk m \<notin> fst ` set xs"
proof
  assume l: "ylist m p xs" and "ym_brk m \<in> fst ` set xs"
  then obtain n where "ym_cells m (ym_brk m) = Some n" using holds_in [of "ym_cells m" "ycells None xs None" "ym_brk m"]
    by (auto simp: ylist_def)
  then show False using l by (auto simp: ylist_def ym_ok_def)
qed

text \<open>Loops that only read.\<close>

fun list_loop :: "(nat \<Rightarrow> 's \<Rightarrow> ('s \<times> bool) option) \<Rightarrow> (nat \<times> 'a) list \<Rightarrow> 's \<Rightarrow> 's option" where
  "list_loop body [] s = Some s"
| "list_loop body (x # xs) s = do {
     (s, stop) \<leftarrow> body (fst x) s;
     if stop then Some s else list_loop body xs s
   }"

lemma y_loop_reads:
  "holds (ym_cells m) (ycells pr xs None) \<Longrightarrow> y_loop (\<lambda>_. m) body (first_addr xs None) s = list_loop body xs s"
proof (induction xs arbitrary: pr s)
  case Nil
  then show ?case by (simp add: y_loop.simps)
next
  case (Cons x xs)
  obtain a d where x: "x = (a, d)" by (cases x)
  have IH: "y_loop (\<lambda>_. m) body (first_addr xs None) s = list_loop body xs s" for s
    using Cons.prems x by (intro Cons.IH [of "Some a"]) simp
  show ?case using Cons.prems
    by (subst y_loop.simps) (simp add: x IH split_def cong: if_cong)
qed

lemma loop_last: "list_loop (\<lambda>n s. Some (Some n, False)) xs s = Some (last_addr s xs)"
  by (induction xs arbitrary: s) auto

section \<open>What the operations do\<close>

text \<open>Nodes outside of \<open>as\<close> stay.\<close>

definition ykeeps :: "nat set \<Rightarrow> 'a ymem \<Rightarrow> 'a ymem \<Rightarrow> bool" where
  "ykeeps as m m' \<longleftrightarrow> (\<forall>b < ym_brk m. b \<notin> as \<longrightarrow> ym_cells m' b = ym_cells m b)"

lemma y_store_Some: "ym_cells m a = Some n \<Longrightarrow> y_store (Some a) f m = Some (m\<lparr>ym_cells := (ym_cells m)(a \<mapsto> f n)\<rparr>)"
  by (simp add: y_store_def)

lemma append_spec:
  assumes l: "ylist m p xs"
  shows "\<exists>m'. y_list_append p d m = Some (m', first_addr (xs @ [(ym_brk m, d)]) None) \<and>
    ylist m' (first_addr (xs @ [(ym_brk m, d)]) None) (xs @ [(ym_brk m, d)]) \<and>
    ym_brk m' = ym_brk m + 1 \<and> ykeeps (fst ` set xs) m m'"
proof -
  note fresh = ylist_fresh [OF l]
  let ?n = "\<lparr>yl_next = None, yl_prev = None, yl_data = d\<rparr>"
  let ?m = "m\<lparr>ym_cells := (ym_cells m)(ym_brk m \<mapsto> ?n), ym_brk := ym_brk m + 1\<rparr>"
  have h: "holds (ym_cells ?m) (ycells None xs None)" using l fresh by (simp add: ylist_def)
  have p: "p = first_addr xs None" using l by (simp add: ylist_def)
  have loop: "y_loop (\<lambda>_. ?m) (\<lambda>n s. Some (Some n, False)) p None = Some (last_addr None xs)"
    unfolding p y_loop_reads [OF h] by (rule loop_last)
  show ?thesis
  proof (cases xs rule: rev_cases)
    case Nil
    then show ?thesis using l loop
      by (auto simp: y_list_append_def y_malloc_def y_store_Some ylist_def ym_ok_def ykeeps_def less_Suc_eq)
  next
    case (snoc ys x)
    obtain a e where x: "x = (a, e)" by (cases x)
    have "a \<noteq> ym_brk m" "ym_brk m \<notin> fst ` set ys" "a \<notin> fst ` set ys" using fresh l snoc x by (auto simp: ylist_def)
    then show ?thesis using l loop h unfolding snoc x
      by (auto simp: y_list_append_def y_malloc_def y_store_Some ylist_def ym_ok_def ykeeps_def less_Suc_eq)
  qed
qed

lemma prepend_spec:
  assumes l: "ylist m p xs"
  shows "\<exists>m'. y_list_prepend p d m = Some (m', Some (ym_brk m)) \<and>
    ylist m' (Some (ym_brk m)) ((ym_brk m, d) # xs) \<and>
    ym_brk m' = ym_brk m + 1 \<and> ykeeps (fst ` set xs) m m'"
proof (cases xs)
  case Nil
  then show ?thesis using l
    by (auto simp: y_list_prepend_def y_malloc_def ylist_def ym_ok_def ykeeps_def less_Suc_eq)
next
  case (Cons x ys)
  obtain a e where x: "x = (a, e)" by (cases x)
  have "a \<noteq> ym_brk m" "ym_brk m \<notin> fst ` set ys" "a \<notin> fst ` set ys" using ylist_fresh [OF l] l Cons x by (auto simp: ylist_def)
  then show ?thesis using l unfolding Cons x
    by (auto simp: y_list_prepend_def y_malloc_def y_store_Some ylist_def ym_ok_def ykeeps_def less_Suc_eq)
qed

lemma concat_spec:
  assumes l: "ylist m p xs" and k: "ylist m q ys" and d: "fst ` set xs \<inter> fst ` set ys = {}"
  shows "\<exists>m'. y_list_concat p q m = Some (m', first_addr (xs @ ys) None) \<and>
    ylist m' (first_addr (xs @ ys) None) (xs @ ys) \<and> ym_brk m' = ym_brk m \<and> ykeeps (fst ` set (xs @ ys)) m m'"
proof -
  have p: "p = first_addr xs None" "q = first_addr ys None" using l k by (simp_all add: ylist_def)
  show ?thesis
  proof (cases "xs = [] \<or> ys = []")
    case True
    then show ?thesis using l k p by (auto simp: y_list_concat_def ykeeps_def ylist_def)
  next
    case False
    then obtain us x where xs: "xs = us @ [x]" by (cases xs rule: rev_cases) auto
    obtain y vs where ys: "ys = y # vs" using False by (cases ys) auto
    obtain a e b f where xy: "x = (a, e)" "y = (b, f)" by (cases x, cases y) auto
    have h: "holds (ym_cells m) (ycells None xs None)" using l by (simp add: ylist_def)
    have "list_loop (\<lambda>l s. map_option (\<lambda>c. (Some l, yl_next c = None)) (ym_cells m l)) (us @ [x]) s = Some (Some a)"
      if "holds (ym_cells m) (ycells pr (us @ [x]) None)" for pr s
      using that
    proof (induction us arbitrary: pr s)
      case (Cons u us)
      obtain c g where u: "u = (c, g)" by (cases u)
      from Cons.prems have "holds (ym_cells m) (ycells (Some c) (us @ [x]) None)" unfolding u by simp
      from Cons.IH [OF this] Cons.prems show ?case unfolding u by simp
    qed (simp add: xy)
    from this [of None] h have loop:
      "y_loop (\<lambda>_. m) (\<lambda>l s. map_option (\<lambda>c. (Some l, yl_next c = None)) (ym_cells m l)) p None = Some (Some a)"
      unfolding p y_loop_reads [OF h] unfolding xs by simp
    have "a \<noteq> b" "a \<notin> fst ` set us" "b \<notin> fst ` set us" "a \<notin> fst ` set vs" "b \<notin> fst ` set vs"
      using l k d unfolding xs ys xy by (auto simp: ylist_def)
    then show ?thesis using l k d loop unfolding p xs ys xy
      by (auto simp: y_list_concat_def y_store_Some ylist_def ym_ok_def ykeeps_def)
  qed
qed

lemma remove_link_spec:
  assumes l: "ylist m p (us @ (a, d) # vs)"
  shows "\<exists>m'. y_list_remove_link p (Some a) m = Some (m', first_addr (us @ vs) None) \<and>
    ylist m' (first_addr (us @ vs) None) (us @ vs) \<and> ym_cells m' a \<noteq> None \<and> ym_brk m' = ym_brk m \<and>
    ykeeps (fst ` set (us @ (a, d) # vs)) m m'"
proof -
  have p: "p = first_addr us (Some a)" using l by (simp add: ylist_def)
  have a: "a \<notin> fst ` set us" "a \<notin> fst ` set vs" using l by (auto simp: ylist_def)
  show ?thesis
  proof (cases us rule: rev_cases)
    case Nil
    show ?thesis
    proof (cases vs)
      case Nil
      then show ?thesis using l \<open>us = []\<close> by (auto simp: y_list_remove_link_def ylist_def ykeeps_def)
    next
      case (Cons v ws)
      obtain b f where v: "v = (b, f)" by (cases v)
      have "b \<noteq> a" "b \<notin> fst ` set ws" using l unfolding Cons v by (auto simp: ylist_def)
      then show ?thesis using l a unfolding \<open>us = []\<close> Cons v
        by (auto simp: y_list_remove_link_def y_store_Some ylist_def ym_ok_def ykeeps_def)
    qed
  next
    case (snoc ts u)
    obtain c g where u: "u = (c, g)" by (cases u)
    have c: "c \<noteq> a" "c \<notin> fst ` set ts" "c \<notin> fst ` set vs" using l unfolding snoc u by (auto simp: ylist_def)
    have p': "p \<noteq> Some a" using p a unfolding snoc u by (cases ts) auto
    show ?thesis
    proof (cases vs)
      case Nil
      then show ?thesis using l a c p p' unfolding snoc u
        by (auto simp: y_list_remove_link_def y_store_Some ylist_def ym_ok_def ykeeps_def)
    next
      case (Cons v ws)
      obtain b f where v: "v = (b, f)" by (cases v)
      have "b \<noteq> a" "b \<noteq> c" "b \<notin> fst ` set ws" "b \<notin> fst ` set ts" using l unfolding Cons v snoc u by (auto simp: ylist_def)
      then show ?thesis using l a c p p' unfolding snoc u Cons v
        by (auto simp: y_list_remove_link_def y_store_Some ylist_def ym_ok_def ykeeps_def)
    qed
  qed
qed

lemma free_1_keeps:
  assumes l: "ylist m p xs" and a: "ym_cells m a \<noteq> None" "a \<notin> fst ` set xs"
  shows "\<exists>m'. y_list_free_1 (Some a) m = Some m' \<and> ylist m' p xs \<and> ym_cells m' a = None \<and> ym_brk m' = ym_brk m \<and>
    ykeeps {a} m m'"
  using assms by (auto simp: y_list_free_1_def ylist_def ym_ok_def ykeeps_def)

text \<open>A prefix of the list that the loop only passes.\<close>

lemma y_loop_skip:
  "holds (ym_cells (mem s)) (ycells pr us nx) \<Longrightarrow> (\<And>x. x \<in> set us \<Longrightarrow> body (fst x) s = Some (s, False)) \<Longrightarrow>
   y_loop mem body (first_addr us nx) s = y_loop mem body nx s"
proof (induction us arbitrary: pr)
  case (Cons u us)
  obtain a d where u: "u = (a, d)" by (cases u)
  have "y_loop mem body (first_addr us nx) s = y_loop mem body nx s"
    using Cons.prems u by (intro Cons.IH [of "Some a"]) auto
  then show ?case using Cons.prems(1) Cons.prems(2) [of u] u by (subst y_loop.simps) simp
qed simp

text \<open>The body of the loop of \<open>y_list_remove\<close> on a node with other data.\<close>

definition remove_body :: "'a \<Rightarrow> nat \<Rightarrow> 'a ymem \<times> ptr \<Rightarrow> (('a ymem \<times> ptr) \<times> bool) option" where
  "remove_body d n = (\<lambda>(m, list). do {
       c \<leftarrow> ym_cells m n;
       if yl_data c = d then do {
         (m, list) \<leftarrow> y_list_remove_link list (Some n) m;
         m \<leftarrow> y_list_free_1 (Some n) m;
         Some ((m, list), True)
       }
       else Some ((m, list), False)
     })"

lemma remove_skips:
  assumes h: "holds (ym_cells m) (ycells pr us nx)" and no: "\<forall>x \<in> set us. snd x \<noteq> d"
  shows "y_loop fst (remove_body d) (first_addr us nx) (m, p) = y_loop fst (remove_body d) nx (m, p)"
proof (rule y_loop_skip)
  show "holds (ym_cells (fst (m, p))) (ycells pr us nx)" using h by simp
next
  fix x assume x: "x \<in> set us"
  from split_list [OF x] obtain ts ws where us: "us = ts @ x # ws" by blast
  obtain a e where "x = (a, e)" by (cases x)
  with h no us show "remove_body d (fst x) (m, p) = Some ((m, p), False)" by (auto simp: remove_body_def)
qed

text \<open>Removing the first entry that satisfies a predicate.\<close>

lemma remove_spec:
  assumes l: "ylist m p xs"
  shows "\<exists>m' p'. y_list_remove p d m = Some (m', p') \<and> ylist m' p' (remove_first (\<lambda>x. snd x = d) xs) \<and>
    ym_brk m' = ym_brk m \<and> ykeeps (fst ` set xs) m m' \<and>
    (\<forall>x. List.find (\<lambda>x. snd x = d) xs = Some x \<longrightarrow> ym_cells m' (fst x) = None)"
proof (cases "\<exists>x \<in> set xs. snd x = d")
  case False
  have h: "holds (ym_cells m) (ycells None xs None)" and p: "p = first_addr xs None" using l by (simp_all add: ylist_def)
  have "y_list_remove p d m = Some (m, p)"
    using remove_skips [OF h, of d p] False p
    unfolding y_list_remove_def remove_body_def [symmetric] by (simp add: y_loop.simps)
  moreover have "List.find (\<lambda>x. snd x = d) xs = None" using False by (simp add: find_None_conv)
  ultimately show ?thesis using l False by (auto simp: ykeeps_def)
next
  case True
  then obtain us x vs where xs: "xs = us @ x # vs" "snd x = d" "\<forall>y \<in> set us. snd y \<noteq> d"
    using split_list_first_prop [of xs "\<lambda>x. snd x = d"] by blast
  obtain a where x: "x = (a, d)" using xs(2) by (cases x) auto
  have h: "holds (ym_cells m) (ycells None us (Some a))" "ym_cells m a \<noteq> None"
    "\<And>c. ym_cells m a = Some c \<Longrightarrow> yl_data c = d"
    and p: "p = first_addr us (Some a)" using l unfolding xs x by (auto simp: ylist_def)
  from remove_link_spec [OF l [unfolded xs x]] obtain m1 where m1:
    "y_list_remove_link p (Some a) m = Some (m1, first_addr (us @ vs) None)"
    "ylist m1 (first_addr (us @ vs) None) (us @ vs)" "ym_cells m1 a \<noteq> None" "ym_brk m1 = ym_brk m"
    "ykeeps (fst ` set (us @ (a, d) # vs)) m m1" by blast
  have a: "a \<notin> fst ` set (us @ vs)" using l unfolding xs x by (auto simp: ylist_def)
  from free_1_keeps [OF m1(2,3) a] obtain m2 where m2: "y_list_free_1 (Some a) m1 = Some m2"
    "ylist m2 (first_addr (us @ vs) None) (us @ vs)" "ym_cells m2 a = None" "ym_brk m2 = ym_brk m1" "ykeeps {a} m1 m2" by blast
  have "remove_body d a (m, p) = Some ((m2, first_addr (us @ vs) None), True)"
    using h(2,3) m1(1) m2(1) by (auto simp: remove_body_def)
  then have "y_loop fst (remove_body d) (Some a) (m, p) = Some (m2, first_addr (us @ vs) None)"
    by (subst y_loop.simps) simp
  then have "y_list_remove p d m = Some (m2, first_addr (us @ vs) None)"
    using remove_skips [OF h(1) xs(3), of p] p
    unfolding y_list_remove_def remove_body_def [symmetric] by simp
  moreover have "remove_first (\<lambda>x. snd x = d) xs = us @ vs"
    using xs(3) unfolding xs(1) by (induction us) (auto simp: x)
  moreover have "List.find (\<lambda>x. snd x = d) xs = Some (a, d)"
    using xs(3) unfolding xs(1) by (induction us) (auto simp: x)
  moreover have "ykeeps (fst ` set xs) m m2" using m1(4,5) m2(5) unfolding xs x by (auto simp: ykeeps_def)
  ultimately show ?thesis using m1(4) m2 by auto
qed

text \<open>Where the loop of \<open>y_list_insert_sorted\<close> stops.\<close>

lemma insert_loop:
  "holds (ym_cells m) (ycells pr xs None) \<Longrightarrow>
   list_loop (\<lambda>l (found, prev). do {
      c \<leftarrow> ym_cells m l;
      Some (if cmp (yl_data c) d \<le> 0 then ((found, Some l), False) else ((Some l, prev), True))
    }) xs (None, prev) =
    Some (first_addr (dropWhile (\<lambda>x. cmp (snd x) d \<le> 0) xs) None,
      last_addr prev (takeWhile (\<lambda>x. cmp (snd x) d \<le> 0) xs))"
proof (induction xs arbitrary: pr prev)
  case (Cons x xs)
  obtain a e where x: "x = (a, e)" by (cases x)
  from Cons.prems x have h: "holds (ym_cells m) (ycells (Some a) xs None)" by simp
  from Cons.IH [OF h, of "Some a"] Cons.prems show ?case unfolding x by simp
qed simp

lemma insert_sorted_spec:
  fixes cmp :: "'a \<Rightarrow> 'a \<Rightarrow> int" and d :: 'a
  assumes l: "ylist m p xs"
  defines "us \<equiv> takeWhile (\<lambda>x. cmp (snd x) d \<le> 0) xs"
    and "vs \<equiv> dropWhile (\<lambda>x. cmp (snd x) d \<le> 0) xs"
  shows "\<exists>m' p'. y_list_insert_sorted p d cmp m = Some (m', p') \<and>
    ylist m' p' (us @ (ym_brk m, d) # vs) \<and> ym_brk m' = ym_brk m + 1 \<and> ykeeps (fst ` set xs) m m'"
proof (cases "xs = []")
  case True
  then show ?thesis using append_spec [OF l, of d] l unfolding us_def vs_def
    by (auto simp: y_list_insert_sorted_def ylist_def)
next
  case False
  let ?n = "\<lparr>yl_next = None, yl_prev = None, yl_data = d\<rparr>" and ?b = "ym_brk m"
  let ?m = "m\<lparr>ym_cells := (ym_cells m)(?b \<mapsto> ?n), ym_brk := ?b + 1\<rparr>"
  have p: "p = first_addr xs None" and h: "holds (ym_cells ?m) (ycells None xs None)"
    using l ylist_fresh [OF l] by (simp_all add: ylist_def)
  have xs: "xs = us @ vs" by (simp add: us_def vs_def)
  have loop: "y_loop (\<lambda>_. ?m) (\<lambda>l (found, prev). do {
      c \<leftarrow> ym_cells ?m l;
      Some (if cmp (yl_data c) d \<le> 0 then ((found, Some l), False) else ((Some l, prev), True))
    }) p (None, None) = Some (first_addr vs None, last_addr None us)"
    unfolding p y_loop_reads [OF h] using insert_loop [OF h, of cmp d None] by (simp add: us_def vs_def)
  have b: "?b \<notin> fst ` set us" "?b \<notin> fst ` set vs" using ylist_fresh [OF l] unfolding xs by auto
  have pn: "p \<noteq> None" using False p by simp
  show ?thesis
  proof (cases us rule: rev_cases)
    case Nil
    then obtain v ws where v: "vs = v # ws" using False xs by (cases vs) auto
    obtain a e where a: "v = (a, e)" by (cases v)
    have "a \<noteq> ?b" "a \<notin> fst ` set ws" using b l unfolding xs Nil v a by (auto simp: ylist_def)
    then show ?thesis using l loop pn b h unfolding xs Nil v a
      by (auto simp: y_list_insert_sorted_def y_malloc_def y_store_Some ylist_def ym_ok_def ykeeps_def less_Suc_eq)
  next
    case (snoc ts u)
    obtain c g where u: "u = (c, g)" by (cases u)
    have c: "c \<noteq> ?b" "c \<notin> fst ` set ts" "c \<notin> fst ` set vs" "?b \<notin> fst ` set ts"
      using b l unfolding xs snoc u by (auto simp: ylist_def)
    have p': "p = first_addr ts (Some c)" using p unfolding xs snoc u by simp
    show ?thesis
    proof (cases vs)
      case Nil
      then show ?thesis using l loop pn b h c unfolding xs snoc u p'
        by (auto simp: y_list_insert_sorted_def y_malloc_def y_store_Some ylist_def ym_ok_def ykeeps_def less_Suc_eq)
    next
      case (Cons v ws)
      obtain a e where a: "v = (a, e)" by (cases v)
      have "a \<noteq> ?b" "a \<noteq> c" "a \<notin> fst ` set ws" "a \<notin> fst ` set ts" using b l unfolding xs snoc u Cons a by (auto simp: ylist_def)
      then show ?thesis using l loop pn b h c unfolding xs snoc u Cons a p'
        by (auto simp: y_list_insert_sorted_def y_malloc_def y_store_Some ylist_def ym_ok_def ykeeps_def less_Suc_eq)
    qed
  qed
qed

lemma ylist_less: "ylist m p xs \<Longrightarrow> a \<in> fst ` set xs \<Longrightarrow> a < ym_brk m"
  using holds_in [of "ym_cells m" "ycells None xs None" a] by (auto simp: ylist_def ym_ok_def)

lemma ylist_keep:
  assumes l: "ylist m p xs" and k: "ykeeps as m m'" "as \<inter> fst ` set xs = {}" "ym_ok m'"
  shows "ylist m' p xs"
proof -
  have "ym_cells m' a = ym_cells m a" if "a \<in> fst ` set (ycells None xs None)" for a
    using that ylist_less [OF l] k by (auto simp: ykeeps_def)
  then have "holds (ym_cells m') (ycells None xs None)" using l holds_cong unfolding ylist_def by blast
  with l k(3) show ?thesis by (simp add: ylist_def)
qed

definition copy_body :: "nat \<Rightarrow> 'a ymem \<times> ptr \<Rightarrow> (('a ymem \<times> ptr) \<times> bool) option" where
  "copy_body = (\<lambda>n (m, copy). do {
       c \<leftarrow> ym_cells m n;
       (m, copy) \<leftarrow> y_list_append copy (yl_data c) m;
       Some ((m, copy), False)
     })"

lemma copy_loop:
  "ylist m p (us @ vs) \<Longrightarrow> ylist m q ks \<Longrightarrow> fst ` set ks \<inter> fst ` set (us @ vs) = {} \<Longrightarrow>
   \<exists>m' q' js. y_loop fst copy_body (first_addr vs None) (m, q) = Some (m', q') \<and>
     ylist m' p (us @ vs) \<and> ylist m' q' (ks @ js) \<and> map snd js = map snd vs \<and>
     fst ` set (ks @ js) \<inter> fst ` set (us @ vs) = {} \<and> ykeeps (fst ` set ks) m m'"
proof (induction vs arbitrary: us m q ks)
  case Nil
  then show ?case by (auto simp: y_loop.simps ykeeps_def intro!: exI [of _ "[]"])
next
  case (Cons v vs)
  obtain a d where v: "v = (a, d)" by (cases v)
  let ?ks = "ks @ [(ym_brk m, d)]"
  from append_spec [OF Cons.prems(2), of d] obtain m1 where m1:
    "y_list_append q d m = Some (m1, first_addr ?ks None)" "ylist m1 (first_addr ?ks None) ?ks"
    "ym_brk m1 = ym_brk m + 1" "ykeeps (fst ` set ks) m m1" by blast
  have l1: "ylist m1 p (us @ v # vs)"
    using ylist_keep [OF Cons.prems(1) m1(4) Cons.prems(3)] m1(2) by (simp add: ylist_def)
  have c: "ym_cells m a = Some \<lparr>yl_next = first_addr vs None, yl_prev = last_addr None us, yl_data = d\<rparr>"
    "ym_cells m1 a = Some \<lparr>yl_next = first_addr vs None, yl_prev = last_addr None us, yl_data = d\<rparr>"
    using Cons.prems(1) l1 unfolding v by (simp_all add: ylist_def)
  have disj: "fst ` set ?ks \<inter> fst ` set ((us @ [v]) @ vs) = {}"
    using Cons.prems(3) ylist_fresh [OF Cons.prems(1)] by auto
  from Cons.IH [of m1 "us @ [v]" "first_addr ?ks None" ?ks] l1 m1(2) disj
  obtain m' q' js where m': "y_loop fst copy_body (first_addr vs None) (m1, first_addr ?ks None) = Some (m', q')"
    "ylist m' p (us @ v # vs)" "ylist m' q' (?ks @ js)" "map snd js = map snd vs"
    "fst ` set (?ks @ js) \<inter> fst ` set (us @ v # vs) = {}" "ykeeps (fst ` set ?ks) m1 m'" by auto
  have "copy_body a (m, q) = Some ((m1, first_addr ?ks None), False)" using c(1) m1(1) by (simp add: copy_body_def)
  then have "y_loop fst copy_body (Some a) (m, q) = Some (m', q')" using c(2) m'(1) by (subst y_loop.simps) simp
  moreover have "ykeeps (fst ` set ks) m m'" using m1(3,4) m'(6) by (auto simp: ykeeps_def)
  ultimately show ?case using m' unfolding v
    by (intro exI [of _ m'] exI [of _ q'] exI [of _ "(ym_brk m, d) # js"]) simp
qed

lemma copy_spec:
  assumes l: "ylist m p xs"
  shows "\<exists>m' q js. y_list_copy p m = Some (m', q) \<and> ylist m' p xs \<and> ylist m' q js \<and> map snd js = map snd xs \<and>
    fst ` set js \<inter> fst ` set xs = {} \<and> ykeeps {} m m'"
proof -
  have "ylist m None []" "p = first_addr xs None" using l by (simp_all add: ylist_def)
  with copy_loop [of m p "[]" xs None "[]"] l show ?thesis by (simp add: y_list_copy_def copy_body_def)
qed

lemma free_spec:
  "holds (ym_cells m) (ycells pr xs None) \<Longrightarrow> distinct (map fst xs) \<Longrightarrow>
   \<exists>m'. y_list_free (first_addr xs None) m = Some m' \<and> ym_brk m' = ym_brk m \<and>
     (\<forall>a. ym_cells m' a = (if a \<in> fst ` set xs then None else ym_cells m a))"
proof (induction xs arbitrary: m pr)
  case Nil
  then show ?case by (simp add: y_list_free.simps)
next
  case (Cons x xs)
  obtain a d where x: "x = (a, d)" by (cases x)
  let ?m = "m\<lparr>ym_cells := (ym_cells m)(a := None)\<rparr>"
  have "holds (ym_cells ?m) (ycells (Some a) xs None)" using Cons.prems unfolding x by simp
  from Cons.IH [OF this] Cons.prems obtain m' where "y_list_free (first_addr xs None) ?m = Some m'" "ym_brk m' = ym_brk m"
    "\<forall>b. ym_cells m' b = (if b \<in> fst ` set xs then None else ym_cells ?m b)" by auto
  then show ?case using Cons.prems unfolding x
    by (auto simp: y_list_free.simps [of "Some a"] y_list_free_1_def)
qed

lemma nth_spec:
  "holds (ym_cells m) (ycells pr xs None) \<Longrightarrow>
   y_list_nth (first_addr xs None) (int i) m = Some (if i < length xs then Some (fst (xs ! i)) else None)"
proof (induction xs arbitrary: pr i)
  case Nil
  then show ?case by (simp add: y_list_nth.simps)
next
  case (Cons x xs)
  obtain a d where x: "x = (a, d)" by (cases x)
  show ?case
  proof (cases i)
    case 0
    then show ?thesis using x by (simp add: y_list_nth.simps)
  next
    case (Suc j)
    have "holds (ym_cells m) (ycells (Some a) xs None)" using Cons.prems unfolding x by simp
    from Cons.IH [OF this, of j] Cons.prems Suc x show ?thesis by (simp add: y_list_nth.simps [of "Some a"])
  qed
qed

text \<open>What the reading loops answer.\<close>

lemma find_loop:
  "holds (ym_cells m) (ycells pr xs None) \<Longrightarrow>
   list_loop (\<lambda>l s. map_option (\<lambda>c. if P (yl_data c) then (Some l, True) else (s, False)) (ym_cells m l)) xs None =
     Some (map_option fst (List.find (\<lambda>x. P (snd x)) xs))"
proof (induction xs arbitrary: pr)
  case (Cons x xs)
  obtain a d where x: "x = (a, d)" by (cases x)
  from Cons.prems have "holds (ym_cells m) (ycells (Some a) xs None)" unfolding x by simp
  from Cons.IH [OF this] Cons.prems show ?case unfolding x by simp
qed simp

lemma foreach_loop:
  "holds (ym_cells m) (ycells pr xs None) \<Longrightarrow>
   list_loop (\<lambda>n u. map_option (\<lambda>c. (fn (yl_data c) u, False)) (ym_cells m n)) xs u = Some (fold fn (map snd xs) u)"
proof (induction xs arbitrary: pr u)
  case (Cons x xs)
  obtain a d where x: "x = (a, d)" by (cases x)
  from Cons.prems have "holds (ym_cells m) (ycells (Some a) xs None)" unfolding x by simp
  from Cons.IH [OF this] Cons.prems show ?case unfolding x by simp
qed simp

lemma length_loop: "list_loop (\<lambda>n retval. Some (retval + 1, False)) xs k = Some (k + int (length xs))"
  by (induction xs arbitrary: k) auto

lemma reads_spec:
  assumes l: "ylist m p xs"
  shows "y_list_length p m = Some (int (length xs))"
    "y_list_find p d m = Some (map_option fst (List.find (\<lambda>x. snd x = d) xs))"
    "y_list_find_custom p k cmp m = Some (map_option fst (List.find (\<lambda>x. cmp (snd x) k = 0) xs))"
    "y_list_foreach p fn u m = Some (fold fn (map snd xs) u)"
    "y_list_empty p = (if xs = [] then 1 else 0)"
    "y_list_singleton p m = Some (if length xs = 1 then 1 else 0)"
    "y_list_nth p (int i) m = Some (if i < length xs then Some (fst (xs ! i)) else None)"
proof -
  have h: "holds (ym_cells m) (ycells None xs None)" and p: "p = first_addr xs None" using l by (simp_all add: ylist_def)
  show "y_list_length p m = Some (int (length xs))"
    unfolding y_list_length_def p y_loop_reads [OF h] by (simp add: length_loop)
  show "y_list_find p d m = Some (map_option fst (List.find (\<lambda>x. snd x = d) xs))"
    unfolding y_list_find_def p y_loop_reads [OF h] by (rule find_loop [OF h])
  show "y_list_find_custom p k cmp m = Some (map_option fst (List.find (\<lambda>x. cmp (snd x) k = 0) xs))"
    unfolding y_list_find_custom_def p y_loop_reads [OF h] by (rule find_loop [OF h])
  show "y_list_foreach p fn u m = Some (fold fn (map snd xs) u)"
    unfolding y_list_foreach_def p y_loop_reads [OF h] by (rule foreach_loop [OF h])
  show "y_list_empty p = (if xs = [] then 1 else 0)" by (simp add: y_list_empty_def p)
  show "y_list_singleton p m = Some (if length xs = 1 then 1 else 0)"
  proof (cases xs)
    case (Cons x ys)
    obtain a e where "x = (a, e)" by (cases x)
    then show ?thesis using h Cons unfolding y_list_singleton_def p by (cases ys) simp_all
  qed (simp add: y_list_singleton_def p)
  show "y_list_nth p (int i) m = Some (if i < length xs then Some (fst (xs ! i)) else None)"
    unfolding p by (rule nth_spec [OF h])
qed

section \<open>Theorems\<close>

text \<open>
  C33. The operations that change a list do to the chain of nodes what they promise for the list
  of its data: append, prepend, concatenation of two lists, removal of the first entry with the
  given data (whose node is freed), copying (new nodes only) and freeing. The links in both
  directions stay right and no other node in memory changes.
\<close>

theorem ylist_operations_refine:
  assumes l: "ylist m p xs"
  shows "(\<exists>m' p' a. y_list_append p d m = Some (m', p') \<and> ylist m' p' (xs @ [(a, d)]) \<and> ykeeps (fst ` set xs) m m') \<and>
    (\<exists>m' p' a. y_list_prepend p d m = Some (m', p') \<and> ylist m' p' ((a, d) # xs) \<and> ykeeps (fst ` set xs) m m') \<and>
    (\<forall>q ys. ylist m q ys \<and> fst ` set xs \<inter> fst ` set ys = {} \<longrightarrow>
      (\<exists>m' p'. y_list_concat p q m = Some (m', p') \<and> ylist m' p' (xs @ ys) \<and> ykeeps (fst ` set (xs @ ys)) m m')) \<and>
    (\<exists>m' p'. y_list_remove p d m = Some (m', p') \<and> ylist m' p' (remove_first (\<lambda>x. snd x = d) xs) \<and>
      ykeeps (fst ` set xs) m m' \<and>
      (\<forall>x. List.find (\<lambda>x. snd x = d) xs = Some x \<longrightarrow> ym_cells m' (fst x) = None)) \<and>
    (\<exists>m' q js. y_list_copy p m = Some (m', q) \<and> ylist m' p xs \<and> ylist m' q js \<and> map snd js = map snd xs \<and>
      fst ` set js \<inter> fst ` set xs = {} \<and> ykeeps {} m m') \<and>
    (\<exists>m'. y_list_free p m = Some m' \<and> (\<forall>a. ym_cells m' a = (if a \<in> fst ` set xs then None else ym_cells m a)))"
proof (intro conjI)
  show "\<exists>m' p' a. y_list_append p d m = Some (m', p') \<and> ylist m' p' (xs @ [(a, d)]) \<and> ykeeps (fst ` set xs) m m'"
    using append_spec [OF l, of d] by blast
  show "\<exists>m' p' a. y_list_prepend p d m = Some (m', p') \<and> ylist m' p' ((a, d) # xs) \<and> ykeeps (fst ` set xs) m m'"
    using prepend_spec [OF l, of d] by blast
  show "\<forall>q ys. ylist m q ys \<and> fst ` set xs \<inter> fst ` set ys = {} \<longrightarrow>
      (\<exists>m' p'. y_list_concat p q m = Some (m', p') \<and> ylist m' p' (xs @ ys) \<and> ykeeps (fst ` set (xs @ ys)) m m')"
  proof (intro allI impI)
    fix q ys assume "ylist m q ys \<and> fst ` set xs \<inter> fst ` set ys = {}"
    then obtain m' where "y_list_concat p q m = Some (m', first_addr (xs @ ys) None)"
      "ylist m' (first_addr (xs @ ys) None) (xs @ ys)" "ykeeps (fst ` set (xs @ ys)) m m'"
      using concat_spec [OF l] by meson
    then show "\<exists>m' p'. y_list_concat p q m = Some (m', p') \<and> ylist m' p' (xs @ ys) \<and> ykeeps (fst ` set (xs @ ys)) m m'"
      by blast
  qed
  show "\<exists>m' p'. y_list_remove p d m = Some (m', p') \<and> ylist m' p' (remove_first (\<lambda>x. snd x = d) xs) \<and>
      ykeeps (fst ` set xs) m m' \<and>
      (\<forall>x. List.find (\<lambda>x. snd x = d) xs = Some x \<longrightarrow> ym_cells m' (fst x) = None)"
    using remove_spec [OF l, of d] by blast
  show "\<exists>m' q js. y_list_copy p m = Some (m', q) \<and> ylist m' p xs \<and> ylist m' q js \<and> map snd js = map snd xs \<and>
      fst ` set js \<inter> fst ` set xs = {} \<and> ykeeps {} m m'" by (rule copy_spec [OF l])
  show "\<exists>m'. y_list_free p m = Some m' \<and> (\<forall>a. ym_cells m' a = (if a \<in> fst ` set xs then None else ym_cells m a))"
    using free_spec [of m None xs] l by (auto simp: ylist_def)
qed

definition two_nodes :: "int ymem" where
  "two_nodes = \<lparr>ym_cells = [0 \<mapsto> \<lparr>yl_next = Some 1, yl_prev = None, yl_data = 3\<rparr>,
     1 \<mapsto> \<lparr>yl_next = None, yl_prev = Some 0, yl_data = 5\<rparr>], ym_brk = 2\<rparr>"

lemma two_nodes_list: "ylist two_nodes (Some 0) [(0, 3), (1, 5)]"
  by (auto simp: ylist_def two_nodes_def ym_ok_def split: if_splits)

theorem ylist_operations_refine_witness:
  "\<exists>m' p' a. y_list_append (Some 0) 7 two_nodes = Some (m', p') \<and> ylist m' p' [(0, 3), (1, 5), (a, 7)]"
  using conjunct1 [OF ylist_operations_refine [OF two_nodes_list, of 7]] by auto

text \<open>
  \<open>y_list_insert_sorted\<close> puts the new entry before the first one that compares greater, so
  behind equal ones: a list that is sorted by a comparison that is total and transitive stays
  sorted, and no entry is lost.
\<close>

theorem ylist_insert_sorted_sorts:
  assumes l: "ylist m p xs" and s: "sorted_wrt (\<lambda>x y. cmp x y \<le> 0) (map snd xs)"
    and total: "\<forall>x y. cmp x y \<le> 0 \<or> cmp y x \<le> 0" and trans: "\<forall>x y z. cmp x y \<le> 0 \<longrightarrow> cmp y z \<le> 0 \<longrightarrow> cmp x z \<le> 0"
  shows "\<exists>m' p' us vs a. y_list_insert_sorted p d cmp m = Some (m', p') \<and> xs = us @ vs \<and>
    ylist m' p' (us @ (a, d) # vs) \<and> sorted_wrt (\<lambda>x y. cmp x y \<le> 0) (map snd (us @ (a, d) # vs)) \<and>
    (\<forall>v \<in> set vs. \<not> cmp (snd v) d \<le> 0) \<and> ykeeps (fst ` set xs) m m'"
proof -
  define us where "us = takeWhile (\<lambda>x. cmp (snd x) d \<le> 0) xs"
  define vs where "vs = dropWhile (\<lambda>x. cmp (snd x) d \<le> 0) xs"
  have xs: "xs = us @ vs" by (simp add: us_def vs_def)
  have u: "\<forall>x \<in> set us. cmp (snd x) d \<le> 0" unfolding us_def by (auto dest: set_takeWhileD)
  have v: "\<forall>x \<in> set vs. \<not> cmp (snd x) d \<le> 0"
  proof (cases vs)
    case (Cons y ys)
    have "\<not> cmp (snd y) d \<le> 0" using hd_dropWhile [of "\<lambda>x. cmp (snd x) d \<le> 0" xs] Cons unfolding vs_def by simp
    then show ?thesis using s trans unfolding xs Cons by (auto simp: sorted_wrt_append)
  qed simp
  then have d: "\<forall>x \<in> set vs. cmp d (snd x) \<le> 0" using total by blast
  have "sorted_wrt (\<lambda>x y. cmp x y \<le> 0) (map snd (us @ (a, d) # vs))" for a
    using s u d unfolding xs by (auto simp: sorted_wrt_append)
  then show ?thesis using insert_sorted_spec [OF l, where cmp = cmp and d = d] xs v unfolding us_def [symmetric] vs_def [symmetric] by blast
qed

theorem ylist_insert_sorted_sorts_witness:
  "\<exists>m' p' us vs a. y_list_insert_sorted (Some 0) 4 (\<lambda>x y. x - y) two_nodes = Some (m', p') \<and>
     [(0, 3), (1, 5)] = us @ vs \<and> ylist m' p' (us @ (a, 4) # vs) \<and>
     sorted_wrt (\<lambda>x y. x - y \<le> 0) (map snd (us @ (a, 4) # vs))"
  using ylist_insert_sorted_sorts [OF two_nodes_list, of "\<lambda>x y. x - y" 4] by fastforce

end
