(* ===== verification/Spec2Isabelle.thy ===== *)
theory Spec2Isabelle
  imports FtLife FtTocRooms JStr Base64 XStream Jid Pool GHash YList
begin

text \<open>
  CenterIM is a text mode client for several instant messaging networks. Its C parts are the
  libraries that speak the networks' protocols: \<open>firetalk/\<close> (IRC and AIM/TOC), \<open>libjabber/\<close>,
  \<open>libgadu/\<close>, \<open>libyahoo2/\<close>, and \<open>connwrap/\<close> below them; C++ parts are the user interface, the
  contact list, the glue to the libraries (\<open>src/\<close>), and \<open>libicq2000/\<close>, \<open>libmsn/\<close>. A protocol
  library keeps the state of a connection and of what the server told it, and reports changes
  to the user interface through callbacks.

  \<^bold>\<open>Conventions of the model.\<close> A C function is a definition of the same name (a leading underscore
  becomes \<open>i_\<close> or is dropped). \<open>None\<close> as the result of an operation is \<open>abort()\<close>, a failed
  \<open>assert\<close>, or undefined behaviour such as reading through a null pointer or past an array; a
  \<open>NULL\<close> string is \<open>None\<close> of type \<open>string option\<close>. Strings are lists of characters without the
  terminating zero. Memory that only its owner points to is a value (a linked list is a list);
  where pointers are shared (XML nodes, \<open>YList\<close>, pools) there is an explicit store from
  addresses to records. Fixed width integers are words where they can wrap or lose bits. What
  the operating system or a library outside the repository answers is an argument.

  \<^bold>\<open>FireTalk\<close> (\<open>firetalk/firetalk.c\<close>, \<open>firetalk-int.h\<close>), theories \<open>FtNicks\<close> (name comparison of the
  protocols), \<open>FtQueue\<close> (\<open>firetalk_queue_t\<close>), \<open>FtTypes\<close> (\<open>struct s_firetalk_handle\<close> is
  \<open>ft_handle\<close>, the table of protocol functions is \<open>ft_protocol\<close>, \<open>ft_state\<close> is the state of the
  module with the log of callbacks), \<open>FtBuddy\<close> and \<open>FtRoster\<close> (buddies and denied users; the
  invariant of these lists), \<open>FtChat\<close> and \<open>FtRooms\<close> (rooms, members, their invariant), \<open>FtConn\<close> and
  \<open>FtLife\<close> (connections from creation to clean-up; the step relation \<open>conn_step\<close> and what holds in
  reachable states), \<open>FtSubcode\<close> and \<open>FtRequest\<close> (CTCP requests and replies, the queues that are
  drained before waiting), \<open>FtFile\<close> (file transfers).

  \<^bold>\<open>libjabber\<close>: \<open>JStr\<close> (\<open>str.c\<close>: escaping and the spool), \<open>Pool\<close> (\<open>pool.c\<close>: memory pools over a store),
  \<open>GHash\<close> (\<open>genhash.c\<close>), \<open>Cells\<close> (stores that hold a set of cells), \<open>XmlNode\<close> (the operations of
  \<open>xmlnode.c\<close> on linked nodes), \<open>XmlTree\<close>, \<open>XmlRead\<close>, \<open>XmlCopy\<close>, \<open>XmlDoc\<close> (the abstract document a
  linked tree represents, and that the operations implement it), \<open>XmlBuild\<close> (\<open>expat.c\<close>),
  \<open>XStream\<close> (\<open>xstream.c\<close>), \<open>Jid\<close> (\<open>jid.c\<close>).

  \<^bold>\<open>Others\<close>: \<open>Base64\<close> (the coders of \<open>libgadu\<close>, \<open>libyahoo2\<close>, \<open>connwrap\<close> and \<open>firetalk\<close>), \<open>YList\<close>
  (\<open>libyahoo2/yahoo_list.c\<close>). \<open>Prelude\<close> holds the functions of the C library that the code uses
  and lemmas on lists that the components share.

  \<^bold>\<open>Interfaces.\<close> The locales state what a component relies on and are interpreted on the model
  where the provider is: equivalences of names and their instances for IRC and TOC
  (\<open>FtNicks\<close>), queues (\<open>FtQueue\<close>), keys of a hash table (\<open>GHash\<close>). The protocol table calls back
  into the session layer, so theorems about sessions that hold for every driver assume that each of
  its functions keeps the invariant (\<open>roster_table_keeps\<close>, \<open>conn_table_keeps\<close>).

  \<^bold>\<open>Bounds and fuel.\<close> No definition uses fuel. Loops over pointers (\<open>y_loop\<close>, the walks of
  \<open>XmlNode\<close>, \<open>append_loop\<close>) are partial functions into \<open>option\<close>; the theorems state that they
  return. The other loops are structural or have a measure.

  \<^bold>\<open>Not modelled.\<close> Sockets and files, the parser expat (vendored), generated tables, the terminal
  user interface and the configuration files. The manifest lists every part with its status.
\<close>

end
